(* ===== verification/Prelude.thy ===== *)
theory Prelude
  imports Main "HOL-Library.Word" "HOL-Library.Monad_Syntax" "HOL-Library.Signed_Division"
begin

unbundle bit_operations_syntax

text \<open>
  Shared vocabulary of the development: the C integer types of \<open>src/types.h\<close> as machine
  words, C strings as byte lists, checked access to C arrays, and the generic facts on words,
  options and lists that the component theories share.

  Conventions used everywhere.
  \<^item> \<open>uint8_t\<close>, \<open>uint16_t\<close>, \<open>uint32_t\<close> are \<open>8 word\<close>, \<open>16 word\<close>, \<open>32 word\<close>. A signed
    \<open>int32_t\<close> that the code only stores, compares with constants or returns is a \<open>32 word\<close>
    read by \<open>sint\<close>; an \<open>int\<close> used as a small counter or coordinate is an HOL \<open>int\<close>.
  \<^item> A result of type \<open>'a option\<close> is \<open>None\<close> exactly when the C code has no defined result: an
    index outside a C array, or a loop that does not end. C results, errors included, are
    \<open>Some\<close> of the value returned.
\<close>

section \<open>Types\<close>

type_synonym u8 = "8 word"
type_synonym u16 = "16 word"
type_synonym u32 = "32 word"
type_synonym i32 = "32 word"

text \<open>Facts on memory and I/O that component proofs rewrite with.\<close>

named_theorems mem_simps \<open>reading memory after writing it\<close>
named_theorems frame_simps \<open>state fields an operation leaves alone\<close>

section \<open>Byte strings\<close>

text \<open>A string literal as the bytes the compiler emits, without and with the terminator.\<close>

definition chars :: "string \<Rightarrow> u8 list" where
  "chars s = map of_char s"

definition cstr :: "string \<Rightarrow> u8 list" where
  "cstr s = chars s @ [0]"

section \<open>Checked array access\<close>

text \<open>
  Reading and writing a C array held as a list. Out of range there is no defined result.
\<close>

definition peek :: "'a list \<Rightarrow> nat \<Rightarrow> 'a option" where
  "peek xs i = (if i < length xs then Some (xs ! i) else None)"

definition poke :: "'a list \<Rightarrow> nat \<Rightarrow> 'a \<Rightarrow> 'a list option" where
  "poke xs i x = (if i < length xs then Some (xs[i := x]) else None)"

lemma peek_Some_iff [simp]: "peek xs i = Some x \<longleftrightarrow> i < length xs \<and> x = xs ! i"
  by (auto simp: peek_def)

lemma peek_None_iff [simp]: "peek xs i = None \<longleftrightarrow> length xs \<le> i"
  by (auto simp: peek_def)

lemma peek_in [simp]: "i < length xs \<Longrightarrow> peek xs i = Some (xs ! i)"
  by (simp add: peek_def)

lemma peek_out [simp]: "length xs \<le> i \<Longrightarrow> peek xs i = None"
  by simp

lemma poke_in [simp]: "i < length xs \<Longrightarrow> poke xs i x = Some (xs[i := x])"
  by (simp add: poke_def)

lemma poke_out [simp]: "length xs \<le> i \<Longrightarrow> poke xs i x = None"
  by (simp add: poke_def)

lemma poke_Some_iff: "poke xs i x = Some ys \<longleftrightarrow> i < length xs \<and> ys = xs[i := x]"
  by (auto simp: poke_def)

lemma length_poke: "poke xs i x = Some ys \<Longrightarrow> length ys = length xs"
  by (auto simp: poke_def split: if_splits)

lemma peek_code [code]: "peek xs i = (case drop i xs of [] \<Rightarrow> None | x # _ \<Rightarrow> Some x)"
  by (cases "i < length xs") (auto simp: peek_def Cons_nth_drop_Suc [symmetric])

text \<open>A counted loop whose body may have no defined result.\<close>

fun loop_over :: "'a list \<Rightarrow> ('a \<Rightarrow> 's \<Rightarrow> 's option) \<Rightarrow> 's \<Rightarrow> 's option" where
  "loop_over [] body s = Some s"
| "loop_over (x # xs) body s = do { s \<leftarrow> body x s; loop_over xs body s }"

text \<open>A loop whose every round succeeds and keeps an invariant succeeds and keeps it.\<close>

lemma loop_over_invariant:
  assumes "I s" and "\<And>x s. x \<in> set xs \<Longrightarrow> I s \<Longrightarrow> \<exists>t. body x s = Some t \<and> I t"
  shows "\<exists>t. loop_over xs body s = Some t \<and> I t"
  using assms
proof (induction xs arbitrary: s)
  case Nil
  then show ?case by simp
next
  case (Cons x xs)
  from Cons.prems(2) [of x s] Cons.prems(1) obtain t where t: "body x s = Some t" "I t" by auto
  from Cons.IH [OF t(2)] Cons.prems(2) show ?case by (simp add: t(1))
qed

lemma loop_over_keeps:
  assumes "loop_over xs body s = Some t" and "I s"
    and "\<And>x s t. x \<in> set xs \<Longrightarrow> I s \<Longrightarrow> body x s = Some t \<Longrightarrow> I t"
  shows "I t"
  using assms
proof (induction xs arbitrary: s)
  case (Cons x xs)
  then obtain s1 where "body x s = Some s1" "loop_over xs body s1 = Some t"
    by (auto simp: bind_eq_Some_conv)
  with Cons show ?case by (meson list.set_intros)
qed simp

lemma loop_over_append:
  "loop_over (xs @ ys) body s = loop_over xs body s \<bind> loop_over ys body"
proof (induction xs arbitrary: s)
  case (Cons x xs)
  then show ?case by (cases "body x s") simp_all
qed simp

section \<open>Words\<close>

lemma word_induct_down [case_names zero step]:
  fixes n :: u32
  assumes "P 0" and "\<And>n. n \<noteq> 0 \<Longrightarrow> P (n - 1) \<Longrightarrow> P n"
  shows "P n"
proof (induction "unat n" arbitrary: n)
  case 0
  then have "n = 0" by (simp add: unat_eq_zero)
  with assms(1) show ?case by simp
next
  case (Suc k)
  then have nz: "n \<noteq> 0" by auto
  then have "unat (n - 1) = k" using Suc.hyps(2) by (simp add: unat_minus_one)
  then have "P (n - 1)" using Suc.hyps(1) by simp
  with nz show ?case by (rule assms(2))
qed

lemma unat_pred: "n \<noteq> 0 \<Longrightarrow> unat (n :: 'a::len word) = Suc (unat (n - 1))"
  using unat_gt_0 [of n] by (simp add: unat_minus_one)

lemma sint_eq_iff [simp]: "sint (a :: 'a::len word) = sint b \<longleftrightarrow> a = b"
  by (auto intro: signed_word_eqI)

lemma sint_eq_0_iff [simp]: "sint (a :: 'a::len word) = 0 \<longleftrightarrow> a = 0"
  using sint_eq_iff [of a 0] by simp

lemma unat_of_nat_small: "n < 4294967296 \<Longrightarrow> unat (of_nat n :: u32) = n"
  by (simp add: unat_of_nat)

lemma unat_add_small:
  "unat (a :: u32) + unat b < 4294967296 \<Longrightarrow> unat (a + b) = unat a + unat b"
  by (simp add: unat_word_ariths)

lemma unat_sub_small: "unat (b :: u32) \<le> unat a \<Longrightarrow> unat (a - b) = unat a - unat b"
  by (simp add: unat_sub word_le_nat_alt)

lemma unat_mult_small:
  "unat (a :: u32) * unat b < 4294967296 \<Longrightarrow> unat (a * b) = unat a * unat b"
  by (simp add: unat_word_ariths)

lemma unat_lt_32: "unat (x :: u32) < 4294967296"
  using unsigned_less [of x] by simp

lemma unat_minus_1 [simp]: "unat (-1 :: u32) = 4294967295"
  by (simp add: unsigned_minus_1_eq_mask mask_eq_exp_minus_1)

lemma unat_lt_8: "unat (x :: u8) < 256"
  using unsigned_less [of x] by simp

lemma add_of_nat_inj:
  "a < 4294967296 \<Longrightarrow> b < 4294967296 \<Longrightarrow>
   (base :: u32) + of_nat a = base + of_nat b \<longleftrightarrow> a = b"
  by (metis add_left_cancel unat_of_nat_small)

lemmas unat_small_simps =
  unat_of_nat_small unat_add_small unat_sub_small unat_mult_small

text \<open>C division and remainder agree with \<open>div\<close> and \<open>mod\<close> on non-negative values.\<close>

lemma sdiv_nonneg [simp]: "0 \<le> a \<Longrightarrow> 0 < b \<Longrightarrow> (a :: int) sdiv b = a div b"
  by (auto simp: signed_divide_int_def sgn_if)

lemma smod_nonneg [simp]: "0 \<le> a \<Longrightarrow> 0 < b \<Longrightarrow> (a :: int) smod b = a mod b"
  by (auto simp: signed_modulo_int_def sgn_if)

end
