(* ===== verification/Machine.thy ===== *)
theory Machine
  imports Prelude
begin

text \<open>
  The hardware the kernel runs on: the flat 32-bit address space as a function from addresses
  to bytes, little-endian 32-bit accesses, and the port I/O of \<open>src/lib.h\<close> (\<open>inb\<close>, \<open>outb\<close>).
  The devices behind the ports are not part of the repository: what a port read returns is a
  parameter of the state, a function of the port traffic so far.

  \<open>copy_block\<close> is the reference meaning of a block copy; \<open>MemLib\<close> proves that the assembly
  routines of \<open>src/lib.c\<close> implement it.
\<close>

section \<open>Memory\<close>

type_synonym mem = "u32 \<Rightarrow> u8"

text \<open>\<open>in_range x a n\<close>: the address \<open>x\<close> is one of the \<open>n\<close> addresses from \<open>a\<close> on.\<close>

definition in_range :: "u32 \<Rightarrow> u32 \<Rightarrow> nat \<Rightarrow> bool" where
  "in_range x a n \<longleftrightarrow> unat (x - a) < n"

definition load32 :: "mem \<Rightarrow> u32 \<Rightarrow> u32" where
  "load32 m a =
     ucast (m a) OR push_bit 8 (ucast (m (a + 1)))
       OR push_bit 16 (ucast (m (a + 2))) OR push_bit 24 (ucast (m (a + 3)))"

definition store32 :: "mem \<Rightarrow> u32 \<Rightarrow> u32 \<Rightarrow> mem" where
  "store32 m a v =
     m(a := ucast v, a + 1 := ucast (drop_bit 8 v),
       a + 2 := ucast (drop_bit 16 v), a + 3 := ucast (drop_bit 24 v))"

definition load_bytes :: "mem \<Rightarrow> u32 \<Rightarrow> nat \<Rightarrow> u8 list" where
  "load_bytes m a n = map (\<lambda>i. m (a + of_nat i)) [0..<n]"

definition store_bytes :: "mem \<Rightarrow> u32 \<Rightarrow> u8 list \<Rightarrow> mem" where
  "store_bytes m a bs = (\<lambda>x. if in_range x a (length bs) then bs ! unat (x - a) else m x)"

definition copy_block :: "mem \<Rightarrow> u32 \<Rightarrow> u32 \<Rightarrow> nat \<Rightarrow> mem" where
  "copy_block m dst src n = (\<lambda>x. if in_range x dst n then m (src + (x - dst)) else m x)"

definition fill_block :: "mem \<Rightarrow> u32 \<Rightarrow> u8 \<Rightarrow> nat \<Rightarrow> mem" where
  "fill_block m dst c n = (\<lambda>x. if in_range x dst n then c else m x)"

section \<open>Ports\<close>

datatype io_event = Out u8 u16 | In u16

record hw_state =
  mem :: mem
  io_log :: "io_event list"
  io_dev :: "io_event list \<Rightarrow> u16 \<Rightarrow> u8"

text \<open>
  \<open>outb (data, port)\<close> and \<open>inb(port)\<close> of \<open>src/lib.h\<close>. A read is an event too: reading a
  device register can change it. The newest event is the last of the log.
\<close>

definition outb :: "u8 \<Rightarrow> u16 \<Rightarrow> 'a hw_state_scheme \<Rightarrow> 'a hw_state_scheme" where
  "outb data port s = s\<lparr>io_log := io_log s @ [Out data port]\<rparr>"

definition inb :: "u16 \<Rightarrow> 'a hw_state_scheme \<Rightarrow> u8 \<times> 'a hw_state_scheme" where
  "inb port s = (io_dev s (io_log s) port, s\<lparr>io_log := io_log s @ [In port]\<rparr>)"

section \<open>Facts on addresses\<close>

lemma in_range_base [simp]: "in_range a a n \<longleftrightarrow> 0 < n"
  by (simp add: in_range_def)

lemma in_range_zero [simp]: "\<not> in_range x a 0"
  by (simp add: in_range_def)

lemma in_range_mono: "in_range x a n \<Longrightarrow> n \<le> k \<Longrightarrow> in_range x a k"
  by (simp add: in_range_def)

lemma in_range_offset: "i < n \<Longrightarrow> i < 4294967296 \<Longrightarrow> in_range (a + of_nat i) a n"
  by (simp add: in_range_def unat_of_nat_small)

lemma unat_sub_less_iff:
  fixes d :: u32
  assumes "k + j \<le> 4294967296" and "k < 4294967296"
  shows "unat (d - of_nat k) < j \<longleftrightarrow> k \<le> unat d \<and> unat d < k + j"
  using assms unat_lt_32 [of d] by (auto simp: unat_sub_if' unat_of_nat)

lemma in_range_shift:
  assumes "k + j \<le> 4294967296" and "k < 4294967296"
  shows "in_range x (a + of_nat k) j \<longleftrightarrow> k \<le> unat (x - a) \<and> unat (x - a) < k + j"
proof -
  have "x - (a + of_nat k) = (x - a) - of_nat k" by (simp add: algebra_simps)
  with unat_sub_less_iff [OF assms, of "x - a"] show ?thesis
    by (simp only: in_range_def)
qed

lemma unat_eq_of_nat: "n < 4294967296 \<Longrightarrow> unat (w :: u32) = n \<longleftrightarrow> w = of_nat n"
  by (auto simp: unat_of_nat_small)

lemma in_range_Suc:
  assumes "n < 4294967296"
  shows "in_range x a (Suc n) \<longleftrightarrow> in_range x a n \<or> x = a + of_nat n"
proof -
  have "x = a + of_nat n \<longleftrightarrow> x - a = of_nat n" by (auto simp: algebra_simps)
  with unat_eq_of_nat [OF assms, of "x - a"] show ?thesis
    by (simp only: in_range_def less_Suc_eq)
qed

text \<open>Adding small constants to an address gives distinct addresses.\<close>

lemma addr_neq [simp]:
  "(a :: u32) + 1 \<noteq> a" "a + 2 \<noteq> a" "a + 3 \<noteq> a" "a + 1 \<noteq> a + 2" "a + 1 \<noteq> a + 3" "a + 2 \<noteq> a + 3"
  "a \<noteq> a + 1" "a \<noteq> a + 2" "a \<noteq> a + 3" "a + 2 \<noteq> a + 1" "a + 3 \<noteq> a + 1" "a + 3 \<noteq> a + 2"
  by simp_all

section \<open>Loads after stores\<close>

lemma byte_join32:
  fixes v :: u32
  shows "(ucast (ucast v :: u8) OR push_bit 8 (ucast (ucast (drop_bit 8 v) :: u8))
       OR push_bit 16 (ucast (ucast (drop_bit 16 v) :: u8))
       OR push_bit 24 (ucast (ucast (drop_bit 24 v) :: u8)) :: u32) = v" (is "?l = v")
proof (rule bit_word_eqI)
  fix n
  assume "n < LENGTH(32)"
  then consider "n < 8" | "8 \<le> n" "n < 16" | "16 \<le> n" "n < 24" | "24 \<le> n" "n < 32" by fastforce
  then show "bit ?l n = bit v n"
    by cases (simp_all add: bit_simps less_diff_conv2)
qed

lemma load32_store32 [mem_simps, simp]: "load32 (store32 m a v) a = v"
  unfolding load32_def store32_def using byte_join32 [of v] by simp

lemma store32_other: "\<not> in_range x a 4 \<Longrightarrow> store32 m a v x = m x"
  using in_range_offset [of 1 4 a] in_range_offset [of 2 4 a] in_range_offset [of 3 4 a]
  by (auto simp: store32_def)

lemma load32_cong:
  assumes "m a = m' a" "m (a + 1) = m' (a + 1)" "m (a + 2) = m' (a + 2)" "m (a + 3) = m' (a + 3)"
  shows "load32 m a = load32 m' a"
  using assms by (simp add: load32_def)

lemma load32_store32_other [mem_simps]:
  assumes "4 \<le> unat (b - a)" "4 \<le> unat (a - b)"
  shows "load32 (store32 m a v) b = load32 m b"
proof -
  have far: "\<not> in_range (b + of_nat i) a 4" if i: "i < 4" for i
  proof
    assume h: "in_range (b + of_nat i) a 4"
    have eq: "b + of_nat i - a = of_nat i - (a - b)" by (simp add: algebra_simps)
    from i assms(2) have "unat (of_nat i - (a - b)) = i + 4294967296 - unat (a - b)"
      by (auto simp: unat_sub_if' unat_of_nat)
    moreover have "unat (a - b) + unat (b - a) = 4294967296"
      using assms unat_lt_32 [of a] unat_lt_32 [of b]
      by (auto simp: unat_sub_if' split: if_splits)
    ultimately show False using h assms(1) by (simp add: in_range_def eq)
  qed
  show ?thesis
    by (rule load32_cong)
      (use far [of 0] far [of 1] far [of 2] far [of 3] in \<open>simp_all add: store32_other\<close>)
qed

lemma bit_u8_high: "8 \<le> n \<Longrightarrow> \<not> bit (w :: u8) n"
  using bit_imp_le_length [of w n] by auto

text \<open>Splitting the word loaded gives back the four bytes.\<close>

lemma bytes_of_load32:
  "ucast (load32 m a) = m a"
  "ucast (drop_bit 8 (load32 m a)) = m (a + 1)"
  "ucast (drop_bit 16 (load32 m a)) = m (a + 2)"
  "ucast (drop_bit 24 (load32 m a)) = m (a + 3)"
  by (rule bit_word_eqI, simp add: load32_def bit_simps bit_u8_high less_diff_conv2)+

section \<open>Regions at offsets from a base\<close>

text \<open>
  Structures in memory are accessed at offsets from a base address. For offsets below
  \<open>2 ^ 32\<close> membership in a region is a statement on naturals.
\<close>

lemma in_range_of_nat:
  assumes "q < 4294967296" and "k < 4294967296" and "k + n \<le> 4294967296"
  shows "in_range (b + of_nat q) (b + of_nat k) n \<longleftrightarrow> k \<le> q \<and> q < k + n"
  using in_range_shift [OF assms(3,2), of "b + of_nat q" b] assms(1)
  by (simp add: unat_of_nat_small)

lemma store32_off:
  assumes "q < 4294967296" and "k + 4 \<le> 4294967296" and "q < k \<or> k + 4 \<le> q"
  shows "store32 m (b + of_nat k) v (b + of_nat q) = m (b + of_nat q)"
  using in_range_of_nat [of q k 4 b] assms by (intro store32_other) auto

lemma store_bytes_off:
  assumes "q < 4294967296" and "k + length bs \<le> 4294967296" and "k < 4294967296"
  shows "store_bytes m (b + of_nat k) bs (b + of_nat q)
    = (if k \<le> q \<and> q < k + length bs then bs ! (q - k) else m (b + of_nat q))"
proof -
  have "unat (b + of_nat q - (b + of_nat k) :: u32) = q - k" if "k \<le> q"
    using that assms by (simp add: unat_sub_small unat_of_nat_small)
  then show ?thesis
    using in_range_of_nat [of q k "length bs" b] assms by (auto simp: store_bytes_def)
qed

lemma load32_cong_off:
  assumes "\<And>i. i < 4 \<Longrightarrow> m (b + of_nat (k + i)) = m' (b + of_nat (k + i))"
  shows "load32 m (b + of_nat k) = load32 m' (b + of_nat k)"
  by (rule load32_cong)
    (use assms [of 0] assms [of 1] assms [of 2] assms [of 3] in
      \<open>simp_all add: algebra_simps\<close>)

lemma load_bytes_cong_off:
  assumes "\<And>i. i < n \<Longrightarrow> m (b + of_nat (k + i)) = m' (b + of_nat (k + i))"
  shows "load_bytes m (b + of_nat k) n = load_bytes m' (b + of_nat k) n"
  using assms by (simp add: load_bytes_def algebra_simps)

lemma length_load_bytes [simp]: "length (load_bytes m a n) = n"
  by (simp add: load_bytes_def)

lemma nth_load_bytes [simp]: "i < n \<Longrightarrow> load_bytes m a n ! i = m (a + of_nat i)"
  by (simp add: load_bytes_def)

end
