(* ===== verification/MemLib.thy ===== *)
theory MemLib
  imports Machine
begin

text \<open>
  The block routines of \<open>src/lib.c\<close>: \<open>memset\<close>, \<open>memset_word\<close>, \<open>memset_dword\<close>, \<open>memcpy\<close>
  and \<open>memmove\<close>. They are inline assembly; each label of the source is a function whose
  arguments are the registers it works on, and \<open>rep\<close> is a recursion on the count register.
  The theorems show that they implement \<open>fill_block\<close> and \<open>copy_block\<close>, and for which
  overlaps.
\<close>

section \<open>String instructions\<close>

text \<open>\<open>rep movsl\<close> and \<open>rep stosl\<close> with the direction flag clear.\<close>

fun rep_movsl :: "nat \<Rightarrow> u32 \<Rightarrow> u32 \<Rightarrow> mem \<Rightarrow> u32 \<times> u32 \<times> mem" where
  "rep_movsl 0 edi esi m = (edi, esi, m)"
| "rep_movsl (Suc n) edi esi m = rep_movsl n (edi + 4) (esi + 4) (store32 m edi (load32 m esi))"

fun rep_stosl :: "nat \<Rightarrow> u32 \<Rightarrow> u32 \<Rightarrow> mem \<Rightarrow> u32 \<times> mem" where
  "rep_stosl 0 edi eax m = (edi, m)"
| "rep_stosl (Suc n) edi eax m = rep_stosl n (edi + 4) eax (store32 m edi eax)"

fun rep_stosw :: "nat \<Rightarrow> u32 \<Rightarrow> u16 \<Rightarrow> mem \<Rightarrow> mem" where
  "rep_stosw 0 edi ax m = m"
| "rep_stosw (Suc n) edi ax m =
     rep_stosw n (edi + 2) ax (m(edi := ucast ax, edi + 1 := ucast (drop_bit 8 ax)))"

text \<open>\<open>rep movsb\<close> forwards, and backwards after \<open>std\<close>.\<close>

fun rep_movsb :: "nat \<Rightarrow> u32 \<Rightarrow> u32 \<Rightarrow> mem \<Rightarrow> mem" where
  "rep_movsb 0 edi esi m = m"
| "rep_movsb (Suc n) edi esi m = rep_movsb n (edi + 1) (esi + 1) (m(edi := m esi))"

fun rep_movsb_back :: "nat \<Rightarrow> u32 \<Rightarrow> u32 \<Rightarrow> mem \<Rightarrow> mem" where
  "rep_movsb_back 0 edi esi m = m"
| "rep_movsb_back (Suc n) edi esi m = rep_movsb_back n (edi - 1) (esi - 1) (m(edi := m esi))"

section \<open>memcpy\<close>

text \<open>Label \<open>.memcpy_bottom\<close>: the last one to three bytes.\<close>

function memcpy_bottom :: "u32 \<Rightarrow> u32 \<Rightarrow> u32 \<Rightarrow> mem \<Rightarrow> mem" where
  "memcpy_bottom edx edi esi m =
     (if edx = 0 then m else memcpy_bottom (edx - 1) (edi + 1) (esi + 1) (m(edi := m esi)))"
  by pat_completeness auto
termination
  by (relation "measure (\<lambda>(edx, _). unat edx)") (auto simp: measure_unat)

text \<open>Label \<open>.memcpy_aligned\<close>: doublewords while there are four bytes left.\<close>

definition memcpy_aligned :: "u32 \<Rightarrow> u32 \<Rightarrow> u32 \<Rightarrow> mem \<Rightarrow> mem" where
  "memcpy_aligned ecx edi esi m =
     (let edx = ecx AND 3;
          (edi', esi', m') = rep_movsl (unat (drop_bit 2 ecx)) edi esi m
      in memcpy_bottom edx edi' esi' m')"

text \<open>Label \<open>.memcpy_top\<close>: single bytes until the destination is aligned.\<close>

function memcpy_top :: "u32 \<Rightarrow> u32 \<Rightarrow> u32 \<Rightarrow> mem \<Rightarrow> mem" where
  "memcpy_top ecx edi esi m =
     (if ecx = 0 then m
      else if edi AND 3 = 0 then memcpy_aligned ecx edi esi m
      else memcpy_top (ecx - 1) (edi + 1) (esi + 1) (m(edi := m esi)))"
  by pat_completeness auto
termination
  by (relation "measure (\<lambda>(ecx, _). unat ecx)") (auto simp: measure_unat)

definition memcpy :: "u32 \<Rightarrow> u32 \<Rightarrow> u32 \<Rightarrow> mem \<Rightarrow> mem" where
  "memcpy dest src n m = memcpy_top n dest src m"

section \<open>memset\<close>

function memset_bottom :: "u32 \<Rightarrow> u32 \<Rightarrow> u32 \<Rightarrow> mem \<Rightarrow> mem" where
  "memset_bottom edx edi eax m =
     (if edx = 0 then m else memset_bottom (edx - 1) (edi + 1) eax (m(edi := ucast eax)))"
  by pat_completeness auto
termination
  by (relation "measure (\<lambda>(edx, _). unat edx)") (auto simp: measure_unat)

definition memset_aligned :: "u32 \<Rightarrow> u32 \<Rightarrow> u32 \<Rightarrow> mem \<Rightarrow> mem" where
  "memset_aligned ecx edi eax m =
     (let edx = ecx AND 3;
          (edi', m') = rep_stosl (unat (drop_bit 2 ecx)) edi eax m
      in memset_bottom edx edi' eax m')"

function memset_top :: "u32 \<Rightarrow> u32 \<Rightarrow> u32 \<Rightarrow> mem \<Rightarrow> mem" where
  "memset_top ecx edi eax m =
     (if ecx = 0 then m
      else if edi AND 3 = 0 then memset_aligned ecx edi eax m
      else memset_top (ecx - 1) (edi + 1) eax (m(edi := ucast eax)))"
  by pat_completeness auto
termination
  by (relation "measure (\<lambda>(ecx, _). unat ecx)") (auto simp: measure_unat)

text \<open>\<open>c &= 0xFF\<close>, then the byte four times over in \<open>eax\<close>.\<close>

definition memset :: "u32 \<Rightarrow> u32 \<Rightarrow> u32 \<Rightarrow> mem \<Rightarrow> mem" where
  "memset s c n m =
     (let c = c AND 255;
          eax = push_bit 24 c OR push_bit 16 c OR push_bit 8 c OR c
      in memset_top n s eax m)"

definition memset_word :: "u32 \<Rightarrow> u32 \<Rightarrow> u32 \<Rightarrow> mem \<Rightarrow> mem" where
  "memset_word s c n m = rep_stosw (unat n) s (ucast c) m"

definition memset_dword :: "u32 \<Rightarrow> u32 \<Rightarrow> u32 \<Rightarrow> mem \<Rightarrow> mem" where
  "memset_dword s c n m = snd (rep_stosl (unat n) s c m)"

section \<open>memmove\<close>

text \<open>
  \<open>cmp %edi, %esi; jae\<close>: forwards when the source is not below the destination, else
  backwards from the last byte. The second component is the direction flag the routine leaves
  behind: after \<open>std\<close> no \<open>cld\<close> follows.
\<close>

definition memmove :: "u32 \<Rightarrow> u32 \<Rightarrow> u32 \<Rightarrow> mem \<Rightarrow> mem \<times> bool" where
  "memmove dest src n m =
     (if dest \<le> src then (rep_movsb (unat n) dest src m, False)
      else (rep_movsb_back (unat n) (dest + n - 1) (src + n - 1) m, True))"

declare memcpy_bottom.simps [simp del] memcpy_top.simps [simp del]
  memset_bottom.simps [simp del] memset_top.simps [simp del]

section \<open>Block copies compose\<close>

text \<open>
  Copying upwards is safe when the destination does not start inside the source, seen
  cyclically: the distance from source to destination is at least the length.
\<close>

definition copy_ok :: "u32 \<Rightarrow> u32 \<Rightarrow> nat \<Rightarrow> bool" where
  "copy_ok dst src n \<longleftrightarrow> dst = src \<or> n \<le> unat (dst - src)"

lemma copy_ok_mono: "copy_ok dst src n \<Longrightarrow> k \<le> n \<Longrightarrow> copy_ok dst src k"
  by (auto simp: copy_ok_def)

lemma copy_ok_shift [simp]: "copy_ok (dst + a) (src + a) n \<longleftrightarrow> copy_ok dst src n"
  by (auto simp: copy_ok_def algebra_simps)

lemma copy_block_0 [simp]: "copy_block m dst src 0 = m"
  by (auto simp: copy_block_def)

lemma copy_block_1: "m(dst := m src) = copy_block m dst src (Suc 0)"
  by (auto simp: copy_block_def fun_eq_iff in_range_def unat_eq_zero)

lemma in_range_4: "in_range x a 4 \<longleftrightarrow> x = a \<or> x = a + 1 \<or> x = a + 2 \<or> x = a + 3"
proof -
  have "in_range x a (Suc (Suc (Suc (Suc 0)))) \<longleftrightarrow> x = a \<or> x = a + 1 \<or> x = a + 2 \<or> x = a + 3"
    by (simp only: in_range_Suc) (simp add: disj_ac add.commute)
  moreover have "Suc (Suc (Suc (Suc 0))) = 4" by simp
  ultimately show ?thesis by (simp only:)
qed

lemma copy_block_4: "store32 m dst (load32 m src) = copy_block m dst src 4"
  by (rule ext, rule sym) (auto simp: copy_block_def in_range_4 store32_def bytes_of_load32)

lemma unat_sub_ge:
  fixes w e :: u32
  assumes "e = 0 \<or> k + j \<le> unat e" and "k \<le> unat w" and "unat w < k + j"
  shows "k \<le> unat (w - e)"
  using assms unat_lt_32 [of e] by (auto simp: unat_sub_if')

lemma copy_ok_source_intact:
  assumes "copy_ok dst src (k + j)" and "k \<le> unat (x - dst)" and "unat (x - dst) < k + j"
  shows "\<not> in_range (src + (x - dst)) dst k"
proof -
  have eq: "src + (x - dst) - dst = (x - dst) - (dst - src)" by (simp add: algebra_simps)
  have "k \<le> unat ((x - dst) - (dst - src))"
    by (rule unat_sub_ge [OF _ assms(2,3)]) (use assms(1) in \<open>simp add: copy_ok_def\<close>)
  then show ?thesis unfolding in_range_def eq by simp
qed

lemma copy_block_append:
  assumes "copy_ok dst src (k + j)" and "k + j \<le> 4294967296" and "k < 4294967296"
  shows "copy_block (copy_block m dst src k) (dst + of_nat k) (src + of_nat k) j
       = copy_block m dst src (k + j)" (is "?l = ?r")
proof
  fix x
  let ?d = "unat (x - dst)"
  have addr: "src + of_nat k + (x - (dst + of_nat k)) = src + (x - dst)"
    by (simp add: algebra_simps)
  show "?l x = ?r x"
  proof (cases "k \<le> ?d \<and> ?d < k + j")
    case True
    with copy_ok_source_intact [OF assms(1)]
    have "\<not> in_range (src + (x - dst)) dst k" by blast
    with True assms show ?thesis
      by (simp add: copy_block_def [of _ "dst + of_nat k"] in_range_shift addr)
        (simp add: copy_block_def in_range_def)
  next
    case False
    with assms show ?thesis
      by (simp add: copy_block_def [of _ "dst + of_nat k"] in_range_shift)
        (auto simp: copy_block_def in_range_def)
  qed
qed

lemma copy_block_step:
  assumes "copy_ok dst src (Suc j)" and "j < 4294967296"
  shows "copy_block (m(dst := m src)) (dst + 1) (src + 1) j = copy_block m dst src (Suc j)"
  using copy_block_append [of dst src 1 j m] assms by (simp add: copy_block_1)

lemma copy_block_step4:
  assumes "copy_ok dst src (j + 4)" and "j + 4 \<le> 4294967296"
  shows "copy_block (store32 m dst (load32 m src)) (dst + 4) (src + 4) j
       = copy_block m dst src (j + 4)"
  using copy_block_append [of dst src 4 j m] assms by (simp add: copy_block_4 add.commute)

section \<open>memcpy is a block copy\<close>

lemma memcpy_bottom_copy:
  "copy_ok edi esi (unat edx) \<Longrightarrow> memcpy_bottom edx edi esi m = copy_block m edi esi (unat edx)"
proof (induction edx edi esi m rule: memcpy_bottom.induct)
  case (1 edx edi esi m)
  show ?case
  proof (cases "edx = 0")
    case True
    then show ?thesis by (simp add: memcpy_bottom.simps)
  next
    case False
    then have n: "unat edx = Suc (unat (edx - 1))" by (simp add: unat_pred)
    with 1(2) have "copy_ok edi esi (unat (edx - 1))" by (simp add: copy_ok_mono)
    with 1(1) False have "memcpy_bottom (edx - 1) (edi + 1) (esi + 1) (m(edi := m esi))
        = copy_block (m(edi := m esi)) (edi + 1) (esi + 1) (unat (edx - 1))"
      by (simp add: fun_upd_def)
    with False n 1(2) show ?thesis
      by (simp add: memcpy_bottom.simps [of edx] copy_block_step unat_lt_32)
  qed
qed

lemma rep_movsl_copy:
  "copy_ok edi esi (4 * n) \<Longrightarrow> 4 * n \<le> 4294967296 \<Longrightarrow>
   rep_movsl n edi esi m
     = (edi + of_nat (4 * n), esi + of_nat (4 * n), copy_block m edi esi (4 * n))"
proof (induction n arbitrary: edi esi m)
  case 0
  then show ?case by simp
next
  case (Suc n)
  then have "copy_ok (edi + 4) (esi + 4) (4 * n)" by (auto intro: copy_ok_mono)
  with Suc show ?case
    by (simp add: copy_block_step4 algebra_simps)
qed

lemma unat_and_3: "unat (n AND 3 :: u32) = unat n mod 4"
proof -
  have "n AND 3 = take_bit 2 n" by (simp add: take_bit_eq_mask mask_eq_exp_minus_1)
  then show ?thesis by (simp add: unsigned_take_bit_eq take_bit_eq_mod unat_mod)
qed

lemma unat_shr_2: "unat (drop_bit 2 n :: u32) = unat n div 4"
  by (simp add: unsigned_drop_bit_eq drop_bit_eq_div unat_div)

lemma memcpy_aligned_copy:
  assumes "copy_ok edi esi (unat ecx)"
  shows "memcpy_aligned ecx edi esi m = copy_block m edi esi (unat ecx)"
proof -
  let ?k = "4 * (unat ecx div 4)"
  have k: "?k + unat ecx mod 4 = unat ecx" "?k \<le> unat ecx" by simp_all
  with assms have "copy_ok edi esi ?k" by (blast intro: copy_ok_mono)
  moreover have "copy_ok (edi + of_nat ?k) (esi + of_nat ?k) (unat ecx mod 4)"
    using assms by (auto intro: copy_ok_mono)
  ultimately show ?thesis
    using assms unat_lt_32 [of ecx] copy_block_append [of edi esi ?k "unat ecx mod 4" m] k
    by (simp add: memcpy_aligned_def unat_shr_2 unat_and_3 rep_movsl_copy memcpy_bottom_copy
        del: of_nat_mult)
qed

lemma memcpy_top_copy:
  "copy_ok edi esi (unat ecx) \<Longrightarrow> memcpy_top ecx edi esi m = copy_block m edi esi (unat ecx)"
proof (induction ecx edi esi m rule: memcpy_top.induct)
  case (1 ecx edi esi m)
  show ?case
  proof (cases "ecx = 0 \<or> edi AND 3 = 0")
    case True
    with 1(2) show ?thesis by (auto simp: memcpy_top.simps [of ecx] memcpy_aligned_copy)
  next
    case False
    then have n: "unat ecx = Suc (unat (ecx - 1))" by (simp add: unat_pred)
    with 1(2) have "copy_ok edi esi (unat (ecx - 1))" by (simp add: copy_ok_mono)
    with 1(1) False have "memcpy_top (ecx - 1) (edi + 1) (esi + 1) (m(edi := m esi))
        = copy_block (m(edi := m esi)) (edi + 1) (esi + 1) (unat (ecx - 1))"
      by (simp add: fun_upd_def)
    with False n 1(2) show ?thesis
      by (simp add: memcpy_top.simps [of ecx] copy_block_step unat_lt_32)
  qed
qed

lemma memcpy_copy: "copy_ok dest src (unat n) \<Longrightarrow> memcpy dest src n m = copy_block m dest src (unat n)"
  by (simp add: memcpy_def memcpy_top_copy)

text \<open>
  C35. The assembly \<open>memcpy\<close>, with its alignment prologue, its doubleword copy and its
  epilogue, is a byte-for-byte block copy whenever the destination does not start strictly
  inside the source; in particular for every downward overlap, which \<open>terminal_scroll\<close> uses.
\<close>

theorem memcpy_copy_block:
  assumes "copy_ok dest src (unat n)"
  shows "memcpy dest src n m = copy_block m dest src (unat n)"
  using assms by (rule memcpy_copy)

theorem memcpy_copy_block_witness:
  "copy_ok 753664 753824 (unat (3680 :: u32))
   \<and> memcpy 753664 753824 3680 (\<lambda>a. ucast a) = copy_block (\<lambda>a. ucast a) 753664 753824 3680"
  using memcpy_copy_block [of 753664 753824 3680 "\<lambda>a. ucast a"] by (simp add: copy_ok_def)

section \<open>memset fills a block\<close>

lemma fill_block_0 [simp]: "fill_block m a c 0 = m"
  by (auto simp: fill_block_def)

lemma fill_block_append:
  assumes "k + j \<le> 4294967296" and "k < 4294967296"
  shows "fill_block (fill_block m a c k) (a + of_nat k) c j = fill_block m a c (k + j)"
  using in_range_shift [OF assms] by (auto simp: fill_block_def fun_eq_iff in_range_def)

lemma fill_block_step:
  assumes "j < 4294967296"
  shows "fill_block (m(a := c)) (a + 1) c j = fill_block m a c (Suc j)"
proof -
  have "m(a := c) = fill_block m a c 1"
    by (auto simp: fill_block_def fun_eq_iff in_range_def unat_eq_zero)
  with fill_block_append [of 1 j m a c] assms show ?thesis by simp
qed

lemma memset_bottom_fill:
  "memset_bottom edx edi eax m = fill_block m edi (ucast eax) (unat edx)"
proof (induction edx edi eax m rule: memset_bottom.induct)
  case (1 edx edi eax m)
  then show ?case
    by (subst memset_bottom.simps, cases "edx = 0")
      (simp_all add: fun_upd_def [symmetric] fill_block_step unat_lt_32 unat_pred)
qed

text \<open>A doubleword whose four bytes are all \<open>c\<close>.\<close>

definition repeats :: "u32 \<Rightarrow> u8 \<Rightarrow> bool" where
  "repeats eax c \<longleftrightarrow> ucast eax = c \<and> ucast (drop_bit 8 eax) = c
     \<and> ucast (drop_bit 16 eax) = c \<and> ucast (drop_bit 24 eax) = c"

lemma store32_repeats: "repeats eax c \<Longrightarrow> store32 m a eax = fill_block m a c 4"
  by (rule ext, rule sym) (auto simp: fill_block_def in_range_4 store32_def repeats_def)

lemma rep_stosl_fill:
  "repeats eax c \<Longrightarrow> 4 * n \<le> 4294967296 \<Longrightarrow>
   rep_stosl n edi eax m = (edi + of_nat (4 * n), fill_block m edi c (4 * n))"
proof (induction n arbitrary: edi m)
  case 0
  then show ?case by simp
next
  case (Suc n)
  then show ?case
    using fill_block_append [of 4 "4 * n" m edi c]
    by (simp add: store32_repeats algebra_simps)
qed

lemma memset_aligned_fill:
  assumes "repeats eax c"
  shows "memset_aligned ecx edi eax m = fill_block m edi c (unat ecx)"
proof -
  have "4 * (unat ecx div 4) + unat ecx mod 4 = unat ecx" by simp
  moreover have "ucast eax = c" using assms by (simp add: repeats_def)
  ultimately show ?thesis
    using assms unat_lt_32 [of ecx]
      fill_block_append [of "4 * (unat ecx div 4)" "unat ecx mod 4" m edi c]
    by (simp add: memset_aligned_def unat_shr_2 unat_and_3 rep_stosl_fill memset_bottom_fill
        del: of_nat_mult)
qed

lemma memset_top_fill:
  "repeats eax c \<Longrightarrow> memset_top ecx edi eax m = fill_block m edi c (unat ecx)"
proof (induction ecx edi eax m rule: memset_top.induct)
  case (1 ecx edi eax m)
  moreover from 1(2) have "ucast eax = c" by (simp add: repeats_def)
  ultimately show ?case
    by (cases "ecx = 0 \<or> edi AND 3 = 0")
      (auto simp: memset_top.simps [of ecx] memset_aligned_fill fun_upd_def [symmetric]
        fill_block_step unat_lt_32 unat_pred)
qed

lemma memset_eax_repeats:
  "repeats (push_bit 24 (c AND 255) OR push_bit 16 (c AND 255)
      OR push_bit 8 (c AND 255) OR (c AND 255)) (ucast c)"
proof -
  have 255: "c AND 255 = take_bit 8 c" by (simp add: take_bit_eq_mask mask_eq_exp_minus_1)
  show ?thesis
    unfolding repeats_def 255
    by (intro conjI; rule bit_word_eqI; simp add: bit_simps less_diff_conv2)
qed

lemma memset_fill: "memset s c n m = fill_block m s (ucast c) (unat n)"
  using memset_top_fill [OF memset_eax_repeats] by (simp add: memset_def Let_def)

text \<open>
  The assembly \<open>memset\<close> stores the low byte of its argument in every one of the \<open>n\<close>
  bytes from the destination on and nowhere else, for every destination, alignment and length.
\<close>

theorem memset_fill_block: "memset s c n m = fill_block m s (ucast c) (unat n)"
  by (rule memset_fill)

section \<open>memmove handles every overlap\<close>

lemma rep_movsb_copy:
  "copy_ok edi esi n \<Longrightarrow> n \<le> 4294967296 \<Longrightarrow> rep_movsb n edi esi m = copy_block m edi esi n"
proof (induction n arbitrary: edi esi m)
  case 0
  then show ?case by simp
next
  case (Suc n)
  then have "copy_ok edi esi n" by (simp add: copy_ok_mono)
  with Suc show ?case by (simp add: copy_block_step)
qed

text \<open>Copying downwards is safe when the source does not start inside the destination.\<close>

lemma rep_movsb_back_copy:
  "n \<le> unat (src - dst) \<Longrightarrow>
   rep_movsb_back n (dst + of_nat n - 1) (src + of_nat n - 1) m = copy_block m dst src n"
proof (induction n arbitrary: m)
  case 0
  then show ?case by simp
next
  case (Suc n)
  let ?m = "m(dst + of_nat n := m (src + of_nat n))"
  have n: "n < 4294967296" using Suc.prems unat_lt_32 [of "src - dst"] by simp
  have far: "src + (x - dst) \<noteq> dst + of_nat n" if "unat (x - dst) < n" for x
  proof
    assume "src + (x - dst) = dst + of_nat n"
    then have eq: "x - dst = of_nat n - (src - dst)" by (simp add: algebra_simps)
    have "unat (of_nat n - (src - dst)) = n + 4294967296 - unat (src - dst)"
      using Suc.prems n by (simp add: unat_sub_if' unat_of_nat_small)
    with that eq unat_lt_32 [of "src - dst"] show False by simp
  qed
  have "copy_block ?m dst src n = copy_block m dst src (Suc n)"
    using n far by (auto simp: copy_block_def fun_eq_iff in_range_Suc) (auto simp: in_range_def)
  with Suc show ?case by (simp add: algebra_simps)
qed

text \<open>
  \<open>memmove\<close> copies the block for every overlap of source and destination, as long as
  neither block wraps around the end of the address space; the direction flag is left set
  exactly when it copied backwards.
\<close>

theorem memmove_copy_block:
  assumes "unat dest + unat n \<le> 4294967296" and "unat src + unat n \<le> 4294967296"
  shows "memmove dest src n m = (copy_block m dest src (unat n), src < dest)"
proof (cases "dest \<le> src")
  case True
  then have "copy_ok dest src (unat n)"
    using assms by (auto simp: copy_ok_def unat_sub_if' word_le_nat_alt word_unat_eq_iff)
  with True unat_lt_32 [of n] show ?thesis
    by (simp add: memmove_def rep_movsb_copy not_less)
next
  case False
  then have "unat n \<le> unat (src - dest)"
    using assms by (simp add: unat_sub_if' word_le_nat_alt)
  with rep_movsb_back_copy [of "unat n" src dest m] False show ?thesis
    by (simp add: memmove_def not_le)
qed

theorem memmove_copy_block_witness:
  "fst (memmove 8 4 8 (\<lambda>a. ucast a)) 12 = 8 \<and> snd (memmove 8 4 8 (\<lambda>a. ucast a))"
  using memmove_copy_block [of 8 8 4 "\<lambda>a. ucast a"]
  by (simp add: copy_block_def in_range_def)

end
