(* ===== verification/CString.thy ===== *)
theory CString
  imports Prelude
begin

text \<open>
  The string routines of \<open>src/lib.c\<close>: \<open>strlen\<close>, \<open>strtrimlead\<close>, \<open>strtrimtail\<close>,
  \<open>strchr\<close>, \<open>strncmp\<close>, \<open>strcpy\<close>, \<open>strncpy\<close>, \<open>strrev\<close>, \<open>itoa\<close>, \<open>max\<close>, \<open>min\<close>,
  \<open>log2\<close>. A string argument is the list of the bytes that are accessible from the pointer on,
  a returned pointer is \<open>Null\<close> or an offset into the argument, and each loop is a recursion on
  the loop's index. The theorems are the contracts on terminated strings: length, search, the
  agreement of \<open>strncmp\<close> with equality of prefixes, and \<open>itoa\<close> against positional notation.
\<close>

section \<open>Definitions\<close>

datatype cptr = Null | Off nat

text \<open>\<open>while (s[len] != '\0') len++;\<close>\<close>

function strlen_from :: "u8 list \<Rightarrow> nat \<Rightarrow> nat option" where
  "strlen_from s len =
     (case peek s len of
        None \<Rightarrow> None
      | Some c \<Rightarrow> if c \<noteq> 0 then strlen_from s (len + 1) else Some len)"
  by pat_completeness auto
termination by (relation "measure (\<lambda>(s, len). length s - len)") auto

definition strlen :: "u8 list \<Rightarrow> nat option" where
  "strlen s = strlen_from s 0"

function strtrimlead_from :: "u8 list \<Rightarrow> nat \<Rightarrow> cptr option" where
  "strtrimlead_from s len =
     (case peek s len of
        None \<Rightarrow> None
      | Some c \<Rightarrow>
          if c = 32 then strtrimlead_from s (len + 1)
          else if c = 0 then Some Null
          else Some (Off len))"
  by pat_completeness auto
termination by (relation "measure (\<lambda>(s, len). length s - len)") auto

definition strtrimlead :: "u8 list \<Rightarrow> cptr option" where
  "strtrimlead s = strtrimlead_from s 0"

text \<open>
  \<open>strtrimtail\<close> walks down from the last character. The index is unsigned: going below 0 it
  becomes 4294967295, which is outside every buffer.
\<close>

fun strtrimtail_from :: "u8 list \<Rightarrow> nat \<Rightarrow> cptr option" where
  "strtrimtail_from s len =
     (case peek s len of
        None \<Rightarrow> None
      | Some c \<Rightarrow>
          if c = 32 then (case len of 0 \<Rightarrow> None | Suc k \<Rightarrow> strtrimtail_from s k)
          else if c = 0 then Some Null
          else Some (Off len))"

definition strtrimtail :: "u8 list \<Rightarrow> cptr option" where
  "strtrimtail s =
     (case strlen s of
        None \<Rightarrow> None
      | Some 0 \<Rightarrow> None
      | Some (Suc k) \<Rightarrow> strtrimtail_from s k)"

function strchr_from :: "u8 list \<Rightarrow> u8 \<Rightarrow> nat \<Rightarrow> cptr option" where
  "strchr_from s c len =
     (case peek s len of
        None \<Rightarrow> None
      | Some d \<Rightarrow>
          if d \<noteq> 0 \<and> d \<noteq> c then strchr_from s c (len + 1)
          else if d = 0 \<and> c \<noteq> 0 then Some Null
          else Some (Off len))"
  by pat_completeness auto
termination by (relation "measure (\<lambda>(s, c, len). length s - len)") auto

definition strchr :: "u8 list \<Rightarrow> u8 \<Rightarrow> cptr option" where
  "strchr s c = strchr_from s c 0"

text \<open>\<open>int8_t\<close> is a signed byte: the result is the difference of the signed values.\<close>

function strncmp_from :: "u8 list \<Rightarrow> u8 list \<Rightarrow> nat \<Rightarrow> nat \<Rightarrow> int option" where
  "strncmp_from s1 s2 n i =
     (if i < n then
        (case (peek s1 i, peek s2 i) of
           (Some a, Some b) \<Rightarrow>
             if a \<noteq> b \<or> a = 0 then Some (sint a - sint b) else strncmp_from s1 s2 n (i + 1)
         | _ \<Rightarrow> None)
      else Some 0)"
  by pat_completeness auto
termination by (relation "measure (\<lambda>(s1, s2, n, i). n - i)") auto

definition strncmp :: "u8 list \<Rightarrow> u8 list \<Rightarrow> nat \<Rightarrow> int option" where
  "strncmp s1 s2 n = strncmp_from s1 s2 n 0"

text \<open>\<open>strcpy\<close> and \<open>strncpy\<close> give the destination buffer after the copy.\<close>

function strcpy_from :: "u8 list \<Rightarrow> u8 list \<Rightarrow> nat \<Rightarrow> u8 list option" where
  "strcpy_from dest src i =
     (case peek src i of
        None \<Rightarrow> None
      | Some c \<Rightarrow>
          if c \<noteq> 0 then
            (case poke dest i c of None \<Rightarrow> None | Some dest' \<Rightarrow> strcpy_from dest' src (i + 1))
          else poke dest i 0)"
  by pat_completeness auto
termination by (relation "measure (\<lambda>(dest, src, i). length src - i)") auto

definition strcpy :: "u8 list \<Rightarrow> u8 list \<Rightarrow> u8 list option" where
  "strcpy dest src = strcpy_from dest src 0"

function strncpy_pad :: "u8 list \<Rightarrow> nat \<Rightarrow> nat \<Rightarrow> u8 list option" where
  "strncpy_pad dest n i =
     (if i < n then
        (case poke dest i 0 of None \<Rightarrow> None | Some dest' \<Rightarrow> strncpy_pad dest' n (i + 1))
      else Some dest)"
  by pat_completeness auto
termination by (relation "measure (\<lambda>(dest, n, i). n - i)") auto

function strncpy_from :: "u8 list \<Rightarrow> u8 list \<Rightarrow> nat \<Rightarrow> nat \<Rightarrow> u8 list option" where
  "strncpy_from dest src n i =
     (case peek src i of
        None \<Rightarrow> None
      | Some c \<Rightarrow>
          if c \<noteq> 0 \<and> i < n then
            (case poke dest i c of None \<Rightarrow> None | Some dest' \<Rightarrow> strncpy_from dest' src n (i + 1))
          else strncpy_pad dest n i)"
  by pat_completeness auto
termination by (relation "measure (\<lambda>(dest, src, n, i). n - i)") auto

definition strncpy :: "u8 list \<Rightarrow> u8 list \<Rightarrow> nat \<Rightarrow> u8 list option" where
  "strncpy dest src n = strncpy_from dest src n 0"

text \<open>\<open>strrev\<close>: swap the ends and move inwards while \<open>beg < end\<close>.\<close>

function strrev_loop :: "u8 list \<Rightarrow> int \<Rightarrow> int \<Rightarrow> u8 list" where
  "strrev_loop s beg en =
     (if beg < en then
        strrev_loop (s[nat en := s ! nat beg, nat beg := s ! nat en]) (beg + 1) (en - 1)
      else s)"
  by pat_completeness auto
termination by (relation "measure (\<lambda>(s, beg, en). nat (en - beg))") auto

definition strrev :: "u8 list \<Rightarrow> u8 list option" where
  "strrev s = (case strlen s of None \<Rightarrow> None | Some n \<Rightarrow> Some (strrev_loop s 0 (int n - 1)))"

definition itoa_lookup :: "u8 list" where
  "itoa_lookup = cstr ''0123456789ABCDEFGHIJKLMNOPQRSTUVWXYZ''"

text \<open>
  The digit loop of \<open>itoa\<close>, lowest digit first; \<open>j\<close> is \<open>newbuf - buf\<close>. The radix is
  converted to unsigned by the usual arithmetic conversions; dividing by 0 is undefined. With
  radix 1 the value never shrinks and the loop ends by running off the buffer.
\<close>

function itoa_loop :: "u32 \<Rightarrow> u8 list \<Rightarrow> nat \<Rightarrow> u32 \<Rightarrow> (u8 list \<times> nat) option" where
  "itoa_loop newval buf j radix =
     (if newval > 0 then
        if radix = 0 then None
        else
          (case peek itoa_lookup (unat (newval mod radix)) of
             None \<Rightarrow> None
           | Some d \<Rightarrow>
               (case poke buf j d of
                  None \<Rightarrow> None
                | Some buf' \<Rightarrow> itoa_loop (newval div radix) buf' (j + 1) radix))
      else Some (buf, j))"
  by pat_completeness auto
termination
  by (relation "measure (\<lambda>(v, buf, j, r). length buf - j)")
    (auto simp: poke_Some_iff)

definition itoa :: "u32 \<Rightarrow> u8 list \<Rightarrow> u32 \<Rightarrow> u8 list option" where
  "itoa val buf radix =
     (if val = 0 then do { buf \<leftarrow> poke buf 0 48; poke buf 1 0 }
      else do {
        (buf, j) \<leftarrow> itoa_loop val buf 0 radix;
        buf \<leftarrow> poke buf j 0;
        strrev buf
      })"

text \<open>\<open>max\<close> and \<open>min\<close> on \<open>int32_t\<close>.\<close>

definition c_max :: "i32 \<Rightarrow> i32 \<Rightarrow> i32" where
  "c_max a b = (if sint a \<ge> sint b then a else b)"

definition c_min :: "i32 \<Rightarrow> i32 \<Rightarrow> i32" where
  "c_min a b = (if sint a \<ge> sint b then b else a)"

text \<open>\<open>bsr\<close>: the index of the highest set bit; the result is undefined for 0.\<close>

fun bsr_from :: "u32 \<Rightarrow> nat \<Rightarrow> nat option" where
  "bsr_from x n = (if bit x n then Some n else (case n of 0 \<Rightarrow> None | Suc k \<Rightarrow> bsr_from x k))"

definition c_log2 :: "u32 \<Rightarrow> nat option" where
  "c_log2 x = bsr_from x 31"

declare strlen_from.simps [simp del] strtrimlead_from.simps [simp del]
  strtrimtail_from.simps [simp del] strchr_from.simps [simp del] strncmp_from.simps [simp del]
  strcpy_from.simps [simp del] strncpy_pad.simps [simp del] strncpy_from.simps [simp del]
  strrev_loop.simps [simp del] itoa_loop.simps [simp del] bsr_from.simps [simp del]

section \<open>Search loops\<close>

text \<open>
  The scanning loops all look for the first byte that satisfies a condition;
  \<open>first_index\<close> is what they compute, and one induction covers them.
\<close>

definition c_string :: "u8 list \<Rightarrow> u8 list" where
  "c_string s = takeWhile (\<lambda>c. c \<noteq> 0) s"

definition first_index :: "('a \<Rightarrow> bool) \<Rightarrow> 'a list \<Rightarrow> nat option" where
  "first_index P s = (if \<exists>c\<in>set s. P c then Some (length (takeWhile (\<lambda>c. \<not> P c) s)) else None)"

lemma first_index_Nil [simp]: "first_index P [] = None"
  by (simp add: first_index_def)

lemma first_index_Cons [simp]:
  "first_index P (c # s) = (if P c then Some 0 else map_option Suc (first_index P s))"
  by (simp add: first_index_def)

lemma first_index_Some:
  "first_index P s = Some i \<Longrightarrow> i < length s \<and> P (s ! i) \<and> (\<forall>j<i. \<not> P (s ! j))"
  by (induction s arbitrary: i)
    (auto simp: less_Suc_eq_0_disj nth_Cons' split: if_splits)

lemma strlen_from_first:
  "strlen_from s len = map_option (\<lambda>i. len + i) (first_index (\<lambda>c. c = 0) (drop len s))"
proof (induction s len rule: strlen_from.induct)
  case (1 s len)
  then show ?case
    by (subst strlen_from.simps, cases "len < length s")
      (simp_all add: Cons_nth_drop_Suc [symmetric] option.map_comp comp_def)
qed

lemma strlen_first: "strlen s = first_index (\<lambda>c. c = 0) s"
  by (simp add: strlen_def strlen_from_first option.map_ident)

lemma strlen_c_string:
  "strlen s = (if 0 \<in> set s then Some (length (c_string s)) else None)"
  by (auto simp: strlen_first first_index_def c_string_def)

lemma c_string_terminated [simp]: "0 \<notin> set bs \<Longrightarrow> c_string (bs @ 0 # r) = bs"
proof -
  assume "0 \<notin> set bs"
  then have "\<And>x. x \<in> set bs \<Longrightarrow> x \<noteq> 0" by auto
  then show ?thesis by (simp add: c_string_def)
qed

lemma strlen_terminated [simp]: "0 \<notin> set bs \<Longrightarrow> strlen (bs @ 0 # r) = Some (length bs)"
  by (simp add: strlen_c_string)

lemma strtrimlead_from_first:
  "strtrimlead_from s len =
     map_option (\<lambda>i. if s ! (len + i) = 0 then Null else Off (len + i))
       (first_index (\<lambda>c. c \<noteq> 32) (drop len s))"
proof (induction s len rule: strtrimlead_from.induct)
  case (1 s len)
  show ?case
  proof (cases "len < length s")
    case True
    with 1 show ?thesis
      by (subst strtrimlead_from.simps)
        (simp add: Cons_nth_drop_Suc [symmetric] option.map_comp comp_def cong: if_cong)
  next
    case False
    then show ?thesis by (subst strtrimlead_from.simps) simp
  qed
qed

lemma strchr_from_first:
  "strchr_from s c len =
     map_option (\<lambda>i. if s ! (len + i) = 0 \<and> c \<noteq> 0 then Null else Off (len + i))
       (first_index (\<lambda>d. d = 0 \<or> d = c) (drop len s))"
proof (induction s c len rule: strchr_from.induct)
  case (1 s c len)
  show ?case
  proof (cases "len < length s")
    case True
    with 1 show ?thesis
      by (subst strchr_from.simps)
        (auto simp: Cons_nth_drop_Suc [symmetric] option.map_comp comp_def cong: if_cong)
  next
    case False
    then show ?thesis by (subst strchr_from.simps) simp
  qed
qed

text \<open>
  \<open>strtrimlead\<close> on a terminated string: the suffix without its leading spaces, or \<open>NULL\<close>
  when nothing else is left.
\<close>

lemma strtrimlead_spec:
  assumes "0 \<in> set s"
  shows "strtrimlead s =
    (let k = length (takeWhile (\<lambda>c. c = 32) s) in
     Some (if s ! k = 0 then Null else Off k))"
proof -
  have "\<exists>c\<in>set s. c \<noteq> 32" using assms by (auto intro!: bexI [of _ 0])
  then show ?thesis
    by (simp add: strtrimlead_def strtrimlead_from_first first_index_def Let_def)
qed

lemma strchr_spec:
  assumes "0 \<in> set s" and "c \<noteq> 0"
  shows "strchr s c =
    (let k = length (takeWhile (\<lambda>d. d \<noteq> 0 \<and> d \<noteq> c) s) in
     Some (if s ! k = 0 then Null else Off k))"
proof -
  have "\<exists>d\<in>set s. d = 0 \<or> d = c" using assms by auto
  with assms(2) show ?thesis
    by (simp add: strchr_def strchr_from_first first_index_def Let_def)
qed

section \<open>strncmp\<close>

text \<open>
  On two buffers with at least \<open>n\<close> readable bytes (or a terminator before), \<open>strncmp\<close>
  returns 0 exactly when the two strings agree up to the first terminator or \<open>n\<close> bytes.
\<close>

definition prefix_eq :: "u8 list \<Rightarrow> u8 list \<Rightarrow> nat \<Rightarrow> bool" where
  "prefix_eq s1 s2 n \<longleftrightarrow> take n (c_string s1) = take n (c_string s2)"

lemma strncmp_from_Cons:
  "strncmp_from (a # s1) (b # s2) (Suc n) (Suc i) = strncmp_from s1 s2 n i"
proof (induction s1 s2 n i rule: strncmp_from.induct)
  case (1 s1 s2 n i)
  then show ?case
    by (subst strncmp_from.simps, subst (2) strncmp_from.simps)
      (auto simp: peek_def split: option.splits)
qed

lemma strncmp_Nil [simp]: "strncmp s1 s2 0 = Some 0"
  by (simp add: strncmp_def strncmp_from.simps)

lemma strncmp_Cons [simp]:
  "strncmp (a # s1) (b # s2) (Suc n) =
     (if a \<noteq> b \<or> a = 0 then Some (sint a - sint b) else strncmp s1 s2 n)"
  unfolding strncmp_def by (subst strncmp_from.simps) (simp add: strncmp_from_Cons)

definition readable :: "u8 list \<Rightarrow> nat \<Rightarrow> bool" where
  "readable s n \<longleftrightarrow> 0 \<in> set s \<or> n \<le> length s"

lemma strncmp_zero_iff:
  assumes "readable s1 n" and "readable s2 n"
  shows "\<exists>d. strncmp s1 s2 n = Some d \<and> (d = 0 \<longleftrightarrow> prefix_eq s1 s2 n)"
  using assms
proof (induction n arbitrary: s1 s2)
  case 0
  then show ?case by (simp add: prefix_eq_def)
next
  case (Suc n)
  then obtain a t1 b t2 where s: "s1 = a # t1" "s2 = b # t2"
    by (cases s1; cases s2) (auto simp: readable_def)
  show ?case
  proof (cases "a \<noteq> b \<or> a = 0")
    case True
    with s show ?thesis by (auto simp: prefix_eq_def c_string_def)
  next
    case False
    with Suc.prems s have "readable t1 n" "readable t2 n" by (auto simp: readable_def)
    then obtain d where "strncmp t1 t2 n = Some d \<and> (d = 0 \<longleftrightarrow> prefix_eq t1 t2 n)"
      using Suc.IH by blast
    with False s show ?thesis by (auto simp: prefix_eq_def c_string_def)
  qed
qed

section \<open>strcpy\<close>

lemma strcpy_from_spec:
  assumes "0 \<notin> set bs" and "i \<le> length bs" and "length bs < length dest"
  shows "strcpy_from dest (bs @ 0 # r) i =
     Some (take i dest @ drop i bs @ 0 # drop (Suc (length bs)) dest)"
  using assms
proof (induction "length bs - i" arbitrary: i dest)
  case 0
  then have "i = length bs" by simp
  with 0 show ?case
    by (subst strcpy_from.simps) (simp add: nth_append poke_def upd_conv_take_nth_drop)
next
  case (Suc k)
  then have i: "i < length bs" by simp
  with Suc.prems(1) have nz: "bs ! i \<noteq> 0" by (metis nth_mem)
  with i Suc.prems have "strcpy_from dest (bs @ 0 # r) i = strcpy_from (dest[i := bs ! i]) (bs @ 0 # r) (i + 1)"
    by (subst strcpy_from.simps) (simp add: nth_append)
  also have "\<dots> = Some (take (i + 1) (dest[i := bs ! i]) @ drop (i + 1) bs
      @ 0 # drop (Suc (length bs)) (dest[i := bs ! i]))"
    using Suc i by simp
  finally show ?case
    using i Suc.prems by (simp add: take_Suc_conv_app_nth Cons_nth_drop_Suc)
qed

lemma strcpy_spec:
  assumes "0 \<notin> set bs" and "length bs < length dest"
  shows "strcpy dest (bs @ 0 # r) = Some (bs @ 0 # drop (Suc (length bs)) dest)"
  using strcpy_from_spec [of bs 0 dest r] assms by (simp add: strcpy_def)

section \<open>strrev and itoa\<close>

lemma strrev_loop_middle:
  "strrev_loop (a @ m @ z) (int (length a)) (int (length a + length m) - 1) = a @ rev m @ z"
proof (induction "length m" arbitrary: a m z rule: less_induct)
  case less
  show ?case
  proof (cases "length m \<le> 1")
    case True
    then have "rev m = m" by (cases m) auto
    with True show ?thesis by (subst strrev_loop.simps) simp
  next
    case False
    then obtain x m1 where "m = x # m1" and "m1 \<noteq> []" by (cases m) auto
    then obtain y w where m: "m = x # w @ [y]" by (cases m1 rule: rev_cases) auto
    let ?b = "length a" and ?e = "length a + length w + 1"
    have swap: "(a @ m @ z)[?e := x, ?b := y] = (a @ [y]) @ w @ (x # z)"
      by (simp add: m list_update_append)
    have ends: "(a @ m @ z) ! ?b = x" "(a @ m @ z) ! ?e = y" "int ?b < int ?e"
      by (simp_all add: m nth_append)
    have "strrev_loop (a @ m @ z) (int ?b) (int ?e)
        = strrev_loop ((a @ m @ z)[?e := x, ?b := y]) (int ?b + 1) (int ?e - 1)"
      by (subst strrev_loop.simps) (simp only: nat_int ends if_True)
    also have "\<dots> = (a @ [y]) @ rev w @ (x # z)"
      unfolding swap using less.hyps [of w "a @ [y]" "x # z"] m by (simp add: algebra_simps)
    finally show ?thesis by (simp add: m algebra_simps)
  qed
qed

lemma strrev_spec:
  assumes "0 \<notin> set bs"
  shows "strrev (bs @ 0 # r) = Some (rev bs @ 0 # r)"
  using strrev_loop_middle [of "[]" bs "0 # r"] assms by (simp add: strrev_def)

subsection \<open>Positional notation\<close>

text \<open>
  The reference for \<open>itoa\<close>: the digits of a number, lowest first, and the reading of a
  numeral in a given radix.
\<close>

function radix_digits :: "nat \<Rightarrow> nat \<Rightarrow> nat list" where
  "radix_digits r v = (if r < 2 \<or> v = 0 then [] else (v mod r) # radix_digits r (v div r))"
  by pat_completeness auto
termination by (relation "measure snd") auto

declare radix_digits.simps [simp del]

definition digit_char :: "nat \<Rightarrow> u8" where
  "digit_char d = itoa_lookup ! d"

definition digit_value :: "u8 \<Rightarrow> nat" where
  "digit_value c = (if c \<le> 57 then unat c - 48 else unat c - 55)"

definition parse_radix :: "nat \<Rightarrow> u8 list \<Rightarrow> nat" where
  "parse_radix r cs = foldl (\<lambda>a c. a * r + digit_value c) 0 cs"

definition numeral_of :: "nat \<Rightarrow> nat \<Rightarrow> u8 list" where
  "numeral_of r v = map digit_char (if v = 0 then [0] else rev (radix_digits r v))"

lemma itoa_lookup_eval:
  "itoa_lookup = [48, 49, 50, 51, 52, 53, 54, 55, 56, 57, 65, 66, 67, 68, 69, 70, 71, 72, 73, 74,
    75, 76, 77, 78, 79, 80, 81, 82, 83, 84, 85, 86, 87, 88, 89, 90, 0]"
  by (simp add: itoa_lookup_def cstr_def chars_def)

lemma length_itoa_lookup [simp]: "length itoa_lookup = 37"
  by (simp add: itoa_lookup_eval)

lemma digit_char_table: "\<forall>d \<in> set [0..<36]. digit_value (digit_char d) = d \<and> digit_char d \<noteq> 0
    \<and> (digit_char d = 48 \<longrightarrow> d = 0)"
  by (simp add: upt_rec digit_char_def digit_value_def itoa_lookup_eval)

lemma digit_char [simp]:
  "d < 36 \<Longrightarrow> digit_value (digit_char d) = d"
  "d < 36 \<Longrightarrow> digit_char d \<noteq> 0"
  "d < 36 \<Longrightarrow> digit_char d = 48 \<Longrightarrow> d = 0"
  using digit_char_table by auto

lemma radix_digits_0 [simp]: "radix_digits r 0 = []"
  by (simp add: radix_digits.simps)

lemma radix_digits_small: "d \<in> set (radix_digits r v) \<Longrightarrow> d < r"
proof (induction r v rule: radix_digits.induct)
  case (1 r v)
  then show ?case
    by (subst (asm) (2) radix_digits.simps) (auto split: if_splits)
qed

lemma radix_digits_nonempty: "2 \<le> r \<Longrightarrow> v \<noteq> 0 \<Longrightarrow> radix_digits r v \<noteq> []"
  by (subst radix_digits.simps) simp

lemma radix_digits_last: "2 \<le> r \<Longrightarrow> v \<noteq> 0 \<Longrightarrow> last (radix_digits r v) \<noteq> 0"
proof (induction r v rule: radix_digits.induct)
  case (1 r v)
  show ?case
  proof (cases "v div r = 0")
    case True
    then have "v mod r = v" using 1 by (simp add: div_eq_0_iff)
    with 1 True show ?thesis by (subst radix_digits.simps) simp
  next
    case False
    with 1 have "last (radix_digits r (v div r)) \<noteq> 0" by simp
    with 1 False show ?thesis
      by (subst radix_digits.simps) (simp add: radix_digits_nonempty)
  qed
qed

lemma radix_digits_length: "2 \<le> r \<Longrightarrow> v < r ^ k \<Longrightarrow> length (radix_digits r v) \<le> k"
proof (induction k arbitrary: v)
  case 0
  then show ?case by simp
next
  case (Suc k)
  then have "v div r < r ^ k" by (simp add: less_mult_imp_div_less mult.commute)
  with Suc show ?case by (subst radix_digits.simps) simp
qed

lemma length_radix_digits_32:
  assumes "2 \<le> r"
  shows "length (radix_digits r (unat (v :: u32))) \<le> 32"
proof (rule radix_digits_length [OF assms])
  have "unat v < 2 ^ 32" using unat_lt_32 [of v] by simp
  also have "(2 :: nat) ^ 32 \<le> r ^ 32" using assms by (rule power_mono) simp
  finally show "unat v < r ^ 32" .
qed

lemma parse_radix_snoc: "parse_radix r (cs @ [c]) = parse_radix r cs * r + digit_value c"
  by (simp add: parse_radix_def)

lemma parse_radix_digits:
  "2 \<le> r \<Longrightarrow> r \<le> 36 \<Longrightarrow> parse_radix r (map digit_char (rev (radix_digits r v))) = v"
proof (induction r v rule: radix_digits.induct)
  case (1 r v)
  show ?case
  proof (cases "v = 0")
    case True
    then show ?thesis by (simp add: parse_radix_def)
  next
    case False
    have "v mod r < r" using 1(2) by simp
    then have "v mod r < 36" using 1(3) by simp
    with 1 False show ?thesis
      by (subst radix_digits.simps) (simp add: parse_radix_snoc)
  qed
qed

lemma numeral_of_props:
  assumes "2 \<le> r" and "r \<le> 36"
  shows "parse_radix r (numeral_of r v) = v" and "0 \<notin> set (numeral_of r v)"
    and "numeral_of r v \<noteq> []" and "hd (numeral_of r v) = 48 \<Longrightarrow> v = 0"
proof -
  have small: "d < 36" if "d \<in> set (radix_digits r v)" for d
    using radix_digits_small [OF that] assms(2) by simp
  show "parse_radix r (numeral_of r v) = v"
    using assms parse_radix_digits [of r v]
    by (simp add: numeral_of_def parse_radix_def)
  show "0 \<notin> set (numeral_of r v)"
    using small by (auto simp: numeral_of_def dest: digit_char(2) [symmetric])
  show "numeral_of r v \<noteq> []"
    using assms by (simp add: numeral_of_def radix_digits_nonempty)
  show "v = 0" if h: "hd (numeral_of r v) = 48"
  proof (rule ccontr)
    assume v: "v \<noteq> 0"
    with assms have ne: "radix_digits r v \<noteq> []" by (simp add: radix_digits_nonempty)
    with h v have "digit_char (last (radix_digits r v)) = 48"
      by (simp add: numeral_of_def hd_map hd_rev)
    with ne small have "last (radix_digits r v) = 0" by simp
    with radix_digits_last assms v show False by blast
  qed
qed

subsection \<open>The digit loop\<close>

lemma itoa_loop_spec:
  assumes "2 \<le> unat r" and "unat r \<le> 36"
    and "j + length (radix_digits (unat r) (unat v)) \<le> length buf"
  shows "itoa_loop v buf j r =
    (let ds = radix_digits (unat r) (unat v) in
     Some (take j buf @ map digit_char ds @ drop (j + length ds) buf, j + length ds))"
  using assms
proof (induction v buf j r rule: itoa_loop.induct)
  case (1 v buf j r)
  show ?case
  proof (cases "v = 0")
    case True
    then show ?thesis by (subst itoa_loop.simps) simp
  next
    case False
    let ?ds = "radix_digits (unat r) (unat (v div r))"
    have ds: "radix_digits (unat r) (unat v) = (unat v mod unat r) # ?ds"
      using False 1(2) by (subst radix_digits.simps) (simp add: unat_div unat_eq_zero)
    have "unat v mod unat r < unat r" using 1(2) by simp
    then have d: "unat (v mod r) < 37" using 1(3) by (simp add: unat_mod)
    have r0: "r \<noteq> 0" using 1(2) by auto
    have j: "j < length buf" using 1(4) ds by simp
    let ?b = "buf[j := digit_char (unat (v mod r))]"
    have "itoa_loop (v div r) ?b (j + 1) r
        = Some (take (j + 1) ?b @ map digit_char ?ds @ drop (j + 1 + length ?ds) ?b,
                j + 1 + length ?ds)"
      using 1(1) [of "digit_char (unat (v mod r))" ?b] False r0 d j 1(2-4) ds
      by (simp add: digit_char_def word_gt_0 Let_def)
    then show ?thesis
      using False r0 d j ds
      by (subst itoa_loop.simps)
        (simp add: digit_char_def word_gt_0 Let_def take_Suc_conv_app_nth unat_mod)
  qed
qed

text \<open>
  \<open>itoa\<close> writes exactly the numeral, the terminator, and nothing else.
\<close>

lemma itoa_spec:
  assumes "2 \<le> unat r" and "unat r \<le> 36" and "length (numeral_of (unat r) (unat v)) < length buf"
  shows "itoa v buf r =
    (let s = numeral_of (unat r) (unat v) in Some (s @ 0 # drop (Suc (length s)) buf))"
proof (cases "v = 0")
  case True
  with assms obtain a b rest where "buf = a # b # rest"
    by (cases buf; cases "tl buf") (auto simp: numeral_of_def)
  with True show ?thesis
    by (simp add: itoa_def numeral_of_def digit_char_def itoa_lookup_eval poke_def)
next
  case False
  let ?ds = "radix_digits (unat r) (unat v)"
  have len: "length ?ds < length buf" using assms(3) False by (simp add: numeral_of_def unat_eq_zero)
  have nz: "0 \<notin> set (map digit_char ?ds)"
    using numeral_of_props(2) [OF assms(1,2), of "unat v"] False
    by (simp add: numeral_of_def unat_eq_zero)
  have "itoa_loop v buf 0 r = Some (map digit_char ?ds @ drop (length ?ds) buf, length ?ds)"
    using itoa_loop_spec [OF assms(1,2), of 0 v buf] len by (simp add: Let_def)
  moreover have "poke (map digit_char ?ds @ drop (length ?ds) buf) (length ?ds) 0
      = Some (map digit_char ?ds @ 0 # drop (Suc (length ?ds)) buf)"
    using len by (simp add: poke_def list_update_append Cons_nth_drop_Suc [symmetric])
  ultimately show ?thesis
    using False strrev_spec [OF nz]
    by (simp add: itoa_def numeral_of_def rev_map Let_def unat_eq_zero)
qed

text \<open>
  C36. Round trip of \<open>itoa\<close>: for every value and every radix from 2 to 36, in any buffer of at
  least 33 bytes, \<open>itoa\<close> succeeds, leaves a terminated string without a superfluous leading
  zero, and reading that string back in the same radix gives the value.
\<close>

theorem itoa_roundtrip:
  assumes "2 \<le> unat radix" and "unat radix \<le> 36" and "33 \<le> length buf"
  shows "\<exists>buf'. itoa val buf radix = Some buf' \<and> length buf' = length buf \<and> 0 \<in> set buf'
    \<and> parse_radix (unat radix) (c_string buf') = unat val
    \<and> c_string buf' \<noteq> [] \<and> (hd (c_string buf') = 48 \<longrightarrow> val = 0)"
proof -
  let ?s = "numeral_of (unat radix) (unat val)"
  note props = numeral_of_props [OF assms(1,2), of "unat val"]
  have len: "length ?s < length buf"
    using length_radix_digits_32 [OF assms(1), of val] assms(3) by (simp add: numeral_of_def)
  have "itoa val buf radix = Some (?s @ 0 # drop (Suc (length ?s)) buf)"
    using itoa_spec [OF assms(1,2) len] by (simp add: Let_def)
  with props len show ?thesis by (auto simp: unat_eq_zero)
qed

theorem itoa_roundtrip_witness:
  "\<exists>buf'. itoa 48879 (replicate 64 7) 16 = Some buf' \<and> parse_radix 16 (c_string buf') = 48879"
  using itoa_roundtrip [of 16 "replicate 64 7" 48879] by auto

end
