(* ===== verification/PortIO.thy ===== *)
theory PortIO
  imports Machine
begin

text \<open>
  The rest of the port access of \<open>src/lib.h\<close>, two and four consecutive ports at once, which nothing in the
  kernel uses. A wide access is an access to each of the consecutive 8-bit ports, the lowest first.
\<close>

section \<open>Wide ports\<close>

definition inw :: "u16 \<Rightarrow> 'a hw_state_scheme \<Rightarrow> u32 \<times> 'a hw_state_scheme" where
  "inw port s =
     (let (b0, s) = inb port s; (b1, s) = inb (port + 1) s
      in (ucast b0 OR push_bit 8 (ucast b1), s))"

definition inl :: "u16 \<Rightarrow> 'a hw_state_scheme \<Rightarrow> u32 \<times> 'a hw_state_scheme" where
  "inl port s =
     (let (b0, s) = inb port s; (b1, s) = inb (port + 1) s;
          (b2, s) = inb (port + 2) s; (b3, s) = inb (port + 3) s
      in (ucast b0 OR push_bit 8 (ucast b1) OR push_bit 16 (ucast b2) OR push_bit 24 (ucast b3), s))"

definition outw :: "u16 \<Rightarrow> u16 \<Rightarrow> 'a hw_state_scheme \<Rightarrow> 'a hw_state_scheme" where
  "outw data port s = outb (ucast (drop_bit 8 data)) (port + 1) (outb (ucast data) port s)"

definition outl :: "u32 \<Rightarrow> u16 \<Rightarrow> 'a hw_state_scheme \<Rightarrow> 'a hw_state_scheme" where
  "outl data port s =
     outb (ucast (drop_bit 24 data)) (port + 3) (outb (ucast (drop_bit 16 data)) (port + 2)
       (outb (ucast (drop_bit 8 data)) (port + 1) (outb (ucast data) port s)))"

text \<open>A device that keeps in each port the byte last written there.\<close>

fun last_out :: "io_event list \<Rightarrow> u16 \<Rightarrow> u8" where
  "last_out [] p = 0"
| "last_out (Out v q # evs) p = (if p = q then v else last_out evs p)"
| "last_out (In q # evs) p = last_out evs p"

definition latched :: "'a hw_state_scheme \<Rightarrow> bool" where
  "latched s \<longleftrightarrow> io_dev s = (\<lambda>log p. last_out (rev log) p)"

lemma port_neq [simp]:
  "(p :: u16) + 1 \<noteq> p" "p + 2 \<noteq> p" "p + 3 \<noteq> p" "p + 1 \<noteq> p + 2" "p + 1 \<noteq> p + 3" "p + 2 \<noteq> p + 3"
  "p \<noteq> p + 1" "p \<noteq> p + 2" "p \<noteq> p + 3" "p + 2 \<noteq> p + 1" "p + 3 \<noteq> p + 1" "p + 3 \<noteq> p + 2"
  by simp_all

text \<open>What is written wide is read back wide, byte order included.\<close>

theorem outl_inl:
  assumes "latched s"
  shows "fst (inl port (outl data port s)) = data"
  using assms byte_join32 [of data] by (simp add: latched_def inl_def outl_def inb_def outb_def)

theorem outw_inw:
  assumes "latched s"
  shows "fst (inw port (outw data port s)) = ucast data"
proof -
  have "(ucast (ucast data :: u8) OR push_bit 8 (ucast (ucast (drop_bit 8 data) :: u8)) :: u32) = ucast data"
  proof (rule bit_word_eqI)
    fix n assume "n < LENGTH(32)"
    then consider "n < 8" | "8 \<le> n" "n < 16" | "16 \<le> n" "n < 32" by fastforce
    then show "bit (ucast (ucast data :: u8) OR push_bit 8 (ucast (ucast (drop_bit 8 data) :: u8)) :: u32) n = bit (ucast data :: u32) n"
      by cases (auto simp: bit_simps less_diff_conv2 dest: bit_imp_le_length)
  qed
  then show ?thesis using assms by (simp add: latched_def inw_def outw_def inb_def outb_def)
qed

end
