(* ===== verification/PIC.thy ===== *)
theory PIC
  imports Machine
begin

text \<open>
  The 8259 interrupt controllers, \<open>src/i8259.c\<close>: the two cached mask bytes, the
  initialisation sequence, unmasking and masking of a line, and end-of-interrupt. Lines 0 to 7
  belong to the master, 8 to 15 to the slave. The theorems say which line each operation
  affects, and that what was last written to a data port is the cached mask.
\<close>

section \<open>State and constants\<close>

record pic_state = hw_state +
  master_mask :: u8
  slave_mask :: u8

definition MASTER_8259_PORT_CMD :: u16 where "MASTER_8259_PORT_CMD = 0x20"
definition SLAVE_8259_PORT_CMD :: u16 where "SLAVE_8259_PORT_CMD = 0xA0"
definition MASTER_8259_PORT_DATA :: u16 where "MASTER_8259_PORT_DATA = 0x21"
definition SLAVE_8259_PORT_DATA :: u16 where "SLAVE_8259_PORT_DATA = 0xA1"
definition ICW1 :: u8 where "ICW1 = 0x11"
definition ICW2_MASTER :: u8 where "ICW2_MASTER = 0x20"
definition ICW2_SLAVE :: u8 where "ICW2_SLAVE = 0x28"
definition ICW3_MASTER :: u8 where "ICW3_MASTER = 0x04"
definition ICW3_SLAVE :: u8 where "ICW3_SLAVE = 0x02"
definition ICW4 :: u8 where "ICW4 = 0x01"
definition EOI :: u32 where "EOI = 0x60"
definition FULL_MASK :: u8 where "FULL_MASK = 0xFF"
definition SLAVE_IRQ :: u32 where "SLAVE_IRQ = 2"
definition NUM_IRQS :: u32 where "NUM_IRQS = 8"

lemmas pic_consts =
  MASTER_8259_PORT_CMD_def SLAVE_8259_PORT_CMD_def MASTER_8259_PORT_DATA_def
  SLAVE_8259_PORT_DATA_def ICW1_def ICW2_MASTER_def ICW2_SLAVE_def ICW3_MASTER_def
  ICW3_SLAVE_def ICW4_def EOI_def FULL_MASK_def SLAVE_IRQ_def NUM_IRQS_def

text \<open>The masks as the program starts: every line masked.\<close>

definition pic_boot :: "(io_event list \<Rightarrow> u16 \<Rightarrow> u8) \<Rightarrow> pic_state" where
  "pic_boot dev = \<lparr>mem = (\<lambda>_. 0), io_log = [], io_dev = dev,
     master_mask = FULL_MASK, slave_mask = FULL_MASK\<rparr>"

section \<open>Operations\<close>

text \<open>
  \<open>1 << irq_num\<close> is an \<open>int\<close>; storing into the \<open>uint8_t\<close> mask keeps the low byte.
\<close>

definition enable_irq :: "u32 \<Rightarrow> 'a pic_state_scheme \<Rightarrow> 'a pic_state_scheme" where
  "enable_irq irq_num s =
     (if irq_num < NUM_IRQS then
        let mask = master_mask s AND NOT (push_bit (unat irq_num) 1)
        in outb mask MASTER_8259_PORT_DATA (s\<lparr>master_mask := mask\<rparr>)
      else
        let irq = irq_num - NUM_IRQS;
            mask = slave_mask s AND NOT (push_bit (unat irq) 1)
        in outb mask SLAVE_8259_PORT_DATA (s\<lparr>slave_mask := mask\<rparr>))"

definition disable_irq :: "u32 \<Rightarrow> 'a pic_state_scheme \<Rightarrow> 'a pic_state_scheme" where
  "disable_irq irq_num s =
     (if irq_num < NUM_IRQS then
        let mask = master_mask s OR push_bit (unat irq_num) 1
        in outb mask MASTER_8259_PORT_DATA (s\<lparr>master_mask := mask\<rparr>)
      else
        let irq = irq_num - NUM_IRQS;
            mask = slave_mask s OR push_bit (unat irq) 1
        in outb mask SLAVE_8259_PORT_DATA (s\<lparr>slave_mask := mask\<rparr>))"

definition send_eoi :: "u32 \<Rightarrow> 'a pic_state_scheme \<Rightarrow> 'a pic_state_scheme" where
  "send_eoi irq_num s =
     (if irq_num \<ge> NUM_IRQS then
        outb (ucast (EOI OR SLAVE_IRQ)) MASTER_8259_PORT_CMD
          (outb (ucast (EOI OR (irq_num - NUM_IRQS))) SLAVE_8259_PORT_CMD s)
      else outb (ucast (EOI OR irq_num)) MASTER_8259_PORT_CMD s)"

definition i8259_init :: "'a pic_state_scheme \<Rightarrow> 'a pic_state_scheme" where
  "i8259_init s =
     (let s = outb (master_mask s) MASTER_8259_PORT_DATA s;
          s = outb (slave_mask s) SLAVE_8259_PORT_DATA s;
          s = outb ICW1 MASTER_8259_PORT_CMD s;
          s = outb ICW1 SLAVE_8259_PORT_CMD s;
          s = outb ICW2_MASTER MASTER_8259_PORT_DATA s;
          s = outb ICW2_SLAVE SLAVE_8259_PORT_DATA s;
          s = outb ICW3_MASTER MASTER_8259_PORT_DATA s;
          s = outb ICW3_SLAVE SLAVE_8259_PORT_DATA s;
          s = outb ICW4 MASTER_8259_PORT_DATA s;
          s = outb ICW4 SLAVE_8259_PORT_DATA s
      in enable_irq SLAVE_IRQ s)"

section \<open>Which lines are enabled\<close>

text \<open>A line is enabled when its mask bit is clear.\<close>

definition irq_enabled :: "'a pic_state_scheme \<Rightarrow> nat \<Rightarrow> bool" where
  "irq_enabled s k \<longleftrightarrow>
     (if k < 8 then \<not> bit (master_mask s) k else \<not> bit (slave_mask s) (k - 8))"

lemma outb_pic [frame_simps, simp]:
  "master_mask (outb d p s) = master_mask s" "slave_mask (outb d p s) = slave_mask s"
  "pic_state.more (outb d p s) = pic_state.more s" "mem (outb d p s) = mem s"
  "io_dev (outb d p s) = io_dev s" "io_log (outb d p s) = io_log s @ [Out d p]"
  by (simp_all add: outb_def)

lemma enable_irq_frame [frame_simps, simp]:
  "mem (enable_irq n s) = mem s" "pic_state.more (enable_irq n s) = pic_state.more s"
  by (simp_all add: enable_irq_def Let_def)

lemma disable_irq_frame [frame_simps, simp]:
  "mem (disable_irq n s) = mem s" "pic_state.more (disable_irq n s) = pic_state.more s"
  by (simp_all add: disable_irq_def Let_def)

lemma send_eoi_frame [frame_simps, simp]:
  "mem (send_eoi n s) = mem s" "pic_state.more (send_eoi n s) = pic_state.more s"
  "master_mask (send_eoi n s) = master_mask s" "slave_mask (send_eoi n s) = slave_mask s"
  by (simp_all add: send_eoi_def)

lemma word_less_8_iff: "(n :: u32) < NUM_IRQS \<longleftrightarrow> unat n < 8"
  by (simp add: NUM_IRQS_def word_less_nat_alt)

lemma bit_push_1:
  "bit (push_bit k 1 :: u8) j \<longleftrightarrow> j = k \<and> j < 8"
  "bit (2 ^ k :: u8) j \<longleftrightarrow> j = k \<and> j < 8"
  by (auto simp: bit_simps)

text \<open>
  Enabling or disabling line \<open>n\<close> affects exactly line \<open>n\<close>.
\<close>

lemma irq_enabled_enable:
  assumes "unat n < 16" and "k < 16"
  shows "irq_enabled (enable_irq n s) k \<longleftrightarrow> k = unat n \<or> irq_enabled s k"
proof (cases "unat n < 8")
  case True
  then show ?thesis using assms
    by (auto simp: irq_enabled_def enable_irq_def word_less_8_iff Let_def bit_and_iff bit_not_iff
        bit_push_1 bit_imp_le_length)
next
  case False
  then have "unat (n - NUM_IRQS) = unat n - 8"
    using assms by (simp add: NUM_IRQS_def unat_sub_small)
  with False show ?thesis using assms
    by (auto simp: irq_enabled_def enable_irq_def word_less_8_iff Let_def bit_and_iff bit_not_iff
        bit_push_1)
qed

lemma irq_enabled_disable:
  assumes "unat n < 16" and "k < 16"
  shows "irq_enabled (disable_irq n s) k \<longleftrightarrow> k \<noteq> unat n \<and> irq_enabled s k"
proof (cases "unat n < 8")
  case True
  then show ?thesis using assms
    by (auto simp: irq_enabled_def disable_irq_def word_less_8_iff Let_def bit_or_iff bit_push_1)
next
  case False
  then have "unat (n - NUM_IRQS) = unat n - 8"
    using assms by (simp add: NUM_IRQS_def unat_sub_small)
  with False show ?thesis using assms
    by (auto simp: irq_enabled_def disable_irq_def word_less_8_iff Let_def bit_or_iff bit_push_1)
qed

lemma enable_irq_log:
  "io_log (enable_irq n s) = io_log s @
     [if unat n < 8 then Out (master_mask (enable_irq n s)) 0x21
      else Out (slave_mask (enable_irq n s)) 0xA1]"
  by (simp add: enable_irq_def Let_def pic_consts word_less_nat_alt)

lemma disable_irq_log:
  "io_log (disable_irq n s) = io_log s @
     [if unat n < 8 then Out (master_mask (disable_irq n s)) 0x21
      else Out (slave_mask (disable_irq n s)) 0xA1]"
  by (simp add: disable_irq_def Let_def pic_consts word_less_nat_alt)

text \<open>
  \<open>enable_irq\<close> and \<open>disable_irq\<close> set and clear the enabled state of the requested
  line and of no other, on either controller, and each tells the controller the whole new
  mask of the side it changed: its only port write is the cached mask byte.
\<close>

theorem irq_line_control:
  assumes "unat n < 16" and "k < 16"
  shows "(irq_enabled (enable_irq n s) k \<longleftrightarrow> k = unat n \<or> irq_enabled s k)
    \<and> (irq_enabled (disable_irq n s) k \<longleftrightarrow> k \<noteq> unat n \<and> irq_enabled s k)
    \<and> io_log (enable_irq n s) = io_log s @
        [if unat n < 8 then Out (master_mask (enable_irq n s)) 0x21
         else Out (slave_mask (enable_irq n s)) 0xA1]
    \<and> io_log (disable_irq n s) = io_log s @
        [if unat n < 8 then Out (master_mask (disable_irq n s)) 0x21
         else Out (slave_mask (disable_irq n s)) 0xA1]"
  by (intro conjI irq_enabled_enable irq_enabled_disable enable_irq_log disable_irq_log assms)

theorem irq_line_control_witness:
  "irq_enabled (enable_irq 12 (pic_boot (\<lambda>_ _. 0))) 12
   \<and> \<not> irq_enabled (enable_irq 12 (pic_boot (\<lambda>_ _. 0))) 1"
proof -
  have "\<not> irq_enabled (pic_boot (\<lambda>_ _. 0)) 1"
    by (simp add: irq_enabled_def pic_boot_def FULL_MASK_def)
  then show ?thesis
    using irq_line_control [of 12 12 "pic_boot (\<lambda>_ _. 0)"]
      irq_line_control [of 12 1 "pic_boot (\<lambda>_ _. 0)"] by simp
qed

end
