(* ===== verification/Console.thy ===== *)
theory Console
  imports PIC CString
begin

text \<open>
  The console half of \<open>src/lib.c\<close>: the text screen in video memory with the cursor kept in
  \<open>screen_x\<close> and \<open>screen_y\<close> (\<open>clear\<close>, \<open>putc\<close>, \<open>puts\<close>, \<open>printf\<close>, \<open>getc\<close>), and the clock of
  the status bar. The screen is 80 columns by 25 rows of two-byte cells; the last row is the
  status bar, which text output must not touch.

  The contract of character output is the locale \<open>char_screen\<close>: where the cursor goes and
  which cell is written. Its consequences (the cursor stays on the screen, the status bar and
  everything else in memory is preserved, text appears where the cursor was) are proved once;
  \<open>putc\<close> is an instance here and \<open>putc_multi\<close> in \<open>Terminal\<close>.
\<close>

section \<open>Constants and cells\<close>

definition VIDEO :: u32 where "VIDEO = 0xB8000"
definition NUM_COLS :: int where "NUM_COLS = 80"
definition NUM_ROWS :: int where "NUM_ROWS = 25"
definition STATUS_BAR_HEIGHT :: int where "STATUS_BAR_HEIGHT = 1"
definition ATTRIB :: u8 where "ATTRIB = 7"
definition TIME_BAR_WIDTH :: int where "TIME_BAR_WIDTH = 10"

lemmas screen_consts =
  VIDEO_def NUM_COLS_def NUM_ROWS_def STATUS_BAR_HEIGHT_def ATTRIB_def TIME_BAR_WIDTH_def

text \<open>
  \<open>*(base + (idx << 1)) = c; *(base + (idx << 1) + 1) = attr;\<close>, the pair of stores every
  drawing routine makes.
\<close>

definition cell_addr :: "u32 \<Rightarrow> int \<Rightarrow> u32" where
  "cell_addr base idx = base + word_of_int (2 * idx)"

definition put_cell :: "u32 \<Rightarrow> int \<Rightarrow> u8 \<Rightarrow> u8 \<Rightarrow> mem \<Rightarrow> mem" where
  "put_cell base idx c attr m =
     m(cell_addr base idx := c, cell_addr base idx + 1 := attr)"

record console_state = pic_state +
  screen_x :: int
  screen_y :: int

section \<open>Characters\<close>

definition set_screen_position :: "int \<Rightarrow> int \<Rightarrow> 'a console_state_scheme \<Rightarrow> 'a console_state_scheme" where
  "set_screen_position x y s = s\<lparr>screen_x := x, screen_y := y\<rparr>"

definition clear_cells :: "u32 \<Rightarrow> mem \<Rightarrow> mem" where
  "clear_cells base m =
     fold (\<lambda>i. put_cell base (int i) 32 ATTRIB)
       [0..<nat ((NUM_ROWS - STATUS_BAR_HEIGHT) * NUM_COLS)] m"

definition clear :: "'a console_state_scheme \<Rightarrow> 'a console_state_scheme" where
  "clear s = set_screen_position 0 0 (s\<lparr>mem := clear_cells VIDEO (mem s)\<rparr>)"

definition putc :: "u8 \<Rightarrow> 'a console_state_scheme \<Rightarrow> 'a console_state_scheme" where
  "putc c s =
     (let s1 = (if c = 10 \<or> c = 13 then s\<lparr>screen_y := screen_y s + 1, screen_x := 0\<rparr>
                else s\<lparr>mem := put_cell VIDEO (NUM_COLS * screen_y s + screen_x s) c ATTRIB (mem s),
                       screen_x := screen_x s + 1\<rparr>)
      in s1\<lparr>screen_y := (screen_y s1 + (screen_x s1 sdiv NUM_COLS)) smod (NUM_ROWS - STATUS_BAR_HEIGHT),
            screen_x := screen_x s1 smod NUM_COLS\<rparr>)"

definition getc :: "int \<Rightarrow> int \<Rightarrow> 'a console_state_scheme \<Rightarrow> u8" where
  "getc x y s = mem s (cell_addr VIDEO (NUM_COLS * y + x))"

text \<open>\<open>puts\<close>: the bytes up to the terminator, one \<open>putc\<close> each; the count is returned.\<close>

fun puts :: "u8 list \<Rightarrow> 'a console_state_scheme \<Rightarrow> (int \<times> 'a console_state_scheme) option" where
  "puts [] s = None"
| "puts (c # cs) s =
     (if c \<noteq> 0 then map_option (\<lambda>(n, s'). (n + 1, s')) (puts cs (putc c s)) else Some (0, s))"

text \<open>\<open>test_interrupts\<close>: increment the character byte of every text cell.\<close>

definition test_interrupts :: "'a console_state_scheme \<Rightarrow> 'a console_state_scheme" where
  "test_interrupts s =
     s\<lparr>mem := fold (\<lambda>i m. m(cell_addr VIDEO (int i) := m (cell_addr VIDEO (int i)) + 1))
        [0..<nat ((NUM_ROWS - STATUS_BAR_HEIGHT) * NUM_COLS)] (mem s)\<rparr>"

section \<open>Formatted output\<close>

text \<open>
  An argument word on the stack is a number or, for \<open>%s\<close>, a pointer to a string. A
  conversion that finds no argument, or one of the wrong kind, has no defined result. The
  local conversion buffers start with unknown contents; \<open>stack_junk\<close> stands for them.
\<close>

datatype printf_arg = PNum u32 | PStr "u8 list"

definition stack_junk :: "nat \<Rightarrow> u8 list" where
  "stack_junk n = replicate n 0xCC"

text \<open>\<open>while (i < 8) conv_buf[i++] = '0';\<close>\<close>

definition fill_zeros :: "u8 list \<Rightarrow> nat \<Rightarrow> u8 list" where
  "fill_zeros buf start = fold (\<lambda>i b. b[i := 48]) [start..<8] buf"

definition conv_x :: "bool \<Rightarrow> u32 \<Rightarrow> u8 list option" where
  "conv_x alternate v =
     (let conv_buf = stack_junk 64 in
      if \<not> alternate then itoa v conv_buf 16
      else do {
        tail \<leftarrow> itoa v (drop 8 conv_buf) 16;
        starting_index \<leftarrow> strlen tail;
        Some (drop starting_index (fill_zeros (take 8 conv_buf @ tail) starting_index))
      })"

definition conv_u :: "u32 \<Rightarrow> u8 list option" where
  "conv_u v = itoa v (stack_junk 36) 10"

definition conv_d :: "u32 \<Rightarrow> u8 list option" where
  "conv_d v =
     (if sint v < 0 then map_option (\<lambda>tail. 45 # tail) (itoa (- v) (tl (stack_junk 36)) 10)
      else itoa v (stack_junk 36) 10)"

text \<open>
  \<open>printf_text\<close> is the main loop, \<open>printf_conv\<close> the switch behind a \<open>%\<close> (entered again after
  \<open>#\<close>). An unknown specifier prints nothing; a terminator there is skipped like one. The
  result has the count \<open>buf - format\<close>.
\<close>

fun printf_text :: "u8 list \<Rightarrow> printf_arg list \<Rightarrow> 'a console_state_scheme
    \<Rightarrow> (int \<times> 'a console_state_scheme) option"
  and printf_conv :: "bool \<Rightarrow> u8 list \<Rightarrow> printf_arg list \<Rightarrow> 'a console_state_scheme
    \<Rightarrow> (int \<times> 'a console_state_scheme) option" where
  "printf_text [] args s = None"
| "printf_text (c # f) args s =
     (if c = 0 then Some (0, s)
      else map_option (\<lambda>(n, s'). (n + 1, s'))
        (if c = 37 then printf_conv False f args s else printf_text f args (putc c s)))"
| "printf_conv alternate [] args s = None"
| "printf_conv alternate (c # f) args s =
     map_option (\<lambda>(n, s'). (n + 1, s'))
      (if c = 37 then printf_text f args (putc 37 s)
       else if c = 35 then printf_conv True f args s
       else if c = 120 then
         (case args of
            PNum v # rest \<Rightarrow> do {
              out \<leftarrow> conv_x alternate v; (_, s) \<leftarrow> puts out s; printf_text f rest s }
          | _ \<Rightarrow> None)
       else if c = 117 then
         (case args of
            PNum v # rest \<Rightarrow> do { out \<leftarrow> conv_u v; (_, s) \<leftarrow> puts out s; printf_text f rest s }
          | _ \<Rightarrow> None)
       else if c = 100 then
         (case args of
            PNum v # rest \<Rightarrow> do { out \<leftarrow> conv_d v; (_, s) \<leftarrow> puts out s; printf_text f rest s }
          | _ \<Rightarrow> None)
       else if c = 99 then
         (case args of PNum v # rest \<Rightarrow> printf_text f rest (putc (ucast v) s) | _ \<Rightarrow> None)
       else if c = 115 then
         (case args of
            PStr str # rest \<Rightarrow> do { (_, s) \<leftarrow> puts str s; printf_text f rest s }
          | _ \<Rightarrow> None)
       else printf_text f args s)"

definition printf :: "u8 list \<Rightarrow> printf_arg list \<Rightarrow> 'a console_state_scheme
    \<Rightarrow> (int \<times> 'a console_state_scheme) option" where
  "printf format args s = printf_text format args s"

section \<open>The clock in the status bar\<close>

text \<open>
  \<open>int8_t dig[3]; memset(dig, '0', 2);\<close> then \<open>itoa\<close> into \<open>dig + 1\<close> or \<open>dig\<close>. A value of
  three digits does not fit.
\<close>

definition clock_digits :: "u8 \<Rightarrow> u8 list option" where
  "clock_digits v =
     (let dig = [48, 48, hd (stack_junk 1)] in
      if v < 10 then map_option (\<lambda>t. hd dig # t) (itoa (ucast v) (tl dig) 10)
      else itoa (ucast v) dig 10)"

definition draw_clock_page :: "u8 list \<Rightarrow> u32 \<Rightarrow> mem \<Rightarrow> mem" where
  "draw_clock_page time_buf vid_mem m =
     snd (fold (\<lambda>col (idx, m).
        if col > NUM_COLS - TIME_BAR_WIDTH \<and> col < NUM_COLS - 1
        then (idx + 1,
              put_cell vid_mem (NUM_COLS * (NUM_ROWS - 1) + col) (time_buf ! idx) ATTRIB m)
        else (idx, m))
      [NUM_COLS - TIME_BAR_WIDTH .. NUM_COLS - 1] (0, m))"

definition update_status_bar_time :: "u8 \<Rightarrow> u8 \<Rightarrow> u8 \<Rightarrow> 'a console_state_scheme
    \<Rightarrow> 'a console_state_scheme option" where
  "update_status_bar_time h m sec s = do {
     dig1 \<leftarrow> clock_digits h;
     dig2 \<leftarrow> clock_digits m;
     dig3 \<leftarrow> clock_digits sec;
     let time_buf = [dig1 ! 0, dig1 ! 1, 58, dig2 ! 0, dig2 ! 1, 58, dig3 ! 0, dig3 ! 1];
     Some (s\<lparr>mem := fold (draw_clock_page time_buf) [0xB8000, 0xB9000, 0xBA000, 0xBB000] (mem s)\<rparr>)
   }"

section \<open>Cell addresses\<close>

lemma cell_addr_int: "cell_addr base (int k) = base + of_nat (2 * k)"
  by (simp add: cell_addr_def)

lemma cell_in_area:
  assumes "0 \<le> idx" and "idx < int n" and "2 * n \<le> 4294967296"
  shows "in_range (cell_addr base idx) base (2 * n)"
    and "in_range (cell_addr base idx + 1) base (2 * n)"
proof -
  from assms(1) obtain k where idx: "idx = int k" by (rule nonneg_int_cases)
  with assms have k: "2 * k < 2 * n" "2 * k + 1 < 2 * n" "2 * k < 4294967296"
      "2 * k + 1 < 4294967296" by linarith+
  have "cell_addr base idx + 1 = base + of_nat (2 * k + 1)"
    by (simp add: idx cell_addr_int algebra_simps)
  with k idx show "in_range (cell_addr base idx) base (2 * n)"
      "in_range (cell_addr base idx + 1) base (2 * n)"
    by (simp_all only: cell_addr_int in_range_offset)
qed

lemma cell_addr_inj:
  assumes "0 \<le> i" "i < 2147483648" "0 \<le> j" "j < 2147483648"
  shows "cell_addr base i = cell_addr base j \<longleftrightarrow> i = j"
    and "cell_addr base i \<noteq> cell_addr base j + 1"
proof -
  obtain a b where ab: "i = int a" "j = int b"
    using assms by (metis nonneg_int_cases)
  have small: "2 * a < 4294967296" "2 * b < 4294967296" "2 * b + 1 < 4294967296"
    using assms ab by linarith+
  have "cell_addr base j + 1 = base + of_nat (2 * b + 1)"
    by (simp add: ab cell_addr_int algebra_simps)
  moreover have "2 * a \<noteq> 2 * b + 1" by presburger
  ultimately show "cell_addr base i \<noteq> cell_addr base j + 1"
    using small by (simp only: ab cell_addr_int add_of_nat_inj simp_thms)
  show "cell_addr base i = cell_addr base j \<longleftrightarrow> i = j"
    using small by (simp only: ab cell_addr_int add_of_nat_inj) simp
qed

lemma put_cell_same [simp]: "put_cell base idx c attr m (cell_addr base idx) = c"
  by (simp add: put_cell_def)

lemma put_cell_other:
  "0 \<le> i \<Longrightarrow> i < 2147483648 \<Longrightarrow> 0 \<le> j \<Longrightarrow> j < 2147483648 \<Longrightarrow> i \<noteq> j \<Longrightarrow>
   put_cell base j c attr m (cell_addr base i) = m (cell_addr base i)"
  by (simp add: put_cell_def cell_addr_inj)

lemma put_cell_frame:
  assumes "0 \<le> idx" and "idx < 1920" and "\<not> in_range a base 3840"
  shows "put_cell base idx c attr m a = m a"
  using cell_in_area [of idx 1920 base] assms by (auto simp: put_cell_def)

section \<open>The contract of character output\<close>

definition on_screen :: "int \<times> int \<Rightarrow> bool" where
  "on_screen p \<longleftrightarrow> 0 \<le> fst p \<and> fst p < 80 \<and> 0 \<le> snd p \<and> snd p < 24"

definition is_newline :: "u8 \<Rightarrow> bool" where
  "is_newline c \<longleftrightarrow> c = 10 \<or> c = 13"

definition cursor_index :: "int \<times> int \<Rightarrow> int" where
  "cursor_index p = 80 * snd p + fst p"

lemma cursor_index_bounds: "on_screen p \<Longrightarrow> 0 \<le> cursor_index p \<and> cursor_index p < 1920"
  by (auto simp: on_screen_def cursor_index_def)

locale char_screen =
  fixes pos :: "'s \<Rightarrow> int \<times> int"
    and put :: "u8 \<Rightarrow> 's \<Rightarrow> 's"
    and vmem :: "'s \<Rightarrow> mem"
    and base :: u32
  assumes put_newline: "is_newline c \<Longrightarrow> on_screen (pos s) \<Longrightarrow>
      vmem (put c s) = vmem s \<and> pos (put c s) = (0, (snd (pos s) + 1) mod 24)"
    and put_char: "\<not> is_newline c \<Longrightarrow> on_screen (pos s) \<Longrightarrow>
      vmem (put c s) = put_cell base (cursor_index (pos s)) c ATTRIB (vmem s)
      \<and> pos (put c s) = ((fst (pos s) + 1) mod 80,
                         (snd (pos s) + (fst (pos s) + 1) div 80) mod 24)"
begin

lemma put_on_screen: "on_screen (pos s) \<Longrightarrow> on_screen (pos (put c s))"
  using put_newline [of c s] put_char [of c s]
  by (cases "is_newline c") (simp_all add: on_screen_def)

lemma put_frame:
  assumes "on_screen (pos s)" and "\<not> in_range a base 3840"
  shows "vmem (put c s) a = vmem s a"
  using put_newline [of c s] put_char [of c s] put_cell_frame cursor_index_bounds assms
  by (cases "is_newline c") simp_all

lemma puts_safe:
  "on_screen (pos s) \<Longrightarrow> on_screen (pos (fold put cs s))
     \<and> (\<forall>a. \<not> in_range a base 3840 \<longrightarrow> vmem (fold put cs s) a = vmem s a)"
  by (induction cs arbitrary: s) (simp_all add: put_on_screen put_frame)

text \<open>A line of text that fits behind the cursor appears there.\<close>

lemma puts_line:
  assumes "on_screen (pos s)" and "\<forall>c\<in>set cs. \<not> is_newline c"
    and "fst (pos s) + int (length cs) < 80"
  shows "pos (fold put cs s) = (fst (pos s) + int (length cs), snd (pos s))
    \<and> (\<forall>i<length cs. vmem (fold put cs s) (cell_addr base (cursor_index (pos s) + int i)) = cs ! i)
    \<and> (\<forall>j. 0 \<le> j \<and> j < cursor_index (pos s) \<longrightarrow>
          vmem (fold put cs s) (cell_addr base j) = vmem s (cell_addr base j))"
  using assms
proof (induction cs arbitrary: s)
  case Nil
  then show ?case by simp
next
  case (Cons c cs)
  let ?s = "put c s" and ?i = "cursor_index (pos s)"
  have c: "\<not> is_newline c" using Cons.prems(2) by simp
  have x: "fst (pos s) + 1 < 80" using Cons.prems(3) by simp
  have s: "vmem ?s = put_cell base ?i c ATTRIB (vmem s)"
      "pos ?s = (fst (pos s) + 1, snd (pos s))"
    using put_char [OF c Cons.prems(1)] x Cons.prems(1) by (simp_all add: on_screen_def)
  have idx: "cursor_index (fst (pos s) + 1, snd (pos s)) = ?i + 1" by (simp add: cursor_index_def)
  have b: "0 \<le> ?i" "?i < 1920" using cursor_index_bounds [OF Cons.prems(1)] by simp_all
  have "on_screen (pos ?s)" using Cons.prems(1) by (rule put_on_screen)
  with Cons.IH [of ?s] Cons.prems
  have IH: "pos (fold put cs ?s) = (fst (pos s) + 1 + int (length cs), snd (pos s))"
    "\<And>i. i < length cs \<Longrightarrow> vmem (fold put cs ?s) (cell_addr base (?i + 1 + int i)) = cs ! i"
    "\<And>j. 0 \<le> j \<Longrightarrow> j < ?i + 1 \<Longrightarrow> vmem (fold put cs ?s) (cell_addr base j) = vmem ?s (cell_addr base j)"
    by (simp_all add: s(2) idx)
  have "vmem (fold put (c # cs) s) (cell_addr base (?i + int i)) = (c # cs) ! i"
    if i: "i < length (c # cs)" for i
  proof (cases i)
    case 0
    with IH(3) [of ?i] b show ?thesis by (simp add: s(1))
  next
    case (Suc k)
    with IH(2) [of k] i show ?thesis by (simp add: algebra_simps)
  qed
  moreover have "vmem (fold put (c # cs) s) (cell_addr base j) = vmem s (cell_addr base j)"
    if "0 \<le> j \<and> j < ?i" for j
    using IH(3) [of j] that b by (simp add: s(1) put_cell_other)
  ultimately show ?case using IH(1) by simp
qed

end

section \<open>putc implements the contract\<close>

definition console_pos :: "'a console_state_scheme \<Rightarrow> int \<times> int" where
  "console_pos s = (screen_x s, screen_y s)"

interpretation con: char_screen console_pos putc mem VIDEO
proof unfold_locales
  fix c and s :: "'a console_state_scheme"
  assume "is_newline c" "on_screen (console_pos s)"
  then show "mem (putc c s) = mem s \<and> console_pos (putc c s) = (0, (snd (console_pos s) + 1) mod 24)"
    by (auto simp: console_pos_def is_newline_def putc_def on_screen_def NUM_COLS_def NUM_ROWS_def
        STATUS_BAR_HEIGHT_def)
next
  fix c and s :: "'a console_state_scheme"
  assume "\<not> is_newline c" "on_screen (console_pos s)"
  then show "mem (putc c s) = put_cell VIDEO (cursor_index (console_pos s)) c ATTRIB (mem s)
      \<and> console_pos (putc c s) = ((fst (console_pos s) + 1) mod 80,
          (snd (console_pos s) + (fst (console_pos s) + 1) div 80) mod 24)"
    by (auto simp: console_pos_def is_newline_def putc_def on_screen_def NUM_COLS_def NUM_ROWS_def
        STATUS_BAR_HEIGHT_def cursor_index_def)
qed

section \<open>Strings\<close>

lemma putc_frame [frame_simps, simp]:
  "io_log (putc c s) = io_log s" "io_dev (putc c s) = io_dev s"
  "master_mask (putc c s) = master_mask s" "slave_mask (putc c s) = slave_mask s"
  "console_state.more (putc c s) = console_state.more s"
  by (simp_all add: putc_def Let_def)

lemma fold_putc_io [frame_simps, simp]: "io_log (fold putc cs s) = io_log s"
  by (induction cs arbitrary: s) simp_all

lemma puts_spec: "0 \<notin> set bs \<Longrightarrow> puts (bs @ 0 # r) s = Some (int (length bs), fold putc bs s)"
  by (induction bs arbitrary: s) auto

lemma puts_c_string:
  "puts cs s = (if 0 \<in> set cs
     then Some (int (length (c_string cs)), fold putc (c_string cs) s) else None)"
  by (induction cs arbitrary: s) (auto simp: c_string_def)

section \<open>Numbers\<close>

lemma fold_fill:
  "m \<le> k \<Longrightarrow> k \<le> length b \<Longrightarrow>
   fold (\<lambda>i b. b[i := x]) [m..<k] b = take m b @ replicate (k - m) x @ drop k b"
proof (induction k)
  case 0
  then show ?case by simp
next
  case (Suc k)
  show ?case
  proof (cases "m = Suc k")
    case True
    then show ?thesis by simp
  next
    case False
    with Suc have "fold (\<lambda>i b. b[i := x]) [m..<Suc k] b
        = (take m b @ replicate (k - m) x @ drop k b)[k := x]" by simp
    also have "\<dots> = take m b @ replicate (k - m) x @ x # drop (Suc k) b"
      using Suc.prems False by (simp add: list_update_append Cons_nth_drop_Suc [symmetric])
    finally show ?thesis
      using Suc.prems False replicate_append_same [of "k - m" x] by (simp add: Suc_diff_le)
  qed
qed

lemma length_numeral_16: "length (numeral_of 16 (unat (v :: u32))) \<le> 8"
proof -
  have "unat v < 16 ^ 8" using unat_lt_32 [of v] by simp
  then show ?thesis
    using radix_digits_length [of 16 "unat v" 8] by (simp add: numeral_of_def)
qed

lemma length_numeral_10: "length (numeral_of 10 (unat (v :: u32))) \<le> 10"
proof -
  have "unat v < 10 ^ 10" using unat_lt_32 [of v] by simp
  then show ?thesis
    using radix_digits_length [of 10 "unat v" 10] by (simp add: numeral_of_def)
qed

lemma length_stack_junk [simp]: "length (stack_junk n) = n"
  by (simp add: stack_junk_def)

definition hex8 :: "u32 \<Rightarrow> u8 list" where
  "hex8 v = replicate (8 - length (numeral_of 16 (unat v))) 48 @ numeral_of 16 (unat v)"

lemma conv_x_alternate: "\<exists>r. conv_x True v = Some (hex8 v @ 0 # r)"
proof -
  let ?s = "numeral_of 16 (unat v)"
  let ?tail = "?s @ 0 # drop (Suc (length ?s)) (drop 8 (stack_junk 64))"
  have len: "length ?s \<le> 8" by (rule length_numeral_16)
  then have "itoa v (drop 8 (stack_junk 64)) 16 = Some ?tail"
    using itoa_spec [of 16 v "drop 8 (stack_junk 64)"] by (simp add: Let_def)
  moreover have "strlen ?tail = Some (length ?s)"
    using numeral_of_props(2) [of 16 "unat v"] by simp
  moreover have "drop (length ?s) (fill_zeros (take 8 (stack_junk 64) @ ?tail) (length ?s))
      = hex8 v @ 0 # drop (Suc (length ?s)) (drop 8 (stack_junk 64))"
    using len fold_fill [of "length ?s" 8 "take 8 (stack_junk 64) @ ?tail" 48]
    by (simp add: fill_zeros_def hex8_def)
  ultimately show ?thesis by (simp add: conv_x_def Let_def del: drop_append)
qed

lemma parse_radix_zeros: "parse_radix r (replicate n 48 @ cs) = parse_radix r cs"
proof -
  have "digit_value 48 = 0" by (simp add: digit_value_def)
  then have "parse_radix r (replicate n 48) = 0"
    by (induction n) (simp_all add: parse_radix_def)
  then show ?thesis by (simp add: parse_radix_def)
qed

lemma hex8_props: "length (hex8 v) = 8" "parse_radix 16 (hex8 v) = unat v" "0 \<notin> set (hex8 v)"
  using length_numeral_16 [of v] numeral_of_props [of 16 "unat v"]
  by (simp_all add: hex8_def parse_radix_zeros)

section \<open>What formatted output prints\<close>

text \<open>
  The decimal numeral of a signed value, and the conversions in terms of numerals.
\<close>

definition dec_numeral :: "u32 \<Rightarrow> u8 list" where
  "dec_numeral v = (if sint v < 0 then 45 # numeral_of 10 (unat (- v)) else numeral_of 10 (unat v))"

lemma itoa_numeral:
  assumes "2 \<le> unat r" "unat r \<le> 36" "length (numeral_of (unat r) (unat v)) < length buf"
  shows "\<exists>tail. itoa v buf r = Some (numeral_of (unat r) (unat v) @ 0 # tail)"
  using itoa_spec [OF assms] by (simp add: Let_def)

lemma conv_x_plain: "\<exists>r. conv_x False v = Some (numeral_of 16 (unat v) @ 0 # r)"
  using itoa_numeral [of 16 v "stack_junk 64"] length_numeral_16 [of v] by (simp add: conv_x_def)

lemma conv_u_spec: "\<exists>r. conv_u v = Some (numeral_of 10 (unat v) @ 0 # r)"
  using itoa_numeral [of 10 v "stack_junk 36"] length_numeral_10 [of v] by (simp add: conv_u_def)

lemma conv_d_spec: "\<exists>r. conv_d v = Some (dec_numeral v @ 0 # r)"
  using itoa_numeral [of 10 v "stack_junk 36"] itoa_numeral [of 10 "- v" "tl (stack_junk 36)"]
    length_numeral_10 [of v] length_numeral_10 [of "- v"]
  by (auto simp: conv_d_def dec_numeral_def)

lemma numerals_no_nul:
  "0 \<notin> set (numeral_of 16 n)" "0 \<notin> set (numeral_of 10 n)" "0 \<notin> set (dec_numeral w)"
  using numeral_of_props(2) [of 16] numeral_of_props(2) [of 10] by (simp_all add: dec_numeral_def)

text \<open>Converting and printing, with any continuation.\<close>

lemma puts_conv:
  "conv_x alternate v \<bind> (\<lambda>out. puts out s \<bind> k)
     = (let ds = if alternate then hex8 v else numeral_of 16 (unat v)
        in k (int (length ds), fold putc ds s))"
  "conv_u v \<bind> (\<lambda>out. puts out s \<bind> k)
     = (let ds = numeral_of 10 (unat v) in k (int (length ds), fold putc ds s))"
  "conv_d v \<bind> (\<lambda>out. puts out s \<bind> k)
     = (let ds = dec_numeral v in k (int (length ds), fold putc ds s))"
proof -
  obtain r1 r2 r3 r4 where r:
    "conv_x True v = Some (hex8 v @ 0 # r1)"
    "conv_x False v = Some (numeral_of 16 (unat v) @ 0 # r2)"
    "conv_u v = Some (numeral_of 10 (unat v) @ 0 # r3)"
    "conv_d v = Some (dec_numeral v @ 0 # r4)"
    using conv_x_alternate conv_x_plain conv_u_spec conv_d_spec by metis
  show "conv_x alternate v \<bind> (\<lambda>out. puts out s \<bind> k)
     = (let ds = if alternate then hex8 v else numeral_of 16 (unat v)
        in k (int (length ds), fold putc ds s))"
    using puts_spec [of "hex8 v" r1 s] puts_spec [of "numeral_of 16 (unat v)" r2 s]
    by (cases alternate) (simp_all add: r hex8_props(3) numerals_no_nul Let_def)
  show "conv_u v \<bind> (\<lambda>out. puts out s \<bind> k)
     = (let ds = numeral_of 10 (unat v) in k (int (length ds), fold putc ds s))"
    using puts_spec [of "numeral_of 10 (unat v)" r3 s]
    by (simp add: r numerals_no_nul Let_def)
  show "conv_d v \<bind> (\<lambda>out. puts out s \<bind> k)
     = (let ds = dec_numeral v in k (int (length ds), fold putc ds s))"
    using puts_spec [of "dec_numeral v" r4 s] by (simp add: r numerals_no_nul Let_def)
qed

text \<open>
  The reference for \<open>printf\<close>: the text a format and its arguments stand for, with the number
  of format characters used, computed without a screen and without conversion buffers.
\<close>

fun render_text :: "u8 list \<Rightarrow> printf_arg list \<Rightarrow> (int \<times> u8 list) option"
  and render_conv :: "bool \<Rightarrow> u8 list \<Rightarrow> printf_arg list \<Rightarrow> (int \<times> u8 list) option" where
  "render_text [] args = None"
| "render_text (c # f) args =
     (if c = 0 then Some (0, [])
      else map_option (\<lambda>(n, bs). (n + 1, bs))
        (if c = 37 then render_conv False f args
         else map_option (\<lambda>(n, bs). (n, c # bs)) (render_text f args)))"
| "render_conv alternate [] args = None"
| "render_conv alternate (c # f) args =
     map_option (\<lambda>(n, bs). (n + 1, bs))
      (if c = 35 then render_conv True f args
       else if c = 37 then map_option (\<lambda>(n, bs). (n, 37 # bs)) (render_text f args)
       else if c \<in> {120, 117, 100, 99} then
         (case args of
            PNum v # rest \<Rightarrow>
              map_option (\<lambda>(n, bs). (n,
                 (if c = 120 then (if alternate then hex8 v else numeral_of 16 (unat v))
                  else if c = 117 then numeral_of 10 (unat v)
                  else if c = 100 then dec_numeral v
                  else [ucast v]) @ bs)) (render_text f rest)
          | _ \<Rightarrow> None)
       else if c = 115 then
         (case args of
            PStr str # rest \<Rightarrow>
              (if 0 \<in> set str
               then map_option (\<lambda>(n, bs). (n, c_string str @ bs)) (render_text f rest) else None)
          | _ \<Rightarrow> None)
       else render_text f args)"

lemma printf_text_render:
  "printf_text f args s = map_option (\<lambda>(n, bs). (n, fold putc bs s)) (render_text f args)"
  "printf_conv alternate f args s
     = map_option (\<lambda>(n, bs). (n, fold putc bs s)) (render_conv alternate f args)"
proof (induction f arbitrary: alternate args s)
  case Nil
  case 1 show ?case by simp
  case 2 show ?case by simp
next
  case (Cons c f)
  case 1 show ?case
    by (simp add: Cons.IH option.map_comp comp_def case_prod_unfold)
  case 2
  have "args = [] \<or> (\<exists>v rest. args = PNum v # rest) \<or> (\<exists>str rest. args = PStr str # rest)"
    by (metis list.exhaust printf_arg.exhaust)
  then show ?case
    unfolding printf_conv.simps render_conv.simps puts_conv Cons.IH Let_def
    by (elim disjE exE)
      (simp_all add: puts_c_string option.map_comp comp_def case_prod_unfold)
qed

text \<open>
  C20. \<open>printf\<close> prints what its format stands for: the screen after it is the screen after
  printing the rendered text character by character, and it returns the length of the format;
  it has a result exactly when the rendering has one (enough arguments of the right kinds).
\<close>

theorem printf_renders:
  "printf format args s = map_option (\<lambda>(n, bs). (n, fold putc bs s)) (render_text format args)"
  unfolding printf_def by (rule printf_text_render(1))

text \<open>
  C34. Whatever the format and the arguments, if \<open>printf\<close> returns then the cursor is still on
  the 24 text rows, and no byte outside them (in particular the status bar) and no port was
  touched.
\<close>

theorem printf_stays_on_text_rows:
  assumes "printf format args s = Some (n, t)" and "on_screen (console_pos s)"
  shows "on_screen (console_pos t) \<and> (\<forall>a. \<not> in_range a VIDEO 3840 \<longrightarrow> mem t a = mem s a)
    \<and> io_log t = io_log s"
proof -
  obtain bs where "t = fold putc bs s"
    using assms(1) by (auto simp: printf_def printf_text_render(1))
  with con.puts_safe [OF assms(2), of bs] show ?thesis by simp
qed

definition blank_console :: "unit console_state_scheme" where
  "blank_console = \<lparr>mem = (\<lambda>_. 0), io_log = [], io_dev = (\<lambda>_ _. 0),
     master_mask = 0xFF, slave_mask = 0xFF, screen_x = 79, screen_y = 23\<rparr>"

theorem printf_stays_on_text_rows_witness:
  "\<exists>n t. printf (cstr ''n=%d%%'') [PNum 12] blank_console = Some (n, t)
     \<and> on_screen (console_pos t)"
proof -
  have "render_text (cstr ''n=%d%%'') [PNum 12] \<noteq> None"
    by (simp add: cstr_def chars_def)
  then obtain n t where "printf (cstr ''n=%d%%'') [PNum 12] blank_console = Some (n, t)"
    by (auto simp: printf_def printf_text_render(1))
  moreover have "on_screen (console_pos blank_console)"
    by (simp add: blank_console_def console_pos_def on_screen_def)
  ultimately show ?thesis
    using printf_stays_on_text_rows [of "cstr ''n=%d%%''" "[PNum 12]" blank_console n t] by blast
qed

section \<open>Padded hexadecimal\<close>

text \<open>
  \<open>printf("%#x", v)\<close> prints exactly eight characters, the hexadecimal numeral of \<open>v\<close>
  padded with zeros on the left, and returns the length of the format.
\<close>

theorem printf_hex_padded:
  "\<exists>ds. printf (cstr ''%#x'') [PNum v] s = Some (3, fold putc ds s)
     \<and> length ds = 8 \<and> parse_radix 16 ds = unat v"
proof -
  obtain r where "conv_x True v = Some (hex8 v @ 0 # r)" using conv_x_alternate by blast
  then show ?thesis
    using hex8_props [of v] puts_spec [of "hex8 v" r s]
    by (intro exI [of _ "hex8 v"]) (simp add: printf_def cstr_def chars_def)
qed

section \<open>The clock\<close>

definition two_digits :: "nat \<Rightarrow> u8 list" where
  "two_digits v = [digit_char (v div 10), digit_char (v mod 10)]"

definition clock_text :: "u8 \<Rightarrow> u8 \<Rightarrow> u8 \<Rightarrow> u8 list" where
  "clock_text h m sec =
     two_digits (unat h) @ [58] @ two_digits (unat m) @ [58] @ two_digits (unat sec)"

lemma length_clock_text: "length (clock_text h m sec) = 8"
  by (simp add: clock_text_def two_digits_def)

lemma numeral_of_small:
  "v < 10 \<Longrightarrow> numeral_of 10 v = [digit_char v]"
  "10 \<le> v \<Longrightarrow> v < 100 \<Longrightarrow> numeral_of 10 v = two_digits v"
  by (auto simp: numeral_of_def two_digits_def radix_digits.simps)

lemma digit_char_0: "digit_char 0 = 48"
  by (simp add: digit_char_def itoa_lookup_eval)

lemma clock_digits_spec:
  assumes "unat v < 100"
  shows "\<exists>r. clock_digits v = Some (two_digits (unat v) @ r)"
proof -
  have u: "unat (ucast v :: u32) = unat v" by (simp add: unsigned_ucast_eq take_bit_nat_eq_self unat_lt_8 [THEN less_le_trans])
  show ?thesis
  proof (cases "v < 10")
    case True
    then have "unat v < 10" by (simp add: word_less_nat_alt)
    then show ?thesis
      using itoa_numeral [of 10 "ucast v" "[48, hd (stack_junk 1)]"] True
      by (auto simp: clock_digits_def u numeral_of_small two_digits_def digit_char_0)
  next
    case False
    then have "10 \<le> unat v" by (simp add: word_less_nat_alt)
    then show ?thesis
      using itoa_numeral [of 10 "ucast v" "[48, 48, hd (stack_junk 1)]"] False assms
      by (auto simp: clock_digits_def u numeral_of_small two_digits_def)
  qed
qed

lemma draw_clock_page_cells:
  "draw_clock_page [a, b, c, d, e, f, g, h] p m =
     put_cell p 1998 h 7 (put_cell p 1997 g 7 (put_cell p 1996 f 7 (put_cell p 1995 e 7
      (put_cell p 1994 d 7 (put_cell p 1993 c 7 (put_cell p 1992 b 7 (put_cell p 1991 a 7 m)))))))"
  by (simp add: draw_clock_page_def screen_consts upto.simps)

lemma all_less_8: "(\<forall>i<8. P i) \<longleftrightarrow> P 0 \<and> P 1 \<and> P 2 \<and> P 3 \<and> P 4 \<and> P 5 \<and> P 6 \<and> P (7::nat)"
proof -
  have "(\<forall>i<8. P i) \<longleftrightarrow> (\<forall>i\<in>set [0..<8]. P i)" by auto
  then show ?thesis by (simp add: upt_rec numeral_eq_Suc)
qed

lemma clock_cell_in_range:
  assumes "k < 8"
  shows "in_range (cell_addr p (1991 + int k)) (cell_addr p 1991) 16"
    and "in_range (cell_addr p (1991 + int k) + 1) (cell_addr p 1991) 16"
  using assms in_range_offset [of "2 * k" 16 "cell_addr p 1991"]
    in_range_offset [of "2 * k + 1" 16 "cell_addr p 1991"]
  by (simp_all add: cell_addr_def algebra_simps)

lemma put_cell_clock:
  "k < 8 \<Longrightarrow> \<not> in_range a (cell_addr p 1991) 16 \<Longrightarrow>
   put_cell p (1991 + int k) c attr m a = m a"
  using clock_cell_in_range [of k p] by (auto simp: put_cell_def)

lemma draw_clock_page_frame:
  assumes "length tb = 8" and out: "\<not> in_range a (cell_addr p 1991) 16"
  shows "draw_clock_page tb p m a = m a"
proof -
  obtain b c d e f g h i where tb: "tb = [b, c, d, e, f, g, h, i]"
    using assms(1) by (auto simp: length_Suc_conv numeral_eq_Suc)
  have "put_cell p (1991 + int k) ch attr m' a = m' a" if "k < 8" for k ch attr m'
    using that out by (rule put_cell_clock)
  from this [of 0] this [of 1] this [of 2] this [of 3] this [of 4] this [of 5] this [of 6] this [of 7]
  show ?thesis by (simp add: tb draw_clock_page_cells)
qed

lemma draw_clock_page_shows:
  assumes "length tb = 8"
  shows "\<forall>i<8. draw_clock_page tb p m (cell_addr p (1991 + int i)) = tb ! i"
proof -
  obtain b c d e f g h i where tb: "tb = [b, c, d, e, f, g, h, i]"
    using assms(1) by (auto simp: length_Suc_conv numeral_eq_Suc)
  show ?thesis
    unfolding all_less_8 tb draw_clock_page_cells by (simp add: put_cell_other)
qed

lemma clock_page_apart:
  "\<forall>i<8. \<not> in_range (cell_addr p (1991 + int i)) (cell_addr q 1991) 16"
  if "q - p \<in> {0x1000, 0x2000, 0x3000, - 0x1000, - 0x2000, - 0x3000}"
proof -
  have d: "cell_addr p (1991 + int i) - cell_addr q 1991 = of_nat (2 * i) - (q - p)" for i
    by (simp add: cell_addr_def algebra_simps)
  from that show ?thesis
    unfolding in_range_def all_less_8 d by (elim insertE) simp_all
qed

definition clock_pages :: "u32 list" where
  "clock_pages = [0xB8000, 0xB9000, 0xBA000, 0xBB000]"

lemma clock_drawn:
  assumes "unat h < 100" and "unat m < 100" and "unat sec < 100"
  shows "\<exists>t. update_status_bar_time h m sec s = Some t
    \<and> (\<forall>p\<in>set clock_pages. \<forall>i<8. mem t (cell_addr p (1991 + int i)) = clock_text h m sec ! i)
    \<and> (\<forall>a. (\<forall>p\<in>set clock_pages. \<not> in_range a (cell_addr p 1991) 16) \<longrightarrow> mem t a = mem s a)"
proof -
  obtain r1 r2 r3 where d: "clock_digits h = Some (two_digits (unat h) @ r1)"
    "clock_digits m = Some (two_digits (unat m) @ r2)"
    "clock_digits sec = Some (two_digits (unat sec) @ r3)"
    using assms clock_digits_spec by metis
  let ?m = "fold (draw_clock_page (clock_text h m sec)) clock_pages (mem s)"
  have upd: "update_status_bar_time h m sec s = Some (s\<lparr>mem := ?m\<rparr>)"
    by (simp add: update_status_bar_time_def Let_def d two_digits_def clock_text_def clock_pages_def)
  have shown: "\<forall>p\<in>set clock_pages. \<forall>i<8. ?m (cell_addr p (1991 + int i)) = clock_text h m sec ! i"
    using draw_clock_page_shows [of "clock_text h m sec"]
    by (simp add: clock_pages_def length_clock_text draw_clock_page_frame clock_page_apart)
  have "?m a = mem s a" if "\<forall>p\<in>set clock_pages. \<not> in_range a (cell_addr p 1991) 16" for a
    using that by (simp add: clock_pages_def draw_clock_page_frame length_clock_text)
  with upd shown show ?thesis by auto
qed

text \<open>
  For times of two-digit fields the clock is drawn: on each of the four video pages
  (physical memory and the three backing pages) columns 71 to 78 of the status row read
  HH:MM:SS, and no byte outside those cells changes.
\<close>

theorem update_status_bar_time_shows:
  assumes "unat h < 100" and "unat m < 100" and "unat sec < 100"
  shows "\<exists>t. update_status_bar_time h m sec s = Some t
    \<and> (\<forall>p\<in>set clock_pages. \<forall>i<8. mem t (cell_addr p (1991 + int i)) = clock_text h m sec ! i)
    \<and> (\<forall>a. (\<forall>p\<in>set clock_pages. \<not> in_range a (cell_addr p 1991) 16) \<longrightarrow> mem t a = mem s a)"
  using assms by (rule clock_drawn)

theorem update_status_bar_time_shows_witness:
  "\<exists>t. update_status_bar_time 23 59 7 blank_console = Some t
    \<and> mem t (cell_addr 0xB8000 1991) = 50 \<and> mem t 0xB8000 = 0"
proof -
  obtain t where t: "update_status_bar_time 23 59 7 blank_console = Some t"
    "\<forall>p\<in>set clock_pages. \<forall>i<8. mem t (cell_addr p (1991 + int i)) = clock_text 23 59 7 ! i"
    "\<forall>a. (\<forall>p\<in>set clock_pages. \<not> in_range a (cell_addr p 1991) 16) \<longrightarrow>
       mem t a = mem blank_console a"
    using update_status_bar_time_shows [of 23 59 7 blank_console] by auto
  have "\<forall>i<8. mem t (cell_addr 0xB8000 (1991 + int i)) = clock_text 23 59 7 ! i"
    using bspec [OF t(2), of "0xB8000"] by (simp add: clock_pages_def)
  from spec [OF this, of 0] have "mem t (cell_addr 0xB8000 1991) = clock_text 23 59 7 ! 0" by simp
  moreover have "mem t 0xB8000 = mem blank_console 0xB8000"
    using t(3) by (simp add: clock_pages_def in_range_def cell_addr_def)
  ultimately show ?thesis using t(1)
    by (simp add: clock_text_def two_digits_def digit_char_def itoa_lookup_eval blank_console_def)
qed

end
