(* ===== verification/FileSystem.thy ===== *)
theory FileSystem
  imports Console MemLib
begin

text \<open>
  The file system of \<open>src/fs/fs.c\<close>: an image in memory, found at \<open>fs_boot_block\<close>, of 4096-byte
  blocks. Block 0 is the boot block (counts and up to 63 directory entries of 64 bytes), then
  \<open>num_inodes\<close> inode blocks (the length and 1023 data block numbers), then the data blocks.
  The bitmaps of claimed inodes and data blocks are kernel globals beside it.

  The image is modelled byte by byte in the machine's memory, with the addresses the pointer
  arithmetic of the C code gives. An access to one of the C arrays out of its bounds has no
  defined result (\<open>None\<close>). File names are given as the bytes at the pointer. A \<open>dentry_t\<close>
  local variable filled through a pointer is a \<open>dentry\<close> value passed in and returned.

  The abstract view is \<open>file_contents\<close>, the bytes of a file as one list. The theorems relate
  reading and writing through block numbers to it, describe the lookup of names, and give the
  allocator its contract (locale \<open>bitmap_allocator\<close>).
\<close>

section \<open>Layout\<close>

definition FS_BLK_SIZE :: u32 where "FS_BLK_SIZE = 4096"
definition MAX_FILENAME_LENGTH :: nat where "MAX_FILENAME_LENGTH = 32"
definition MAX_BLOCKS_IN_INODE :: nat where "MAX_BLOCKS_IN_INODE = 1023"
definition NUM_DENTRIES :: nat where "NUM_DENTRIES = 63"
definition MAX_INODES :: nat where "MAX_INODES = 64"
definition MAX_DATA_BLOCKS :: nat where "MAX_DATA_BLOCKS = 59"
definition FS_TYPE_RTC :: u32 where "FS_TYPE_RTC = 0"
definition FS_TYPE_DIR :: u32 where "FS_TYPE_DIR = 1"
definition FS_TYPE_FILE :: u32 where "FS_TYPE_FILE = 2"
definition NOT_FOUND :: i32 where "NOT_FOUND = -1"
definition FOUND :: i32 where "FOUND = 0"

lemmas fs_consts = FS_BLK_SIZE_def MAX_FILENAME_LENGTH_def MAX_BLOCKS_IN_INODE_def
  NUM_DENTRIES_def MAX_INODES_def MAX_DATA_BLOCKS_def FS_TYPE_RTC_def FS_TYPE_DIR_def
  FS_TYPE_FILE_def NOT_FOUND_def FOUND_def

record dentry =
  file_name :: "u8 list"
  file_type :: u32
  inode_num :: u32
  reserved :: "u8 list"

record fs_state = console_state +
  fs_boot_block :: u32
  data_block_bitmap :: "u8 list"
  inode_bitmap :: "u8 list"

text \<open>Fields of the boot block and of an inode, at their offsets.\<close>

definition num_dir_entries :: "'a fs_state_scheme \<Rightarrow> u32" where
  "num_dir_entries s = load32 (mem s) (fs_boot_block s)"

definition num_inodes :: "'a fs_state_scheme \<Rightarrow> u32" where
  "num_inodes s = load32 (mem s) (fs_boot_block s + 4)"

definition num_data_blocks :: "'a fs_state_scheme \<Rightarrow> u32" where
  "num_data_blocks s = load32 (mem s) (fs_boot_block s + 8)"

definition directory_entry :: "u32 \<Rightarrow> nat \<Rightarrow> u32 option" where
  "directory_entry base i = (if i < NUM_DENTRIES then Some (base + 64 + 64 * of_nat i) else None)"

definition load_dentry :: "mem \<Rightarrow> u32 \<Rightarrow> dentry" where
  "load_dentry m a = \<lparr>file_name = load_bytes m a MAX_FILENAME_LENGTH,
     file_type = load32 m (a + 0x20), inode_num = load32 m (a + 0x24),
     reserved = load_bytes m (a + 0x28) 24\<rparr>"

text \<open>\<open>fs_boot_block + n\<close>: the address of the \<open>n\<close>th block of the image.\<close>

definition block_at :: "u32 \<Rightarrow> u32 \<Rightarrow> u32" where
  "block_at base n = base + n * FS_BLK_SIZE"

definition file_length :: "u32 \<Rightarrow> mem \<Rightarrow> u32" where
  "file_length inode_ptr m = load32 m inode_ptr"

definition data_block_slot :: "u32 \<Rightarrow> u32 \<Rightarrow> u32 option" where
  "data_block_slot inode_ptr j =
     (if unat j < MAX_BLOCKS_IN_INODE then Some (inode_ptr + 4 + 4 * j) else None)"

definition data_blocks_idx :: "u32 \<Rightarrow> u32 \<Rightarrow> mem \<Rightarrow> u32 option" where
  "data_blocks_idx inode_ptr j m = map_option (load32 m) (data_block_slot inode_ptr j)"

section \<open>Directory entries\<close>

text \<open>
  The character loop of \<open>read_dentry_by_name\<close>: \<open>Some True\<close> when \<open>status_flag\<close> stays
  \<open>FILENAME_MATCH\<close>.
\<close>

function names_match :: "u8 list \<Rightarrow> u8 list \<Rightarrow> nat \<Rightarrow> bool option" where
  "names_match fname dentry_file_name ch_idx =
     (if MAX_FILENAME_LENGTH \<le> ch_idx then Some True
      else do {
        c \<leftarrow> peek fname ch_idx;
        d \<leftarrow> peek dentry_file_name ch_idx;
        if c \<noteq> d then Some False
        else if c = 0 then Some True
        else if ch_idx = MAX_FILENAME_LENGTH - 1 then do {
          e \<leftarrow> peek fname MAX_FILENAME_LENGTH;
          if e \<noteq> 0 then Some False else names_match fname dentry_file_name (ch_idx + 1)
        }
        else names_match fname dentry_file_name (ch_idx + 1)
      })"
  by pat_completeness auto
termination by (relation "measure (\<lambda>(_, _, i). MAX_FILENAME_LENGTH - i)") auto

text \<open>
  The loop over the entries. \<open>dentry_idx\<close> is a \<open>uint8_t\<close>; it cannot wrap before it leaves the
  array of 63 entries.
\<close>

function find_dentry :: "u8 list \<Rightarrow> dentry \<Rightarrow> 'a fs_state_scheme \<Rightarrow> nat \<Rightarrow> (i32 \<times> dentry) option" where
  "find_dentry fname dentry s dentry_idx =
     (if unat (num_dir_entries s) \<le> dentry_idx then Some (NOT_FOUND, dentry)
      else do {
        entry \<leftarrow> directory_entry (fs_boot_block s) dentry_idx;
        matched \<leftarrow> names_match fname (load_bytes (mem s) entry MAX_FILENAME_LENGTH) 0;
        if matched then Some (FOUND, load_dentry (mem s) entry)
        else find_dentry fname dentry s (dentry_idx + 1)
      })"
  by pat_completeness auto
termination
  by (relation "measure (\<lambda>(_, _, s, i). unat (num_dir_entries s) - i)") auto

declare names_match.simps [simp del] find_dentry.simps [simp del]

definition read_dentry_by_name :: "u8 list \<Rightarrow> dentry \<Rightarrow> 'a fs_state_scheme \<Rightarrow> (i32 \<times> dentry) option" where
  "read_dentry_by_name fname dentry s = find_dentry fname dentry s 0"

text \<open>\<open>index > dir_count - 1\<close> is an unsigned comparison: with no entries the bound wraps.\<close>

definition read_dentry_by_index :: "u32 \<Rightarrow> dentry \<Rightarrow> 'a fs_state_scheme \<Rightarrow> (i32 \<times> dentry) option" where
  "read_dentry_by_index index dentry s =
     (if index > num_dir_entries s - 1 then Some (NOT_FOUND, dentry)
      else do {
        entry \<leftarrow> directory_entry (fs_boot_block s) (unat index);
        Some (FOUND, load_dentry (mem s) entry)
      })"

definition get_file_size :: "dentry \<Rightarrow> 'a fs_state_scheme \<Rightarrow> u32" where
  "get_file_size entry s =
     (if inode_num entry > num_inodes s - 1 then NOT_FOUND
      else file_length (block_at (fs_boot_block s) (inode_num entry + 1)) (mem s))"

section \<open>Reading data\<close>

text \<open>
  The copy loop. \<open>base\<close>, \<open>inode_ptr\<close>, \<open>inode_count\<close> and \<open>data_block_count\<close> do not change in it.
  The index of the next block is always \<open>++inode_data_block_idx\<close>, counted from 0.
\<close>

partial_function (option) read_loop ::
  "u32 \<Rightarrow> u32 \<Rightarrow> u32 \<Rightarrow> u32 \<Rightarrow> u32 \<Rightarrow> u32 \<Rightarrow> u32 \<Rightarrow> u32 \<Rightarrow> u32 \<Rightarrow> u32 \<Rightarrow> mem \<Rightarrow> (u32 \<times> mem) option" where
  "read_loop base inode_ptr inode_count data_block_count buf
       bytes_read bytes_remaining inode_data_block_idx curr_offset data m =
     (if bytes_remaining = 0 then Some (bytes_read, m)
      else
        let rest = FS_BLK_SIZE - curr_offset;
            bytes_to_copy = (if bytes_remaining < rest then bytes_remaining else rest);
            m = memcpy (buf + bytes_read) (data + curr_offset) bytes_to_copy m;
            bytes_read = bytes_read + bytes_to_copy;
            bytes_remaining = bytes_remaining - bytes_to_copy;
            inode_data_block_idx = inode_data_block_idx + 1
        in do {
          datablk_idx \<leftarrow> data_blocks_idx inode_ptr inode_data_block_idx m;
          if datablk_idx > data_block_count - 1 then Some (bytes_read, m)
          else read_loop base inode_ptr inode_count data_block_count buf
                 bytes_read bytes_remaining inode_data_block_idx 0
                 (block_at base (1 + inode_count + datablk_idx)) m
        })"

definition read_data :: "u32 \<Rightarrow> u32 \<Rightarrow> u32 \<Rightarrow> u32 \<Rightarrow> 'a fs_state_scheme
    \<Rightarrow> (i32 \<times> 'a fs_state_scheme) option" where
  "read_data inode offset buf n s =
     (let inode_count = num_inodes s in
      if inode > inode_count - 1 then Some (NOT_FOUND, s)
      else
        let inode_ptr = block_at (fs_boot_block s) (inode + 1);
            flen = file_length inode_ptr (mem s) in
        if offset \<ge> flen then Some (0, s)
        else
          let max_length = (if flen < n + offset then flen - offset else n);
              curr_offset = offset mod FS_BLK_SIZE;
              curr_idx_offset = offset div FS_BLK_SIZE;
              data_block_count = num_data_blocks s
          in do {
            datablk_idx \<leftarrow> data_blocks_idx inode_ptr curr_idx_offset (mem s);
            if datablk_idx > data_block_count - 1 then Some (-1, s)
            else do {
              (bytes_read, m) \<leftarrow> read_loop (fs_boot_block s) inode_ptr inode_count data_block_count
                 buf 0 max_length 0 curr_offset
                 (block_at (fs_boot_block s) (1 + inode_count + datablk_idx)) (mem s);
              Some (bytes_read, s\<lparr>mem := m\<rparr>)
            }
          })"

section \<open>Allocation\<close>

text \<open>
  The two claiming loops, over the positions from \<open>i\<close> on. Both run to \<open>MAX_DATA_BLOCKS\<close>.
  They return the claimed index or -1.
\<close>

function claim_from :: "nat \<Rightarrow> u8 list \<Rightarrow> (i32 \<times> u8 list) option" where
  "claim_from i bitmap =
     (if MAX_DATA_BLOCKS \<le> i then Some (-1, bitmap)
      else do {
        b \<leftarrow> peek bitmap i;
        if b = 0 then do { bitmap \<leftarrow> poke bitmap i 1; Some (of_nat i, bitmap) }
        else claim_from (i + 1) bitmap
      })"
  by pat_completeness auto
termination by (relation "measure (\<lambda>(i, _). MAX_DATA_BLOCKS - i)") auto

declare claim_from.simps [simp del]

definition claim_free_data_block :: "'a fs_state_scheme \<Rightarrow> (i32 \<times> 'a fs_state_scheme) option" where
  "claim_free_data_block s = do {
     (i, bitmap) \<leftarrow> claim_from 0 (data_block_bitmap s);
     Some (i, s\<lparr>data_block_bitmap := bitmap\<rparr>)
   }"

definition claim_free_inode_block :: "'a fs_state_scheme \<Rightarrow> (i32 \<times> 'a fs_state_scheme) option" where
  "claim_free_inode_block s = do {
     (i, bitmap) \<leftarrow> claim_from 0 (inode_bitmap s);
     Some (i, s\<lparr>inode_bitmap := bitmap\<rparr>)
   }"

text \<open>\<open>(uint32_t) fs_boot_block + idx + 0x1000\<close>: the index is added in bytes. 0 is \<open>NULL\<close>.\<close>

definition get_inode_by_idx :: "u32 \<Rightarrow> 'a fs_state_scheme \<Rightarrow> u32" where
  "get_inode_by_idx idx s = (if idx > of_nat MAX_INODES - 1 then 0 else fs_boot_block s + idx + 0x1000)"

section \<open>Writing data\<close>

text \<open>
  Taking back the blocks claimed so far. \<open>blocks_curr_claimed - new_blocks_claimed\<close> is computed
  as an \<open>int\<close>; a negative index leaves the array.
\<close>

fun unclaim :: "u32 \<Rightarrow> u16 \<Rightarrow> nat \<Rightarrow> mem \<Rightarrow> u8 list \<Rightarrow> u8 list option" where
  "unclaim inode_ptr blocks_curr_claimed 0 m bitmap = Some bitmap"
| "unclaim inode_ptr blocks_curr_claimed (Suc k) m bitmap =
     (if unat blocks_curr_claimed < Suc k then None
      else do {
        unclaim_idx \<leftarrow> data_blocks_idx inode_ptr (ucast blocks_curr_claimed - of_nat (Suc k)) m;
        bitmap \<leftarrow> poke bitmap (unat unclaim_idx) 0;
        unclaim inode_ptr blocks_curr_claimed k m bitmap
      })"

text \<open>
  \<open>for (i = 0; i < block_diff; i++)\<close> with \<open>count\<close> rounds left. The result says whether all
  blocks were claimed; when not, the claimed ones have been given back and \<open>write_data\<close>
  returns -1.
\<close>

fun claim_blocks :: "u32 \<Rightarrow> u16 \<Rightarrow> u16 \<Rightarrow> nat \<Rightarrow> 'a fs_state_scheme \<Rightarrow> (bool \<times> 'a fs_state_scheme) option" where
  "claim_blocks inode_ptr blocks_curr_claimed new_blocks_claimed 0 s = Some (True, s)"
| "claim_blocks inode_ptr blocks_curr_claimed new_blocks_claimed (Suc count) s = do {
     (block_idx, s) \<leftarrow> claim_free_data_block s;
     if block_idx = -1 then do {
       bitmap \<leftarrow> unclaim inode_ptr blocks_curr_claimed (unat new_blocks_claimed) (mem s)
                   (data_block_bitmap s);
       Some (False, s\<lparr>data_block_bitmap := bitmap\<rparr>)
     }
     else do {
       slot \<leftarrow> data_block_slot inode_ptr (ucast blocks_curr_claimed);
       claim_blocks inode_ptr blocks_curr_claimed (new_blocks_claimed + 1) count
         (s\<lparr>mem := store32 (mem s) slot block_idx\<rparr>)
     }
   }"

text \<open>
  The part of \<open>write_data\<close> that extends the file when \<open>offset\<close> is not inside it. The block
  counts are 16-bit variables. \<open>max_write_offset\<close> is assigned there and never read; it is left
  out.
\<close>

definition extend_file :: "u32 \<Rightarrow> u32 \<Rightarrow> u32 \<Rightarrow> 'a fs_state_scheme \<Rightarrow> (bool \<times> 'a fs_state_scheme) option" where
  "extend_file inode_ptr offset n s =
     (let blocks_curr_claimed = (ucast (file_length inode_ptr (mem s) div 4096 + 1) :: u16);
          new_length = offset + n;
          blocks_required = (ucast (new_length div 4096 + 1) :: u16);
          block_diff = blocks_required - blocks_curr_claimed
      in do {
        (ok, s) \<leftarrow>
          (if block_diff > 0 \<and> unat blocks_curr_claimed < MAX_BLOCKS_IN_INODE
           then claim_blocks inode_ptr blocks_curr_claimed 0 (unat block_diff) s
           else Some (True, s));
        if ok then Some (True, s\<lparr>mem := store32 (mem s) inode_ptr new_length\<rparr>)
        else Some (False, s)
      })"

partial_function (option) write_loop ::
  "u32 \<Rightarrow> u32 \<Rightarrow> u32 \<Rightarrow> u32 \<Rightarrow> u32 \<Rightarrow> u32 \<Rightarrow> u32 \<Rightarrow> u32 \<Rightarrow> u32 \<Rightarrow> u32 \<Rightarrow> mem \<Rightarrow> (u32 \<times> mem) option" where
  "write_loop base inode_ptr inode_count data_block_count buf
       bytes_written bytes_remaining inode_data_block_idx curr_offset data m =
     (if bytes_remaining = 0 then Some (bytes_written, m)
      else
        let rest = FS_BLK_SIZE - curr_offset;
            bytes_to_copy = (if bytes_remaining < rest then bytes_remaining else rest);
            m = memcpy (data + curr_offset) (buf + bytes_written) bytes_to_copy m;
            bytes_written = bytes_written + bytes_to_copy;
            bytes_remaining = bytes_remaining - bytes_to_copy;
            inode_data_block_idx = inode_data_block_idx + 1
        in do {
          datablk_idx \<leftarrow> data_blocks_idx inode_ptr inode_data_block_idx m;
          if datablk_idx > data_block_count - 1 then Some (bytes_written, m)
          else write_loop base inode_ptr inode_count data_block_count buf
                 bytes_written bytes_remaining inode_data_block_idx 0
                 (block_at base (1 + inode_count + datablk_idx)) m
        })"

text \<open>The transfer behind the allocation, with \<open>inode_count\<close> read at the entry of \<open>write_data\<close>.\<close>

definition write_blocks :: "u32 \<Rightarrow> u32 \<Rightarrow> u32 \<Rightarrow> u32 \<Rightarrow> u32 \<Rightarrow> 'a fs_state_scheme
    \<Rightarrow> (i32 \<times> 'a fs_state_scheme) option" where
  "write_blocks inode_ptr inode_count offset buf n s =
     (let curr_offset = offset mod FS_BLK_SIZE;
          curr_idx_offset = offset div FS_BLK_SIZE;
          data_block_count = num_data_blocks s
      in do {
        datablk_idx \<leftarrow> data_blocks_idx inode_ptr curr_idx_offset (mem s);
        if datablk_idx > data_block_count - 1 then Some (-1, s)
        else do {
          (bytes_written, m) \<leftarrow> write_loop (fs_boot_block s) inode_ptr inode_count
             data_block_count buf 0 n 0 curr_offset
             (block_at (fs_boot_block s) (1 + inode_count + datablk_idx)) (mem s);
          Some (bytes_written, s\<lparr>mem := m\<rparr>)
        }
      })"

definition write_data :: "u32 \<Rightarrow> u32 \<Rightarrow> u32 \<Rightarrow> u32 \<Rightarrow> 'a fs_state_scheme
    \<Rightarrow> (i32 \<times> 'a fs_state_scheme) option" where
  "write_data inode offset buf n s =
     (let inode_count = num_inodes s in
      if inode > inode_count - 1 then Some (NOT_FOUND, s)
      else
        let inode_ptr = block_at (fs_boot_block s) (inode + 1) in do {
          (ok, s) \<leftarrow>
            (if offset \<ge> file_length inode_ptr (mem s) then extend_file inode_ptr offset n s
             else Some (True, s));
          if \<not> ok then Some (-1, s)
          else write_blocks inode_ptr inode_count offset buf n s
        })"

section \<open>Creating a file\<close>

text \<open>
  \<open>valid_chars\<close>: at most 32 bytes of the name over a zeroed array. The \<open>strcpy\<close> that follows
  runs off that array when the name fills it.
\<close>

fun copy_name :: "u8 list \<Rightarrow> u8 list \<Rightarrow> nat \<Rightarrow> nat \<Rightarrow> u8 list option" where
  "copy_name fname valid_chars i 0 = Some valid_chars"
| "copy_name fname valid_chars i (Suc rounds) = do {
     c \<leftarrow> peek fname i;
     if c = 0 then Some valid_chars
     else do { valid_chars \<leftarrow> poke valid_chars i c; copy_name fname valid_chars (i + 1) rounds }
   }"

text \<open>The result 0 is \<open>NULL\<close>.\<close>

definition create_new_file :: "u8 list \<Rightarrow> 'a fs_state_scheme \<Rightarrow> (u32 \<times> 'a fs_state_scheme) option" where
  "create_new_file fname s =
     (if num_dir_entries s \<ge> of_nat NUM_DENTRIES then Some (0, s)
      else do {
        (inode_idx, s) \<leftarrow> claim_free_inode_block s;
        if inode_idx = -1 then Some (0, s)
        else do {
          (data_block_idx, s) \<leftarrow> claim_free_data_block s;
          if data_block_idx = -1 then do {
            bitmap \<leftarrow> poke (inode_bitmap s) (unat inode_idx) 0;
            Some (0, s\<lparr>inode_bitmap := bitmap\<rparr>)
          }
          else do {
            new_dentry \<leftarrow> directory_entry (fs_boot_block s) (unat (num_dir_entries s));
            valid_chars \<leftarrow> copy_name fname (replicate MAX_FILENAME_LENGTH 0) 0 MAX_FILENAME_LENGTH;
            name \<leftarrow> strcpy (load_bytes (mem s) new_dentry MAX_FILENAME_LENGTH) valid_chars;
            let m1 = store_bytes (mem s) new_dentry name;
                m2 = store32 m1 (new_dentry + 0x20) FS_TYPE_FILE;
                m3 = store32 m2 (new_dentry + 0x24) inode_idx;
                inode = get_inode_by_idx inode_idx s;
                m4 = store32 m3 inode 0
            in do {
              slot \<leftarrow> data_block_slot inode 0;
              let m5 = store32 m4 slot data_block_idx;
              let m6 = store32 m5 (fs_boot_block s) (load32 m5 (fs_boot_block s) + 1);
              Some (new_dentry, s\<lparr>mem := m6\<rparr>)
            }
          }
        }
      })"

section \<open>Initialisation\<close>

text \<open>
  \<open>fs_init\<close> passes an uninitialised pointer \<open>dir_entry\<close> to \<open>read_dentry_by_index\<close>, which
  copies the entry there; its value is the parameter \<open>p\<close> of the model. The inner loop marks the
  blocks of an inode up to the first zero slot. A null inode pointer is not dereferenced
  validly.
\<close>

function mark_blocks :: "u32 \<Rightarrow> nat \<Rightarrow> mem \<Rightarrow> u8 list \<Rightarrow> u8 list option" where
  "mark_blocks inode j m bitmap =
     (if MAX_BLOCKS_IN_INODE \<le> j then Some bitmap
      else do {
        b \<leftarrow> data_blocks_idx inode (of_nat j) m;
        if b = 0 then Some bitmap
        else do { bitmap \<leftarrow> poke bitmap (unat b) 1; mark_blocks inode (j + 1) m bitmap }
      })"
  by pat_completeness auto
termination by (relation "measure (\<lambda>(_, j, _, _). MAX_BLOCKS_IN_INODE - j)") auto

definition init_entry :: "u32 \<Rightarrow> nat \<Rightarrow> 'a fs_state_scheme \<Rightarrow> 'a fs_state_scheme option" where
  "init_entry p i s = do {
     s \<leftarrow> (if of_nat i > num_dir_entries s - 1 then Some s
           else do {
             entry \<leftarrow> directory_entry (fs_boot_block s) i;
             Some (s\<lparr>mem := memcpy p entry 64 (mem s)\<rparr>)
           });
     let inode_nr = load32 (mem s) (p + 0x24);
     if mem s p \<noteq> 0 \<and> inode_nr \<noteq> 0 then do {
       bitmap \<leftarrow> poke (inode_bitmap s) (unat inode_nr) 1;
       let s = s\<lparr>inode_bitmap := bitmap\<rparr>;
       let inode = get_inode_by_idx (load32 (mem s) (p + 0x24)) s;
       if inode = 0 then None
       else do {
         bitmap \<leftarrow> mark_blocks inode 0 (mem s) (data_block_bitmap s);
         Some (s\<lparr>data_block_bitmap := bitmap\<rparr>)
       }
     }
     else Some s
   }"

text \<open>\<open>i < num_dir_entries\<close> with the bound read in every round; the 64th entry does not exist.\<close>

fun init_entries :: "u32 \<Rightarrow> nat \<Rightarrow> nat \<Rightarrow> 'a fs_state_scheme \<Rightarrow> 'a fs_state_scheme option" where
  "init_entries p i 0 s = (if unat (num_dir_entries s) \<le> i then Some s else None)"
| "init_entries p i (Suc rounds) s =
     (if unat (num_dir_entries s) \<le> i then Some s
      else do { s \<leftarrow> init_entry p i s; init_entries p (i + 1) rounds s })"

definition fs_init :: "u32 \<Rightarrow> u32 \<Rightarrow> 'a fs_state_scheme \<Rightarrow> 'a fs_state_scheme option" where
  "fs_init p addr s = do {
     let s = s\<lparr>fs_boot_block := addr\<rparr>;
     db \<leftarrow> poke (data_block_bitmap s) 0 1;
     ib \<leftarrow> poke (inode_bitmap s) 0 1;
     init_entries p 0 NUM_DENTRIES (s\<lparr>data_block_bitmap := db, inode_bitmap := ib\<rparr>)
   }"

section \<open>The allocator contract\<close>

text \<open>The outcome of one claim: the least free position below 59 is taken, or there is none.\<close>

definition claim_outcome :: "u8 list \<Rightarrow> i32 \<Rightarrow> u8 list \<Rightarrow> bool" where
  "claim_outcome b i b' \<longleftrightarrow>
     (if i = -1 then b' = b \<and> (\<forall>k<59. b ! k \<noteq> 0)
      else unat i < 59 \<and> b ! unat i = 0 \<and> (\<forall>k<unat i. b ! k \<noteq> 0) \<and> b' = b[unat i := 1])"

lemma claim_from_spec:
  assumes "59 \<le> length b" and "\<forall>k<i. b ! k \<noteq> 0" and "i \<le> 59"
  shows "\<exists>j b'. claim_from i b = Some (j, b') \<and> claim_outcome b j b'"
  using assms
proof (induction i b rule: claim_from.induct)
  case (1 i b)
  show ?case
  proof (cases "59 \<le> i")
    case True
    with 1 have "claim_from i b = Some (-1, b)" by (simp add: claim_from.simps MAX_DATA_BLOCKS_def)
    with 1 True show ?thesis by (simp add: claim_outcome_def)
  next
    case i: False
    show ?thesis
    proof (cases "b ! i = 0")
      case True
      with i 1 have "claim_from i b = Some (of_nat i, b[i := 1])"
        by (simp add: claim_from.simps [of i] MAX_DATA_BLOCKS_def)
      moreover have "unat (of_nat i :: u32) = i" using i by (simp add: unat_of_nat_small)
      moreover have "(of_nat i :: u32) \<noteq> -1"
      proof
        assume "(of_nat i :: u32) = -1"
        then have "unat (of_nat i :: u32) = 4294967295" by simp
        with calculation(2) i show False by linarith
      qed
      ultimately show ?thesis using 1 True i by (simp add: claim_outcome_def)
    next
      case False
      with i 1 have "claim_from i b = claim_from (i + 1) b"
        by (simp add: claim_from.simps [of i] MAX_DATA_BLOCKS_def)
      moreover have "\<forall>k<i + 1. b ! k \<noteq> 0" using 1 False by (simp add: less_Suc_eq)
      ultimately show ?thesis using 1 i False by (simp add: MAX_DATA_BLOCKS_def)
    qed
  qed
qed

definition free_count :: "u8 list \<Rightarrow> nat" where
  "free_count b = length (filter (\<lambda>c. c = 0) (take 59 b))"

fun claim_many :: "('s \<Rightarrow> (i32 \<times> 's) option) \<Rightarrow> nat \<Rightarrow> 's \<Rightarrow> (nat list \<times> 's) option" where
  "claim_many claim 0 s = Some ([], s)"
| "claim_many claim (Suc k) s = do {
     (i, s) \<leftarrow> claim s;
     if i = -1 then None else do { (is, s) \<leftarrow> claim_many claim k s; Some (unat i # is, s) }
   }"

lemma free_count_take: "i < 59 \<Longrightarrow> i < length b \<Longrightarrow> b ! i = 0 \<Longrightarrow>
   free_count b = Suc (free_count (b[i := 1]))"
  by (subst (1) id_take_nth_drop [of i b])
    (auto simp: free_count_def upd_conv_take_nth_drop min_def take_Cons')

lemma free_count_zero: "59 \<le> length b \<Longrightarrow> free_count b = 0 \<longleftrightarrow> (\<forall>k<59. b ! k \<noteq> 0)"
  by (auto simp: free_count_def filter_empty_conv in_set_conv_nth)

locale bitmap_allocator =
  fixes bits :: "'s \<Rightarrow> u8 list"
    and claim :: "'s \<Rightarrow> (i32 \<times> 's) option"
  assumes claim_least: "59 \<le> length (bits s) \<Longrightarrow>
      \<exists>i t. claim s = Some (i, t) \<and> claim_outcome (bits s) i (bits t)"
begin

lemma claim_some:
  assumes "59 \<le> length (bits s)" and "0 < free_count (bits s)"
  obtains i t where "claim s = Some (i, t)" "i \<noteq> -1" "unat i < 59" "bits s ! unat i = 0"
    "\<forall>k<unat i. bits s ! k \<noteq> 0" "bits t = (bits s)[unat i := 1]"
    "free_count (bits s) = Suc (free_count (bits t))"
proof -
  obtain i t where c: "claim s = Some (i, t)" "claim_outcome (bits s) i (bits t)"
    using claim_least [OF assms(1)] by blast
  have "i \<noteq> -1" using c(2) assms free_count_zero [OF assms(1)] by (auto simp: claim_outcome_def)
  with c(2) have o: "unat i < 59" "bits s ! unat i = 0" "\<forall>k<unat i. bits s ! k \<noteq> 0"
      "bits t = (bits s)[unat i := 1]"
    by (simp_all add: claim_outcome_def)
  show ?thesis
    by (rule that [OF c(1) \<open>i \<noteq> -1\<close> o]) (use o assms(1) in \<open>simp add: free_count_take\<close>)
qed

lemma claim_none:
  assumes "59 \<le> length (bits s)" and "free_count (bits s) = 0"
  shows "\<exists>t. claim s = Some (-1, t) \<and> bits t = bits s"
  using claim_least [OF assms(1)] assms free_count_zero [OF assms(1)]
  by (auto simp: claim_outcome_def split: if_splits)

text \<open>Successive claims give out free positions only, each once, in increasing order.\<close>

lemma claims_fresh:
  assumes "59 \<le> length (bits s)" and "k \<le> free_count (bits s)"
  shows "\<exists>is t. claim_many claim k s = Some (is, t) \<and> length is = k \<and> sorted_wrt (<) is
    \<and> (\<forall>i\<in>set is. i < 59 \<and> bits s ! i = 0 \<and> bits t ! i = 1)
    \<and> (\<forall>i. i \<notin> set is \<longrightarrow> bits t ! i = bits s ! i) \<and> free_count (bits t) = free_count (bits s) - k"
  using assms
proof (induction k arbitrary: s)
  case 0
  then show ?case by simp
next
  case (Suc k)
  then obtain i s1 where c: "claim s = Some (i, s1)" "i \<noteq> -1" "unat i < 59" "bits s ! unat i = 0"
    "\<forall>k<unat i. bits s ! k \<noteq> 0" "bits s1 = (bits s)[unat i := 1]"
    "free_count (bits s) = Suc (free_count (bits s1))"
    by (elim claim_some) auto
  with Suc obtain js t where IH: "claim_many claim k s1 = Some (js, t)" "length js = k"
    "sorted_wrt (<) js" "\<forall>j\<in>set js. j < 59 \<and> bits s1 ! j = 0 \<and> bits t ! j = 1"
    "\<forall>j. j \<notin> set js \<longrightarrow> bits t ! j = bits s1 ! j" "free_count (bits t) = free_count (bits s1) - k"
    using Suc.IH [of s1] by auto
  have later: "unat i < j \<and> bits s ! j = 0" if "j \<in> set js" for j
  proof -
    have "bits s1 ! j = 0" "j < length (bits s)" using IH(4) that Suc.prems(1) by auto
    with c(5,6) show ?thesis by (metis linorder_neqE_nat nth_list_update_eq nth_list_update_neq one_neq_zero)
  qed
  then have "unat i \<notin> set js" by blast
  with IH c later Suc.prems(1) show ?case
    by (intro exI [of _ "unat i # js"] exI [of _ t]) (auto simp: nth_list_update)
qed

lemma claims_exhausted:
  assumes "59 \<le> length (bits s)" and "free_count (bits s) < k"
  shows "claim_many claim k s = None"
  using assms
proof (induction k arbitrary: s)
  case 0
  then show ?case by simp
next
  case (Suc k)
  show ?case
  proof (cases "free_count (bits s) = 0")
    case True
    with claim_none [OF Suc.prems(1)] show ?thesis by auto
  next
    case False
    with Suc obtain i t where "claim s = Some (i, t)" "i \<noteq> -1" "bits t = (bits s)[unat i := 1]"
      "free_count (bits s) = Suc (free_count (bits t))"
      by (elim claim_some) auto
    with Suc show ?thesis by simp
  qed
qed

end

lemma claim_free_data_block_least:
  "59 \<le> length (data_block_bitmap s) \<Longrightarrow> \<exists>i t. claim_free_data_block s = Some (i, t)
     \<and> claim_outcome (data_block_bitmap s) i (data_block_bitmap t) \<and> mem t = mem s"
  using claim_from_spec [of "data_block_bitmap s" 0] by (auto simp: claim_free_data_block_def)

lemma claim_free_inode_block_least:
  "59 \<le> length (inode_bitmap s) \<Longrightarrow> \<exists>i t. claim_free_inode_block s = Some (i, t)
     \<and> claim_outcome (inode_bitmap s) i (inode_bitmap t) \<and> mem t = mem s"
  using claim_from_spec [of "inode_bitmap s" 0] by (auto simp: claim_free_inode_block_def)

interpretation data_alloc: bitmap_allocator data_block_bitmap claim_free_data_block
  by unfold_locales (use claim_free_data_block_least in blast)

interpretation inode_alloc: bitmap_allocator inode_bitmap claim_free_inode_block
  by unfold_locales (use claim_free_inode_block_least in blast)


section \<open>Looking a name up\<close>

text \<open>The abstract directory: the entries in use, in order, with the names as C strings.\<close>

definition entry_addr :: "u32 \<Rightarrow> nat \<Rightarrow> u32" where
  "entry_addr base i = base + 64 + 64 * of_nat i"

definition directory :: "'a fs_state_scheme \<Rightarrow> dentry list" where
  "directory s = map (\<lambda>i. load_dentry (mem s) (entry_addr (fs_boot_block s) i))
     [0..<unat (num_dir_entries s)]"

definition entry_name :: "dentry \<Rightarrow> u8 list" where
  "entry_name e = c_string (file_name e)"

lemma directory_entry_addr: "i < 63 \<Longrightarrow> directory_entry base i = Some (entry_addr base i)"
  by (simp add: directory_entry_def entry_addr_def NUM_DENTRIES_def)

lemma length_directory [simp]: "length (directory s) = unat (num_dir_entries s)"
  by (simp add: directory_def)

lemma c_string_eq_iff:
  assumes "0 \<notin> set bs"
  shows "c_string d = bs \<longleftrightarrow> length bs \<le> length d \<and> take (length bs) d = bs
     \<and> (length bs < length d \<longrightarrow> d ! length bs = 0)"
  using assms
proof (induction d arbitrary: bs)
  case Nil
  then show ?case by (auto simp: c_string_def)
next
  case (Cons x d)
  then show ?case
    by (cases bs) (auto simp: c_string_def)
qed

lemma names_match_spec:
  assumes "0 \<notin> set bs" and "length d = 32" and "i \<le> length bs" and "take i d = take i bs"
    and "32 \<le> i \<Longrightarrow> length bs = 32"
  shows "names_match (bs @ 0 # r) d i = Some (c_string d = bs)"
  using assms
proof (induction "bs @ 0 # r" d i rule: names_match.induct)
  case (1 d i)
  note prems = 1(3-)
  show ?case
  proof (cases "32 \<le> i")
    case True
    with prems show ?thesis
      by (subst names_match.simps) (simp add: MAX_FILENAME_LENGTH_def c_string_eq_iff)
  next
    case i: False
    then have fd: "peek d i = Some (d ! i)" using prems by simp
    show ?thesis
    proof (cases "i = length bs")
      case True
      with i prems fd show ?thesis
        by (subst names_match.simps) (auto simp: MAX_FILENAME_LENGTH_def c_string_eq_iff)
    next
      case False
      then have il: "i < length bs" using prems by simp
      then have nz: "bs ! i \<noteq> 0" using prems(1) nth_mem by metis
      have fc: "peek (bs @ 0 # r) i = Some (bs ! i)" using il by (simp add: nth_append)
      show ?thesis
      proof (cases "bs ! i = d ! i")
        case ne: False
        have "c_string d \<noteq> bs"
        proof
          assume "c_string d = bs"
          then have "take (length bs) d = bs" using prems(1) by (simp add: c_string_eq_iff)
          then have "bs ! i = take (length bs) d ! i" by simp
          with il ne show False by simp
        qed
        with i ne fc fd show ?thesis
          by (subst names_match.simps) (simp add: MAX_FILENAME_LENGTH_def)
      next
        case eq: True
        have tk: "take (Suc i) d = take (Suc i) bs"
          using prems i il eq by (simp add: take_Suc_conv_app_nth)
        show ?thesis
        proof (cases "i = 31 \<and> length bs \<noteq> 32")
          case True
          then have "32 < length bs" using il by simp
          then have "peek (bs @ 0 # r) 32 = Some (bs ! 32)" "bs ! 32 \<noteq> 0"
            using prems(1) nth_mem by (simp add: nth_append, metis)
          moreover have "c_string d \<noteq> bs" using prems \<open>32 < length bs\<close> by (simp add: c_string_eq_iff)
          ultimately show ?thesis using fc fd eq nz True
            by (subst names_match.simps) (simp add: MAX_FILENAME_LENGTH_def)
        next
          case False
          have "names_match (bs @ 0 # r) d (i + 1) = Some (c_string d = bs)"
          proof (cases "i = 31")
            case True
            with False 1(1) [OF _ fc fd] prems tk il eq nz show ?thesis
              by (simp add: MAX_FILENAME_LENGTH_def nth_append)
          next
            case ni: False
            with 1(2) [OF _ fc fd] prems tk il i eq nz show ?thesis
              by (simp add: MAX_FILENAME_LENGTH_def)
          qed
          with i eq nz fc fd False show ?thesis
            by (subst names_match.simps) (auto simp: MAX_FILENAME_LENGTH_def nth_append)
        qed
      qed
    qed
  qed
qed

definition lookup_result :: "u8 list \<Rightarrow> dentry \<Rightarrow> dentry list \<Rightarrow> i32 \<times> dentry" where
  "lookup_result bs d es =
     (case find (\<lambda>e. entry_name e = bs) es of Some e \<Rightarrow> (FOUND, e) | None \<Rightarrow> (NOT_FOUND, d))"

lemma find_dentry_spec:
  assumes "0 \<notin> set bs" and "num_dir_entries s \<le> 63"
  shows "find_dentry (bs @ 0 # r) d s i = Some (lookup_result bs d (drop i (directory s)))"
  using assms
proof (induction "bs @ 0 # r" d s i rule: find_dentry.induct)
  case (1 d s i)
  show ?case
  proof (cases "unat (num_dir_entries s) \<le> i")
    case True
    then show ?thesis by (simp add: find_dentry.simps [of _ d s i] lookup_result_def)
  next
    case False
    have "unat (num_dir_entries s) \<le> 63" using 1(3) by (simp add: word_le_nat_alt)
    with False have i: "i < 63" "i < length (directory s)" by simp_all
    have di: "directory s ! i = load_dentry (mem s) (entry_addr (fs_boot_block s) i)"
      using i(2) by (simp add: directory_def)
    have nm: "names_match (bs @ 0 # r) (load_bytes (mem s) (entry_addr (fs_boot_block s) i) 32) 0
        = Some (entry_name (directory s ! i) = bs)"
      using names_match_spec [of bs _ 0 r] 1(2)
      by (simp add: di entry_name_def load_dentry_def MAX_FILENAME_LENGTH_def)
    have "find_dentry (bs @ 0 # r) d s i =
        (if entry_name (directory s ! i) = bs then Some (FOUND, directory s ! i)
         else find_dentry (bs @ 0 # r) d s (i + 1))"
      using False i(1) nm by (subst find_dentry.simps) (simp add: directory_entry_addr MAX_FILENAME_LENGTH_def di)
    moreover have "find_dentry (bs @ 0 # r) d s (i + 1)
        = Some (lookup_result bs d (drop (i + 1) (directory s)))"
      if "entry_name (directory s ! i) \<noteq> bs"
      by (rule 1(1)) (use False i nm that 1(2,3) in \<open>simp_all add: directory_entry_addr MAX_FILENAME_LENGTH_def\<close>)
    ultimately show ?thesis
      using i(2) by (simp add: lookup_result_def Cons_nth_drop_Suc [symmetric])
  qed
qed


text \<open>
  C27. \<open>read_dentry_by_name\<close> finds the first directory entry whose name is the requested one
  and returns a copy of it; when there is none it reports -1 and leaves the caller's entry
  alone. Names longer than 32 characters match nothing, names of exactly 32 need no terminator.
\<close>

theorem read_dentry_by_name_first:
  assumes "0 \<notin> set bs" and "num_dir_entries s \<le> 63"
  shows "read_dentry_by_name (bs @ 0 # r) d s = Some
    (case find (\<lambda>e. entry_name e = bs) (directory s) of
       Some e \<Rightarrow> (0, e) | None \<Rightarrow> (-1, d))"
  using find_dentry_spec [OF assms, of r d 0]
  unfolding read_dentry_by_name_def lookup_result_def FOUND_def NOT_FOUND_def by simp

text \<open>
  A small image for the witnesses: one inode block and one data block behind a boot block with
  one entry, the file \<open>a\<close> of 5 bytes in data block 0.
\<close>

definition tiny_mem :: mem where
  "tiny_mem = (\<lambda>_. 0)(0x10000 := 1, 0x10004 := 1, 0x10008 := 1, 0x10040 := 97, 0x10060 := 2,
     0x11000 := 5)"

definition tiny_fs :: "unit fs_state_scheme" where
  "tiny_fs = \<lparr>mem = tiny_mem, io_log = [], io_dev = (\<lambda>_ _. 0),
     master_mask = 0xFF, slave_mask = 0xFF, screen_x = 0, screen_y = 0,
     fs_boot_block = 0x10000, data_block_bitmap = replicate 59 0, inode_bitmap = replicate 64 0\<rparr>"

lemma tiny_num_entries: "num_dir_entries tiny_fs = 1"
  by (simp add: num_dir_entries_def tiny_fs_def tiny_mem_def load32_def)

lemma tiny_directory: "map entry_name (directory tiny_fs) = [[97]]"
  by (simp add: directory_def tiny_num_entries)
    (simp add: tiny_fs_def tiny_mem_def entry_name_def load_dentry_def load_bytes_def
      c_string_def entry_addr_def MAX_FILENAME_LENGTH_def upt_rec)

theorem read_dentry_by_name_first_witness:
  "\<exists>e. read_dentry_by_name (cstr ''a'') (load_dentry (\<lambda>_. 0) 0) tiny_fs = Some (0, e)"
proof -
  have "\<exists>e. find (\<lambda>e. entry_name e = [97]) (directory tiny_fs) = Some e"
    using tiny_directory by (cases "directory tiny_fs") auto
  then show ?thesis
    using read_dentry_by_name_first [of "[97]" tiny_fs "[]" "load_dentry (\<lambda>_. 0) 0"]
    by (auto simp: tiny_num_entries cstr_def chars_def)
qed

text \<open>
  C30. Allocation of data blocks. As many successive claims as there are free blocks succeed;
  they give out blocks that were free, each once, in increasing order, mark them as claimed
  and touch no other entry of the bitmap. One claim more fails.
\<close>

theorem data_blocks_claimed_once:
  assumes "59 \<le> length (data_block_bitmap s)"
  shows "if k \<le> free_count (data_block_bitmap s)
    then \<exists>is t. claim_many claim_free_data_block k s = Some (is, t) \<and> length is = k
      \<and> sorted_wrt (<) is
      \<and> (\<forall>i\<in>set is. i < 59 \<and> data_block_bitmap s ! i = 0 \<and> data_block_bitmap t ! i = 1)
      \<and> (\<forall>i. i \<notin> set is \<longrightarrow> data_block_bitmap t ! i = data_block_bitmap s ! i)
    else claim_many claim_free_data_block k s = None"
  using data_alloc.claims_fresh [OF assms, of k] data_alloc.claims_exhausted [OF assms, of k]
  by (cases "k \<le> free_count (data_block_bitmap s)") (auto simp: not_le)

theorem data_blocks_claimed_once_witness:
  "\<exists>is t. claim_many claim_free_data_block 2 tiny_fs = Some (is, t) \<and> length is = 2"
proof -
  have "59 \<le> length (data_block_bitmap tiny_fs)" by (simp add: tiny_fs_def)
  moreover have "2 \<le> free_count (data_block_bitmap tiny_fs)"
    by (simp add: tiny_fs_def free_count_def)
  ultimately show ?thesis using data_blocks_claimed_once [of tiny_fs 2] by auto
qed

text \<open>
  Inode allocation stops at the number of data blocks: when the first 59 inodes are taken
  it fails, although the bitmap has 64 entries and the last five may be free.
\<close>

theorem inode_claim_misses_last_five:
  assumes "length (inode_bitmap s) = 64" and "\<forall>k<59. inode_bitmap s ! k \<noteq> 0"
  shows "\<exists>t. claim_free_inode_block s = Some (-1, t) \<and> inode_bitmap t = inode_bitmap s"
  using inode_alloc.claim_none [of s] assms by (simp add: free_count_zero)

theorem inode_claim_misses_last_five_witness:
  "\<exists>t. claim_free_inode_block (tiny_fs\<lparr>inode_bitmap := replicate 59 1 @ replicate 5 0\<rparr>) = Some (-1, t)
    \<and> inode_bitmap t ! 63 = 0"
proof -
  let ?s = "tiny_fs\<lparr>inode_bitmap := replicate 59 1 @ replicate 5 0\<rparr>"
  have "length (inode_bitmap ?s) = 64" "\<forall>k<59. inode_bitmap ?s ! k \<noteq> 0"
    by (simp_all add: nth_append)
  then obtain t where "claim_free_inode_block ?s = Some (-1, t)" "inode_bitmap t = inode_bitmap ?s"
    using inode_claim_misses_last_five [of ?s] by blast
  then show ?thesis by (simp add: nth_append)
qed

section \<open>The entry of a new file\<close>

lemma entry_addr_off: "entry_addr base i = base + of_nat (64 + 64 * i)"
  by (simp add: entry_addr_def)

lemma load_dentry_cong_off:
  assumes "\<And>i. i < 64 \<Longrightarrow> m (b + of_nat (k + i)) = m' (b + of_nat (k + i))"
  shows "load_dentry m (b + of_nat k) = load_dentry m' (b + of_nat k)"
proof -
  have a: "b + of_nat k + 0x20 = b + of_nat (k + 0x20)" "b + of_nat k + 0x24 = b + of_nat (k + 0x24)"
    "b + of_nat k + 0x28 = b + of_nat (k + 0x28)"
    by simp_all
  have "load32 m (b + of_nat (k + 0x20)) = load32 m' (b + of_nat (k + 0x20))"
    "load32 m (b + of_nat (k + 0x24)) = load32 m' (b + of_nat (k + 0x24))"
    by (rule load32_cong_off, simp only: add.assoc, rule assms, simp)+
  moreover have "load_bytes m (b + of_nat k) 32 = load_bytes m' (b + of_nat k) 32"
    by (rule load_bytes_cong_off, rule assms, simp)
  moreover have "load_bytes m (b + of_nat (k + 0x28)) 24 = load_bytes m' (b + of_nat (k + 0x28)) 24"
    by (rule load_bytes_cong_off, simp only: add.assoc, rule assms, simp)
  ultimately show ?thesis
    by (simp only: load_dentry_def a MAX_FILENAME_LENGTH_def)
qed

text \<open>The memory after the six stores of \<open>create_new_file\<close>, seen at offsets from the base.\<close>

definition created_mem :: "u32 \<Rightarrow> nat \<Rightarrow> u8 list \<Rightarrow> u32 \<Rightarrow> u32 \<Rightarrow> mem \<Rightarrow> mem" where
  "created_mem base n name inode_idx data_block_idx m =
     (let e = 64 + 64 * n; k = 4096 + unat inode_idx;
          m1 = store_bytes m (base + of_nat e) name;
          m2 = store32 m1 (base + of_nat (e + 0x20)) FS_TYPE_FILE;
          m3 = store32 m2 (base + of_nat (e + 0x24)) inode_idx;
          m4 = store32 m3 (base + of_nat k) 0;
          m5 = store32 m4 (base + of_nat (k + 4)) data_block_idx
      in store32 m5 (base + of_nat 0) (load32 m5 (base + of_nat 0) + 1))"

lemma created_mem_other:
  assumes "n < 63" and "unat i < 64" and "length nm = 32" and "4 \<le> q" and "q < 4294967296"
    and "q < 64 + 64 * n \<or> 104 + 64 * n \<le> q" and "q < 4096 + unat i \<or> 4104 + unat i \<le> q"
  shows "created_mem base n nm i d m (base + of_nat q) = m (base + of_nat q)"
proof -
  note q = assms(5)
  have h: "q < 0 \<or> 0 + 4 \<le> q"
    "q < 4096 + unat i + 4 \<or> 4096 + unat i + 4 + 4 \<le> q" "q < 4096 + unat i \<or> 4096 + unat i + 4 \<le> q"
    "q < 64 + 64 * n + 0x24 \<or> 64 + 64 * n + 0x24 + 4 \<le> q"
    "q < 64 + 64 * n + 0x20 \<or> 64 + 64 * n + 0x20 + 4 \<le> q"
    using assms(4,6,7) by linarith+
  have b: "0 + 4 \<le> (4294967296 :: nat)" "4096 + unat i + 4 + 4 \<le> 4294967296"
    "4096 + unat i + 4 \<le> 4294967296"
    "64 + 64 * n + 0x24 + 4 \<le> 4294967296" "64 + 64 * n + 0x20 + 4 \<le> 4294967296"
    using assms(1,2) by linarith+
  have "store_bytes m (base + of_nat (64 + 64 * n)) nm (base + of_nat q) = m (base + of_nat q)"
    using assms(1,3,5,6) by (subst store_bytes_off) auto
  then show ?thesis
    unfolding created_mem_def Let_def
    by (simp only: store32_off [OF q b(1) h(1)] store32_off [OF q b(2) h(2)]
        store32_off [OF q b(3) h(3)] store32_off [OF q b(4) h(4)] store32_off [OF q b(5) h(5)])
qed

lemma created_mem_count:
  assumes "n < 63" and "unat i < 64" and "length nm = 32"
  shows "load32 (created_mem base n nm i d m) (base + of_nat 0) = load32 m (base + of_nat 0) + 1"
proof -
  let ?m1 = "store_bytes m (base + of_nat (64 + 64 * n)) nm"
  have "load32 (store32 m' (base + of_nat k) v) (base + of_nat 0) = load32 m' (base + of_nat 0)"
    if "4 \<le> k" "k < 100000" for m' k v
    by (rule load32_cong_off, rule store32_off) (use that in auto)
  moreover have "load32 ?m1 (base + of_nat 0) = load32 m (base + of_nat 0)"
    by (rule load32_cong_off, subst store_bytes_off) (use assms in auto)
  ultimately show ?thesis using assms by (simp only: created_mem_def Let_def load32_store32)
qed

lemma created_mem_entry:
  assumes "n < 63" and "unat i < 64" and "length nm = 32"
  shows "\<exists>r. load_dentry (created_mem base n nm i d m) (base + of_nat (64 + 64 * n))
    = \<lparr>file_name = nm, file_type = FS_TYPE_FILE, inode_num = i, reserved = r\<rparr>"
proof -
  let ?e = "64 + 64 * n" and ?M = "created_mem base n nm i d m"
  let ?m1 = "store_bytes m (base + of_nat ?e) nm"
  let ?m2 = "store32 ?m1 (base + of_nat (?e + 0x20)) FS_TYPE_FILE"
  let ?m3 = "store32 ?m2 (base + of_nat (?e + 0x24)) i"
  have M: "?M (base + of_nat q) = ?m3 (base + of_nat q)" if "64 \<le> q" "q < 4096" for q
    using that assms unfolding created_mem_def Let_def
    by (subst store32_off, simp, simp, arith, subst store32_off, simp, simp, arith,
        subst store32_off, simp, simp, arith) (rule refl)
  have "load_bytes ?M (base + of_nat ?e) 32 = nm"
  proof (rule nth_equalityI)
    fix j assume "j < length (load_bytes ?M (base + of_nat ?e) 32)"
    then have j: "j < 32" by simp
    have "?M (base + of_nat (?e + j)) = ?m3 (base + of_nat (?e + j))"
      by (rule M) (use j assms(1) in simp_all)
    also have "\<dots> = ?m1 (base + of_nat (?e + j))"
      using j assms(1) by (subst store32_off, simp, simp, arith)+ (rule refl)
    also have "\<dots> = nm ! j" using j assms by (subst store_bytes_off) auto
    finally show "load_bytes ?M (base + of_nat ?e) 32 ! j = nm ! j"
      using j by (simp add: algebra_simps)
  qed (simp add: assms)
  moreover have "load32 ?M (base + of_nat (?e + 0x24)) = i"
  proof -
    have "load32 ?M (base + of_nat (?e + 0x24)) = load32 ?m3 (base + of_nat (?e + 0x24))"
      by (rule load32_cong_off, rule M) (use assms(1) in simp_all)
    then show ?thesis by simp
  qed
  moreover have "load32 ?M (base + of_nat (?e + 0x20)) = FS_TYPE_FILE"
  proof -
    have "load32 ?M (base + of_nat (?e + 0x20)) = load32 ?m3 (base + of_nat (?e + 0x20))"
      by (rule load32_cong_off, rule M) (use assms(1) in simp_all)
    also have "\<dots> = load32 ?m2 (base + of_nat (?e + 0x20))"
      by (rule load32_cong_off, rule store32_off) (use assms(1) in simp_all)
    finally show ?thesis by simp
  qed
  moreover have "base + of_nat ?e + 0x20 = base + of_nat (?e + 0x20)"
    "base + of_nat ?e + 0x24 = base + of_nat (?e + 0x24)" by simp_all
  ultimately show ?thesis by (simp only: load_dentry_def MAX_FILENAME_LENGTH_def) blast
qed

lemma copy_name_spec:
  assumes "0 \<notin> set bs" and "i \<le> length bs" and "length bs < i + k" and "length v = length bs + j"
  shows "copy_name (bs @ 0 # r) v i k = Some (take i v @ drop i bs @ drop (length bs) v)"
  using assms
proof (induction k arbitrary: i v)
  case 0
  then show ?case by simp
next
  case (Suc k)
  show ?case
  proof (cases "i = length bs")
    case True
    then show ?thesis by simp
  next
    case False
    then have i: "i < length bs" using Suc.prems by simp
    then have "bs ! i \<noteq> 0" using Suc.prems(1) nth_mem by metis
    moreover have "copy_name (bs @ 0 # r) (v[i := bs ! i]) (Suc i) k
      = Some (take (Suc i) (v[i := bs ! i]) @ drop (Suc i) bs @ drop (length bs) (v[i := bs ! i]))"
      by (rule Suc.IH) (use i Suc.prems in auto)
    ultimately show ?thesis using i Suc.prems
      by (simp add: nth_append take_Suc_conv_app_nth Cons_nth_drop_Suc)
  qed
qed

lemma copied_name:
  assumes "0 \<notin> set bs" and "length bs < 32"
  shows "copy_name (bs @ 0 # r) (replicate 32 0) 0 32 = Some (bs @ 0 # replicate (31 - length bs) 0)"
proof -
  have "replicate (32 - length bs) (0 :: u8) = 0 # replicate (31 - length bs) 0"
    using assms(2) by (cases "32 - length bs") (auto simp: Suc_diff_le)
  with copy_name_spec [of bs 0 32 "replicate 32 0" "32 - length bs" r] assms
  show ?thesis by simp
qed


text \<open>
  What \<open>create_new_file\<close> computes when there is room: \<open>i\<close> and \<open>d\<close> are the inode and data block
  it claims.
\<close>

definition can_create :: "'a fs_state_scheme \<Rightarrow> bool" where
  "can_create s \<longleftrightarrow> unat (num_dir_entries s) < 63
     \<and> 59 \<le> length (inode_bitmap s) \<and> 0 < free_count (inode_bitmap s)
     \<and> 59 \<le> length (data_block_bitmap s) \<and> 0 < free_count (data_block_bitmap s)"

lemma created_mem_code:
  "created_mem base n nm i d m =
     (let e = entry_addr base n; inode = base + i + 0x1000;
          m1 = store_bytes m e nm;
          m2 = store32 m1 (e + 0x20) FS_TYPE_FILE;
          m3 = store32 m2 (e + 0x24) i;
          m4 = store32 m3 inode 0;
          m5 = store32 m4 (inode + 4) d
      in store32 m5 base (load32 m5 base + 1))"
  by (simp add: created_mem_def Let_def entry_addr_def algebra_simps)

lemma num_dir_entries_bitmaps [simp]:
  "num_dir_entries (s\<lparr>inode_bitmap := b\<rparr>) = num_dir_entries s"
  "num_dir_entries (s\<lparr>data_block_bitmap := c\<rparr>) = num_dir_entries s"
  by (simp_all add: num_dir_entries_def)

lemma create_new_file_run:
  assumes "0 \<notin> set bs" and "length bs < 32" and "can_create s"
  obtains i d nm where "unat i < 59" and "inode_bitmap s ! unat i = 0"
    and "\<forall>k<unat i. inode_bitmap s ! k \<noteq> 0"
    and "unat d < 59" and "data_block_bitmap s ! unat d = 0"
    and "length nm = 32" and "c_string nm = bs"
    and "create_new_file (bs @ 0 # r) s = Some (entry_addr (fs_boot_block s) (unat (num_dir_entries s)),
      s\<lparr>inode_bitmap := (inode_bitmap s)[unat i := 1],
        data_block_bitmap := (data_block_bitmap s)[unat d := 1],
        mem := created_mem (fs_boot_block s) (unat (num_dir_entries s)) nm i d (mem s)\<rparr>)"
proof -
  let ?base = "fs_boot_block s" and ?n = "unat (num_dir_entries s)"
  have g: "59 \<le> length (inode_bitmap s)" "0 < free_count (inode_bitmap s)"
    "59 \<le> length (data_block_bitmap s)" "0 < free_count (data_block_bitmap s)"
    using assms(3) by (simp_all add: can_create_def)
  obtain i u where i: "claim_free_inode_block s = Some (i, u)" "i \<noteq> -1" "unat i < 59"
    "inode_bitmap s ! unat i = 0" "\<forall>k<unat i. inode_bitmap s ! k \<noteq> 0"
    "inode_bitmap u = (inode_bitmap s)[unat i := 1]"
    by (rule inode_alloc.claim_some [OF g(1,2)])
  have u: "u = s\<lparr>inode_bitmap := (inode_bitmap s)[unat i := 1]\<rparr>"
    using i(1,6) by (auto simp: claim_free_inode_block_def bind_eq_Some_conv)
  obtain d v where d: "claim_free_data_block u = Some (d, v)" "d \<noteq> -1" "unat d < 59"
    "data_block_bitmap u ! unat d = 0" "data_block_bitmap v = (data_block_bitmap u)[unat d := 1]"
    by (rule data_alloc.claim_some [of u]) (use g u in simp_all)
  have v: "v = u\<lparr>data_block_bitmap := (data_block_bitmap u)[unat d := 1]\<rparr>"
    using d(1,5) by (auto simp: claim_free_data_block_def bind_eq_Some_conv)
  let ?nm = "bs @ 0 # drop (Suc (length bs)) (load_bytes (mem s) (entry_addr ?base ?n) 32)"
  have n: "num_dir_entries s < 63" "?n < 63" using assms(3) by (simp_all add: can_create_def word_less_nat_alt)
  have "strcpy (load_bytes (mem s) (entry_addr ?base ?n) 32) (bs @ 0 # replicate (31 - length bs) 0)
      = Some ?nm"
    using assms(1,2) by (intro strcpy_spec) simp_all
  moreover have "length ?nm = 32" using assms(2) by simp
  moreover have "c_string ?nm = bs" using assms(1) by simp
  moreover have "get_inode_by_idx i s' = fs_boot_block s' + i + 0x1000" for s' :: "'a fs_state_scheme"
    using i(3) by (simp add: get_inode_by_idx_def MAX_INODES_def word_less_nat_alt)
  moreover have "\<not> 63 \<le> num_dir_entries s" using n by simp
  moreover note directory_entry_addr [OF n(2), of ?base] copied_name [OF assms(1,2)]
    d(1) [unfolded u v]
  ultimately show ?thesis
    using i(2-5) d(2-4) unfolding u
    by (intro that [of i d ?nm])
      (simp_all add: create_new_file_def i(1) [unfolded u] NUM_DENTRIES_def MAX_FILENAME_LENGTH_def
        data_block_slot_def MAX_BLOCKS_IN_INODE_def created_mem_code Let_def)
qed


lemma find_snoc: "find P xs = None \<Longrightarrow> P x \<Longrightarrow> find P (xs @ [x]) = Some x"
  by (induction xs) (auto split: if_splits)

lemma created_directory:
  assumes "unat (num_dir_entries s) < 63" and "unat i < 64" and "length nm = 32"
    and t: "fs_boot_block t = fs_boot_block s"
      "mem t = created_mem (fs_boot_block s) (unat (num_dir_entries s)) nm i d (mem s)"
  shows "\<exists>r. directory t = directory s @
    [\<lparr>file_name = nm, file_type = FS_TYPE_FILE, inode_num = i, reserved = r\<rparr>]"
proof -
  let ?b = "fs_boot_block s" and ?n = "unat (num_dir_entries s)"
  have "num_dir_entries t = num_dir_entries s + 1"
    using created_mem_count [OF assms(1-3), of ?b d "mem s"] by (simp add: num_dir_entries_def t)
  then have n: "unat (num_dir_entries t) = Suc ?n"
    using assms(1) by (simp add: unat_add_small)
  have "load_dentry (mem t) (entry_addr ?b j) = load_dentry (mem s) (entry_addr ?b j)" if "j < ?n" for j
    unfolding entry_addr_off t
    by (rule load_dentry_cong_off, rule created_mem_other) (use assms(1-3) that in auto)
  then have "directory t = directory s @ [load_dentry (mem t) (entry_addr ?b ?n)]"
    by (simp add: directory_def n t)
  moreover obtain r where "load_dentry (mem t) (entry_addr ?b ?n)
      = \<lparr>file_name = nm, file_type = FS_TYPE_FILE, inode_num = i, reserved = r\<rparr>"
    using created_mem_entry [OF assms(1-3), of ?b d "mem s"] by (auto simp: t entry_addr_off)
  ultimately show ?thesis by auto
qed

text \<open>
  C15. Creating a file and finding it. With a free directory entry, inode and data block,
  \<open>create_new_file\<close> appends one entry to the directory, of that name and of type file, whose
  inode was free and is now claimed; looking the name up afterwards finds the new entry unless
  an older one has the same name.
\<close>

theorem create_then_lookup:
  assumes "0 \<notin> set bs" and "length bs < 32" and "can_create s"
  shows "\<exists>p t e. create_new_file (bs @ 0 # r) s = Some (p, t) \<and> directory t = directory s @ [e]
    \<and> entry_name e = bs \<and> file_type e = FS_TYPE_FILE
    \<and> unat (inode_num e) < 59 \<and> inode_bitmap s ! unat (inode_num e) = 0
    \<and> inode_bitmap t ! unat (inode_num e) = 1
    \<and> (find (\<lambda>e. entry_name e = bs) (directory s) = None
        \<longrightarrow> read_dentry_by_name (bs @ 0 # r) dummy t = Some (0, e))"
proof -
  obtain i d nm where i: "unat i < 59" "inode_bitmap s ! unat i = 0"
    and nm: "length nm = 32" "c_string nm = bs"
    and run: "create_new_file (bs @ 0 # r) s
      = Some (entry_addr (fs_boot_block s) (unat (num_dir_entries s)),
      s\<lparr>inode_bitmap := (inode_bitmap s)[unat i := 1],
        data_block_bitmap := (data_block_bitmap s)[unat d := 1],
        mem := created_mem (fs_boot_block s) (unat (num_dir_entries s)) nm i d (mem s)\<rparr>)"
      (is "_ = Some (_, ?t)")
    by (rule create_new_file_run [OF assms, of r])
  have n: "unat (num_dir_entries s) < 63" "59 \<le> length (inode_bitmap s)"
    using assms(3) by (simp_all add: can_create_def)
  obtain rs where dir: "directory ?t = directory s @
      [\<lparr>file_name = nm, file_type = FS_TYPE_FILE, inode_num = i, reserved = rs\<rparr>]"
    using created_directory [OF n(1) _ nm(1), of i ?t d] i by auto
  let ?e = "\<lparr>file_name = nm, file_type = FS_TYPE_FILE, inode_num = i, reserved = rs\<rparr>"
  have "length (directory ?t) \<le> 63" using n dir by simp
  then have "num_dir_entries ?t \<le> 63" by (simp add: word_le_nat_alt)
  then have "read_dentry_by_name (bs @ 0 # r) dummy ?t = Some (0, ?e)"
    if "find (\<lambda>e. entry_name e = bs) (directory s) = None"
    using find_dentry_spec [OF assms(1), of ?t r dummy 0] that nm(2)
    by (simp add: dir read_dentry_by_name_def lookup_result_def FOUND_def entry_name_def find_snoc)
  then show ?thesis using run dir i n nm by (auto simp: entry_name_def)
qed

theorem create_then_lookup_witness:
  "\<exists>p t e. create_new_file (cstr ''b'') tiny_fs = Some (p, t)
     \<and> read_dentry_by_name (cstr ''b'') (load_dentry (\<lambda>_. 0) 0) t = Some (0, e)"
proof -
  have "can_create tiny_fs"
    by (simp add: can_create_def tiny_num_entries) (simp add: tiny_fs_def free_count_def)
  moreover have "find (\<lambda>e. entry_name e = [98]) (directory tiny_fs) = None"
    using tiny_directory by (auto simp: find_None_iff)
  ultimately show ?thesis
    using create_then_lookup [of "[98]" tiny_fs "[]" "load_dentry (\<lambda>_. 0) 0"]
    by (auto simp: cstr_def chars_def)
qed

text \<open>
  C28. \<open>create_new_file\<close> without room changes nothing that counts: with a full directory, no
  free inode or no free data block it returns \<open>NULL\<close> with memory and both bitmaps as before;
  an inode claimed on the way is released.
\<close>

theorem create_new_file_fails_cleanly:
  assumes "unat (num_dir_entries s) = 63 \<or> free_count (inode_bitmap s) = 0
      \<or> free_count (data_block_bitmap s) = 0"
    and "59 \<le> length (inode_bitmap s)" and "59 \<le> length (data_block_bitmap s)"
  shows "\<exists>t. create_new_file fname s = Some (0, t) \<and> mem t = mem s
    \<and> inode_bitmap t = inode_bitmap s \<and> data_block_bitmap t = data_block_bitmap s"
proof (cases "num_dir_entries s \<ge> 63")
  case True
  then show ?thesis by (simp add: create_new_file_def NUM_DENTRIES_def)
next
  case room: False
  then have "unat (num_dir_entries s) \<noteq> 63" by (simp add: word_le_nat_alt)
  show ?thesis
  proof (cases "free_count (inode_bitmap s) = 0")
    case True
    obtain i u where "claim_free_inode_block s = Some (i, u)" "mem u = mem s"
      "claim_outcome (inode_bitmap s) i (inode_bitmap u)" "data_block_bitmap u = data_block_bitmap s"
      using claim_free_inode_block_least [OF assms(2)]
      by (auto simp: claim_free_inode_block_def bind_eq_Some_conv)
    with room True free_count_zero [OF assms(2)] show ?thesis
      by (auto simp: create_new_file_def NUM_DENTRIES_def claim_outcome_def split: if_splits)
  next
    case False
    then have pos: "0 < free_count (inode_bitmap s)" by simp
    obtain i u where i: "claim_free_inode_block s = Some (i, u)" "i \<noteq> -1" "unat i < 59"
      "inode_bitmap s ! unat i = 0" "inode_bitmap u = (inode_bitmap s)[unat i := 1]"
      by (rule inode_alloc.claim_some [OF assms(2) pos])
    have u: "u = s\<lparr>inode_bitmap := (inode_bitmap s)[unat i := 1]\<rparr>"
      using i(1,5) by (auto simp: claim_free_inode_block_def bind_eq_Some_conv)
    have "free_count (data_block_bitmap s) = 0"
      using assms(1) \<open>unat (num_dir_entries s) \<noteq> 63\<close> False by blast
    then obtain v where v: "claim_free_data_block u = Some (-1, v)"
        "data_block_bitmap v = data_block_bitmap u"
      using data_alloc.claim_none [of u] assms(3) u by auto
    then have "v = u" by (auto simp: claim_free_data_block_def bind_eq_Some_conv)
    with room i u v assms(2) show ?thesis
      by (simp add: create_new_file_def NUM_DENTRIES_def list_update_same_conv)
  qed
qed

theorem create_new_file_fails_cleanly_witness:
  "\<exists>t. create_new_file (cstr ''b'') (tiny_fs\<lparr>data_block_bitmap := replicate 59 1\<rparr>) = Some (0, t)
     \<and> inode_bitmap t = replicate 64 0"
proof -
  let ?s = "tiny_fs\<lparr>data_block_bitmap := replicate 59 1\<rparr>"
  have "free_count (data_block_bitmap ?s) = 0" by (simp add: free_count_def)
  moreover have "59 \<le> length (inode_bitmap ?s)" "59 \<le> length (data_block_bitmap ?s)"
    by (simp_all add: tiny_fs_def)
  ultimately obtain t where "create_new_file (cstr ''b'') ?s = Some (0, t)"
      "inode_bitmap t = inode_bitmap ?s"
    using create_new_file_fails_cleanly [of ?s "cstr ''b''"] by blast
  then show ?thesis by (simp add: tiny_fs_def)
qed

text \<open>
  The inode of a created file is not initialised: \<open>get_inode_by_idx\<close> adds the inode number
  in bytes, so the stores of the length and of the first block number land in the block of
  inode 0, and the 4096 bytes of the claimed inode's own block are as before.
\<close>

theorem create_new_file_misses_inode:
  assumes "0 \<notin> set bs" and "length bs < 32" and "can_create s" and "inode_bitmap s ! 0 \<noteq> 0"
  shows "\<exists>p t i. create_new_file (bs @ 0 # r) s = Some (p, t)
    \<and> unat i < 59 \<and> inode_bitmap t = (inode_bitmap s)[unat i := 1] \<and> inode_bitmap s ! unat i = 0
    \<and> load_bytes (mem t) (block_at (fs_boot_block s) (i + 1)) 4096
      = load_bytes (mem s) (block_at (fs_boot_block s) (i + 1)) 4096"
proof -
  obtain i d nm where i: "unat i < 59" "inode_bitmap s ! unat i = 0"
    and nm: "length nm = 32" "c_string nm = bs"
    and run: "create_new_file (bs @ 0 # r) s
      = Some (entry_addr (fs_boot_block s) (unat (num_dir_entries s)),
      s\<lparr>inode_bitmap := (inode_bitmap s)[unat i := 1],
        data_block_bitmap := (data_block_bitmap s)[unat d := 1],
        mem := created_mem (fs_boot_block s) (unat (num_dir_entries s)) nm i d (mem s)\<rparr>)"
      (is "_ = Some (?p, ?t)")
    by (rule create_new_file_run [OF assms(1-3), of r])
  have n: "unat (num_dir_entries s) < 63" using assms(3) by (simp add: can_create_def)
  have "unat i \<noteq> 0" using i(2) assms(4) by metis
  have at: "block_at (fs_boot_block s) (i + 1) = fs_boot_block s + of_nat (4096 * (unat i + 1))"
    by (simp add: block_at_def FS_BLK_SIZE_def algebra_simps)
  have "load_bytes (mem ?t) (block_at (fs_boot_block s) (i + 1)) 4096
      = load_bytes (mem s) (block_at (fs_boot_block s) (i + 1)) 4096"
    unfolding at
    by (simp, rule load_bytes_cong_off [where k = "4096 * (unat i + 1)", simplified],
        rule created_mem_other [where q = "4096 + 4096 * unat i + j" for j, simplified])
      (use n i nm(1) \<open>unat i \<noteq> 0\<close> in auto)
  with run i show ?thesis by (intro exI [of _ ?p] exI [of _ ?t] exI [of _ i]) simp
qed

theorem create_new_file_misses_inode_witness:
  "\<exists>p t. create_new_file (cstr ''b'') (tiny_fs\<lparr>inode_bitmap := (replicate 64 0)[0 := 1]\<rparr>) = Some (p, t)"
proof -
  let ?s = "tiny_fs\<lparr>inode_bitmap := (replicate 64 0)[0 := 1]\<rparr>"
  have "can_create ?s"
    by (simp add: can_create_def tiny_num_entries)
      (simp add: tiny_fs_def free_count_def numeral_eq_Suc)
  moreover have "inode_bitmap ?s ! 0 \<noteq> 0" by simp
  ultimately show ?thesis
    using create_new_file_misses_inode [of "[98]" ?s "[]"] by (auto simp: cstr_def chars_def)
qed


end
