(* ===== verification/FileData.thy ===== *)
theory FileData
  imports FileSystem
begin

text \<open>
  Correctness of \<open>read_data\<close> and \<open>write_data\<close> of \<open>src/fs/fs.c\<close> against the abstract file: the
  bytes of its data blocks in the order of the block numbers of its inode.
\<close>

section \<open>Abstract files\<close>

text \<open>
  Offsets from the start of the image: of the \<open>j\<close>th block number of inode \<open>k\<close>, and of data block
  \<open>d\<close>.
\<close>

definition slot_off :: "nat \<Rightarrow> nat \<Rightarrow> nat" where
  "slot_off k j = 4096 * (k + 1) + 4 + 4 * j"

definition data_off :: "nat \<Rightarrow> nat \<Rightarrow> nat" where
  "data_off ni d = 4096 * (1 + ni + d)"

definition file_block :: "'a fs_state_scheme \<Rightarrow> u32 \<Rightarrow> nat \<Rightarrow> u32" where
  "file_block s k j = load32 (mem s) (fs_boot_block s + of_nat (slot_off (unat k) j))"

definition inode_length :: "'a fs_state_scheme \<Rightarrow> u32 \<Rightarrow> nat" where
  "inode_length s k = unat (load32 (mem s) (fs_boot_block s + of_nat (4096 * (unat k + 1))))"

definition file_addr :: "'a fs_state_scheme \<Rightarrow> u32 \<Rightarrow> nat \<Rightarrow> u32" where
  "file_addr s k x = fs_boot_block s
     + of_nat (data_off (unat (num_inodes s)) (unat (file_block s k (x div 4096))) + x mod 4096)"

definition file_contents :: "'a fs_state_scheme \<Rightarrow> u32 \<Rightarrow> u8 list" where
  "file_contents s k = map (\<lambda>x. mem s (file_addr s k x)) [0..<inode_length s k]"

text \<open>
  A well-formed file: the image fits the address space, the inode exists, and the block numbers
  the length calls for are those of existing data blocks.
\<close>

definition image_size :: "'a fs_state_scheme \<Rightarrow> nat" where
  "image_size s = 4096 * (1 + unat (num_inodes s) + unat (num_data_blocks s))"

definition file_ok :: "'a fs_state_scheme \<Rightarrow> u32 \<Rightarrow> bool" where
  "file_ok s k \<longleftrightarrow> image_size s \<le> 4294967296 \<and> k < num_inodes s
     \<and> inode_length s k \<le> 1022 * 4096
     \<and> (\<forall>j<1022. 4096 * j < inode_length s k \<longrightarrow> file_block s k j < num_data_blocks s)"

text \<open>The \<open>n\<close> bytes from \<open>buf\<close> on lie outside the image.\<close>

definition buffer_apart :: "'a fs_state_scheme \<Rightarrow> u32 \<Rightarrow> nat \<Rightarrow> bool" where
  "buffer_apart s buf n \<longleftrightarrow>
     (\<forall>i<n. \<not> in_range (buf + of_nat i) (fs_boot_block s) (image_size s))"

section \<open>Gathering bytes\<close>

definition gather :: "mem \<Rightarrow> u32 \<Rightarrow> (nat \<Rightarrow> u32) \<Rightarrow> nat \<Rightarrow> mem" where
  "gather m buf f n = (\<lambda>x. if in_range x buf n then m (f (unat (x - buf))) else m x)"

lemma gather_0 [simp]: "gather m buf f 0 = m"
  by (simp add: gather_def)

lemma gather_outside: "\<not> in_range x buf n \<Longrightarrow> gather m buf f n x = m x"
  by (simp add: gather_def)

lemma gather_inside:
  "i < n \<Longrightarrow> n \<le> 4294967296 \<Longrightarrow> gather m buf f n (buf + of_nat i) = m (f i)"
  by (simp add: gather_def in_range_def unat_of_nat_small)

lemma in_rangeE:
  assumes "in_range x a n"
  obtains i where "i < n" "i < 4294967296" "x = a + of_nat i"
proof
  show "unat (x - a) < n" using assms by (simp add: in_range_def)
  show "unat (x - a) < 4294967296" by (rule unat_lt_32)
  show "x = a + of_nat (unat (x - a))" by simp
qed

lemma gather_extend:
  assumes step: "\<And>i. i < c \<Longrightarrow> f (r + i) = f r + of_nat i"
    and src: "\<And>i. i < c \<Longrightarrow> \<not> in_range (f (r + i)) buf r"
    and le: "r + c \<le> 4294967296" "r < 4294967296"
  shows "copy_block (gather m buf f r) (buf + of_nat r) (f r) c = gather m buf f (r + c)"
proof
  fix x
  let ?d = "unat (x - buf)"
  have rng: "in_range x (buf + of_nat r) c \<longleftrightarrow> r \<le> ?d \<and> ?d < r + c"
    by (rule in_range_shift [OF le])
  show "copy_block (gather m buf f r) (buf + of_nat r) (f r) c x = gather m buf f (r + c) x"
  proof (cases "r \<le> ?d \<and> ?d < r + c")
    case True
    then have d: "?d - r < c" "r + (?d - r) = ?d" by auto
    have "x - (buf + of_nat r) = of_nat (?d - r)"
      using True by (simp add: of_nat_diff)
    then have "f r + (x - (buf + of_nat r)) = f ?d" using step [OF d(1)] d(2) by simp
    moreover have "gather m buf f r (f ?d) = m (f ?d)"
      using src [OF d(1)] d(2) by (simp add: gather_outside)
    ultimately have "gather m buf f r (f r + (x - (buf + of_nat r))) = m (f ?d)" by simp
    then have "copy_block (gather m buf f r) (buf + of_nat r) (f r) c x = m (f ?d)"
      using True rng by (simp only: copy_block_def simp_thms if_True)
    moreover have "gather m buf f (r + c) x = m (f ?d)"
      using True by (simp add: gather_def in_range_def)
    ultimately show ?thesis by simp
  next
    case False
    with rng show ?thesis by (auto simp: copy_block_def gather_def in_range_def)
  qed
qed

lemma copy_ok_apart:
  assumes "\<And>i. i < c \<Longrightarrow> i < 4294967296 \<Longrightarrow> src + of_nat i \<noteq> dst"
  shows "copy_ok dst src c"
proof (rule ccontr)
  assume "\<not> copy_ok dst src c"
  then have "unat (dst - src) < c" by (simp add: copy_ok_def)
  with assms [of "unat (dst - src)"] unat_lt_32 [of "dst - src"] show False by simp
qed

text \<open>One round of the copy loop: \<open>P\<close> is the image, which the buffer avoids.\<close>

lemma gather_memcpy:
  assumes step: "\<And>i. i < c \<Longrightarrow> f (r + i) = f r + of_nat i"
    and img: "\<And>i. i < c \<Longrightarrow> P (f (r + i))"
    and apart: "\<And>i. i < r + c \<Longrightarrow> \<not> P (buf + of_nat i)"
    and le: "r + c < 4294967296" and c: "0 < c"
  shows "memcpy (buf + of_nat r) (f r) (of_nat c) (gather m buf f r) = gather m buf f (r + c)"
proof -
  have cc: "unat (of_nat c :: u32) = c" using le by (simp add: unat_of_nat_small)
  have "copy_ok (buf + of_nat r) (f r) c"
    by (rule copy_ok_apart) (use step img apart c in \<open>metis add_less_cancel_left less_add_same_cancel1\<close>)
  moreover have "\<not> in_range (f (r + i)) buf r" if "i < c" for i
  proof
    assume "in_range (f (r + i)) buf r"
    then obtain j where "j < r" "f (r + i) = buf + of_nat j" by (rule in_rangeE)
    with img [OF that] apart [of j] show False by simp
  qed
  ultimately show ?thesis
    using gather_extend [of c f r buf m] step le by (simp add: memcpy_copy cc)
qed


section \<open>Offsets of the image\<close>

lemma block_at_off: "block_at base (k + 1) = base + of_nat (4096 * (unat k + 1))"
  by (simp add: block_at_def FS_BLK_SIZE_def algebra_simps)

lemma block_at_data: "block_at base (1 + ni + d) = base + of_nat (data_off (unat ni) (unat d))"
  by (simp add: block_at_def FS_BLK_SIZE_def data_off_def algebra_simps)

lemma inode_length_eq: "unat (file_length (block_at (fs_boot_block s) (k + 1)) (mem s)) = inode_length s k"
  by (simp only: file_length_def block_at_off inode_length_def)

lemma data_block_slot_off:
  assumes "j < 1023"
  shows "data_block_slot (block_at base (k + 1)) (of_nat j) = Some (base + of_nat (slot_off (unat k) j))"
proof -
  have "unat (of_nat j :: u32) = j" using assms by (simp add: unat_of_nat_small)
  moreover have "block_at base (k + 1) + 4 + 4 * of_nat j = base + of_nat (slot_off (unat k) j)"
    unfolding block_at_off by (simp add: slot_off_def algebra_simps)
  ultimately show ?thesis using assms by (simp only: data_block_slot_def MAX_BLOCKS_IN_INODE_def if_True)
qed

lemma data_blocks_idx_off:
  "j < 1023 \<Longrightarrow> data_blocks_idx (block_at base (k + 1)) (of_nat j) m
     = Some (load32 m (base + of_nat (slot_off (unat k) j)))"
  by (simp add: data_blocks_idx_def data_block_slot_off)

lemma slot_in_inodes: "k < ni \<Longrightarrow> j < 1023 \<Longrightarrow> slot_off k j + 4 \<le> 4096 * (1 + ni)"
  by (simp add: slot_off_def)

lemma data_in_image: "d < nd \<Longrightarrow> o' < 4096 \<Longrightarrow> data_off ni d + o' < 4096 * (1 + ni + nd)"
  by (simp add: data_off_def)

text \<open>What is read from the image is not disturbed by what lands in a buffer outside it.\<close>

lemma load32_gather_image:
  assumes "\<And>i. i < n \<Longrightarrow> \<not> in_range (buf + of_nat i) base sz"
    and "q + 4 \<le> sz" and "sz \<le> 4294967296"
  shows "load32 (gather m buf f n) (base + of_nat q) = load32 m (base + of_nat q)"
proof (rule load32_cong_off)
  fix i :: nat
  assume i: "i < 4"
  have "in_range (base + of_nat (q + i)) base sz"
    using i assms(2,3) by (intro in_range_offset) auto
  then have "\<not> in_range (base + of_nat (q + i)) buf n"
    using assms(1) by (metis in_rangeE)
  then show "gather m buf f n (base + of_nat (q + i)) = m (base + of_nat (q + i))"
    by (rule gather_outside)
qed

section \<open>The read loop\<close>

text \<open>
  The blocks \<open>read_data\<close> visits: first the block the offset lies in, then the blocks 1, 2, ...
  of the inode. \<open>read_addr s k off p\<close> is the address the \<open>p\<close>th byte is read from.
\<close>

definition visited_block :: "nat \<Rightarrow> nat \<Rightarrow> nat" where
  "visited_block off i = (if i = 0 then off div 4096 else i)"

definition read_addr :: "'a fs_state_scheme \<Rightarrow> u32 \<Rightarrow> nat \<Rightarrow> nat \<Rightarrow> u32" where
  "read_addr s k off p =
     (let q = off mod 4096 + p in
      fs_boot_block s + of_nat (data_off (unat (num_inodes s))
        (unat (file_block s k (visited_block off (q div 4096)))) + q mod 4096))"

lemma visited_block_valid:
  assumes "file_ok s k" and "off < inode_length s k" and "off mod 4096 + p < inode_length s k"
  shows "file_block s k (visited_block off ((off mod 4096 + p) div 4096)) < num_data_blocks s"
proof -
  let ?i = "visited_block off ((off mod 4096 + p) div 4096)"
  have "4096 * ?i < inode_length s k"
    using assms(2,3) by (auto simp: visited_block_def)
  moreover have "inode_length s k \<le> 1022 * 4096" using assms(1) by (simp add: file_ok_def)
  ultimately show ?thesis using assms(1) by (simp add: file_ok_def)
qed

lemma read_addr_in_image:
  assumes "file_ok s k" and "off < inode_length s k" and "off mod 4096 + p < inode_length s k"
  shows "in_range (read_addr s k off p) (fs_boot_block s) (image_size s)"
proof -
  let ?q = "off mod 4096 + p"
  let ?d = "unat (file_block s k (visited_block off (?q div 4096)))"
  have "?d < unat (num_data_blocks s)"
    using visited_block_valid [OF assms] by (simp add: word_less_nat_alt)
  then have "data_off (unat (num_inodes s)) ?d + ?q mod 4096 < image_size s"
    unfolding image_size_def by (intro data_in_image) simp_all
  moreover have "image_size s \<le> 4294967296" using assms(1) by (simp add: file_ok_def)
  ultimately show ?thesis unfolding read_addr_def Let_def by (intro in_range_offset) auto
qed

lemma div_mod_run:
  assumes "q mod 4096 + i < (4096 :: nat)"
  shows "(q + i) div 4096 = q div 4096 \<and> (q + i) mod 4096 = q mod 4096 + i"
proof -
  have eq: "q + i = (q mod 4096 + i) + 4096 * (q div 4096)" by simp
  have "((q mod 4096 + i) + 4096 * (q div 4096)) div 4096 = q div 4096 + (q mod 4096 + i) div 4096"
    by (rule div_mult_self2) simp
  moreover have "((q mod 4096 + i) + 4096 * (q div 4096)) mod 4096 = (q mod 4096 + i) mod 4096"
    by (rule mod_mult_self2)
  ultimately show ?thesis
    using assms unfolding eq [symmetric] by simp
qed

lemma read_addr_run:
  assumes "(off mod 4096 + r) mod 4096 + i < 4096"
  shows "read_addr s k off (r + i) = read_addr s k off r + of_nat i"
proof -
  let ?q = "off mod 4096 + r"
  have q: "off mod 4096 + (r + i) = ?q + i" by simp
  have "(?q + i) div 4096 = ?q div 4096" "(?q + i) mod 4096 = ?q mod 4096 + i"
    using div_mod_run [OF assms] by (rule conjunct1, rule conjunct2)
  then show ?thesis unfolding read_addr_def Let_def q by (simp only: of_nat_add add.assoc)
qed

lemma read_addr_block:
  "read_addr s k off r =
     block_at (fs_boot_block s) (1 + num_inodes s
       + file_block s k (visited_block off ((off mod 4096 + r) div 4096)))
     + of_nat ((off mod 4096 + r) mod 4096)"
  unfolding block_at_data by (simp add: read_addr_def Let_def)


text \<open>One round of either copy loop, on naturals: \<open>c\<close> bytes from position \<open>q\<close> with \<open>rest\<close> to go.\<close>

lemma round_facts:
  fixes q rest :: nat
  defines "c \<equiv> min (4096 - q mod 4096) rest"
  assumes "0 < rest"
  shows "0 < c" and "c \<le> rest" and "q mod 4096 + c \<le> 4096"
    and "c < rest \<Longrightarrow> (q + c) div 4096 = q div 4096 + 1 \<and> (q + c) mod 4096 = 0"
proof -
  have "q mod 4096 < 4096" by simp
  then show "0 < c" "c \<le> rest" "q mod 4096 + c \<le> 4096" using assms by (auto simp: c_def)
  show "(q + c) div 4096 = q div 4096 + 1 \<and> (q + c) mod 4096 = 0" if "c < rest"
  proof -
    have "c = 4096 - q mod 4096" using that by (simp add: c_def min_def split: if_splits)
    then have "q mod 4096 + c = 4096" using \<open>q mod 4096 < 4096\<close> by simp
    moreover have "q + c = 4096 * (q div 4096) + (q mod 4096 + c)" by simp
    ultimately have "q + c = 4096 * (q div 4096 + 1)" by simp
    then show ?thesis by simp
  qed
qed

lemma copy_count:
  assumes "rest < 4294967296"
  shows "(if (of_nat rest :: u32) < FS_BLK_SIZE - of_nat (q mod 4096) then of_nat rest
          else FS_BLK_SIZE - of_nat (q mod 4096)) = (of_nat (min (4096 - q mod 4096) rest) :: u32)"
proof -
  have q: "q mod 4096 < 4096" by simp
  have r: "FS_BLK_SIZE - of_nat (q mod 4096) = (of_nat (4096 - q mod 4096) :: u32)"
    using q by (simp add: FS_BLK_SIZE_def of_nat_diff)
  have "unat (of_nat rest :: u32) = rest" "unat (of_nat (4096 - q mod 4096) :: u32) = 4096 - q mod 4096"
    using assms by (intro unat_of_nat_small, simp)+
  then have "(of_nat rest :: u32) < of_nat (4096 - q mod 4096) \<longleftrightarrow> rest < 4096 - q mod 4096"
    by (simp only: word_less_nat_alt)
  then show ?thesis unfolding r by (auto simp: min_def)
qed

lemma not_above_last: "(d :: u32) < nd \<Longrightarrow> \<not> d > nd - 1"
  by unat_arith

lemma read_round:
  assumes ok: "file_ok s k" "off < inode_length s k" "off + n \<le> inode_length s k"
    and ap: "buffer_apart s buf n" and r: "r < n"
  defines "q \<equiv> off mod 4096 + r"
  defines "c \<equiv> min (4096 - q mod 4096) (n - r)"
  shows "read_loop (fs_boot_block s) (block_at (fs_boot_block s) (k + 1)) (num_inodes s) (num_data_blocks s) buf
      (of_nat r) (of_nat (n - r)) (of_nat (q div 4096)) (of_nat (q mod 4096))
      (block_at (fs_boot_block s) (1 + num_inodes s + file_block s k (visited_block off (q div 4096))))
      (gather (mem s) buf (read_addr s k off) r)
    = (if file_block s k (q div 4096 + 1) > num_data_blocks s - 1
       then Some (of_nat (r + c), gather (mem s) buf (read_addr s k off) (r + c))
       else read_loop (fs_boot_block s) (block_at (fs_boot_block s) (k + 1)) (num_inodes s) (num_data_blocks s) buf
     (of_nat (r + c)) (of_nat (n - (r + c))) (of_nat (q div 4096) + 1) 0
     (block_at (fs_boot_block s) (1 + num_inodes s + file_block s k (q div 4096 + 1)))
     (gather (mem s) buf (read_addr s k off) (r + c)))"
proof -
  let ?base = "fs_boot_block s" and ?q = "off mod 4096 + r" and ?f = "read_addr s k off"
  let ?c = "min (4096 - ?q mod 4096) (n - r)"
  have len: "inode_length s k \<le> 1022 * 4096" "image_size s \<le> 4294967296" "k < num_inodes s"
    using ok(1) by (simp_all add: file_ok_def)
  have rest: "0 < n - r" "n - r < 4294967296" "n < 4294967296" using r ok len by simp_all
  have nz: "(of_nat (n - r) :: u32) \<noteq> 0" using rest unat_of_nat_small by (metis less_irrefl unat_0)
  note c = round_facts [OF rest(1), of ?q]
  have small: "off mod 4096 + p < inode_length s k" if "p < n" for p
    using that ok(3) mod_less_eq_dividend [of off 4096] by linarith
  have i: "?q div 4096 + 1 < 1023"
    using small [OF r] len(1) by (simp add: less_mult_imp_div_less)
  have copied: "memcpy (buf + of_nat r) (?f r) (of_nat ?c) (gather (mem s) buf ?f r)
      = gather (mem s) buf ?f (r + ?c)"
  proof (rule gather_memcpy [where P = "\<lambda>x. in_range x ?base (image_size s)"])
    fix j assume j: "j < ?c"
    then show "?f (r + j) = ?f r + of_nat j" using c(3) by (intro read_addr_run) linarith
    show "in_range (?f (r + j)) ?base (image_size s)"
      using j c(2) by (intro read_addr_in_image ok small) linarith
  next
    show "\<not> in_range (buf + of_nat j) ?base (image_size s)" if "j < r + ?c" for j
      using that c(2) r ap by (simp add: buffer_apart_def)
  qed (use c(1,2) rest in linarith)+
  have next_idx: "data_blocks_idx (block_at ?base (k + 1)) (of_nat (?q div 4096) + 1)
      (gather (mem s) buf ?f (r + ?c)) = Some (file_block s k (?q div 4096 + 1))"
  proof -
    have "load32 (gather (mem s) buf ?f (r + ?c)) (?base + of_nat (slot_off (unat k) (?q div 4096 + 1)))
        = load32 (mem s) (?base + of_nat (slot_off (unat k) (?q div 4096 + 1)))"
    proof (rule load32_gather_image)
      show "\<not> in_range (buf + of_nat j) ?base (image_size s)" if "j < r + ?c" for j
        using that c(2) r ap by (simp add: buffer_apart_def)
      show "slot_off (unat k) (?q div 4096 + 1) + 4 \<le> image_size s"
        using slot_in_inodes [of "unat k" "unat (num_inodes s)" "?q div 4096 + 1"] i len(3)
        by (simp add: image_size_def word_less_nat_alt)
    qed (rule len(2))
    moreover have "of_nat (?q div 4096) + 1 = (of_nat (?q div 4096 + 1) :: u32)" by simp
    ultimately show ?thesis
      by (simp only: data_blocks_idx_off [OF i] file_block_def)
  qed
  have counts: "of_nat r + (of_nat ?c :: u32) = of_nat (r + ?c)"
    "of_nat (n - r) - (of_nat ?c :: u32) = of_nat (n - (r + ?c))"
    by (simp, simp only: of_nat_diff [OF c(2), symmetric] diff_diff_left)
  show ?thesis unfolding c_def q_def
    by (subst read_loop.simps)
      (simp only: nz if_False Let_def copy_count [OF rest(2)] read_addr_block [symmetric]
        copied counts next_idx bind.bind_lunit)
qed

lemma read_loop_run:
  assumes ok: "file_ok s k" "off < inode_length s k" "off + n \<le> inode_length s k"
    and ap: "buffer_apart s buf n" and r: "r < n"
  shows "read_loop (fs_boot_block s) (block_at (fs_boot_block s) (k + 1)) (num_inodes s)
      (num_data_blocks s) buf (of_nat r) (of_nat (n - r))
      (of_nat ((off mod 4096 + r) div 4096)) (of_nat ((off mod 4096 + r) mod 4096))
      (block_at (fs_boot_block s) (1 + num_inodes s
         + file_block s k (visited_block off ((off mod 4096 + r) div 4096))))
      (gather (mem s) buf (read_addr s k off) r)
    = Some (of_nat n, gather (mem s) buf (read_addr s k off) n)"
  using r
proof (induction "n - r" arbitrary: r rule: less_induct)
  case less
  let ?base = "fs_boot_block s" and ?q = "off mod 4096 + r" and ?f = "read_addr s k off"
  let ?c = "min (4096 - ?q mod 4096) (n - r)"
  have len: "inode_length s k \<le> 1022 * 4096" "image_size s \<le> 4294967296" "k < num_inodes s"
    using ok(1) by (simp_all add: file_ok_def)
  have rest: "0 < n - r" "n - r < 4294967296" "n < 4294967296" using less.prems ok len by simp_all
  note c = round_facts [OF rest(1), of ?q]
  have small: "off mod 4096 + p < inode_length s k" if "p < n" for p
    using that ok(3) mod_less_eq_dividend [of off 4096] by linarith
  let ?rec = "read_loop ?base (block_at ?base (k + 1)) (num_inodes s) (num_data_blocks s) buf
     (of_nat (r + ?c)) (of_nat (n - (r + ?c))) (of_nat (?q div 4096) + 1) 0
     (block_at ?base (1 + num_inodes s + file_block s k (?q div 4096 + 1)))
     (gather (mem s) buf ?f (r + ?c))"
  note unfolded = read_round [OF ok ap less.prems]
  show ?case
  proof (cases "r + ?c = n")
    case True
    then have "?rec = Some (of_nat n, gather (mem s) buf ?f n)"
      by (subst read_loop.simps) simp
    then show ?thesis unfolding unfolded using True by simp
  next
    case False
    then have more: "r + ?c < n" "?c < n - r" using c(2) less.prems by linarith+
    have q': "off mod 4096 + (r + ?c) = ?q + ?c" by simp
    have nx: "(?q + ?c) div 4096 = ?q div 4096 + 1" "(?q + ?c) mod 4096 = 0"
      using c(4) [OF more(2)] by simp_all
    have vis: "visited_block off (?q div 4096 + 1) = ?q div 4096 + 1" by (simp add: visited_block_def)
    have "file_block s k (?q div 4096 + 1) < num_data_blocks s"
      using visited_block_valid [OF ok(1,2) small [OF more(1)]] unfolding q' by (simp only: nx vis)
    then have "\<not> file_block s k (?q div 4096 + 1) > num_data_blocks s - 1"
      by (rule not_above_last)
    moreover have "?rec = Some (of_nat n, gather (mem s) buf ?f n)"
    proof -
      have "n - (r + ?c) < n - r" using c(1) more(1) by linarith
      from less.hyps [OF this more(1)] show ?thesis
        unfolding q' by (simp only: nx vis semiring_1_class.of_nat_0 of_nat_add semiring_1_class.of_nat_1)
    qed
    ultimately show ?thesis unfolding unfolded by simp
  qed
qed


section \<open>Reading a file\<close>

definition read_count :: "'a fs_state_scheme \<Rightarrow> u32 \<Rightarrow> nat \<Rightarrow> nat \<Rightarrow> nat" where
  "read_count s k off n = min n (inode_length s k - off)"

lemma file_ok_bounds:
  assumes "file_ok s k"
  shows "inode_length s k \<le> 1022 * 4096" "image_size s \<le> 4294967296" "k < num_inodes s"
    "\<not> k > num_inodes s - 1"
  using assms not_above_last by (simp_all add: file_ok_def)

lemma max_length_eq:
  fixes off n flen :: u32
  assumes "unat off < unat flen" and "unat off + unat n < 4294967296"
  shows "(if flen < n + off then flen - off else n) = of_nat (min (unat n) (unat flen - unat off))"
proof -
  have "unat (n + off) = unat n + unat off" using assms by (simp add: unat_add_small add.commute)
  then have "flen < n + off \<longleftrightarrow> unat flen - unat off < unat n"
    using assms by (simp add: word_less_nat_alt) linarith
  moreover have "flen - off = of_nat (unat flen - unat off)"
    using assms by (simp add: of_nat_diff)
  ultimately show ?thesis by (simp add: min_def not_less)
qed

lemma read_data_run:
  assumes ok: "file_ok s k" and off: "unat off < inode_length s k"
    and nw: "unat off + unat n < 4294967296"
    and ap: "buffer_apart s buf (read_count s k (unat off) (unat n))"
  shows "read_data k off buf n s = Some (of_nat (read_count s k (unat off) (unat n)),
    s\<lparr>mem := gather (mem s) buf (read_addr s k (unat off)) (read_count s k (unat off) (unat n))\<rparr>)"
proof -
  let ?base = "fs_boot_block s" and ?n = "read_count s k (unat off) (unat n)"
  let ?ip = "block_at ?base (k + 1)"
  note b = file_ok_bounds [OF ok]
  have flen: "unat (file_length ?ip (mem s)) = inode_length s k" by (rule inode_length_eq)
  have "\<not> off \<ge> file_length ?ip (mem s)" using off by (simp add: word_le_nat_alt flen)
  moreover have "(if file_length ?ip (mem s) < n + off then file_length ?ip (mem s) - off else n) = of_nat ?n"
    using max_length_eq [of off "file_length ?ip (mem s)" n] off nw by (simp add: flen read_count_def)
  moreover have idx: "off div FS_BLK_SIZE = of_nat (unat off div 4096)"
    "off mod FS_BLK_SIZE = of_nat (unat off mod 4096)"
    by (simp_all add: FS_BLK_SIZE_def word_unat_eq_iff unat_div unat_mod unat_of_nat_small
        less_imp_diff_less unat_lt_32 div_le_dividend le_less_trans [OF div_le_dividend])
  moreover have "unat off div 4096 < 1023"
    using off b(1) by (simp add: less_mult_imp_div_less)
  then have "data_blocks_idx ?ip (of_nat (unat off div 4096)) (mem s)
      = Some (file_block s k (unat off div 4096))"
    by (simp add: data_blocks_idx_off file_block_def)
  moreover have "visited_block (unat off) 0 = unat off div 4096" by (simp add: visited_block_def)
  moreover have "\<not> file_block s k (unat off div 4096) > num_data_blocks s - 1"
    using visited_block_valid [OF ok off, of 0] off mod_less_eq_dividend [of "unat off" 4096]
    by (intro not_above_last) (simp add: visited_block_def)
  moreover have "read_loop ?base ?ip (num_inodes s) (num_data_blocks s) buf 0 (of_nat ?n) 0
      (of_nat (unat off mod 4096))
      (block_at ?base (1 + num_inodes s + file_block s k (unat off div 4096))) (mem s)
    = Some (of_nat ?n, gather (mem s) buf (read_addr s k (unat off)) ?n)"
  proof (cases "?n = 0")
    case True
    then show ?thesis by (subst read_loop.simps) simp
  next
    case False
    then have n: "0 < ?n" "unat off + ?n \<le> inode_length s k" using off by (simp_all add: read_count_def)
    show ?thesis using read_loop_run [OF ok off n(2) ap n(1)]
      by (simp add: visited_block_def)
  qed
  ultimately show ?thesis using b(4)
    by (simp add: read_data_def Let_def)
qed


lemma load_bytes_gather:
  assumes "n \<le> 4294967296"
  shows "load_bytes (gather m buf f n) buf n = map (\<lambda>p. m (f p)) [0..<n]"
  using assms by (intro nth_equalityI) (simp_all add: gather_inside)

lemma read_count_bound: "file_ok s k \<Longrightarrow> read_count s k off n \<le> 4294967296"
  using file_ok_bounds(1) [of s k] by (simp add: read_count_def)

text \<open>When the visited blocks are the blocks of the file in order, the file's bytes are read.\<close>

lemma read_addr_file_addr:
  assumes "off < 4096 \<or> off mod 4096 + p < 4096"
  shows "read_addr s k off p = file_addr s k (off + p)"
proof (cases "off < 4096")
  case True
  then show ?thesis by (simp add: read_addr_def file_addr_def visited_block_def Let_def)
next
  case False
  with assms have "off mod 4096 + p < 4096" by simp
  from div_mod_run [OF this] this show ?thesis
    by (simp add: read_addr_def file_addr_def visited_block_def Let_def)
qed

lemma take_drop_contents:
  "map (\<lambda>p. mem s (file_addr s k (off + p))) [0..<read_count s k off n]
     = take n (drop off (file_contents s k))"
  by (rule nth_equalityI) (auto simp: read_count_def file_contents_def)


text \<open>
  Reading across a block boundary from an offset in a later block goes wrong: the block after
  the first is taken to be block 1 of the file. Reading from the start of block 1 of a file of
  more than two blocks delivers block 1 a second time where block 2 belongs.
\<close>

theorem read_data_repeats_block:
  assumes "file_ok s k" and "8192 < inode_length s k" and "4096 < unat n" and "unat n < 4294963200"
    and "buffer_apart s buf (read_count s k 4096 (unat n))"
  shows "\<exists>t. read_data k 4096 buf n s = Some (of_nat (read_count s k 4096 (unat n)), t)
    \<and> mem t (buf + 4096) = file_contents s k ! 4096"
proof -
  let ?n = "read_count s k 4096 (unat n)"
  have n: "4096 < ?n" "?n \<le> 4294967296"
    using assms(2,3) read_count_bound [OF assms(1)] by (simp_all add: read_count_def)
  have "gather (mem s) buf (read_addr s k 4096) ?n (buf + of_nat 4096) = mem s (read_addr s k 4096 4096)"
    by (rule gather_inside [OF n])
  also have "read_addr s k 4096 4096 = file_addr s k 4096"
    by (simp add: read_addr_def file_addr_def visited_block_def)
  finally have "gather (mem s) buf (read_addr s k 4096) ?n (buf + 4096) = file_contents s k ! 4096"
    using assms(2) by (simp add: file_contents_def)
  then show ?thesis
    using read_data_run [OF assms(1), of 4096 n buf] assms(2-5) by simp
qed

text \<open>
  The error and end-of-file cases of \<open>read_data\<close>: an inode number that is not below the
  count gives -1, an offset at or behind the end gives 0, both without any change.
\<close>

theorem read_data_no_data:
  assumes "num_inodes s \<noteq> 0"
  shows "(num_inodes s \<le> k \<longrightarrow> read_data k off buf n s = Some (-1, s))
    \<and> (k < num_inodes s \<and> inode_length s k \<le> unat off \<longrightarrow> read_data k off buf n s = Some (0, s))"
proof (intro conjI impI)
  assume "num_inodes s \<le> k"
  then have "num_inodes s - 1 < k" using assms by unat_arith
  then show "read_data k off buf n s = Some (-1, s)" by (simp add: read_data_def NOT_FOUND_def)
next
  assume h: "k < num_inodes s \<and> inode_length s k \<le> unat off"
  then have "\<not> num_inodes s - 1 < k" using not_above_last by blast
  moreover have "file_length (block_at (fs_boot_block s) (k + 1)) (mem s) \<le> off"
    using h inode_length_eq [of s k] by (simp add: word_le_nat_alt)
  ultimately show "read_data k off buf n s = Some (0, s)" by (simp add: read_data_def)
qed

section \<open>Scattering bytes\<close>

fun scatter :: "mem \<Rightarrow> (nat \<Rightarrow> u32) \<Rightarrow> (nat \<Rightarrow> u8) \<Rightarrow> nat \<Rightarrow> mem" where
  "scatter m f v 0 = m"
| "scatter m f v (Suc n) = (scatter m f v n)(f n := v n)"

lemma scatter_outside: "(\<And>p. p < n \<Longrightarrow> f p \<noteq> x) \<Longrightarrow> scatter m f v n x = m x"
  by (induction n) auto

lemma scatter_inside: "inj_on f {..<n} \<Longrightarrow> p < n \<Longrightarrow> scatter m f v n (f p) = v p"
  by (induction n) (auto simp: less_Suc_eq lessThan_Suc inj_on_def)

lemma scatter_memcpy:
  assumes step: "\<And>i. i < c \<Longrightarrow> f (r + i) = f r + of_nat i"
    and inj: "inj_on f {..<r + c}"
    and img: "\<And>p. p < r + c \<Longrightarrow> P (f p)"
    and apart: "\<And>i. i < r + c \<Longrightarrow> \<not> P (buf + of_nat i)"
    and le: "r + c < 4294967296" and c: "0 < c"
  shows "memcpy (f r) (buf + of_nat r) (of_nat c) (scatter m f (\<lambda>p. m (buf + of_nat p)) r)
    = scatter m f (\<lambda>p. m (buf + of_nat p)) (r + c)"
proof -
  let ?v = "\<lambda>p. m (buf + of_nat p)"
  have cc: "unat (of_nat c :: u32) = c" using le by (simp add: unat_of_nat_small)
  have "buf + of_nat r + of_nat i \<noteq> f r" if "i < c" for i
    using img [of r] apart [of "r + i"] that by (auto simp: add.assoc)
  then have ok: "copy_ok (f r) (buf + of_nat r) c" by (intro copy_ok_apart) auto
  have "copy_block (scatter m f ?v r) (f r) (buf + of_nat r) c x = scatter m f ?v (r + c) x" for x
  proof (cases "in_range x (f r) c")
    case True
    then obtain i where i: "i < c" "x = f r + of_nat i" by (elim in_rangeE)
    then have x: "x = f (r + i)" using step by simp
    have "scatter m f ?v r (buf + of_nat (r + i)) = ?v (r + i)"
    proof (rule scatter_outside)
      show "f p \<noteq> buf + of_nat (r + i)" if "p < r" for p
        using img [of p] apart [of "r + i"] that i(1) by auto
    qed
    moreover have "scatter m f ?v (r + c) x = ?v (r + i)"
      unfolding x using inj i(1) by (intro scatter_inside) auto
    ultimately show ?thesis using True i(2) by (simp add: copy_block_def add.assoc)
  next
    case out: False
    then have cb: "copy_block (scatter m f ?v r) (f r) (buf + of_nat r) c x = scatter m f ?v r x"
      by (simp add: copy_block_def)
    show ?thesis
    proof (cases "\<exists>p<r. x = f p")
      case True
      then obtain p where p: "p < r" "x = f p" by blast
      have "inj_on f {..<r}" using inj by (rule inj_on_subset) auto
      with p inj show ?thesis unfolding cb by (simp add: scatter_inside)
    next
      case False
      have "f p \<noteq> x" if "p < r + c" for p
      proof (cases "p < r")
        case True
        with False show ?thesis by auto
      next
        case ge: False
        then have i: "p - r < c" "p = r + (p - r)" using that by auto
        have "in_range (f r + of_nat (p - r)) (f r) c" using i(1) le by (intro in_range_offset) auto
        then have "in_range (f p) (f r) c" using step [OF i(1)] i(2) by simp
        with out show ?thesis by auto
      qed
      then show ?thesis using False unfolding cb by (subst (1 2) scatter_outside) auto
    qed
  qed
  then show ?thesis by (simp add: memcpy_copy cc ok fun_eq_iff)
qed

section \<open>Files with distinct blocks\<close>

definition file_blocks_distinct :: "'a fs_state_scheme \<Rightarrow> u32 \<Rightarrow> bool" where
  "file_blocks_distinct s k \<longleftrightarrow> (\<forall>i<1022. \<forall>j<1022. 4096 * i < inode_length s k
     \<and> 4096 * j < inode_length s k \<and> file_block s k i = file_block s k j \<longrightarrow> i = j)"

definition file_off :: "'a fs_state_scheme \<Rightarrow> u32 \<Rightarrow> nat \<Rightarrow> nat" where
  "file_off s k x = data_off (unat (num_inodes s)) (unat (file_block s k (x div 4096))) + x mod 4096"

lemma file_addr_off: "file_addr s k x = fs_boot_block s + of_nat (file_off s k x)"
  by (simp add: file_addr_def file_off_def)

lemma file_off_bounds:
  assumes "file_ok s k" and "x < inode_length s k"
  shows "4096 * (1 + unat (num_inodes s)) \<le> file_off s k x" "file_off s k x < image_size s"
    "file_off s k x < 4294967296"
proof -
  have "4096 * (x div 4096) < inode_length s k" using assms(2) by (rule le_less_trans [OF times_div_less_eq_dividend])
  moreover from this have "x div 4096 < 1022" using file_ok_bounds(1) [OF assms(1)] by simp
  ultimately have "unat (file_block s k (x div 4096)) < unat (num_data_blocks s)"
    using assms(1) by (simp add: file_ok_def word_less_nat_alt)
  then show "file_off s k x < image_size s"
    unfolding file_off_def image_size_def by (intro data_in_image) simp_all
  then show "file_off s k x < 4294967296" using file_ok_bounds(2) [OF assms(1)] by simp
  show "4096 * (1 + unat (num_inodes s)) \<le> file_off s k x" by (simp add: file_off_def data_off_def)
qed

lemma file_addr_inj:
  assumes ok: "file_ok s k" "file_blocks_distinct s k"
  shows "inj_on (file_addr s k) {..<inode_length s k}"
proof (rule inj_onI)
  fix x y
  assume "x \<in> {..<inode_length s k}" "y \<in> {..<inode_length s k}" and eq: "file_addr s k x = file_addr s k y"
  then have x: "x < inode_length s k" and y: "y < inode_length s k" by simp_all
  have off: "file_off s k x = file_off s k y"
    using eq add_of_nat_inj [OF file_off_bounds(3) [OF ok(1) x] file_off_bounds(3) [OF ok(1) y]]
    by (simp add: file_addr_off)
  have split: "file_off s k z div 4096 = 1 + unat (num_inodes s) + unat (file_block s k (z div 4096))
      \<and> file_off s k z mod 4096 = z mod 4096" for z
  proof -
    have "(4096 * a + b mod 4096) div 4096 = a \<and> (4096 * a + b mod 4096) mod 4096 = b mod 4096"
      for a b :: nat by simp
    then show ?thesis unfolding file_off_def data_off_def .
  qed
  have "file_block s k (x div 4096) = file_block s k (y div 4096)" "x mod 4096 = y mod 4096"
    using split [of x] split [of y] off by (simp_all add: word_unat_eq_iff)
  moreover have "4096 * (x div 4096) < inode_length s k" "4096 * (y div 4096) < inode_length s k"
    using x y by (auto intro: le_less_trans [OF times_div_less_eq_dividend])
  moreover from this have "x div 4096 < 1022" "y div 4096 < 1022"
    using file_ok_bounds(1) [OF ok(1)] by simp_all
  ultimately have "x div 4096 = y div 4096" using ok(2) by (auto simp: file_blocks_distinct_def)
  with \<open>x mod 4096 = y mod 4096\<close> show "x = y" by (metis div_mult_mod_eq)
qed


text \<open>Writing a file leaves the counts, the lengths and the block numbers alone.\<close>

definition put_bytes :: "'a fs_state_scheme \<Rightarrow> u32 \<Rightarrow> nat \<Rightarrow> u32 \<Rightarrow> nat \<Rightarrow> mem" where
  "put_bytes s k off buf n =
     scatter (mem s) (\<lambda>p. file_addr s k (off + p)) (\<lambda>p. mem s (buf + of_nat p)) n"

lemma put_bytes_metadata:
  assumes ok: "file_ok s k" "off + n \<le> inode_length s k" and q: "q + 4 \<le> 4096 * (1 + unat (num_inodes s))"
  shows "load32 (put_bytes s k off buf n) (fs_boot_block s + of_nat q)
    = load32 (mem s) (fs_boot_block s + of_nat q)"
proof (rule load32_cong_off)
  fix i :: nat assume i: "i < 4"
  show "put_bytes s k off buf n (fs_boot_block s + of_nat (q + i)) = mem s (fs_boot_block s + of_nat (q + i))"
    unfolding put_bytes_def
  proof (rule scatter_outside)
    fix p assume "p < n"
    then have x: "off + p < inode_length s k" using ok(2) by simp
    have "q + i < 4096 * (1 + unat (num_inodes s))" using q i by simp
    moreover have "q + i < 4294967296" using calculation file_ok_bounds(2) [OF ok(1)]
      by (simp add: image_size_def)
    ultimately show "file_addr s k (off + p) \<noteq> fs_boot_block s + of_nat (q + i)"
      using file_off_bounds [OF ok(1) x] by (simp only: file_addr_off add_of_nat_inj)
  qed
qed

lemma put_bytes_state:
  assumes ok: "file_ok s k" "off + n \<le> inode_length s k" and t: "t = s\<lparr>mem := put_bytes s k off buf n\<rparr>"
  shows "num_inodes t = num_inodes s" "num_data_blocks t = num_data_blocks s"
    "fs_boot_block t = fs_boot_block s" "inode_length t k = inode_length s k"
    "j < 1023 \<Longrightarrow> file_block t k j = file_block s k j"
proof -
  note meta = put_bytes_metadata [OF ok, where buf = buf]
  have k: "unat k < unat (num_inodes s)" using file_ok_bounds(3) [OF ok(1)] by (simp add: word_less_nat_alt)
  show "num_inodes t = num_inodes s" "num_data_blocks t = num_data_blocks s"
    using meta [of 4] meta [of 8] by (simp_all add: num_inodes_def num_data_blocks_def t)
  show "fs_boot_block t = fs_boot_block s" by (simp add: t)
  show "inode_length t k = inode_length s k"
    using meta [of "4096 * (unat k + 1)"] k by (simp add: inode_length_def t)
  show "file_block t k j = file_block s k j" if "j < 1023"
    using meta [OF slot_in_inodes [OF k that]] by (simp add: file_block_def t)
qed

lemma put_bytes_contents:
  assumes ok: "file_ok s k" "file_blocks_distinct s k" "off + n \<le> inode_length s k"
    and t: "t = s\<lparr>mem := put_bytes s k off buf n\<rparr>"
  shows "file_contents t k = take off (file_contents s k) @ load_bytes (mem s) buf n
    @ drop (off + n) (file_contents s k)"
proof (rule nth_equalityI)
  note st = put_bytes_state [OF ok(1,3) t]
  have len: "length (file_contents s k) = inode_length s k" by (simp add: file_contents_def)
  show "length (file_contents t k) = length (take off (file_contents s k) @ load_bytes (mem s) buf n
    @ drop (off + n) (file_contents s k))"
    using ok(3) by (simp add: file_contents_def st)
  fix x assume "x < length (file_contents t k)"
  then have x: "x < inode_length s k" by (simp add: file_contents_def st)
  have blk: "x div 4096 < 1023" using x file_ok_bounds(1) [OF ok(1)] by (simp add: less_mult_imp_div_less)
  have addr: "file_addr t k x = file_addr s k x"
    by (simp add: file_addr_def st(1,3) st(5) [OF blk])
  have inj: "inj_on (\<lambda>p. file_addr s k (off + p)) {..<n}"
  proof (rule inj_onI)
    fix p q assume "p \<in> {..<n}" "q \<in> {..<n}" "file_addr s k (off + p) = file_addr s k (off + q)"
    then have "off + p = off + q"
      using ok(3) by (intro inj_onD [OF file_addr_inj [OF ok(1,2)]]) auto
    then show "p = q" by simp
  qed
  have val: "mem t (file_addr s k x)
      = (if off \<le> x \<and> x < off + n then mem s (buf + of_nat (x - off)) else mem s (file_addr s k x))"
  proof (cases "off \<le> x \<and> x < off + n")
    case True
    then have "x - off < n" "off + (x - off) = x" by auto
    with scatter_inside [OF inj this(1)] True show ?thesis by (simp add: t put_bytes_def)
  next
    case False
    have "file_addr s k (off + p) \<noteq> file_addr s k x" if "p < n" for p
    proof
      assume "file_addr s k (off + p) = file_addr s k x"
      then have "off + p = x"
        using ok(3) x that by (intro inj_onD [OF file_addr_inj [OF ok(1,2)]]) auto
      with False that show False by auto
    qed
    then have "mem t (file_addr s k x) = mem s (file_addr s k x)"
      unfolding t put_bytes_def by (simp add: scatter_outside)
    then show ?thesis by (simp only: False if_False)
  qed
  have "file_contents t k ! x = mem t (file_addr s k x)"
    using x by (simp add: file_contents_def st addr)
  also have "\<dots> = (take off (file_contents s k) @ load_bytes (mem s) buf n
    @ drop (off + n) (file_contents s k)) ! x"
    using x ok(3) by (auto simp: val nth_append len) (auto simp: file_contents_def)
  finally show "file_contents t k ! x = (take off (file_contents s k) @ load_bytes (mem s) buf n
    @ drop (off + n) (file_contents s k)) ! x" .
qed


section \<open>The write loop\<close>

lemma write_round:
  assumes ok: "file_ok s k" "file_blocks_distinct s k" "off < inode_length s k" "off + n \<le> inode_length s k"
    and ap: "buffer_apart s buf n" and seq: "off < 4096 \<or> off mod 4096 + n \<le> 4096" and r: "r < n"
  defines "q \<equiv> off mod 4096 + r"
  defines "c \<equiv> min (4096 - q mod 4096) (n - r)"
  shows "write_loop (fs_boot_block s) (block_at (fs_boot_block s) (k + 1)) (num_inodes s) (num_data_blocks s) buf
      (of_nat r) (of_nat (n - r)) (of_nat (q div 4096)) (of_nat (q mod 4096))
      (block_at (fs_boot_block s) (1 + num_inodes s + file_block s k (visited_block off (q div 4096))))
      (put_bytes s k off buf r)
    = (if file_block s k (q div 4096 + 1) > num_data_blocks s - 1
       then Some (of_nat (r + c), put_bytes s k off buf (r + c))
       else write_loop (fs_boot_block s) (block_at (fs_boot_block s) (k + 1)) (num_inodes s) (num_data_blocks s) buf
     (of_nat (r + c)) (of_nat (n - (r + c))) (of_nat (q div 4096) + 1) 0
     (block_at (fs_boot_block s) (1 + num_inodes s + file_block s k (q div 4096 + 1)))
     (put_bytes s k off buf (r + c)))"
proof -
  let ?base = "fs_boot_block s" and ?q = "off mod 4096 + r" and ?f = "\<lambda>p. file_addr s k (off + p)"
  let ?c = "min (4096 - ?q mod 4096) (n - r)"
  have len: "inode_length s k \<le> 1022 * 4096" "image_size s \<le> 4294967296" "k < num_inodes s"
    using ok(1) by (simp_all add: file_ok_def)
  have rest: "0 < n - r" "n - r < 4294967296" "n < 4294967296" using r ok len by simp_all
  have nz: "(of_nat (n - r) :: u32) \<noteq> 0" using rest unat_of_nat_small by (metis less_irrefl unat_0)
  note c = round_facts [OF rest(1), of ?q]
  have small: "off mod 4096 + p < inode_length s k" if "p < n" for p
    using that ok(4) mod_less_eq_dividend [of off 4096] by linarith
  have i: "?q div 4096 + 1 < 1023"
    using small [OF r] len(1) by (simp add: less_mult_imp_div_less)
  have same: "read_addr s k off p = ?f p" if "p < n" for p
    using that seq by (intro read_addr_file_addr) auto
  have copied: "memcpy (?f r) (buf + of_nat r) (of_nat ?c) (put_bytes s k off buf r)
      = put_bytes s k off buf (r + ?c)"
    unfolding put_bytes_def
  proof (rule scatter_memcpy [where P = "\<lambda>x. in_range x ?base (image_size s)"])
    fix j assume j: "j < ?c"
    have "read_addr s k off (r + j) = read_addr s k off r + of_nat j"
      using j c(3) by (intro read_addr_run) linarith
    moreover have "r + j < n" using j c(2) by linarith
    ultimately show "?f (r + j) = ?f r + of_nat j" by (simp only: same r)
  next
    show "inj_on ?f {..<r + ?c}"
    proof (rule inj_onI)
      fix p q assume pq: "p \<in> {..<r + ?c}" "q \<in> {..<r + ?c}" "?f p = ?f q"
      then have "p < r + ?c" "q < r + ?c" by simp_all
      then have "off + p < inode_length s k" "off + q < inode_length s k"
        using ok(4) c(2) r by linarith+
      with pq(3) have "off + p = off + q"
        by (intro inj_onD [OF file_addr_inj [OF ok(1,2)]]) auto
      then show "p = q" by simp
    qed
  next
    fix p assume "p < r + ?c"
    then have p: "p < n" using c(2) r by linarith
    show "in_range (?f p) ?base (image_size s)"
      using read_addr_in_image [OF ok(1,3) small [OF p]] same [OF p] by simp
    show "\<not> in_range (buf + of_nat p) ?base (image_size s)" using p ap by (simp add: buffer_apart_def)
  qed (use c(1,2) rest in linarith)+
  have next_idx: "data_blocks_idx (block_at ?base (k + 1)) (of_nat (?q div 4096) + 1)
      (put_bytes s k off buf (r + ?c)) = Some (file_block s k (?q div 4096 + 1))"
  proof -
    have "off + (r + ?c) \<le> inode_length s k" using ok(4) c(2) r by linarith
    moreover have "unat k < unat (num_inodes s)" using len(3) by (simp add: word_less_nat_alt)
    ultimately have "load32 (put_bytes s k off buf (r + ?c)) (?base + of_nat (slot_off (unat k) (?q div 4096 + 1)))
        = load32 (mem s) (?base + of_nat (slot_off (unat k) (?q div 4096 + 1)))"
      using i by (intro put_bytes_metadata ok slot_in_inodes)
    moreover have "of_nat (?q div 4096) + 1 = (of_nat (?q div 4096 + 1) :: u32)" by simp
    ultimately show ?thesis
      by (simp only: data_blocks_idx_off [OF i] file_block_def)
  qed
  have counts: "of_nat r + (of_nat ?c :: u32) = of_nat (r + ?c)"
    "of_nat (n - r) - (of_nat ?c :: u32) = of_nat (n - (r + ?c))"
    by (simp, simp only: of_nat_diff [OF c(2), symmetric] diff_diff_left)
  show ?thesis unfolding c_def q_def
    by (subst write_loop.simps)
      (simp only: nz if_False Let_def copy_count [OF rest(2)] read_addr_block [symmetric]
        same [OF r] copied counts next_idx bind.bind_lunit)
qed

lemma write_loop_run:
  assumes ok: "file_ok s k" "file_blocks_distinct s k" "off < inode_length s k" "off + n \<le> inode_length s k"
    and ap: "buffer_apart s buf n" and seq: "off < 4096 \<or> off mod 4096 + n \<le> 4096" and r: "r < n"
  shows "write_loop (fs_boot_block s) (block_at (fs_boot_block s) (k + 1)) (num_inodes s)
      (num_data_blocks s) buf (of_nat r) (of_nat (n - r))
      (of_nat ((off mod 4096 + r) div 4096)) (of_nat ((off mod 4096 + r) mod 4096))
      (block_at (fs_boot_block s) (1 + num_inodes s
         + file_block s k (visited_block off ((off mod 4096 + r) div 4096))))
      (put_bytes s k off buf r)
    = Some (of_nat n, put_bytes s k off buf n)"
  using r
proof (induction "n - r" arbitrary: r rule: less_induct)
  case less
  let ?base = "fs_boot_block s" and ?q = "off mod 4096 + r" and ?f = "\<lambda>p. file_addr s k (off + p)"
  let ?c = "min (4096 - ?q mod 4096) (n - r)"
  have len: "inode_length s k \<le> 1022 * 4096" "image_size s \<le> 4294967296" "k < num_inodes s"
    using ok(1) by (simp_all add: file_ok_def)
  have rest: "0 < n - r" "n - r < 4294967296" "n < 4294967296" using less.prems ok len by simp_all
  note c = round_facts [OF rest(1), of ?q]
  have small: "off mod 4096 + p < inode_length s k" if "p < n" for p
    using that ok(4) mod_less_eq_dividend [of off 4096] by linarith
  let ?rec = "write_loop ?base (block_at ?base (k + 1)) (num_inodes s) (num_data_blocks s) buf
     (of_nat (r + ?c)) (of_nat (n - (r + ?c))) (of_nat (?q div 4096) + 1) 0
     (block_at ?base (1 + num_inodes s + file_block s k (?q div 4096 + 1)))
     (put_bytes s k off buf (r + ?c))"
  note unfolded = write_round [OF ok ap seq less.prems]
  show ?case
  proof (cases "r + ?c = n")
    case True
    then have "?rec = Some (of_nat n, put_bytes s k off buf n)"
      by (subst write_loop.simps) simp
    then show ?thesis unfolding unfolded using True by simp
  next
    case False
    then have more: "r + ?c < n" "?c < n - r" using c(2) less.prems by linarith+
    have q': "off mod 4096 + (r + ?c) = ?q + ?c" by simp
    have nx: "(?q + ?c) div 4096 = ?q div 4096 + 1" "(?q + ?c) mod 4096 = 0"
      using c(4) [OF more(2)] by simp_all
    have vis: "visited_block off (?q div 4096 + 1) = ?q div 4096 + 1" by (simp add: visited_block_def)
    have "file_block s k (?q div 4096 + 1) < num_data_blocks s"
      using visited_block_valid [OF ok(1,3) small [OF more(1)]] unfolding q' by (simp only: nx vis)
    then have "\<not> file_block s k (?q div 4096 + 1) > num_data_blocks s - 1" by (rule not_above_last)
    moreover have "?rec = Some (of_nat n, put_bytes s k off buf n)"
    proof -
      have "n - (r + ?c) < n - r" using c(1) more(1) by linarith
      from less.hyps [OF this more(1)] show ?thesis
        unfolding q' by (simp only: nx vis semiring_1_class.of_nat_0 of_nat_add semiring_1_class.of_nat_1)
    qed
    ultimately show ?thesis unfolding unfolded by simp
  qed
qed


lemma off_words:
  "(off :: u32) div FS_BLK_SIZE = of_nat (unat off div 4096)"
  "off mod FS_BLK_SIZE = of_nat (unat off mod 4096)"
  by (simp_all add: FS_BLK_SIZE_def word_unat_eq_iff unat_div unat_mod unat_of_nat_small
      less_imp_diff_less unat_lt_32 div_le_dividend le_less_trans [OF div_le_dividend])

lemma write_blocks_run:
  assumes ok: "file_ok s k" "file_blocks_distinct s k" "unat off < inode_length s k"
      "unat off + unat n \<le> inode_length s k"
    and ap: "buffer_apart s buf (unat n)" and seq: "unat off < 4096 \<or> unat off mod 4096 + unat n \<le> 4096"
  shows "write_blocks (block_at (fs_boot_block s) (k + 1)) (num_inodes s) off buf n s
    = Some (n, s\<lparr>mem := put_bytes s k (unat off) buf (unat n)\<rparr>)"
proof -
  let ?base = "fs_boot_block s" and ?ip = "block_at (fs_boot_block s) (k + 1)"
  note b = file_ok_bounds [OF ok(1)]
  have "unat off div 4096 < 1023"
    using ok(3) b(1) by (simp add: less_mult_imp_div_less)
  then have "data_blocks_idx ?ip (of_nat (unat off div 4096)) (mem s)
      = Some (file_block s k (unat off div 4096))"
    by (simp add: data_blocks_idx_off file_block_def)
  moreover have "\<not> file_block s k (unat off div 4096) > num_data_blocks s - 1"
    using visited_block_valid [OF ok(1,3), of 0] ok(3) mod_less_eq_dividend [of "unat off" 4096]
    by (intro not_above_last) (simp add: visited_block_def)
  moreover have "write_loop ?base ?ip (num_inodes s) (num_data_blocks s) buf 0 n 0
      (of_nat (unat off mod 4096))
      (block_at ?base (1 + num_inodes s + file_block s k (unat off div 4096))) (mem s)
    = Some (n, put_bytes s k (unat off) buf (unat n))"
  proof (cases "n = 0")
    case True
    then show ?thesis by (subst write_loop.simps) (simp add: put_bytes_def)
  next
    case False
    then have "0 < unat n" by (simp add: unat_gt_0)
    from write_loop_run [OF ok ap seq this] show ?thesis
      by (simp add: visited_block_def put_bytes_def)
  qed
  ultimately show ?thesis
    by (simp add: write_blocks_def Let_def off_words)
qed

lemma write_data_run:
  assumes ok: "file_ok s k" "file_blocks_distinct s k" "unat off < inode_length s k"
      "unat off + unat n \<le> inode_length s k"
    and ap: "buffer_apart s buf (unat n)" and seq: "unat off < 4096 \<or> unat off mod 4096 + unat n \<le> 4096"
  shows "write_data k off buf n s = Some (n, s\<lparr>mem := put_bytes s k (unat off) buf (unat n)\<rparr>)"
proof -
  have "\<not> off \<ge> file_length (block_at (fs_boot_block s) (k + 1)) (mem s)"
    using ok(3) by (simp add: word_le_nat_alt inode_length_eq)
  then show ?thesis
    using write_blocks_run [OF assms] file_ok_bounds(4) [OF ok(1)]
    by (simp add: write_data_def)
qed

text \<open>
  Overwriting part of a file. Inside a well-formed file whose blocks are distinct, from a
  buffer outside the image, \<open>write_data\<close> returns the length, replaces exactly those bytes of the
  file's contents and leaves the file well-formed with the same length, under the same
  condition on block boundaries as for reading.
\<close>

theorem write_data_overwrites:
  assumes "file_ok s k" and "file_blocks_distinct s k" and "unat off < inode_length s k"
    and "unat off + unat n \<le> inode_length s k" and "buffer_apart s buf (unat n)"
    and "unat off < 4096 \<or> unat off mod 4096 + unat n \<le> 4096"
  shows "\<exists>t. write_data k off buf n s = Some (n, t) \<and> file_ok t k
    \<and> file_contents t k = take (unat off) (file_contents s k) @ load_bytes (mem s) buf (unat n)
        @ drop (unat off + unat n) (file_contents s k)"
proof -
  let ?t = "s\<lparr>mem := put_bytes s k (unat off) buf (unat n)\<rparr>"
  note st = put_bytes_state [OF assms(1,4) refl, where buf = buf]
  have "file_ok ?t k"
    using assms(1) unfolding file_ok_def image_size_def by (simp add: st)
  then show ?thesis
    using write_data_run [OF assms] put_bytes_contents [OF assms(1,2,4) refl] by blast
qed


section \<open>Appending within the last block\<close>

text \<open>The block the next byte goes to exists and is not used by an earlier part of the file.\<close>

definition last_block_ready :: "'a fs_state_scheme \<Rightarrow> u32 \<Rightarrow> bool" where
  "last_block_ready s k \<longleftrightarrow> (let j = inode_length s k div 4096 in
     j < 1022 \<and> file_block s k j < num_data_blocks s \<and> (\<forall>i<j. file_block s k i \<noteq> file_block s k j))"

definition with_length :: "'a fs_state_scheme \<Rightarrow> u32 \<Rightarrow> u32 \<Rightarrow> 'a fs_state_scheme" where
  "with_length s k l = s\<lparr>mem := store32 (mem s) (block_at (fs_boot_block s) (k + 1)) l\<rparr>"

lemma with_length_load:
  assumes "image_size s \<le> 4294967296" and "k < num_inodes s"
    and "q + 4 \<le> 4096 * (unat k + 1) \<or> 4096 * (unat k + 1) + 4 \<le> q" and "q + 4 \<le> 4294967296"
  shows "load32 (mem (with_length s k l)) (fs_boot_block s + of_nat q) = load32 (mem s) (fs_boot_block s + of_nat q)"
proof (rule load32_cong_off)
  fix i :: nat assume "i < 4"
  have "4096 * (unat k + 1) + 4 \<le> 4294967296"
    using assms(1,2) by (simp add: image_size_def word_less_nat_alt)
  then show "mem (with_length s k l) (fs_boot_block s + of_nat (q + i)) = mem s (fs_boot_block s + of_nat (q + i))"
    using assms(3,4) \<open>i < 4\<close> unfolding with_length_def block_at_off
    by simp (rule store32_off [where k = "4096 * (unat k + 1)" and q = "q + i", simplified], auto)
qed

lemma with_length_state:
  assumes "image_size s \<le> 4294967296" and "k < num_inodes s"
  shows "num_inodes (with_length s k l) = num_inodes s"
    "num_data_blocks (with_length s k l) = num_data_blocks s"
    "fs_boot_block (with_length s k l) = fs_boot_block s"
    "inode_length (with_length s k l) k = unat l"
    "j < 1023 \<Longrightarrow> file_block (with_length s k l) k j = file_block s k j"
proof -
  show b: "fs_boot_block (with_length s k l) = fs_boot_block s" by (simp add: with_length_def)
  show "num_inodes (with_length s k l) = num_inodes s"
    "num_data_blocks (with_length s k l) = num_data_blocks s"
    using with_length_load [OF assms, of 4 l] with_length_load [OF assms, of 8 l] b
    by (simp_all add: num_inodes_def num_data_blocks_def)
  show "inode_length (with_length s k l) k = unat l"
    unfolding inode_length_def b block_at_off [symmetric] by (simp add: with_length_def)
  show "file_block (with_length s k l) k j = file_block s k j" if j: "j < 1023"
  proof -
    have "slot_off (unat k) j + 4 \<le> image_size s"
      using slot_in_inodes [of "unat k" "unat (num_inodes s)" j] assms(2) j
      by (simp add: image_size_def word_less_nat_alt)
    then show ?thesis
      using with_length_load [OF assms, of "slot_off (unat k) j" l] assms(1) b
      by (simp add: file_block_def slot_off_def)
  qed
qed

lemma with_length_data:
  assumes "image_size s \<le> 4294967296" and "k < num_inodes s"
    and "4096 * (1 + unat (num_inodes s)) \<le> q" "q < 4294967296"
  shows "mem (with_length s k l) (fs_boot_block s + of_nat q) = mem s (fs_boot_block s + of_nat q)"
  unfolding with_length_def block_at_off
  by (simp, rule store32_off [where k = "4096 * (unat k + 1)" and q = q, simplified])
    (use assms in \<open>auto simp: word_less_nat_alt\<close>)

lemma append_state:
  assumes ok: "file_ok s k" "file_blocks_distinct s k" "last_block_ready s k"
    and n: "(inode_length s k + unat n) div 4096 = inode_length s k div 4096"
    and l: "unat l = inode_length s k + unat n"
  shows "file_ok (with_length s k l) k" "file_blocks_distinct (with_length s k l) k"
    "take (inode_length s k) (file_contents (with_length s k l) k) = file_contents s k"
proof -
  note b = file_ok_bounds [OF ok(1)]
  note st = with_length_state [OF b(2,3), where l = l]
  let ?j = "inode_length s k div 4096"
  have j: "?j < 1022" "file_block s k ?j < num_data_blocks s" "\<forall>i<?j. file_block s k i \<noteq> file_block s k ?j"
    using ok(3) by (simp_all add: last_block_ready_def Let_def)
  have used: "i = ?j \<or> i < ?j \<and> 4096 * i < inode_length s k" if "4096 * i < unat l" for i
  proof -
    have "i \<le> unat l div 4096" using that by (simp add: less_imp_le div_le_mono less_eq_div_iff_mult_less_eq mult.commute)
    then have "i \<le> ?j" using n l by simp
    moreover have "4096 * ?j \<le> inode_length s k" by simp
    ultimately show ?thesis by (cases "i = ?j") (auto intro: less_le_trans [of _ "4096 * ?j"])
  qed
  have "unat l \<le> 1022 * 4096"
  proof -
    have "unat l div 4096 < 1022" using n l j(1) by simp
    then show ?thesis by (simp add: div_less_iff_less_mult)
  qed
  moreover have "file_block s k i < num_data_blocks s" if "i < 1022" "4096 * i < unat l" for i
    using used [OF that(2)] j(2) ok(1) that(1) by (auto simp: file_ok_def)
  ultimately show "file_ok (with_length s k l) k"
    using b by (simp add: file_ok_def image_size_def st)
  show "file_blocks_distinct (with_length s k l) k"
    unfolding file_blocks_distinct_def
  proof (intro allI impI)
    fix i i' :: nat
    assume "i < 1022" "i' < 1022" "4096 * i < inode_length (with_length s k l) k
       \<and> 4096 * i' < inode_length (with_length s k l) k
       \<and> file_block (with_length s k l) k i = file_block (with_length s k l) k i'"
    then show "i = i'"
      using used [of i] used [of i'] j(3) ok(2) by (auto simp: st file_blocks_distinct_def)
  qed
  show "take (inode_length s k) (file_contents (with_length s k l) k) = file_contents s k"
  proof (rule nth_equalityI)
    show "length (take (inode_length s k) (file_contents (with_length s k l) k)) = length (file_contents s k)"
      using l by (simp add: file_contents_def st)
    fix x assume "x < length (take (inode_length s k) (file_contents (with_length s k l) k))"
    then have x: "x < inode_length s k" by simp
    then have "x div 4096 < 1023" using b(1) by (simp add: less_mult_imp_div_less)
    then have "file_addr (with_length s k l) k x = file_addr s k x"
      by (simp add: file_addr_def st)
    moreover have "mem (with_length s k l) (file_addr s k x) = mem s (file_addr s k x)"
      unfolding file_addr_off using file_off_bounds [OF ok(1) x] by (intro with_length_data b)
    ultimately show "take (inode_length s k) (file_contents (with_length s k l) k) ! x = file_contents s k ! x"
      using x l by (simp add: file_contents_def st)
  qed
qed

lemma within_block: "(a + c) div 4096 = a div 4096 \<Longrightarrow> a mod 4096 + c \<le> (4096 :: nat)"
  using mult_div_mod_eq [of 4096 "a + c"] mult_div_mod_eq [of 4096 a] mod_less_divisor [of 4096 "a + c"] by linarith

text \<open>Storing a new length does not touch a buffer that lies apart from the image.\<close>

lemma with_length_buffer:
  assumes ok: "file_ok s k" and ap: "buffer_apart s buf n"
  shows "load_bytes (mem (with_length s k l)) buf n = load_bytes (mem s) buf n"
proof (rule nth_equalityI)
  let ?ip = "block_at (fs_boot_block s) (k + 1)"
  note b = file_ok_bounds [OF ok]
  fix i assume "i < length (load_bytes (mem (with_length s k l)) buf n)"
  then have i: "i < n" by simp
  have far: "buf + of_nat i \<noteq> fs_boot_block s + of_nat q" if "q < image_size s" for q
    using ap i that b(2) in_range_offset [of q "image_size s" "fs_boot_block s"]
    by (auto simp: buffer_apart_def)
  have "4096 * (unat k + 1) + 4 \<le> image_size s"
    using b(3) by (simp add: image_size_def word_less_nat_alt)
  then have ne: "buf + of_nat i \<noteq> fs_boot_block s + of_nat (4096 * (unat k + 1) + j)" if "j < 4" for j
    using that by (intro far) simp
  have "\<not> in_range (buf + of_nat i) ?ip 4"
  proof
    assume "in_range (buf + of_nat i) ?ip 4"
    then obtain j where "j < 4" "buf + of_nat i = ?ip + of_nat j" by (rule in_rangeE)
    with ne [of j] show False unfolding block_at_off of_nat_add add.assoc by blast
  qed
  then show "load_bytes (mem (with_length s k l)) buf n ! i = load_bytes (mem s) buf n ! i"
    using i by (simp add: with_length_def store32_other)
qed simp

text \<open>
  C22. Appending. Writing at the end of a file, when the bytes fit the block the file ends in and
  that block is allocated, claims nothing, extends the length and appends exactly the bytes of
  the buffer to the contents.
\<close>

theorem write_data_appends:
  assumes "file_ok s k" and "file_blocks_distinct s k" and "last_block_ready s k"
    and "unat off = inode_length s k" and "n \<noteq> 0"
    and "(unat off + unat n) div 4096 = unat off div 4096" and "buffer_apart s buf (unat n)"
  shows "\<exists>t. write_data k off buf n s = Some (n, t)
    \<and> file_contents t k = file_contents s k @ load_bytes (mem s) buf (unat n)
    \<and> data_block_bitmap t = data_block_bitmap s"
proof -
  let ?ip = "block_at (fs_boot_block s) (k + 1)" and ?s = "with_length s k (off + n)"
  note b = file_ok_bounds [OF assms(1)]
  note st = with_length_state [OF b(2,3), where l = "off + n"]
  have nw: "unat (off + n) = unat off + unat n"
  proof (rule unat_add_small)
    have "(unat off + unat n) div 4096 < 1023" using b(1) assms(4,6) by (simp add: less_mult_imp_div_less)
    then show "unat off + unat n < 4294967296" by (simp add: div_less_iff_less_mult)
  qed
  have len: "file_length ?ip (mem s) = off"
    using inode_length_eq [of s k] assms(4) by (simp add: word_unat_eq_iff)
  have "(off + n) div 4096 = off div 4096"
    using assms(6) by (simp add: word_unat_eq_iff unat_div nw)
  then have ext: "extend_file ?ip off n s = Some (True, ?s)"
    by (simp add: extend_file_def len Let_def with_length_def)
  have ap: "buffer_apart ?s buf (unat n)" using assms(7) by (simp add: buffer_apart_def image_size_def st)
  have fits: "unat off mod 4096 + unat n \<le> 4096" using within_block [OF assms(6)] .
  note ok = append_state [OF assms(1-3), of n "off + n"]
  have okl: "file_ok ?s k" "file_blocks_distinct ?s k"
    "take (unat off) (file_contents ?s k) = file_contents s k"
    using ok assms(4,6) nw by simp_all
  let ?t = "?s\<lparr>mem := put_bytes ?s k (unat off) buf (unat n)\<rparr>"
  have "write_blocks ?ip (num_inodes s) off buf n ?s = Some (n, ?t)"
    using write_blocks_run [OF okl(1,2), of off n buf] ap fits assms(5)
    by (simp add: st nw unat_gt_0)
  then have "write_data k off buf n s = Some (n, ?t)"
    using ext b(4) by (simp add: write_data_def len)
  moreover have "load_bytes (mem ?s) buf (unat n) = load_bytes (mem s) buf (unat n)"
    using with_length_buffer [OF assms(1,7)] .
  moreover have "file_contents ?t k = file_contents s k @ load_bytes (mem ?s) buf (unat n)"
    using put_bytes_contents [OF okl(1,2) _ refl, of "unat off" "unat n" buf] okl(3)
    by (simp add: st nw) (simp add: file_contents_def st nw)
  ultimately show ?thesis by (simp add: with_length_def)
qed

section \<open>A concrete file\<close>

lemma tiny_counts: "num_inodes tiny_fs = 1" "num_data_blocks tiny_fs = 1"
  "inode_length tiny_fs 0 = 5" "file_block tiny_fs 0 0 = 0" "fs_boot_block tiny_fs = 0x10000"
  by (simp_all add: num_inodes_def num_data_blocks_def inode_length_def file_block_def slot_off_def
      tiny_fs_def tiny_mem_def load32_def)

lemma tiny_file_ok: "file_ok tiny_fs 0"
proof -
  have "4096 * j < (5 :: nat) \<Longrightarrow> file_block tiny_fs 0 j = 0" for j
    using tiny_counts(4) by (cases j) simp_all
  then show ?thesis by (auto simp: file_ok_def image_size_def tiny_counts)
qed

lemma tiny_buffer: "buffer_apart tiny_fs 0x20000 5"
proof -
  have "(\<forall>i\<in>set [0..<5]. \<not> in_range (0x20000 + of_nat i) (fs_boot_block tiny_fs) (image_size tiny_fs))"
    by (simp add: upt_rec image_size_def tiny_counts in_range_def)
  then show ?thesis by (simp add: buffer_apart_def)
qed


theorem read_data_no_data_witness:
  "read_data 1 0 0x20000 10 tiny_fs = Some (-1, tiny_fs)
   \<and> read_data 0 5 0x20000 10 tiny_fs = Some (0, tiny_fs)"
  using read_data_no_data [of tiny_fs 1 0 "0x20000" 10] read_data_no_data [of tiny_fs 0 5 "0x20000" 10]
  by (simp add: tiny_counts)


text \<open>A file of three blocks, the data blocks 0, 1 and 2.\<close>

definition big_fs :: "unit fs_state_scheme" where
  "big_fs = tiny_fs\<lparr>mem := (\<lambda>_. 0)(0x10000 := 1, 0x10004 := 1, 0x10008 := 3, 0x10040 := 97,
     0x10060 := 2, 0x11001 := 48, 0x11008 := 1, 0x1100C := 2, 0x13000 := 11, 0x14000 := 22)\<rparr>"

lemma big_counts: "num_inodes big_fs = 1" "num_data_blocks big_fs = 3"
  "inode_length big_fs 0 = 12288" "fs_boot_block big_fs = 0x10000"
  "file_block big_fs 0 0 = 0" "file_block big_fs 0 1 = 1" "file_block big_fs 0 2 = 2"
  by (simp_all add: num_inodes_def num_data_blocks_def inode_length_def file_block_def slot_off_def
      big_fs_def tiny_fs_def load32_def)

lemma big_file_ok: "file_ok big_fs 0"
proof -
  have "file_block big_fs 0 j < 3" if "4096 * j < (12288 :: nat)" for j
  proof -
    have "j = 0 \<or> j = 1 \<or> j = 2" using that by auto
    then show ?thesis using big_counts(5-7) by auto
  qed
  then show ?thesis by (auto simp: file_ok_def image_size_def big_counts)
qed

lemma big_buffer: "n \<le> 12288 \<Longrightarrow> buffer_apart big_fs 0x20000 n"
  unfolding buffer_apart_def
proof (intro allI impI)
  fix i :: nat
  assume "n \<le> 12288" "i < n"
  moreover have "(0x20000 + of_nat i - 0x10000 :: u32) = of_nat (65536 + i)" by simp
  ultimately have "unat (0x20000 + of_nat i - 0x10000 :: u32) = 65536 + i"
    by (simp only: unat_of_nat_small)
  then show "\<not> in_range (0x20000 + of_nat i) (fs_boot_block big_fs) (image_size big_fs)"
    by (simp add: in_range_def big_counts image_size_def)
qed

theorem read_data_repeats_block_witness:
  "\<exists>t. read_data 0 4096 0x20000 8192 big_fs = Some (8192, t) \<and> mem t 0x21000 = 11
     \<and> file_contents big_fs 0 ! 8192 = 22"
proof -
  have n: "read_count big_fs 0 4096 8192 = 8192" by (simp add: read_count_def big_counts)
  have "file_contents big_fs 0 ! 8192 = 22"
    by (simp add: file_contents_def big_counts file_addr_def data_off_def)
      (simp add: big_fs_def)
  moreover have "file_contents big_fs 0 ! 4096 = 11"
    by (simp add: file_contents_def big_counts file_addr_def data_off_def)
      (use big_counts(6) in \<open>simp add: big_fs_def data_off_def\<close>)
  ultimately show ?thesis
    using read_data_repeats_block [of big_fs 0 8192 "0x20000"] big_file_ok big_buffer [of 8192] n
    by (simp add: big_counts)
qed


lemma tiny_distinct: "file_blocks_distinct tiny_fs 0"
proof -
  have "i = 0" if "4096 * i < (5 :: nat)" for i using that by simp
  then show ?thesis by (auto simp: file_blocks_distinct_def tiny_counts)
qed

lemma tiny_buffer_part: "n \<le> 5 \<Longrightarrow> buffer_apart tiny_fs 0x20000 n"
  using tiny_buffer by (simp add: buffer_apart_def)

theorem write_data_overwrites_witness:
  "\<exists>t. write_data 0 1 0x20000 3 tiny_fs = Some (3, t) \<and> length (file_contents t 0) = 5"
proof -
  have len: "length (file_contents tiny_fs 0) = 5" by (simp add: file_contents_def tiny_counts)
  have "\<exists>t. write_data 0 1 0x20000 3 tiny_fs = Some (3, t) \<and> file_ok t 0
    \<and> file_contents t 0 = take (unat (1 :: u32)) (file_contents tiny_fs 0)
        @ load_bytes (mem tiny_fs) 0x20000 (unat (3 :: u32))
        @ drop (unat (1 :: u32) + unat (3 :: u32)) (file_contents tiny_fs 0)"
    by (rule write_data_overwrites [OF tiny_file_ok tiny_distinct])
      (simp_all add: tiny_counts tiny_buffer_part)
  then show ?thesis using len by auto
qed



theorem write_data_appends_witness:
  "\<exists>t. write_data 0 5 0x20000 2 tiny_fs = Some (2, t)
     \<and> file_contents t 0 = file_contents tiny_fs 0 @ load_bytes (mem tiny_fs) 0x20000 2"
proof -
  have "last_block_ready tiny_fs 0" by (simp add: last_block_ready_def tiny_counts)
  then show ?thesis
    using write_data_appends [OF tiny_file_ok tiny_distinct, of 5 2 "0x20000"] tiny_buffer_part [of 2]
    by (auto simp: tiny_counts)
qed

end
