(* ===== verification/Paging.thy ===== *)
theory Paging
  imports FileSystem
begin

text \<open>
  Paging: \<open>src/paging/page_structs.c\<close> with its constants, the page directory entry of a process
  (\<open>src/interrupts/syscalls.c\<close>, \<open>src/scheduler/scheduler.c\<close>), the video mapping of
  \<open>sys_vidmap\<close>, and \<open>paging_init\<close> of \<open>src/paging/paging.S\<close>.

  The three tables are lists of 1024 entries; \<open>page_table_at\<close> and \<open>page_table_vid_at\<close> are the
  addresses the linker gave the two page tables. Flushing the TLB has no effect on the model:
  \<open>translate\<close> is the address translation of the processor (two levels, 4 KB pages and 4 MB
  pages) on the tables as they are.
\<close>

section \<open>Tables\<close>

definition PG_ENTRIES :: nat where "PG_ENTRIES = 1024"
definition RW_SUPERVISOR_PRESENT_MASK :: u32 where "RW_SUPERVISOR_PRESENT_MASK = 0x00000003"
definition RW_SUPERVISOR_ABSENT_MASK :: u32 where "RW_SUPERVISOR_ABSENT_MASK = 0x00000002"
definition RW_USER_PRESENT_4MB_MASK :: u32 where "RW_USER_PRESENT_4MB_MASK = 0x00000087"
definition USER_READ_WRITE_PRESENT_ENABLE :: u32 where "USER_READ_WRITE_PRESENT_ENABLE = 7"
definition FIVE_MSB :: u32 where "FIVE_MSB = 0xFFFFF000"
definition EMPTY_ENTRY :: u32 where "EMPTY_ENTRY = 0x00000000"
definition THREE_BYTE_SIZE :: nat where "THREE_BYTE_SIZE = 12"
definition VIDEO_MEM_FULL_ADDR :: u32 where "VIDEO_MEM_FULL_ADDR = 0x000B8000"
definition FOUR_MB_PAGE_DIR_ENTRY :: u32 where "FOUR_MB_PAGE_DIR_ENTRY = 0x00400193"
definition PCB_KERNEL_PHYSICAL_ADDRESS :: u32 where "PCB_KERNEL_PHYSICAL_ADDRESS = 0x800000"
definition PCB_KERNEL_PHYSICAL_OFFSET :: u32 where "PCB_KERNEL_PHYSICAL_OFFSET = 0x2000"
definition PROCESS_USER_PHYSICAL_OFFSET :: u32 where "PROCESS_USER_PHYSICAL_OFFSET = 0x400000"
definition PROCESS_VIRTUAL_ADDRESS_START :: u32 where "PROCESS_VIRTUAL_ADDRESS_START = 0x08000000"
definition PROGRAM_VIRTUAL_ADDRESS_START :: u32 where "PROGRAM_VIRTUAL_ADDRESS_START = 0x08048000"
definition BITSHIFT_PAGE_OFFSET :: nat where "BITSHIFT_PAGE_OFFSET = 22"
definition PROGRAM_IMAGE_START_ADDRESS :: u32 where "PROGRAM_IMAGE_START_ADDRESS = 0x8000000"
definition PROGRAM_IMAGE_END_ADDRESS :: u32 where "PROGRAM_IMAGE_END_ADDRESS = 0x8400000"

lemmas page_consts = PG_ENTRIES_def RW_SUPERVISOR_PRESENT_MASK_def RW_SUPERVISOR_ABSENT_MASK_def
  RW_USER_PRESENT_4MB_MASK_def USER_READ_WRITE_PRESENT_ENABLE_def FIVE_MSB_def EMPTY_ENTRY_def
  THREE_BYTE_SIZE_def VIDEO_MEM_FULL_ADDR_def FOUR_MB_PAGE_DIR_ENTRY_def
  PCB_KERNEL_PHYSICAL_ADDRESS_def PCB_KERNEL_PHYSICAL_OFFSET_def PROCESS_USER_PHYSICAL_OFFSET_def
  PROCESS_VIRTUAL_ADDRESS_START_def PROGRAM_VIRTUAL_ADDRESS_START_def BITSHIFT_PAGE_OFFSET_def
  PROGRAM_IMAGE_START_ADDRESS_def PROGRAM_IMAGE_END_ADDRESS_def

text \<open>
  The processor state the kernel controls is here too: the interrupt flag (\<open>cli\<close>, \<open>sti\<close>), the
  control registers and the kernel stack pointer of the task state segment.
\<close>

record page_state = fs_state +
  page_directory :: "u32 list"
  page_table :: "u32 list"
  page_table_vid :: "u32 list"
  page_directory_at :: u32
  page_table_at :: u32
  page_table_vid_at :: u32
  cr0 :: u32
  cr3 :: u32
  cr4 :: u32
  int_flag :: bool
  tss_esp0 :: u32

definition cli :: "'a page_state_scheme \<Rightarrow> 'a page_state_scheme" where
  "cli s = s\<lparr>int_flag := False\<rparr>"

definition sti :: "'a page_state_scheme \<Rightarrow> 'a page_state_scheme" where
  "sti s = s\<lparr>int_flag := True\<rparr>"

text \<open>Of EFLAGS the state has the interrupt flag only, so that is what the variable \<open>flags\<close> keeps of it.\<close>

definition cli_and_save :: "'a page_state_scheme \<Rightarrow> bool \<times> 'a page_state_scheme" where [simp]:
  "cli_and_save s = (int_flag s, cli s)"

definition restore_flags :: "bool \<Rightarrow> 'a page_state_scheme \<Rightarrow> 'a page_state_scheme" where [simp]:
  "restore_flags flags s = s\<lparr>int_flag := flags\<rparr>"

definition init_page_structs :: "'a page_state_scheme \<Rightarrow> 'a page_state_scheme" where
  "init_page_structs s =
     (let dir = fold (\<lambda>i d. d[i := EMPTY_ENTRY OR RW_SUPERVISOR_ABSENT_MASK]) [0..<PG_ENTRIES]
                  (page_directory s);
          page_table_entry = (FIVE_MSB AND page_table_at s) OR RW_SUPERVISOR_PRESENT_MASK;
          dir = dir[0 := page_table_entry, 1 := FOUR_MB_PAGE_DIR_ENTRY];
          tab = fold (\<lambda>i d. d[i := EMPTY_ENTRY OR RW_SUPERVISOR_ABSENT_MASK]) [0..<PG_ENTRIES]
                  (page_table s);
          addr = unat (drop_bit THREE_BYTE_SIZE VIDEO_MEM_FULL_ADDR);
          tab = tab[addr := VIDEO_MEM_FULL_ADDR OR RW_SUPERVISOR_PRESENT_MASK];
          tab = fold (\<lambda>i t. t[addr + i :=
                    (VIDEO_MEM_FULL_ADDR + of_nat i * 0x1000) OR RW_SUPERVISOR_PRESENT_MASK])
                  [1..<4] tab
      in s\<lparr>page_directory := dir, page_table := tab\<rparr>)"

text \<open>\<open>paging_init\<close>: CR3, then the page size and global bits of CR4, then paging in CR0.\<close>

definition paging_init :: "u32 \<Rightarrow> 'a page_state_scheme \<Rightarrow> 'a page_state_scheme" where
  "paging_init pg_dir_ptr s =
     (let s1 = s\<lparr>cr3 := pg_dir_ptr\<rparr>;
          s2 = s1\<lparr>cr4 := cr4 s1 OR 0x00000010 OR 0x00000080\<rparr>
      in s2\<lparr>cr0 := cr0 s2 OR 0x80000000\<rparr>)"

text \<open>
  The directory entry of the process with the given pid, set by \<open>sys_execute\<close>, \<open>sys_halt\<close> and
  \<open>process_context_switch\<close>; the kernel stack that goes with it.
\<close>

definition map_process :: "u8 \<Rightarrow> 'a page_state_scheme \<Rightarrow> 'a page_state_scheme" where
  "map_process pid s =
     (let four_mb_page_start = PCB_KERNEL_PHYSICAL_ADDRESS + ucast pid * PROCESS_USER_PHYSICAL_OFFSET;
          page_dir_entry = four_mb_page_start OR RW_USER_PRESENT_4MB_MASK
      in s\<lparr>page_directory :=
            (page_directory s)[unat (drop_bit BITSHIFT_PAGE_OFFSET PROCESS_VIRTUAL_ADDRESS_START)
               := page_dir_entry]\<rparr>)"

definition kernel_stack_base :: "u8 \<Rightarrow> u32" where
  "kernel_stack_base pid = PCB_KERNEL_PHYSICAL_ADDRESS - 4 - ucast pid * PCB_KERNEL_PHYSICAL_OFFSET"

text \<open>The mapping of the user's video page to the given physical page.\<close>

definition map_video :: "u32 \<Rightarrow> 'a page_state_scheme \<Rightarrow> 'a page_state_scheme" where
  "map_video phys s =
     s\<lparr>page_table_vid := (page_table_vid s)[0 := phys OR USER_READ_WRITE_PRESENT_ENABLE],
       page_directory :=
         (page_directory s)[unat (drop_bit BITSHIFT_PAGE_OFFSET PROGRAM_IMAGE_END_ADDRESS)
            := page_table_vid_at s OR USER_READ_WRITE_PRESENT_ENABLE]\<rparr>"

section \<open>The processor's translation\<close>

definition table_of :: "'a page_state_scheme \<Rightarrow> u32 \<Rightarrow> u32 list option" where
  "table_of s a =
     (if a = page_table_at s then Some (page_table s)
      else if a = page_table_vid_at s then Some (page_table_vid s) else None)"

text \<open>
  \<open>None\<close> is a page fault. \<open>user\<close> says whether the access has user privilege, which needs the
  user bit in every entry used.
\<close>

definition usable :: "bool \<Rightarrow> u32 \<Rightarrow> bool" where
  "usable user e \<longleftrightarrow> bit e 0 \<and> (user \<longrightarrow> bit e 2)"

definition translate :: "bool \<Rightarrow> 'a page_state_scheme \<Rightarrow> u32 \<Rightarrow> u32 option" where
  "translate user s va = do {
     pde \<leftarrow> peek (page_directory s) (unat (drop_bit 22 va));
     if \<not> usable user pde then None
     else if bit pde 7 then Some ((pde AND 0xFFC00000) OR (va AND 0x003FFFFF))
     else do {
       table \<leftarrow> table_of s (pde AND 0xFFFFF000);
       pte \<leftarrow> peek table (unat (drop_bit 12 va AND 0x3FF));
       if \<not> usable user pte then None
       else Some ((pte AND 0xFFFFF000) OR (va AND 0xFFF))
     }
   }"

text \<open>The tables as the linker lays them out: full size, distinct, aligned to 4 KB.\<close>

definition tables_ok :: "'a page_state_scheme \<Rightarrow> bool" where
  "tables_ok s \<longleftrightarrow> length (page_directory s) = 1024 \<and> length (page_table s) = 1024
     \<and> length (page_table_vid s) = 1024 \<and> page_table_at s AND 0xFFF = 0
     \<and> page_table_vid_at s AND 0xFFF = 0 \<and> page_table_at s \<noteq> page_table_vid_at s"

section \<open>Page numbers and offsets\<close>

lemma page_split:
  "push_bit 22 (drop_bit 22 va) OR (va AND 0x003FFFFF) = (va :: u32)"
  "push_bit 12 (drop_bit 12 va) OR (va AND 0xFFF) = (va :: u32)"
proof -
  have m: "(0x003FFFFF :: u32) = mask 22" "(0xFFF :: u32) = mask 12"
    by (simp_all add: mask_eq_exp_minus_1)
  show "push_bit 22 (drop_bit 22 va) OR (va AND 0x003FFFFF) = va"
    "push_bit 12 (drop_bit 12 va) OR (va AND 0xFFF) = va"
    unfolding m by (rule bit_word_eqI, auto simp: bit_simps)+
qed

lemma dir_index: "unat (drop_bit 22 (va :: u32)) = unat va div 0x400000"
  by (simp add: unsigned_drop_bit_eq drop_bit_eq_div unat_div)

lemma dir_index_less: "unat (drop_bit 22 (va :: u32)) < 1024"
  using unat_lt_32 [of va] by (simp add: dir_index div_less_iff_less_mult)

lemma dir_index_eq: "unat (drop_bit 22 (va :: u32)) = k \<Longrightarrow> k < 1024 \<Longrightarrow> drop_bit 22 va = of_nat k"
  using word_unat_eq_iff [of "drop_bit 22 va" "of_nat k"] by (simp add: unat_of_nat_small)

lemma table_index: "unat (drop_bit 12 (va :: u32) AND 0x3FF) = unat va div 4096 mod 1024"
proof -
  have m: "(0x3FF :: u32) = mask 10" by (simp add: mask_eq_exp_minus_1)
  have "unat (take_bit 10 (drop_bit 12 va)) = unat va div 4096 mod 1024"
    by (simp add: unsigned_take_bit_eq unsigned_drop_bit_eq drop_bit_eq_div take_bit_eq_mod unat_div unat_mod)
  then show ?thesis unfolding m take_bit_eq_mask .
qed

lemma aligned_bits:
  fixes a :: u32
  assumes "a AND 0xFFF = 0" and "n < 12"
  shows "\<not> bit a n"
proof
  assume "bit a n"
  have m: "(0xFFF :: u32) = mask 12" by (simp add: mask_eq_exp_minus_1)
  have "bit (a AND 0xFFF) n" unfolding m using \<open>bit a n\<close> assms(2) bit_imp_le_length [of a n]
    by (simp only: bit_and_iff bit_mask_iff) simp
  with assms(1) show False by simp
qed

lemma flag_bits: "bit (3 :: int) n \<longleftrightarrow> n < 2" "bit (7 :: int) n \<longleftrightarrow> n < 3"
proof -
  have m: "(3 :: int) = mask 2" "(7 :: int) = mask 3" by (simp_all add: mask_eq_exp_minus_1)
  show "bit (3 :: int) n \<longleftrightarrow> n < 2" "bit (7 :: int) n \<longleftrightarrow> n < 3"
    unfolding m by (simp_all only: bit_mask_iff) auto
qed

lemma frame_bits: "(0xFFFFF000 :: u32) = NOT (mask 12)"
  by (simp add: mask_eq_exp_minus_1)

lemma frame_of_entry: "(push_bit 12 f OR 3) AND 0xFFFFF000 = push_bit 12 (f :: u32)"
  unfolding frame_bits by (rule bit_word_eqI) (auto simp: bit_simps flag_bits)

lemma aligned_table:
  fixes a :: u32
  assumes "a AND 0xFFF = 0"
  shows "(0xFFFFF000 AND a OR 3) AND 0xFFFFF000 = a" "(a OR 7) AND 0xFFFFF000 = a"
    "usable user (0xFFFFF000 AND a OR 3) \<longleftrightarrow> \<not> user" "\<not> bit (0xFFFFF000 AND a OR 3) 7"
    "usable user (a OR 7)" "\<not> bit (a OR 7) 7"
proof -
  have al: "bit a n \<Longrightarrow> 12 \<le> n" for n using aligned_bits [OF assms, of n] by (cases "n < 12") simp_all
  show "(0xFFFFF000 AND a OR 3) AND 0xFFFFF000 = a"
    unfolding frame_bits by (rule bit_word_eqI) (auto simp: bit_simps flag_bits dest: al)
  show "(a OR 7) AND 0xFFFFF000 = a"
    unfolding frame_bits by (rule bit_word_eqI) (auto simp: bit_simps flag_bits dest: al)
  show "usable user (0xFFFFF000 AND a OR 3) \<longleftrightarrow> \<not> user" "\<not> bit (0xFFFFF000 AND a OR 3) 7"
    "usable user (a OR 7)" "\<not> bit (a OR 7) 7"
    using aligned_bits [OF assms, of 2] aligned_bits [OF assms, of 7]
    by (auto simp: usable_def bit_simps flag_bits)
qed

section \<open>The kernel's address space\<close>

lemma init_page_structs_tables:
  assumes "tables_ok s"
  shows "page_directory (init_page_structs s)
      = (replicate 1024 2)[0 := 0xFFFFF000 AND page_table_at s OR 3, 1 := 0x00400193]"
    and "page_table (init_page_structs s)
      = (replicate 1024 2)[0xB8 := 0xB8003, 0xB9 := 0xB9003, 0xBA := 0xBA003, 0xBB := 0xBB003]"
proof -
  have fill: "fold (\<lambda>i d. d[i := 2]) [0..<1024] d = replicate 1024 2" if "length d = 1024" for d :: "u32 list"
    using fold_fill [of 0 1024 d 2] that by simp
  have "[1..<4] = [1, 2, 3 :: nat]" by (simp add: upt_rec)
  with assms fill [of "page_directory s"] fill [of "page_table s"]
  show "page_directory (init_page_structs s)
      = (replicate 1024 2)[0 := 0xFFFFF000 AND page_table_at s OR 3, 1 := 0x00400193]"
    "page_table (init_page_structs s)
      = (replicate 1024 2)[0xB8 := 0xB8003, 0xB9 := 0xB9003, 0xBA := 0xBA003, 0xBB := 0xBB003]"
    by (simp_all add: init_page_structs_def tables_ok_def page_consts Let_def)
qed

lemma init_page_structs_frame [simp]:
  "page_table_at (init_page_structs s) = page_table_at s"
  "page_table_vid_at (init_page_structs s) = page_table_vid_at s"
  "page_table_vid (init_page_structs s) = page_table_vid s"
  by (simp_all add: init_page_structs_def Let_def)

lemma video_entry:
  assumes "i < 1024"
  shows "(replicate 1024 (2 :: u32))[0xB8 := 0xB8003, 0xB9 := 0xB9003, 0xBA := 0xBA003, 0xBB := 0xBB003] ! i
    = (if 0xB8 \<le> i \<and> i \<le> 0xBB then push_bit 12 (of_nat i) OR 3 else 2)"
proof -
  have "i = 0xB8 \<or> i = 0xB9 \<or> i = 0xBA \<or> i = 0xBB \<or> \<not> (0xB8 \<le> i \<and> i \<le> 0xBB)" by auto
  then show ?thesis using assms by (auto simp: nth_list_update)
qed

lemma absent_entry [simp]: "\<not> usable user 2"
  by (simp add: usable_def)

text \<open>
  C39. After \<open>init_page_structs\<close> the kernel sees exactly its own 4 MB at 0x400000 and the four
  video pages from 0xB8000 on, both mapped to themselves; every other address faults, in
  particular the null pointer, and so does every access with user privilege.
\<close>

theorem init_page_structs_maps:
  assumes "tables_ok s"
  shows "translate user (init_page_structs s) va =
    (if \<not> user \<and> (0x400000 \<le> va \<and> va < 0x800000 \<or> 0xB8000 \<le> va \<and> va < 0xBC000)
     then Some va else None)"
proof -
  let ?d = "unat (drop_bit 22 va)"
  note tabs = init_page_structs_tables [OF assms]
  have al: "page_table_at s AND 0xFFF = 0" using assms by (simp add: tables_ok_def)
  have range: "0x400000 \<le> va \<and> va < 0x800000 \<longleftrightarrow> ?d = 1"
    "0xB8000 \<le> va \<and> va < 0xBC000 \<longleftrightarrow> 0xB8000 \<le> unat va \<and> unat va < 0xBC000"
    by (auto simp: word_le_nat_alt word_less_nat_alt dir_index)
  consider "?d = 0" | "?d = 1" | "1 < ?d" by linarith
  then show ?thesis
  proof cases
    case 1
    then have small: "unat va < 0x400000" by (simp add: dir_index)
    let ?t = "unat va div 4096"
    have t: "?t < 1024" "unat va div 4096 mod 1024 = ?t" using small by (simp_all add: div_less_iff_less_mult)
    have pte: "peek (page_table (init_page_structs s)) (unat (drop_bit 12 va AND 0x3FF))
        = Some (if 0xB8 \<le> ?t \<and> ?t \<le> 0xBB then push_bit 12 (of_nat ?t) OR 3 else 2)"
      using t video_entry [OF t(1)] by (simp only: tabs table_index) simp
    have vid: "0xB8000 \<le> unat va \<and> unat va < 0xBC000 \<longleftrightarrow> 0xB8 \<le> ?t \<and> ?t \<le> 0xBB"
      by auto
    have "(push_bit 12 (of_nat ?t) OR 3) AND 0xFFFFF000 OR (va AND 0xFFF) = va"
    proof -
      have "of_nat ?t = drop_bit 12 va"
        using small by (simp add: word_unat_eq_iff unat_of_nat_small unsigned_drop_bit_eq
          drop_bit_eq_div unat_div div_less_iff_less_mult)
      then show ?thesis by (simp only: frame_of_entry page_split)
    qed
    moreover have "usable u (push_bit 12 (of_nat ?t) OR 3) \<longleftrightarrow> \<not> u" for u
      by (simp add: usable_def bit_simps)
    ultimately show ?thesis
      using 1 pte vid range aligned_table [OF al]
      by (simp add: translate_def tabs(1) table_of_def del: peek_Some_iff)
  next
    case 2
    then have "drop_bit 22 va = 1" using dir_index_eq [of va 1] by simp
    then have "0x400000 OR (va AND 0x003FFFFF) = va" using page_split(1) [of va] by simp
    moreover have "\<not> (0xB8000 \<le> unat va \<and> unat va < 0xBC000)" using 2 by (auto simp: dir_index)
    moreover have "usable user 0x400193 \<longleftrightarrow> \<not> user" by (simp add: usable_def)
    ultimately show ?thesis using 2 range by (simp add: translate_def tabs)
  next
    case 3
    then have "page_directory (init_page_structs s) ! ?d = 2"
      using dir_index_less [of va] by (simp add: tabs nth_list_update)
    moreover have "\<not> (0xB8000 \<le> unat va \<and> unat va < 0xBC000)" using 3 by (auto simp: dir_index)
    ultimately show ?thesis using 3 range dir_index_less [of va]
      by (simp add: translate_def tabs)
  qed
qed


section \<open>Process pages\<close>

lemma process_index: "unat (drop_bit BITSHIFT_PAGE_OFFSET PROCESS_VIRTUAL_ADDRESS_START) = 32"
  by (simp add: page_consts)

lemma video_index: "unat (drop_bit BITSHIFT_PAGE_OFFSET PROGRAM_IMAGE_END_ADDRESS) = 33"
  by (simp add: page_consts)

definition process_frame :: "u8 \<Rightarrow> u32" where
  "process_frame pid = 0x800000 + ucast pid * 0x400000"

definition user_page :: "u32 \<Rightarrow> bool" where
  "user_page va \<longleftrightarrow> 0x08000000 \<le> va \<and> va < 0x08400000"

lemma user_page_index: "user_page va \<longleftrightarrow> unat (drop_bit 22 va) = 32"
  by (auto simp: user_page_def word_le_nat_alt word_less_nat_alt dir_index)

lemma process_frame_entry:
  "usable user (process_frame pid OR 0x87)" "bit (process_frame pid OR 0x87) 7"
  "(process_frame pid OR 0x87) AND 0xFFC00000 = process_frame pid"
proof -
  have push: "process_frame pid = push_bit 22 (2 + ucast pid)"
    by (simp add: process_frame_def push_bit_eq_mult algebra_simps)
  have low: "bit (0x87 :: u32) n \<Longrightarrow> n < 8" for n
  proof (rule ccontr)
    assume "bit (0x87 :: u32) n" "\<not> n < 8"
    moreover have "(0x87 :: u32) = take_bit 8 0x87" by (simp add: take_bit_eq_mod)
    ultimately show False by (metis bit_take_bit_iff)
  qed
  have m: "(0xFFC00000 :: u32) = NOT (mask 22)" by (simp add: mask_eq_exp_minus_1)
  show "(process_frame pid OR 0x87) AND 0xFFC00000 = process_frame pid"
    unfolding m push
    by (rule bit_word_eqI)
      (auto simp: bit_and_iff bit_or_iff bit_not_iff bit_mask_iff bit_push_bit_iff
        simp del: bit_numeral_word_iff dest!: low)
  show "usable user (process_frame pid OR 0x87)" "bit (process_frame pid OR 0x87) 7"
    by (simp_all add: usable_def bit_or_iff)
qed

lemma map_process_user:
  assumes "length (page_directory s) = 1024" and "user_page va"
  shows "translate user (map_process pid s) va = Some (process_frame pid OR (va AND 0x003FFFFF))"
proof -
  have "unat (drop_bit 22 va) = 32" using assms(2) by (simp add: user_page_index)
  moreover have "map_process pid s = s\<lparr>page_directory := (page_directory s)[32 := process_frame pid OR 0x87]\<rparr>"
    by (simp add: map_process_def process_index Let_def) (simp add: page_consts process_frame_def)
  ultimately show ?thesis using assms(1) process_frame_entry
    by (simp add: translate_def)
qed

lemma process_frame_bounds:
  assumes "pid < 6"
  shows "unat (process_frame pid) = 0x800000 + unat pid * 0x400000"
proof -
  have "unat pid < 6" using assms by (simp add: word_less_nat_alt)
  then show ?thesis by (simp add: process_frame_def unat_word_ariths unsigned_ucast_eq take_bit_nat_eq_self)
qed

lemma frame_offset: "process_frame pid OR (va AND 0x003FFFFF) = process_frame pid + (va AND 0x003FFFFF)"
proof -
  have push: "process_frame pid = push_bit 22 (2 + ucast pid)"
    by (simp add: process_frame_def push_bit_eq_mult algebra_simps)
  have m: "(0x003FFFFF :: u32) = mask 22" by (simp add: mask_eq_exp_minus_1)
  have "push_bit 22 (2 + ucast pid) AND (va AND mask 22) = 0"
    by (rule bit_word_eqI) (auto simp: bit_and_iff bit_mask_iff bit_push_bit_iff)
  then show ?thesis unfolding push m by (simp add: disjunctive_add_eq_or)
qed

lemma page_offset_less: "unat (va AND 0x003FFFFF :: u32) < 0x400000"
proof -
  have m: "(0x003FFFFF :: u32) = mask 22" by (simp add: mask_eq_exp_minus_1)
  have "unat (take_bit 22 va) < 0x400000" by (simp add: unsigned_take_bit_eq take_bit_eq_mod unat_mod)
  then show ?thesis unfolding m take_bit_eq_mask .
qed

text \<open>
  C16. Isolation of processes. With the page of process \<open>pid\<close> mapped, every user program address
  translates, for kernel and user accesses alike, into the 4 MB frame of that process; frames of
  different processes do not overlap, and none overlaps the kernel's page.
\<close>

theorem process_pages_isolated:
  assumes "tables_ok s" and "tables_ok s'" and "pid < 6" and "pid' < 6"
    and "user_page va" and "user_page va'"
  shows "\<exists>pa pa'. translate user (map_process pid s) va = Some pa
      \<and> translate user (map_process pid' s') va' = Some pa'
      \<and> 0x800000 \<le> pa \<and> pa = process_frame pid + (va - 0x08000000)
      \<and> (pid \<noteq> pid' \<longrightarrow> pa \<noteq> pa')"
proof -
  let ?pa = "process_frame pid OR (va AND 0x003FFFFF)" and ?pa' = "process_frame pid' OR (va' AND 0x003FFFFF)"
  have t: "translate user (map_process pid s) va = Some ?pa"
    "translate user (map_process pid' s') va' = Some ?pa'"
    using assms by (simp_all add: map_process_user tables_ok_def)
  have p: "unat pid < 6" "unat pid' < 6" using assms(3,4) by (simp_all add: word_less_nat_alt)
  have nat: "unat ?pa = 0x800000 + unat pid * 0x400000 + unat (va AND 0x003FFFFF)"
    "unat ?pa' = 0x800000 + unat pid' * 0x400000 + unat (va' AND 0x003FFFFF)"
    using p page_offset_less [of va] page_offset_less [of va'] assms(3,4)
    by (simp_all add: frame_offset unat_add_small process_frame_bounds)
  have "0x800000 \<le> ?pa" by (simp add: word_le_nat_alt nat)
  moreover have "va AND 0x003FFFFF = va - 0x08000000"
  proof -
    have "drop_bit 22 va = 32" using assms(5) dir_index_eq [of va 32] by (simp add: user_page_index)
    then have "0x08000000 OR (va AND 0x003FFFFF) = va" using page_split(1) [of va] by simp
    moreover have "0x08000000 OR (va AND 0x003FFFFF) = 0x08000000 + (va AND 0x003FFFFF)"
      using frame_offset [of 30 va] by (simp add: process_frame_def)
    ultimately show ?thesis by (metis add_diff_cancel_left')
  qed
  then have "?pa = process_frame pid + (va - 0x08000000)" 
    using frame_offset [of pid va] by argo
  moreover have "?pa \<noteq> ?pa'" if "pid \<noteq> pid'"
  proof
    assume "?pa = ?pa'"
    then have "unat pid * 0x400000 + unat (va AND 0x003FFFFF) = unat pid' * 0x400000 + unat (va' AND 0x003FFFFF)"
      using nat by simp
    then have "unat pid = unat pid'"
      using page_offset_less [of va] page_offset_less [of va'] by linarith
    with that show False by (simp add: word_unat_eq_iff)
  qed
  ultimately show ?thesis using t by blast
qed


text \<open>
  \<open>map_video\<close> (\<open>sys_vidmap\<close>, context switches): the user's video page at 0x08400000 leads to the
  given physical page, for user accesses too, and the mapping of the program and the kernel's
  own mappings are as before.
\<close>

theorem map_video_maps:
  assumes "tables_ok s" and "phys AND 0xFFF = 0"
  shows "(0x08400000 \<le> va \<and> va < 0x08401000 \<longrightarrow>
            translate user (map_video phys s) va = Some (phys OR (va AND 0xFFF)))
    \<and> (va < 0x08400000 \<and> (\<forall>e\<in>set (page_directory s). e AND 0xFFFFF000 \<noteq> page_table_vid_at s \<or> bit e 7) \<longrightarrow>
            translate user (map_video phys s) va = translate user s va)"
proof (intro conjI impI)
  have len: "length (page_directory s) = 1024" "length (page_table_vid s) = 1024"
    and al: "page_table_vid_at s AND 0xFFF = 0" and ne: "page_table_at s \<noteq> page_table_vid_at s"
    using assms(1) by (simp_all add: tables_ok_def)
  note v = aligned_table [OF al] and e = aligned_table [OF assms(2)]
  {
    assume "0x08400000 \<le> va \<and> va < 0x08401000"
    then have b: "0x08400000 \<le> unat va" "unat va < 0x08401000"
      by (simp_all add: word_le_nat_alt word_less_nat_alt)
    then have d: "unat (drop_bit 22 va) = 33" by (simp add: dir_index)
    have "unat va div 4096 = 0x8400" using b by simp
    then have t: "unat (drop_bit 12 va AND 0x3FF) = 0" by (simp only: table_index) simp
    show "translate user (map_video phys s) va = Some (phys OR (va AND 0xFFF))"
      using len v e ne by (simp add: translate_def map_video_def video_index d t table_of_def
          USER_READ_WRITE_PRESENT_ENABLE_def)
  }
  assume h: "va < 0x08400000 \<and> (\<forall>e\<in>set (page_directory s). e AND 0xFFFFF000 \<noteq> page_table_vid_at s \<or> bit e 7)"
  then have d: "unat (drop_bit 22 va) < 33" by (simp add: dir_index word_less_nat_alt div_less_iff_less_mult)
  let ?e = "page_directory s ! unat (drop_bit 22 va)"
  have "?e \<in> set (page_directory s)" using d len by simp
  with h have "bit ?e 7 \<or> table_of (map_video phys s) (?e AND 0xFFFFF000) = table_of s (?e AND 0xFFFFF000)"
    by (auto simp: table_of_def map_video_def)
  then show "translate user (map_video phys s) va = translate user s va"
    using d len by (auto simp: translate_def map_video_def video_index)
qed

definition tiny_pages :: "unit page_state_scheme" where
  "tiny_pages = \<lparr>mem = tiny_mem, io_log = [], io_dev = (\<lambda>_ _. 0),
     master_mask = 0xFF, slave_mask = 0xFF, screen_x = 0, screen_y = 0,
     fs_boot_block = 0x10000, data_block_bitmap = replicate 59 0, inode_bitmap = replicate 64 0,
     page_directory = replicate 1024 0, page_table = replicate 1024 0, page_table_vid = replicate 1024 0,
     page_directory_at = 0x401000, page_table_at = 0x402000, page_table_vid_at = 0x403000,
     cr0 = 0, cr3 = 0, cr4 = 0, int_flag = False, tss_esp0 = 0\<rparr>"

lemma tiny_pages_ok: "tables_ok tiny_pages"
  by (simp add: tables_ok_def tiny_pages_def)

theorem init_page_structs_maps_witness:
  "translate False (init_page_structs tiny_pages) 0x400010 = Some 0x400010
   \<and> translate True (init_page_structs tiny_pages) 0xB8000 = None
   \<and> translate False (init_page_structs tiny_pages) 0 = None"
  using init_page_structs_maps [OF tiny_pages_ok] by simp

theorem process_pages_isolated_witness:
  "\<exists>pa pa'. translate True (map_process 1 tiny_pages) 0x08048000 = Some pa
      \<and> translate True (map_process 2 tiny_pages) 0x08048000 = Some pa' \<and> pa \<noteq> pa'"
  using process_pages_isolated [OF tiny_pages_ok tiny_pages_ok, of 1 2 "0x08048000" "0x08048000" True]
  by (auto simp: user_page_def)

theorem map_video_maps_witness:
  "translate True (map_video 0xB8000 tiny_pages) 0x08400012 = Some 0xB8012"
  using map_video_maps [OF tiny_pages_ok, of "0xB8000" "0x08400012" True]
  by (simp add: tiny_pages_def)

end
