(* ===== verification/KernelState.thy ===== *)
theory KernelState
  imports Paging
begin

text \<open>
  The kernel's global data behind the system calls, the terminals, the scheduler and the device
  drivers: the process control blocks and descriptor tables of
  \<open>src/interrupts/syscall_structs.h\<close>, the terminals of \<open>src/devices/terminal_structs.h\<close>, the
  scheduled processes of \<open>src/scheduler/scheduler.h\<close>, the packet of \<open>src/devices/mouse.h\<close>, and
  the globals of the corresponding C files.

  A pointer to a control block is its index in \<open>PCB\<close>; \<open>NULL\<close> is \<open>None\<close>. A driver table is the
  name of the driver it holds (\<open>init_PCBs\<close> fills the tables once); the functions behind the
  names are called by the dispatchers of \<open>Syscalls\<close>. The fields of a terminal are plain
  integers, since they count characters and rows.
\<close>

section \<open>Constants\<close>

definition MAX_PROCESSES :: nat where "MAX_PROCESSES = 6"
definition MAX_MULTIPROCESS_NUM :: nat where "MAX_MULTIPROCESS_NUM = 3"
definition ARG_BUF_SIZE :: nat where "ARG_BUF_SIZE = 122"
definition FILE_DESCRIPTOR_SIZE :: nat where "FILE_DESCRIPTOR_SIZE = 8"
definition FIRST_READABLE_FILE :: nat where "FIRST_READABLE_FILE = 2"
definition PRESENT_BITMASK :: i32 where "PRESENT_BITMASK = 1"
definition DISABLE_LAST_BIT_MASK :: i32 where "DISABLE_LAST_BIT_MASK = 0xFFFFFFFE"
definition CHAR_BUFFER_SIZE :: nat where "CHAR_BUFFER_SIZE = 128"
definition SCREEN_SIZE :: nat where "SCREEN_SIZE = 2000"
definition MAX_COMMAND_STORE :: nat where "MAX_COMMAND_STORE = 20"
definition NUM_TERMINALS :: nat where "NUM_TERMINALS = 3"

lemmas kernel_consts = MAX_PROCESSES_def MAX_MULTIPROCESS_NUM_def ARG_BUF_SIZE_def
  FILE_DESCRIPTOR_SIZE_def FIRST_READABLE_FILE_def PRESENT_BITMASK_def DISABLE_LAST_BIT_MASK_def
  CHAR_BUFFER_SIZE_def SCREEN_SIZE_def MAX_COMMAND_STORE_def NUM_TERMINALS_def

section \<open>Processes\<close>

datatype driver_t = NoDriver | TerminalDriver | RtcDriver | FileDriver | DirectoryDriver | MouseDriver

record file_array_t =
  operation_table :: driver_t
  fd_inode :: i32
  file_position :: i32
  fd_flags :: i32

record PCB_BLOCK =
  file_array :: "file_array_t list"
  running :: u8
  pcb_esp :: u32
  pcb_ebp :: u32
  pcb_pid :: u8
  pcb_flags :: u8
  args :: "u8 list"
  cmd_name :: "u8 list"
  parent :: "nat option"

record process_t =
  process_PCB :: "nat option"
  saved_esp :: u32
  saved_ebp :: u32
  active_terminal_idx :: u8

section \<open>Terminals and the mouse\<close>

record terminal_t =
  live_buffer :: "u8 list"
  live_buffer_store :: "u8 list"
  temp_commands :: "u8 list"
  command_buffer :: "u8 list list"
  bytes_read :: int
  bytes_read_store :: int
  bytes_written :: int
  temp_bytes_read :: int
  live_buffer_location :: int
  history_buffer :: "u8 list list"
  row_index :: int
  write_command_row :: int
  view_command_row :: int
  cursor_loc :: int
  term_screen_x :: int
  term_screen_y :: int
  read_in_progress :: u8

text \<open>The bit fields of the mouse packet, from the lowest bit up.\<close>

record mouse_t =
  left_btn :: bool
  right_btn :: bool
  middle_btn :: bool
  mouse_val :: bool
  x_sign_bit :: bool
  y_sign_bit :: bool
  x_overflow :: bool
  y_overflow :: bool
  x_movement :: u8
  y_movement :: u8

section \<open>The kernel\<close>

record kernel_state = page_state +
  PCB :: "PCB_BLOCK list"
  current_process_pid :: u8
  error_return_value :: i32
  three_terminals :: "terminal_t list"
  current_term :: int
  all_process :: "process_t list"
  multi_process_idx :: "u8 list"
  num_multiprocess :: u8
  current_multiprocess :: u8
  on_default_term :: u8
  keyboard_disabled :: u8
  esp :: u32
  ebp :: u32
  global_count :: u32
  prev_count :: u32
  mouse_data :: mouse_t
  fake_mouse_pos_x :: u16
  fake_mouse_pos_y :: u16
  x_pos :: u16
  y_pos :: u16
  shift_pressed :: u8
  ctrl_pressed :: u8
  caps_pressed :: u8
  key_pressed :: u8
  alt_pressed :: u8
  enter_pressed :: u8
  current_key :: u8
  handled_enter :: u8
  spam_enters_received :: u8
  parse_buffer :: "u8 list"
  g_row_index :: int
  g_bytes_read :: int
  g_bytes_read_store :: int
  g_bytes_written :: int

section \<open>Access\<close>

text \<open>\<open>PCB[current_process_pid]\<close> and \<open>PCB[current_process_pid]->file[fd]\<close>.\<close>

definition current_PCB :: "'a kernel_state_scheme \<Rightarrow> PCB_BLOCK option" where
  "current_PCB s = peek (PCB s) (unat (current_process_pid s))"

definition set_PCB :: "nat \<Rightarrow> PCB_BLOCK \<Rightarrow> 'a kernel_state_scheme \<Rightarrow> 'a kernel_state_scheme option" where
  "set_PCB i p s = map_option (\<lambda>ps. s\<lparr>PCB := ps\<rparr>) (poke (PCB s) i p)"

definition get_fd :: "nat \<Rightarrow> 'a kernel_state_scheme \<Rightarrow> file_array_t option" where
  "get_fd fd s = do { p \<leftarrow> current_PCB s; peek (file_array p) fd }"

definition set_fd :: "nat \<Rightarrow> file_array_t \<Rightarrow> 'a kernel_state_scheme \<Rightarrow> 'a kernel_state_scheme option" where
  "set_fd fd f s = do {
     p \<leftarrow> current_PCB s;
     fs \<leftarrow> poke (file_array p) fd f;
     set_PCB (unat (current_process_pid s)) (p\<lparr>file_array := fs\<rparr>) s
   }"

definition get_term :: "nat \<Rightarrow> 'a kernel_state_scheme \<Rightarrow> terminal_t option" where
  "get_term i s = peek (three_terminals s) i"

definition set_term :: "nat \<Rightarrow> terminal_t \<Rightarrow> 'a kernel_state_scheme \<Rightarrow> 'a kernel_state_scheme option" where
  "set_term i t s = map_option (\<lambda>ts. s\<lparr>three_terminals := ts\<rparr>) (poke (three_terminals s) i t)"

definition is_present :: "file_array_t \<Rightarrow> bool" where
  "is_present f \<longleftrightarrow> fd_flags f AND PRESENT_BITMASK \<noteq> 0"

text \<open>Accessing a C array at a signed index.\<close>

definition peek_int :: "'a list \<Rightarrow> int \<Rightarrow> 'a option" where
  "peek_int xs i = (if 0 \<le> i then peek xs (nat i) else None)"

definition poke_int :: "'a list \<Rightarrow> int \<Rightarrow> 'a \<Rightarrow> 'a list option" where
  "poke_int xs i x = (if 0 \<le> i then poke xs (nat i) x else None)"

section \<open>Laws of the accessors\<close>

text \<open>
  Descriptors of the current process behave like an array of cells: what was set is read back,
  other cells are left alone, and no field outside the control blocks changes.
\<close>

definition has_fds :: "'a kernel_state_scheme \<Rightarrow> bool" where
  "has_fds s \<longleftrightarrow> unat (current_process_pid s) < length (PCB s)
     \<and> length (file_array (PCB s ! unat (current_process_pid s))) = FILE_DESCRIPTOR_SIZE"

locale cell_array =
  fixes get :: "nat \<Rightarrow> 's \<Rightarrow> 'c option"
    and set :: "nat \<Rightarrow> 'c \<Rightarrow> 's \<Rightarrow> 's option"
    and ok :: "'s \<Rightarrow> bool"
    and size :: nat
  assumes get_ok: "ok s \<Longrightarrow> i < size \<Longrightarrow> \<exists>c. get i s = Some c"
    and set_ok: "ok s \<Longrightarrow> i < size \<Longrightarrow> \<exists>s'. set i c s = Some s' \<and> ok s'"
    and get_set: "ok s \<Longrightarrow> set i c s = Some s' \<Longrightarrow> get j s' = (if j = i then Some c else get j s)"
begin

definition update :: "nat \<Rightarrow> ('c \<Rightarrow> 'c) \<Rightarrow> 's \<Rightarrow> 's option" where
  "update i f s = do { c \<leftarrow> get i s; set i (f c) s }"

lemma get_update:
  assumes "ok s" and "update i f s = Some s'"
  shows "get j s' = (if j = i then map_option f (get i s) else get j s)"
  using assms get_set [of s i] by (auto simp: update_def bind_eq_Some_conv)

lemma update_ok: "ok s \<Longrightarrow> i < size \<Longrightarrow> \<exists>s'. update i f s = Some s' \<and> ok s'"
  using get_ok [of s i] set_ok [of s i] by (auto simp: update_def)

lemma updates_commute:
  assumes "ok s" "i < size" "j < size" "i \<noteq> j"
  shows "\<exists>t u. (update i f s \<bind> update j g) = Some t \<and> (update j g s \<bind> update i f) = Some u
    \<and> (\<forall>k. get k t = get k u)"
proof -
  obtain s1 where s1: "update i f s = Some s1" "ok s1" using update_ok [of s i f] assms by blast
  obtain s2 where s2: "update j g s = Some s2" "ok s2" using update_ok [of s j g] assms by blast
  obtain t where t: "update j g s1 = Some t" using update_ok [of s1 j g] s1 assms by blast
  obtain u where u: "update i f s2 = Some u" using update_ok [of s2 i f] s2 assms by blast
  have "get k t = get k u" for k
    using get_update [OF assms(1) s1(1)] get_update [OF s1(2) t]
      get_update [OF assms(1) s2(1)] get_update [OF s2(2) u] assms(4) by simp
  with s1 s2 t u show ?thesis by auto
qed

end

interpretation fds: cell_array get_fd set_fd has_fds FILE_DESCRIPTOR_SIZE
  by unfold_locales
    (auto simp: get_fd_def set_fd_def current_PCB_def set_PCB_def has_fds_def bind_eq_Some_conv
      poke_Some_iff nth_list_update peek_def)

interpretation terms: cell_array get_term set_term "\<lambda>s. length (three_terminals s) = 3" 3
  by unfold_locales (auto simp: get_term_def set_term_def poke_Some_iff nth_list_update peek_def)

section \<open>A concrete kernel\<close>

text \<open>
  A state for the witnesses: the tiny file image, six control blocks of which the first is
  running with descriptor 2 a file and descriptor 3 the directory, three blank terminals.
\<close>

definition fd_of :: "driver_t \<Rightarrow> i32 \<Rightarrow> file_array_t" where
  "fd_of d fl = \<lparr>operation_table = d, fd_inode = 0, file_position = 0, fd_flags = fl\<rparr>"

definition tiny_pcb :: "u8 \<Rightarrow> PCB_BLOCK" where
  "tiny_pcb r = \<lparr>file_array = [fd_of TerminalDriver 1, fd_of TerminalDriver 1, fd_of FileDriver 1,
       fd_of DirectoryDriver 1, fd_of NoDriver 0, fd_of NoDriver 0, fd_of NoDriver 0, fd_of NoDriver 0],
     running = r, pcb_esp = 0, pcb_ebp = 0, pcb_pid = 0, pcb_flags = 0,
     args = replicate 122 0, cmd_name = replicate 122 0, parent = None\<rparr>"

definition blank_term :: terminal_t where
  "blank_term = \<lparr>live_buffer = replicate 2000 0, live_buffer_store = replicate 2000 0,
     temp_commands = replicate 2000 0, command_buffer = replicate 20 (replicate 128 0),
     bytes_read = 0, bytes_read_store = 0, bytes_written = 0, temp_bytes_read = 0,
     live_buffer_location = 0, history_buffer = replicate 24 (replicate 80 0), row_index = 0,
     write_command_row = 0, view_command_row = 0, cursor_loc = 0, term_screen_x = 0,
     term_screen_y = 0, read_in_progress = 0\<rparr>"

definition blank_mouse :: mouse_t where
  "blank_mouse = \<lparr>left_btn = False, right_btn = False, middle_btn = False, mouse_val = False,
     x_sign_bit = False, y_sign_bit = False, x_overflow = False, y_overflow = False,
     x_movement = 0, y_movement = 0\<rparr>"

definition tiny_kernel :: "unit kernel_state_scheme" where
  "tiny_kernel = \<lparr>mem = tiny_mem, io_log = [], io_dev = (\<lambda>_ _. 0),
     master_mask = 0xFF, slave_mask = 0xFF, screen_x = 0, screen_y = 0,
     fs_boot_block = 0x10000, data_block_bitmap = replicate 59 0, inode_bitmap = replicate 64 0,
     page_directory = replicate 1024 0, page_table = replicate 1024 0, page_table_vid = replicate 1024 0,
     page_directory_at = 0x401000, page_table_at = 0x402000, page_table_vid_at = 0x403000,
     cr0 = 0, cr3 = 0, cr4 = 0, int_flag = False, tss_esp0 = 0,
     PCB = tiny_pcb 1 # replicate 5 (tiny_pcb 0), current_process_pid = 0, error_return_value = 0,
     three_terminals = replicate 3 blank_term, current_term = 0,
     all_process = replicate 6 \<lparr>process_PCB = Some 0, saved_esp = 0, saved_ebp = 0, active_terminal_idx = 0\<rparr>,
     multi_process_idx = [0, 1, 2], num_multiprocess = 3, current_multiprocess = 0,
     on_default_term = 1, keyboard_disabled = 0, esp = 0, ebp = 0, global_count = 0, prev_count = 0,
     mouse_data = blank_mouse, fake_mouse_pos_x = 160, fake_mouse_pos_y = 100, x_pos = 40, y_pos = 12,
     shift_pressed = 0, ctrl_pressed = 0, caps_pressed = 0, key_pressed = 0, alt_pressed = 0,
     enter_pressed = 0, current_key = 0, handled_enter = 1, spam_enters_received = 0,
     parse_buffer = [0, 0, 0, 0], g_row_index = 0, g_bytes_read = 0, g_bytes_read_store = 0,
     g_bytes_written = 0\<rparr>"

lemma tiny_kernel_fds [simp]:
  "has_fds tiny_kernel" "get_fd 2 tiny_kernel = Some (fd_of FileDriver 1)"
  "get_fd 3 tiny_kernel = Some (fd_of DirectoryDriver 1)"
  by (simp_all add: has_fds_def get_fd_def current_PCB_def tiny_kernel_def tiny_pcb_def
      FILE_DESCRIPTOR_SIZE_def)

end
