(* ===== verification/FileOps.thy ===== *)
theory FileOps
  imports KernelState FileData
begin

text \<open>
  The descriptor operations of \<open>src/fs/file.c\<close> and \<open>src/fs/directory.c\<close>: files and
  directories seen through a descriptor of the current process, whose position they advance.
\<close>

section \<open>Descriptors\<close>

text \<open>Changing the descriptor \<open>fd\<close> of the current process in place.\<close>

definition upd_fd :: "nat \<Rightarrow> (file_array_t \<Rightarrow> file_array_t) \<Rightarrow> 'a kernel_state_scheme
    \<Rightarrow> 'a kernel_state_scheme option" where
  "upd_fd fd f s = do { c \<leftarrow> get_fd fd s; set_fd fd (f c) s }"

definition advance :: "i32 \<Rightarrow> file_array_t \<Rightarrow> file_array_t" where
  "advance n f = f\<lparr>file_position := file_position f + n\<rparr>"

section \<open>file.c\<close>

definition file_write :: "nat \<Rightarrow> u32 \<Rightarrow> i32 \<Rightarrow> 'a kernel_state_scheme \<Rightarrow> (i32 \<times> 'a kernel_state_scheme) option" where
  "file_write fd buf nbytes s = do {
     f \<leftarrow> get_fd fd s;
     (bytes_written, s) \<leftarrow> write_data (fd_inode f) (file_position f) buf nbytes s;
     s \<leftarrow> upd_fd fd (advance bytes_written) s;
     Some (bytes_written, s)
   }"

definition file_read :: "nat \<Rightarrow> u32 \<Rightarrow> i32 \<Rightarrow> 'a kernel_state_scheme \<Rightarrow> (i32 \<times> 'a kernel_state_scheme) option" where
  "file_read fd buf nbytes s = do {
     f \<leftarrow> get_fd fd s;
     (bytes_read, s) \<leftarrow> read_data (fd_inode f) (file_position f) buf nbytes s;
     s \<leftarrow> upd_fd fd (advance bytes_read) s;
     Some (bytes_read, s)
   }"

text \<open>The local \<open>dentry_t\<close> starts with unknown contents, the parameter \<open>junk\<close>.\<close>

definition file_open :: "dentry \<Rightarrow> u8 list \<Rightarrow> 'a kernel_state_scheme \<Rightarrow> (i32 \<times> 'a kernel_state_scheme) option" where
  "file_open junk filename s = do {
     (status, file_dentry) \<leftarrow> read_dentry_by_name filename junk s;
     Some (if status \<noteq> 0 \<or> file_type file_dentry \<noteq> FS_TYPE_FILE then -1 else 0, s)
   }"

definition file_close :: "nat \<Rightarrow> 'a kernel_state_scheme \<Rightarrow> (i32 \<times> 'a kernel_state_scheme) option" where
  "file_close fd s = Some (0, s)"

section \<open>directory.c\<close>

definition dir_write :: "nat \<Rightarrow> u32 \<Rightarrow> i32 \<Rightarrow> 'a kernel_state_scheme \<Rightarrow> (i32 \<times> 'a kernel_state_scheme) option" where
  "dir_write fd buf nbytes s = Some (-1, s)"

text \<open>
  The copy loop of \<open>dir_read\<close>, which stops behind a terminator. The limit \<open>max_length\<close> the code
  computes from \<open>nbytes\<close> is never used.
\<close>

fun copy_entry_name :: "u8 list \<Rightarrow> u32 \<Rightarrow> mem \<Rightarrow> nat \<times> mem" where
  "copy_entry_name [] buf m = (0, m)"
| "copy_entry_name (c # cs) buf m =
     (if c = 0 then (0, m(buf := c))
      else let (n, m') = copy_entry_name cs (buf + 1) (m(buf := c)) in (Suc n, m'))"

definition dir_read :: "dentry \<Rightarrow> nat \<Rightarrow> u32 \<Rightarrow> i32 \<Rightarrow> 'a kernel_state_scheme \<Rightarrow> (i32 \<times> 'a kernel_state_scheme) option" where
  "dir_read junk fd buf nbytes s = do {
     f \<leftarrow> get_fd fd s;
     (status, entry) \<leftarrow> read_dentry_by_index (file_position f) junk s;
     if status \<noteq> 0 then do { s \<leftarrow> upd_fd fd (advance 1) s; Some (0, s) }
     else do {
       let (bytes_read, m) = copy_entry_name (file_name entry) buf (mem s);
       s \<leftarrow> upd_fd fd (advance 1) (s\<lparr>mem := m\<rparr>);
       Some (of_nat bytes_read, s)
     }
   }"

definition dir_open :: "dentry \<Rightarrow> u8 list \<Rightarrow> 'a kernel_state_scheme \<Rightarrow> (i32 \<times> 'a kernel_state_scheme) option" where
  "dir_open junk filename s = do {
     (status, entry) \<leftarrow> read_dentry_by_name filename junk s;
     Some (if file_type entry \<noteq> FS_TYPE_DIR \<or> status \<noteq> 0 then -1 else 0, s)
   }"

definition dir_close :: "nat \<Rightarrow> 'a kernel_state_scheme \<Rightarrow> (i32 \<times> 'a kernel_state_scheme) option" where
  "dir_close fd s = Some (0, s)"

section \<open>Descriptors as cells\<close>

lemma upd_fd_eq: "upd_fd = fds.update"
  by (simp add: upd_fd_def fds.update_def fun_eq_iff)

lemma upd_fd_frame:
  "upd_fd fd f s = Some t \<Longrightarrow> mem t = mem s \<and> fs_boot_block t = fs_boot_block s
     \<and> current_process_pid t = current_process_pid s \<and> page_directory t = page_directory s"
  by (auto simp: upd_fd_def set_fd_def set_PCB_def bind_eq_Some_conv)

lemma has_fds_mem [simp]: "has_fds (s\<lparr>mem := m\<rparr>) = has_fds s" "get_fd fd (s\<lparr>mem := m\<rparr>) = get_fd fd s"
  by (simp_all add: has_fds_def get_fd_def current_PCB_def)

lemma upd_fd_run:
  assumes "has_fds s" and "get_fd fd s = Some f" and "fd < 8"
  shows "\<exists>t. upd_fd fd g s = Some t \<and> has_fds t \<and> mem t = mem s \<and> fs_boot_block t = fs_boot_block s
    \<and> (\<forall>j. get_fd j t = (if j = fd then Some (g f) else get_fd j s))"
proof -
  obtain t where t: "fds.update fd g s = Some t" "has_fds t"
    using fds.update_ok [OF assms(1), of fd g] assms(3) by (auto simp: FILE_DESCRIPTOR_SIZE_def)
  then show ?thesis
    using fds.get_update [OF assms(1) t(1)] upd_fd_frame [of fd g s t] assms(2)
    by (auto simp: upd_fd_eq)
qed

section \<open>Reading through a descriptor\<close>

text \<open>Two states with the same image; everything the file system sees is the same.\<close>

definition same_image :: "'a fs_state_scheme \<Rightarrow> 'b fs_state_scheme \<Rightarrow> bool" where
  "same_image s t \<longleftrightarrow> fs_boot_block t = fs_boot_block s
     \<and> (\<forall>x. in_range x (fs_boot_block s) (image_size s) \<longrightarrow> mem t x = mem s x)"

lemma same_image_load:
  assumes "same_image s t" and "image_size s \<le> 4294967296" and "q + 4 \<le> image_size s"
  shows "load32 (mem t) (fs_boot_block s + of_nat q) = load32 (mem s) (fs_boot_block s + of_nat q)"
proof (rule load32_cong_off)
  fix i :: nat assume "i < 4"
  then have "in_range (fs_boot_block s + of_nat (q + i)) (fs_boot_block s) (image_size s)"
    using assms(2,3) by (intro in_range_offset) auto
  with assms(1) show "mem t (fs_boot_block s + of_nat (q + i)) = mem s (fs_boot_block s + of_nat (q + i))"
    by (simp add: same_image_def)
qed

lemma same_image_file:
  assumes sm: "same_image s t" and ok: "file_ok s k"
  shows "num_inodes t = num_inodes s" "num_data_blocks t = num_data_blocks s"
    "fs_boot_block t = fs_boot_block s" "image_size t = image_size s"
    "inode_length t k = inode_length s k" "j < 1023 \<Longrightarrow> file_block t k j = file_block s k j"
    "file_ok t k" "file_contents t k = file_contents s k"
proof -
  note b = file_ok_bounds [OF ok]
  have k: "unat k < unat (num_inodes s)" using b(3) by (simp add: word_less_nat_alt)
  show base: "fs_boot_block t = fs_boot_block s" using sm by (simp add: same_image_def)
  show counts: "num_inodes t = num_inodes s" "num_data_blocks t = num_data_blocks s"
    using same_image_load [OF sm b(2), of 4] same_image_load [OF sm b(2), of 8]
    by (simp_all add: num_inodes_def num_data_blocks_def base image_size_def)
  then show size: "image_size t = image_size s" by (simp add: image_size_def)
  show len: "inode_length t k = inode_length s k"
    using same_image_load [OF sm b(2), of "4096 * (unat k + 1)"] k
    by (simp add: inode_length_def base image_size_def)
  show blk: "file_block t k j = file_block s k j" if "j < 1023" for j
    using same_image_load [OF sm b(2), of "slot_off (unat k) j"] slot_in_inodes [OF k that]
    by (simp add: file_block_def base image_size_def)
  show "file_ok t k" using ok by (simp add: file_ok_def size counts len blk)
  show "file_contents t k = file_contents s k"
  proof (rule nth_equalityI)
    fix x assume "x < length (file_contents t k)"
    then have x: "x < inode_length s k" by (simp add: file_contents_def len)
    then have "x div 4096 < 1023" using b(1) by (simp add: less_mult_imp_div_less)
    then have "file_addr t k x = file_addr s k x" by (simp add: file_addr_def base counts blk)
    moreover have "in_range (file_addr s k x) (fs_boot_block s) (image_size s)"
      using file_off_bounds [OF ok x] unfolding file_addr_off by (intro in_range_offset)
    ultimately show "file_contents t k ! x = file_contents s k ! x"
      using x sm by (simp add: file_contents_def len same_image_def)
  qed (simp add: file_contents_def len)
qed

lemma same_image_trans: "same_image s t \<Longrightarrow> same_image t u \<Longrightarrow> file_ok s k \<Longrightarrow> same_image s u"
  using same_image_file [of s t k] by (simp add: same_image_def)

lemma same_image_gather:
  assumes "buffer_apart s buf n" and "fs_boot_block t = fs_boot_block s"
    and "\<And>x. \<not> in_range x buf n \<Longrightarrow> mem t x = mem s x"
  shows "same_image s t"
  using assms unfolding same_image_def buffer_apart_def by (metis in_rangeE)

text \<open>One \<open>file_read\<close> inside a block.\<close>

lemma file_read_run:
  assumes fds: "has_fds s" "get_fd fd s = Some f" "fd < 8" and k: "fd_inode f = k" "unat (file_position f) = off"
    and ok: "file_ok s k" "off < inode_length s k" "off + unat n < 4294967296"
    and ap: "buffer_apart s buf (read_count s k off (unat n))"
    and seq: "off < 4096 \<or> off mod 4096 + read_count s k off (unat n) \<le> 4096"
  shows "\<exists>t. file_read fd buf n s = Some (of_nat (read_count s k off (unat n)), t)
    \<and> load_bytes (mem t) buf (read_count s k off (unat n)) = take (unat n) (drop off (file_contents s k))
    \<and> (\<forall>x. \<not> in_range x buf (read_count s k off (unat n)) \<longrightarrow> mem t x = mem s x)
    \<and> has_fds t \<and> fs_boot_block t = fs_boot_block s
    \<and> get_fd fd t = Some (advance (of_nat (read_count s k off (unat n))) f)"
proof -
  let ?n = "read_count s k off (unat n)" and ?o = "file_position f"
  let ?m = "gather (mem s) buf (read_addr s k off) ?n"
  have rd: "read_data k ?o buf n s = Some (of_nat ?n, s\<lparr>mem := ?m\<rparr>)"
    using read_data_run [of s k ?o n buf] ok ap k(2) by simp
  obtain t where t: "upd_fd fd (advance (of_nat ?n)) (s\<lparr>mem := ?m\<rparr>) = Some t" "has_fds t" "mem t = ?m"
    "fs_boot_block t = fs_boot_block s" "get_fd fd t = Some (advance (of_nat ?n) f)"
    using upd_fd_run [of "s\<lparr>mem := ?m\<rparr>" fd f "advance (of_nat ?n)"] fds by auto
  have "map (\<lambda>p. mem s (read_addr s k off p)) [0..<?n] = map (\<lambda>p. mem s (file_addr s k (off + p))) [0..<?n]"
    using seq by (intro map_cong refl) (simp, subst read_addr_file_addr, auto)
  then have "load_bytes ?m buf ?n = take (unat n) (drop off (file_contents s k))"
    using read_count_bound [OF ok(1)] by (simp add: load_bytes_gather take_drop_contents)
  then show ?thesis
    using rd t fds(2) k(1) by (simp add: file_read_def gather_outside)
qed

text \<open>At the end of the file nothing is read.\<close>

lemma read_data_eof:
  assumes "file_ok s k" and "inode_length s k \<le> unat off"
  shows "read_data k off buf n s = Some (0, s)"
proof -
  have "file_length (block_at (fs_boot_block s) (k + 1)) (mem s) \<le> off"
    using assms(2) inode_length_eq [of s k] by (simp add: word_le_nat_alt)
  then show ?thesis using file_ok_bounds(4) [OF assms(1)] by (simp add: read_data_def)
qed

text \<open>
  A user program that reads a descriptor in chunks of \<open>n\<close> bytes until the end, with at most the
  given number of calls, and collects what arrives in its buffer.
\<close>

fun read_chunks :: "nat \<Rightarrow> nat \<Rightarrow> u32 \<Rightarrow> u32 \<Rightarrow> 'a kernel_state_scheme \<Rightarrow> (u8 list \<times> 'a kernel_state_scheme) option" where
  "read_chunks 0 fd buf n s = None"
| "read_chunks (Suc calls) fd buf n s = do {
     (r, t) \<leftarrow> file_read fd buf n s;
     if r = 0 then Some ([], t)
     else do {
       (bs, u) \<leftarrow> read_chunks calls fd buf n t;
       Some (load_bytes (mem t) buf (unat r) @ bs, u)
     }
   }"

lemma chunk_in_block:
  assumes "n dvd 4096" and "n dvd off" and "0 < (n :: nat)"
  shows "off mod 4096 + n \<le> 4096"
proof -
  have "n dvd off mod 4096" using assms(1,2) by (simp add: dvd_mod)
  then obtain a where a: "off mod 4096 = n * a" by blast
  obtain b where b: "4096 = n * b" using assms(1) by blast
  have "n * a < n * b" using a b mod_less_divisor [of 4096 off] by linarith
  then have "a + 1 \<le> b" using assms(3) by simp
  then have "n * (a + 1) \<le> n * b" by (rule mult_le_mono2)
  with a b show ?thesis by simp
qed

lemma read_chunks_run:
  assumes "has_fds s" and "get_fd fd s = Some f" and "fd < 8" and "fd_inode f = k"
    and "file_ok s k" and "0 < unat n" and "unat n dvd 4096" and "buffer_apart s buf (unat n)"
    and "unat n dvd unat (file_position f) \<or> inode_length s k \<le> unat (file_position f)"
    and "unat (file_position f) \<le> inode_length s k"
    and "inode_length s k - unat (file_position f) \<le> d * unat n"
  shows "\<exists>t. read_chunks (Suc d) fd buf n s = Some (drop (unat (file_position f)) (file_contents s k), t)"
  using assms
proof (induction d arbitrary: s f)
  case 0
  then have "read_data k (file_position f) buf n s = Some (0, s)" by (intro read_data_eof) auto
  moreover obtain t where "upd_fd fd (advance 0) s = Some t"
    using upd_fd_run [OF 0(1,2,3)] by blast
  ultimately show ?case using 0 by (simp add: file_read_def file_contents_def)
next
  case (Suc d)
  let ?off = "unat (file_position f)" and ?n = "unat n"
  note b = file_ok_bounds [OF Suc.prems(5)]
  show ?case
  proof (cases "?off < inode_length s k")
    case False
    then have "read_data k (file_position f) buf n s = Some (0, s)"
      using Suc.prems(5) by (intro read_data_eof) auto
    moreover obtain t where "upd_fd fd (advance 0) s = Some t"
      using upd_fd_run [OF Suc.prems(1,2,3)] by blast
    ultimately show ?thesis using Suc.prems False by (simp add: file_read_def file_contents_def)
  next
    case True
    let ?c = "read_count s k ?off ?n"
    have c: "0 < ?c" "?c \<le> ?n" "?off + ?c \<le> inode_length s k" "?c < 4294967296"
      using True Suc.prems(6) b(1) by (auto simp: read_count_def)
    have n4: "?n \<le> 4096" using Suc.prems(7) by (intro dvd_imp_le) simp_all
    have dv: "?n dvd ?off" using Suc.prems(9) True by auto
    have fit: "?off < 4096 \<or> ?off mod 4096 + ?c \<le> 4096"
      using chunk_in_block [OF Suc.prems(7) dv Suc.prems(6)] c(2) by simp
    have ap: "buffer_apart s buf ?c" using Suc.prems(8) c(2) by (simp add: buffer_apart_def)
    obtain t where t: "file_read fd buf n s = Some (of_nat ?c, t)"
      "load_bytes (mem t) buf ?c = take ?n (drop ?off (file_contents s k))"
      "\<And>x. \<not> in_range x buf ?c \<Longrightarrow> mem t x = mem s x" "has_fds t" "fs_boot_block t = fs_boot_block s"
      "get_fd fd t = Some (advance (of_nat ?c) f)"
      using file_read_run [OF Suc.prems(1-4) refl Suc.prems(5) True _ ap fit] b(1) True n4 by auto
    have sm: "same_image s t" by (rule same_image_gather [OF ap t(5,3)])
    note st = same_image_file [OF sm Suc.prems(5)]
    have pos: "unat (file_position (advance (of_nat ?c) f)) = ?off + ?c"
      using c b(1) by (simp add: advance_def unat_add_small unat_of_nat_small)
    have "\<exists>u. read_chunks (Suc d) fd buf n t = Some (drop (?off + ?c) (file_contents t k), u)"
    proof -
      have "?n dvd ?off + ?c \<or> inode_length t k \<le> ?off + ?c"
        using dv True by (auto simp: read_count_def min_def st)
      moreover have "inode_length t k - (?off + ?c) \<le> d * ?n"
        using Suc.prems(11) by (auto simp: read_count_def min_def st)
      moreover have "buffer_apart t buf ?n" using Suc.prems(8) by (simp add: buffer_apart_def st)
      moreover have "fd_inode (advance (of_nat ?c) f) = k" using Suc.prems(4) by (simp add: advance_def)
      ultimately show ?thesis
        using Suc.IH [OF t(4,6) Suc.prems(3) _ st(7) Suc.prems(6,7)] c(3) by (simp add: pos st)
    qed
    then obtain u where u: "read_chunks (Suc d) fd buf n t = Some (drop (?off + ?c) (file_contents s k), u)"
      by (auto simp: st)
    have "(of_nat ?c :: u32) \<noteq> 0" "unat (of_nat ?c :: u32) = ?c"
      using c by (simp_all add: unat_of_nat_small flip: unat_eq_zero)
    moreover have "take ?n (drop ?off (file_contents s k)) @ drop (?off + ?c) (file_contents s k)
        = drop ?off (file_contents s k)"
    proof -
      have "drop (?off + ?c) (file_contents s k) = drop ?n (drop ?off (file_contents s k))"
        by (cases "?c = ?n") (auto simp: read_count_def min_def file_contents_def add.commute)
      then show ?thesis by (simp only: append_take_drop_id)
    qed
    ultimately show ?thesis
      using t(1,2) u by (subst read_chunks.simps(2)) (simp del: read_chunks.simps)
  qed
qed



section \<open>Listing a directory\<close>

lemma store_bytes_Nil [simp]: "store_bytes m a [] = m"
  by (simp add: store_bytes_def)

lemma store_bytes_Cons:
  assumes "length bs < 4294967295"
  shows "store_bytes m a (b # bs) = store_bytes (m(a := b)) (a + 1) bs"
proof
  fix x
  show "store_bytes m a (b # bs) x = store_bytes (m(a := b)) (a + 1) bs x"
  proof (cases "x = a")
    case True
    have "\<not> in_range a (a + 1) (length bs)" using assms by (simp add: in_range_def)
    with True show ?thesis by (simp add: store_bytes_def)
  next
    case False
    then have "x - a \<noteq> 0" by simp
    then have "unat (x - a) = Suc (unat (x - a - 1))" by (rule unat_pred)
    moreover have "x - a - 1 = x - (a + 1)" by simp
    ultimately show ?thesis using False by (simp add: store_bytes_def in_range_def)
  qed
qed

text \<open>What the copy loop leaves in the buffer: the name, and a terminator if there is room.\<close>

definition listed_name :: "u8 list \<Rightarrow> u8 list" where
  "listed_name cs = c_string cs @ (if 0 \<in> set cs then [0] else [])"

lemma listed_name_Cons: "listed_name (c # cs) = (if c = 0 then [0] else c # listed_name cs)"
  by (simp add: listed_name_def c_string_def)

lemma length_listed_name: "length (listed_name cs) \<le> length cs"
  by (induction cs) (simp_all add: listed_name_Cons, simp add: listed_name_def c_string_def)

lemma copy_entry_name_spec:
  "length cs < 4294967295 \<Longrightarrow>
   copy_entry_name cs buf m = (length (c_string cs), store_bytes m buf (listed_name cs))"
proof (induction cs buf m rule: copy_entry_name.induct)
  case (1 buf m)
  then show ?case by (simp add: listed_name_def c_string_def)
next
  case (2 c cs buf m)
  have "length (listed_name cs) < 4294967295" using 2(2) length_listed_name [of cs] by simp
  then show ?case
    using 2 by (simp add: listed_name_Cons c_string_def store_bytes_Cons fun_upd_def)
qed

text \<open>
  Listing a directory. \<open>dir_read\<close> through a descriptor at position \<open>i\<close> stores the name of the
  \<open>i\<close>th entry in the buffer (with its terminator when the name is shorter than 32), returns the
  name's length and moves the descriptor to the next entry, whatever buffer size it is given;
  behind the last entry it returns 0.
\<close>

theorem dir_read_lists:
  assumes "has_fds s" and "get_fd fd s = Some f" and "fd < 8"
    and "num_dir_entries s \<noteq> 0" and "unat (num_dir_entries s) \<le> 63"
  shows "\<exists>t. get_fd fd t = Some (advance 1 f) \<and>
    (if unat (file_position f) < length (directory s)
     then (let e = directory s ! unat (file_position f) in
       dir_read junk fd buf nbytes s = Some (of_nat (length (entry_name e)), t)
       \<and> mem t = store_bytes (mem s) buf (listed_name (file_name e)))
     else dir_read junk fd buf nbytes s = Some (0, t) \<and> mem t = mem s)"
proof (cases "unat (file_position f) < length (directory s)")
  case True
  let ?i = "unat (file_position f)" and ?e = "directory s ! unat (file_position f)"
  have i: "?i < unat (num_dir_entries s)" "?i < 63" using True assms(5) by simp_all
  then have "\<not> file_position f > num_dir_entries s - 1"
    by (intro not_above_last) (simp add: word_less_nat_alt)
  then have rd: "read_dentry_by_index (file_position f) junk s = Some (0, ?e)"
    using i by (simp add: read_dentry_by_index_def directory_entry_addr FOUND_def directory_def)
  let ?m = "store_bytes (mem s) buf (listed_name (file_name ?e))"
  have "length (file_name ?e) = 32"
    using i by (simp add: directory_def load_dentry_def MAX_FILENAME_LENGTH_def)
  then have cp: "copy_entry_name (file_name ?e) buf (mem s) = (length (entry_name ?e), ?m)"
    by (simp add: copy_entry_name_spec entry_name_def)
  obtain t where "upd_fd fd (advance 1) (s\<lparr>mem := ?m\<rparr>) = Some t" "mem t = ?m"
      "get_fd fd t = Some (advance 1 f)"
    using upd_fd_run [of "s\<lparr>mem := ?m\<rparr>" fd f "advance 1"] assms(1-3) by auto
  with assms(2) rd cp True show ?thesis by (auto simp: dir_read_def Let_def)
next
  case False
  then have "num_dir_entries s - 1 < file_position f" using assms(4)
    by (simp add: not_less) unat_arith
  then have rd: "read_dentry_by_index (file_position f) junk s = Some (-1, junk)"
    by (simp add: read_dentry_by_index_def NOT_FOUND_def)
  obtain t where "upd_fd fd (advance 1) s = Some t" "mem t = mem s" "get_fd fd t = Some (advance 1 f)"
    using upd_fd_run [of s fd f "advance 1"] assms(1-3) by auto
  with assms(2) rd False show ?thesis by (auto simp: dir_read_def)
qed

section \<open>Concrete descriptors\<close>

lemma tiny_kernel_image: "same_image tiny_fs tiny_kernel"
  by (simp add: same_image_def tiny_fs_def tiny_kernel_def)

lemma tiny_kernel_file: "file_ok tiny_kernel 0" "inode_length tiny_kernel 0 = 5"
  "file_contents tiny_kernel 0 = file_contents tiny_fs 0" "n \<le> 5 \<Longrightarrow> buffer_apart tiny_kernel 0x20000 n"
  using same_image_file [OF tiny_kernel_image tiny_file_ok] tiny_buffer_part [of n]
  by (simp_all add: tiny_counts buffer_apart_def)


theorem dir_read_lists_witness:
  "\<exists>t. dir_read (load_dentry tiny_mem 0) 3 0x20000 10 tiny_kernel = Some (1, t)
     \<and> mem t = store_bytes tiny_mem 0x20000 (listed_name (file_name (directory tiny_fs ! 0)))"
proof -
  have n: "num_dir_entries tiny_kernel = 1" "directory tiny_kernel = directory tiny_fs"
    using tiny_num_entries
    by (simp_all add: directory_def num_dir_entries_def tiny_fs_def tiny_kernel_def)
  have "length (entry_name (directory tiny_fs ! 0)) = 1"
    using tiny_directory by (cases "directory tiny_fs") auto
  moreover have "mem tiny_kernel = tiny_mem" by (simp add: tiny_kernel_def)
  ultimately show ?thesis
    using dir_read_lists [OF tiny_kernel_fds(1,3), of "load_dentry tiny_mem 0" "0x20000" 10] n
    by (auto simp: fd_of_def Let_def tiny_num_entries)
qed

end
