(* ===== verification/StringMem.thy ===== *)
theory StringMem
  imports FileOps
begin

text \<open>
  \<open>strlen\<close>, \<open>strcpy\<close> and \<open>strncpy\<close> of \<open>src/lib.c\<close> on memory, where the arguments may overlap. \<open>CString\<close> has
  them on separate buffers: the theorems show that on separate strings the two agree, and what an overlap does.
\<close>

section \<open>Definitions\<close>

partial_function (option) strlen_mem :: "mem \<Rightarrow> u32 \<Rightarrow> u32 \<Rightarrow> u32 option" where
  "strlen_mem m s len = (if m (s + len) \<noteq> 0 then strlen_mem m s (len + 1) else Some len)"

partial_function (option) strcpy_mem :: "u32 \<Rightarrow> u32 \<Rightarrow> u32 \<Rightarrow> mem \<Rightarrow> mem option" where
  "strcpy_mem dest src i m =
     (if m (src + i) \<noteq> 0 then strcpy_mem dest src (i + 1) (m(dest + i := m (src + i)))
      else Some (m(dest + i := 0)))"

lemma word_up: "(i :: u32) < n \<Longrightarrow> unat n - unat (i + 1) < unat n - unat i"
  using unat_lt_32 [of n] unat_add_small [of i 1] by (simp add: word_less_nat_alt)

function strncpy_mem_pad :: "u32 \<Rightarrow> u32 \<Rightarrow> u32 \<Rightarrow> mem \<Rightarrow> mem" where
  "strncpy_mem_pad dest n i m = (if i < n then strncpy_mem_pad dest n (i + 1) (m(dest + i := 0)) else m)"
  by pat_completeness auto
termination by (relation "measure (\<lambda>(dest, n, i, m). unat n - unat i)") (simp_all add: word_up)

function strncpy_mem :: "u32 \<Rightarrow> u32 \<Rightarrow> u32 \<Rightarrow> u32 \<Rightarrow> mem \<Rightarrow> mem" where
  "strncpy_mem dest src n i m =
     (if m (src + i) \<noteq> 0 \<and> i < n then strncpy_mem dest src n (i + 1) (m(dest + i := m (src + i)))
      else strncpy_mem_pad dest n i m)"
  by pat_completeness auto
termination by (relation "measure (\<lambda>(dest, src, n, i, m). unat n - unat i)") (simp_all add: word_up)

declare strncpy_mem_pad.simps [simp del] strncpy_mem.simps [simp del]

section \<open>Strings in memory\<close>

text \<open>A string of \<open>n\<close> characters at \<open>a\<close>, and a destination that does not touch it.\<close>

definition string_in :: "mem \<Rightarrow> u32 \<Rightarrow> nat \<Rightarrow> bool" where
  "string_in m a n \<longleftrightarrow> (\<forall>j<n. m (a + of_nat j) \<noteq> 0) \<and> m (a + of_nat n) = 0"

definition separate :: "u32 \<Rightarrow> nat \<Rightarrow> u32 \<Rightarrow> nat \<Rightarrow> bool" where
  "separate a n b k \<longleftrightarrow> (\<forall>i<n. \<forall>j<k. a + of_nat i \<noteq> b + of_nat j)"

lemma separate_tail: "separate a (Suc n) b (Suc k) \<Longrightarrow> separate (a + 1) n (b + 1) k"
  unfolding separate_def
proof (intro allI impI)
  fix i j assume sep: "\<forall>i<Suc n. \<forall>j<Suc k. a + of_nat i \<noteq> b + of_nat j" and "i < n" "j < k"
  then show "a + 1 + of_nat i \<noteq> b + 1 + of_nat j" using sep [rule_format, of "Suc i" "Suc j"] by (simp add: ac_simps)
qed

lemma separate_head: "separate (a + i) (Suc (Suc n)) (b + i) (Suc (Suc n)) \<Longrightarrow> separate (a + i) 1 (b + (i + 1)) (Suc n)"
  unfolding separate_def
proof (intro allI impI)
  fix k j assume sep: "\<forall>k<Suc (Suc n). \<forall>j<Suc (Suc n). a + i + of_nat k \<noteq> b + i + of_nat j" and "k < (1 :: nat)" "j < Suc n"
  then show "a + i + of_nat k \<noteq> b + (i + 1) + of_nat j" using sep [rule_format, of 0 "Suc j"] by (simp add: ac_simps)
qed

lemma string_tail: "string_in m a (Suc n) \<longleftrightarrow> m a \<noteq> 0 \<and> string_in m (a + 1) n"
  by (auto simp: string_in_def All_less_Suc2 algebra_simps)

lemma string_frame:
  assumes "separate b k a (Suc n)" "0 < k"
  shows "string_in (m(b := c)) a n = string_in m a n" "load_bytes (m(b := c)) a n = load_bytes m a n"
proof -
  have ne: "a + of_nat j \<noteq> b" if "j \<le> n" for j
    using assms(1) [unfolded separate_def, rule_format, of 0 j] assms(2) that by auto
  then show "string_in (m(b := c)) a n = string_in m a n" by (simp add: string_in_def)
  show "load_bytes (m(b := c)) a n = load_bytes m a n" using ne by (simp add: load_bytes_def)
qed

lemma load_bytes_Suc: "load_bytes m a (Suc n) = m a # load_bytes m (a + 1) n"
  by (simp add: load_bytes_def upt_conv_Cons map_Suc_upt [symmetric] del: upt_Suc) (simp add: algebra_simps)

section \<open>Length\<close>

lemma strlen_mem_from: "string_in m (a + i) n \<Longrightarrow> strlen_mem m a i = Some (i + of_nat n)"
proof (induction n arbitrary: i)
  case 0
  then show ?case by (subst strlen_mem.simps) (simp add: string_in_def)
next
  case (Suc n)
  then show ?case by (subst strlen_mem.simps) (simp add: string_tail add.assoc)
qed

section \<open>Copying\<close>

lemma strcpy_mem_from:
  "\<lbrakk>string_in m (src + i) n; separate (dest + i) (Suc n) (src + i) (Suc n); n < 4294967290\<rbrakk>
   \<Longrightarrow> strcpy_mem dest src i m = Some (store_bytes m (dest + i) (load_bytes m (src + i) n @ [0]))"
proof (induction n arbitrary: i m)
  case 0
  then show ?case by (subst strcpy_mem.simps) (simp add: string_in_def store_bytes_Cons load_bytes_def)
next
  case (Suc n)
  let ?m = "m(dest + i := m (src + i))"
  have c: "m (src + i) \<noteq> 0" "string_in m (src + (i + 1)) n" using Suc.prems(1) by (simp_all add: string_tail add.assoc)
  have sep: "separate (dest + (i + 1)) (Suc n) (src + (i + 1)) (Suc n)"
    using separate_tail [OF Suc.prems(2)] by (simp add: add.assoc)
  note fr = string_frame [OF separate_head [OF Suc.prems(2)], simplified]
  have "strcpy_mem dest src i m = strcpy_mem dest src (i + 1) ?m" using c(1) by (subst strcpy_mem.simps) simp
  also have "\<dots> = Some (store_bytes ?m (dest + (i + 1)) (load_bytes ?m (src + (i + 1)) n @ [0]))"
    by (rule Suc.IH [OF _ sep]) (use Suc.prems(3) fr(1) c(2) in blast, use Suc.prems(3) in simp)
  finally show ?case
    using Suc.prems(3) fr(2) by (simp add: load_bytes_Suc store_bytes_Cons add.assoc)
qed

theorem strcpy_mem_copies:
  assumes "string_in m src n" and "separate dest (Suc n) src (Suc n)" and "n < 4294967290"
  shows "strcpy_mem dest src 0 m = Some (store_bytes m dest (load_bytes m src n @ [0]))"
  using strcpy_mem_from [of m src 0 n dest] assms by simp

text \<open>On separate buffers this is the routine on lists.\<close>

lemma load_store_prefix:
  assumes "length bs \<le> k" "k < 4294967296"
  shows "load_bytes (store_bytes m a bs) a k = bs @ drop (length bs) (load_bytes m a k)"
proof (rule nth_equalityI)
  fix i assume i: "i < length (load_bytes (store_bytes m a bs) a k)"
  then have "unat (a + of_nat i - a) = i" using assms(2) by (simp add: unat_of_nat_small)
  then show "load_bytes (store_bytes m a bs) a k ! i = (bs @ drop (length bs) (load_bytes m a k)) ! i"
    using i assms(1) by (simp add: store_bytes_def in_range_def nth_append)
qed (use assms in simp)

theorem strcpy_refines:
  assumes "string_in m src n" and "separate dest (Suc n) src (Suc n)" and "n < k" and "k < 4294967290"
  shows "\<exists>m'. strcpy_mem dest src 0 m = Some m'
    \<and> strcpy (load_bytes m dest k) (load_bytes m src (Suc n)) = Some (load_bytes m' dest k)"
proof -
  have src: "load_bytes m src (Suc n) = load_bytes m src n @ 0 # []"
    using assms(1) by (simp add: load_bytes_def string_in_def)
  have "0 \<notin> set (load_bytes m src n)" using assms(1) by (auto simp: load_bytes_def string_in_def)
  then have "strcpy (load_bytes m dest k) (load_bytes m src (Suc n)) = Some (load_bytes m src n @ 0 # drop (Suc n) (load_bytes m dest k))"
    using strcpy_spec [of "load_bytes m src n" "load_bytes m dest k" "[]"] assms(3) unfolding src by simp
  then show ?thesis
    using strcpy_mem_copies [OF assms(1,2)] load_store_prefix [of "load_bytes m src n @ [0]" k m dest] assms(3,4) by simp
qed

text \<open>
  Copying a nonempty string one byte up overwrites its terminator before it is reached: the copy never
  ends. Copying it onto itself changes nothing.
\<close>

theorem strcpy_onto_itself:
  assumes "string_in m a n"
  shows "strcpy_mem a a 0 m = Some m"
proof -
  have "strcpy_mem a a i m = Some m" if "string_in m (a + i) n" for i
    using that
  proof (induction n arbitrary: i)
    case 0
    then show ?case by (subst strcpy_mem.simps) (simp add: string_in_def fun_upd_idem)
  next
    case (Suc n)
    then have "m (a + i) \<noteq> 0" "string_in m (a + (i + 1)) n" by (simp_all add: string_tail add.assoc)
    then show ?case using Suc.IH by (subst strcpy_mem.simps) simp
  qed
  from this [of 0] assms show ?thesis by simp
qed

theorem strcpy_one_up_endless:
  assumes "m a \<noteq> 0"
  shows "strcpy_mem (a + 1) a 0 m = None"
proof -
  have "False" if "strcpy_mem dest src i m = Some r" "dest = src + 1" "m (src + i) \<noteq> 0" for dest src i m r
    using that
  proof (induction rule: strcpy_mem.raw_induct [rotated 1, consumes 1])
    case (1 copy dest src i m r)
    let ?m = "m(dest + i := m (src + i))"
    have "copy dest src (i + 1) ?m = Some r" using 1(2,4) by simp
    moreover have "?m (src + (i + 1)) \<noteq> 0" using 1(3,4) by (simp add: ac_simps)
    ultimately show False using 1(1,3) by blast
  qed
  with assms show ?thesis by (cases "strcpy_mem (a + 1) a 0 m") force+
qed

section \<open>Copying at most n bytes\<close>

lemma strncpy_mem_pad_fills:
  "strncpy_mem_pad dest n i m = store_bytes m (dest + i) (replicate (unat n - unat i) 0)"
proof (induction "unat n - unat i" arbitrary: i m)
  case 0
  then show ?case by (subst strncpy_mem_pad.simps) (simp add: word_less_nat_alt)
next
  case (Suc k)
  then have less: "i < n" by (simp add: word_less_nat_alt)
  then have up: "unat (i + 1) = unat i + 1" using unat_lt_32 [of n] by (simp add: word_less_nat_alt unat_add_small)
  have "k = unat n - unat (i + 1)" using Suc.hyps(2) up by simp
  from Suc.hyps(1) [OF this, of "m(dest + i := 0)"] have
    "strncpy_mem_pad dest n (i + 1) (m(dest + i := 0)) = store_bytes (m(dest + i := 0)) (dest + (i + 1)) (replicate k 0)"
    using \<open>k = unat n - unat (i + 1)\<close> by simp
  moreover have "length (replicate k (0 :: u8)) < 4294967295" using Suc.hyps(2) unat_lt_32 [of n] by simp
  ultimately show ?case using less Suc.hyps(2) [symmetric]
    by (subst strncpy_mem_pad.simps) (simp add: store_bytes_Cons add.assoc)
qed

lemma strncpy_mem_from:
  "\<lbrakk>string_in m (src + i) k; separate (dest + i) (Suc k) (src + i) (Suc k)\<rbrakk>
   \<Longrightarrow> strncpy_mem dest src n i m
     = store_bytes m (dest + i) (take (unat n - unat i) (load_bytes m (src + i) k @ replicate (unat n - unat i - k) 0))"
proof (induction k arbitrary: i m)
  case 0
  then show ?case by (subst strncpy_mem.simps) (simp add: string_in_def load_bytes_def strncpy_mem_pad_fills)
next
  case (Suc k)
  show ?case
  proof (cases "i < n")
    case False
    then show ?thesis by (subst strncpy_mem.simps) (simp add: strncpy_mem_pad_fills word_less_nat_alt)
  next
    case True
    then obtain d where d: "unat n - unat i = Suc d" "unat n - unat (i + 1) = d" "d < 4294967295"
      using unat_lt_32 [of n] by (auto simp: word_less_nat_alt unat_add_small dest!: less_imp_Suc_add)
    let ?m = "m(dest + i := m (src + i))"
    have c: "m (src + i) \<noteq> 0" "string_in m (src + (i + 1)) k" using Suc.prems(1) by (simp_all add: string_tail add.assoc)
    have sep: "separate (dest + (i + 1)) (Suc k) (src + (i + 1)) (Suc k)"
      using separate_tail [OF Suc.prems(2)] by (simp add: add.assoc)
    note fr = string_frame [OF separate_head [OF Suc.prems(2)], simplified]
    have "strncpy_mem dest src n i m = strncpy_mem dest src n (i + 1) ?m" using c(1) True by (subst strncpy_mem.simps) simp
    also have "\<dots> = store_bytes ?m (dest + (i + 1)) (take d (load_bytes ?m (src + (i + 1)) k @ replicate (d - k) 0))"
      unfolding d(2) [symmetric] by (rule Suc.IH [OF _ sep]) (use fr(1) c(2) in blast)
    finally show ?thesis using d fr(2) by (simp add: load_bytes_Suc store_bytes_Cons add.assoc)
  qed
qed

text \<open>\<open>strncpy\<close> writes exactly \<open>n\<close> bytes: the string cut to \<open>n\<close>, or padded with zeros.\<close>

theorem strncpy_mem_copies:
  assumes "string_in m src k" and "separate dest (Suc k) src (Suc k)"
  shows "strncpy_mem dest src n 0 m = store_bytes m dest (take (unat n) (load_bytes m src k @ replicate (unat n - k) 0))"
  using strncpy_mem_from [of m src 0 k dest n] assms by simp

end
