(* ===== verification/Devices.thy ===== *)
theory Devices
  imports FileOps
begin

text \<open>
  The clocks and the mouse: \<open>src/devices/rtc.c\<close>, \<open>src/devices/cmos.c\<close>, the initialisation of
  \<open>src/devices/pit.c\<close>, and \<open>src/devices/mouse.c\<close>. Register accesses are port events; what the
  devices answer is the parameter \<open>io_dev\<close> of the machine state.
\<close>

section \<open>Real-time clock\<close>

definition RTC_IRQ :: u32 where "RTC_IRQ = 8"
definition SELECT_PORT :: u16 where "SELECT_PORT = 0x70"
definition WRITE_PORT :: u16 where "WRITE_PORT = 0x71"
definition SELECT_A :: u8 where "SELECT_A = 0x0A"
definition SELECT_B :: u8 where "SELECT_B = 0x0B"
definition SELECT_C :: u8 where "SELECT_C = 0x0C"
definition MASK_UPPER_BYTE :: u8 where "MASK_UPPER_BYTE = 0xF0"
definition MASK_SIXTH_BIT :: u8 where "MASK_SIXTH_BIT = 0x40"
definition MASK_NMI :: u8 where "MASK_NMI = 0x80"
definition UNMASK_NMI :: u8 where "UNMASK_NMI = 0x7F"
definition RTC_MAX_RATE :: u8 where "RTC_MAX_RATE = 7"
definition RTC_MAX_FREQ :: int where "RTC_MAX_FREQ = 512"
definition DEFAULT_RTC_FREQ :: int where "DEFAULT_RTC_FREQ = 2"

lemmas rtc_consts = RTC_IRQ_def SELECT_PORT_def WRITE_PORT_def SELECT_A_def SELECT_B_def SELECT_C_def
  MASK_UPPER_BYTE_def MASK_SIXTH_BIT_def MASK_NMI_def UNMASK_NMI_def RTC_MAX_RATE_def
  RTC_MAX_FREQ_def DEFAULT_RTC_FREQ_def

definition NMI_enable :: "'a hw_state_scheme \<Rightarrow> 'a hw_state_scheme" where
  "NMI_enable s = (let (v, s) = inb SELECT_PORT s in outb (v AND UNMASK_NMI) SELECT_PORT s)"

definition NMI_disable :: "'a hw_state_scheme \<Rightarrow> 'a hw_state_scheme" where
  "NMI_disable s = (let (v, s) = inb SELECT_PORT s in outb (v OR MASK_NMI) SELECT_PORT s)"

definition rtc_init :: "'a kernel_state_scheme \<Rightarrow> 'a kernel_state_scheme" where
  "rtc_init s =
     (let s = enable_irq RTC_IRQ (NMI_disable s);
          (prev_B_reg, s) = inb WRITE_PORT (outb SELECT_B SELECT_PORT s);
          s = outb SELECT_B SELECT_PORT s;
          s = outb (prev_B_reg OR MASK_SIXTH_BIT) WRITE_PORT s;
          (prev_A_reg, s) = inb WRITE_PORT (outb SELECT_A SELECT_PORT s);
          s = outb SELECT_A SELECT_PORT s;
          s = outb ((prev_A_reg AND MASK_UPPER_BYTE) OR RTC_MAX_RATE) WRITE_PORT s;
          s = s\<lparr>global_count := 0, prev_count := 0\<rparr>
      in NMI_enable s)"

section \<open>CMOS clock\<close>

definition UPDATE_INTERRUPT_FLAG_BITMASK :: u8 where "UPDATE_INTERRUPT_FLAG_BITMASK = 0x10"
definition RTC_HOURS :: u8 where "RTC_HOURS = 0x04"
definition RTC_MINUTES :: u8 where "RTC_MINUTES = 0x02"
definition RTC_SECONDS :: u8 where "RTC_SECONDS = 0x00"
definition UTC_TO_EST_OFFSET :: int where "UTC_TO_EST_OFFSET = 20"
definition HOURS_IN_DAY :: int where "HOURS_IN_DAY = 24"

lemmas cmos_consts = UPDATE_INTERRUPT_FLAG_BITMASK_def RTC_HOURS_def RTC_MINUTES_def
  RTC_SECONDS_def UTC_TO_EST_OFFSET_def HOURS_IN_DAY_def

definition cmos_init :: "'a hw_state_scheme \<Rightarrow> 'a hw_state_scheme" where
  "cmos_init s =
     (let (regB_val, s) = inb WRITE_PORT (outb SELECT_B SELECT_PORT s);
          s = outb SELECT_B SELECT_PORT s
      in outb (regB_val OR UPDATE_INTERRUPT_FLAG_BITMASK) WRITE_PORT s)"

text \<open>
  The conversions from BCD: computed in \<open>int\<close>, stored in a byte.
\<close>

definition hours_of_bcd :: "u8 \<Rightarrow> u8" where
  "hours_of_bcd v = word_of_int (uint (v AND 0x0F) + (uint (v AND 0x70) div 16) * 10) OR (v AND 0x80)"

definition local_hours :: "u8 \<Rightarrow> u8" where
  "local_hours h = word_of_int ((uint h + UTC_TO_EST_OFFSET) mod HOURS_IN_DAY)"

definition number_of_bcd :: "u8 \<Rightarrow> u8" where
  "number_of_bcd v = word_of_int (uint (v AND 0x0F) + (uint v div 16) * 10)"

definition cmos_handler :: "'a console_state_scheme \<Rightarrow> 'a console_state_scheme option" where
  "cmos_handler s =
     (let (h, s) = inb WRITE_PORT (outb RTC_HOURS SELECT_PORT s);
          cmos_hours = local_hours (hours_of_bcd h);
          (m, s) = inb WRITE_PORT (outb RTC_MINUTES SELECT_PORT s);
          cmos_minutes = number_of_bcd m;
          (sec, s) = inb WRITE_PORT (outb RTC_SECONDS SELECT_PORT s);
          cmos_sec = number_of_bcd sec
      in update_status_bar_time cmos_hours cmos_minutes cmos_sec s)"

section \<open>Clock interrupts\<close>

definition rtc_handler :: "'a kernel_state_scheme \<Rightarrow> 'a kernel_state_scheme option" where
  "rtc_handler s =
     (let s = s\<lparr>global_count := global_count s + 1\<rparr>;
          (c_val, s) = inb WRITE_PORT (outb SELECT_C SELECT_PORT s)
      in do {
        s \<leftarrow> (if drop_bit 4 (c_val AND 0x10) \<noteq> 0 then cmos_handler s else Some s);
        Some (send_eoi RTC_IRQ s)
      })"

definition rtc_open :: "u8 list \<Rightarrow> 'a kernel_state_scheme \<Rightarrow> (i32 \<times> 'a kernel_state_scheme) option" where
  "rtc_open filename s = Some (0, s)"

text \<open>
  The waiting loop of \<open>rtc_read\<close> compares against \<open>global_count\<close>, which only the clock
  interrupt changes: each round of the model is one interrupt.
\<close>

partial_function (option) rtc_wait :: "u32 \<Rightarrow> 'a kernel_state_scheme \<Rightarrow> 'a kernel_state_scheme option" where
  "rtc_wait target s =
     (if target > global_count s then do { s \<leftarrow> rtc_handler s; rtc_wait target s } else Some s)"

definition rtc_read :: "nat \<Rightarrow> u32 \<Rightarrow> i32 \<Rightarrow> 'a kernel_state_scheme \<Rightarrow> (i32 \<times> 'a kernel_state_scheme) option" where
  "rtc_read fd buf nbytes s = do {
     let entered_count = global_count s;
     f \<leftarrow> get_fd fd s;
     s \<leftarrow> rtc_wait (entered_count + file_position f) s;
     Some (0, s)
   }"

text \<open>The comparison \<open>freq <= RTC_MAX_FREQ\<close> and the division are signed.\<close>

definition rtc_write :: "nat \<Rightarrow> u32 \<Rightarrow> i32 \<Rightarrow> 'a kernel_state_scheme \<Rightarrow> (i32 \<times> 'a kernel_state_scheme) option" where
  "rtc_write fd buf nbytes s =
     (let freq = load32 (mem s) buf in
      if freq \<noteq> 0 \<and> freq AND (freq - 1) = 0 \<and> sint freq \<le> RTC_MAX_FREQ then do {
        s \<leftarrow> upd_fd fd (\<lambda>f. f\<lparr>file_position := word_of_int (RTC_MAX_FREQ sdiv sint freq)\<rparr>) s;
        Some (0, s)
      }
      else Some (-1, s))"

definition rtc_close :: "nat \<Rightarrow> 'a kernel_state_scheme \<Rightarrow> (i32 \<times> 'a kernel_state_scheme) option" where
  "rtc_close fd s = do { s \<leftarrow> upd_fd fd (\<lambda>f. f\<lparr>file_position := 0\<rparr>) s; Some (0, s) }"

section \<open>Interval timer\<close>

definition PIT_IRQ :: u32 where "PIT_IRQ = 0"
definition PIT_MODECMD_PORT :: u16 where "PIT_MODECMD_PORT = 0x43"
definition PIT_CHZ_PORT :: u16 where "PIT_CHZ_PORT = 0x40"
definition PIT_FREQ :: int where "PIT_FREQ = 1193180"
definition SQ_WAVE_CHZ_CMD :: u8 where "SQ_WAVE_CHZ_CMD = 0x36"

lemmas pit_consts = PIT_IRQ_def PIT_MODECMD_PORT_def PIT_CHZ_PORT_def PIT_FREQ_def SQ_WAVE_CHZ_CMD_def

text \<open>The last two writes have data and port the wrong way round, as in the code.\<close>

definition pit_init :: "'a pic_state_scheme \<Rightarrow> 'a pic_state_scheme" where
  "pit_init s =
     (let s = enable_irq PIT_IRQ (NMI_disable s);
          divisor = PIT_FREQ div 100;
          s = outb SQ_WAVE_CHZ_CMD PIT_MODECMD_PORT s;
          s = outb (ucast PIT_CHZ_PORT) (word_of_int (divisor mod 256)) s;
          s = outb (ucast PIT_CHZ_PORT) (word_of_int (divisor div 256)) s
      in NMI_enable s)"

section \<open>Mouse\<close>

definition MOUSE_DATA_PORT :: u16 where "MOUSE_DATA_PORT = 0x60"
definition MOUSE_COMMAND_PORT :: u16 where "MOUSE_COMMAND_PORT = 0x64"
definition MOUSE_IRQ :: u32 where "MOUSE_IRQ = 12"
definition ENABLE_AUX_MOUSE_DEVICE :: u8 where "ENABLE_AUX_MOUSE_DEVICE = 0xA8"
definition GET_COMPAQ_STATUS :: u8 where "GET_COMPAQ_STATUS = 0x20"
definition SET_COMPAQ_STATUS :: u8 where "SET_COMPAQ_STATUS = 0x60"
definition DATA_PORT_SIGNAL :: u8 where "DATA_PORT_SIGNAL = 0xD4"
definition SET_MOUSE_DEFAULT_SETTINGS :: u8 where "SET_MOUSE_DEFAULT_SETTINGS = 0xF6"
definition ENABLE_MOUSE_STREAMING :: u8 where "ENABLE_MOUSE_STREAMING = 0xF4"
definition FAKE_MOUSE_RES_X :: int where "FAKE_MOUSE_RES_X = 320"
definition FAKE_MOUSE_RES_Y :: int where "FAKE_MOUSE_RES_Y = 200"
definition TIMEOUT :: nat where "TIMEOUT = 100000"

lemmas mouse_consts = MOUSE_DATA_PORT_def MOUSE_COMMAND_PORT_def MOUSE_IRQ_def
  ENABLE_AUX_MOUSE_DEVICE_def GET_COMPAQ_STATUS_def SET_COMPAQ_STATUS_def DATA_PORT_SIGNAL_def
  SET_MOUSE_DEFAULT_SETTINGS_def ENABLE_MOUSE_STREAMING_def FAKE_MOUSE_RES_X_def
  FAKE_MOUSE_RES_Y_def TIMEOUT_def

definition mouse_open :: "u8 list \<Rightarrow> 'a kernel_state_scheme \<Rightarrow> (i32 \<times> 'a kernel_state_scheme) option" where
  "mouse_open filename s =
     Some (0, s\<lparr>x_pos := word_of_int (NUM_COLS div 2), y_pos := word_of_int (NUM_ROWS div 2),
                fake_mouse_pos_x := word_of_int (FAKE_MOUSE_RES_X div 2),
                fake_mouse_pos_y := word_of_int (FAKE_MOUSE_RES_Y div 2)\<rparr>)"

definition mouse_read :: "nat \<Rightarrow> u32 \<Rightarrow> i32 \<Rightarrow> 'a kernel_state_scheme \<Rightarrow> (i32 \<times> 'a kernel_state_scheme) option" where
  "mouse_read fd ptr bytes s =
     Some (0, s\<lparr>mem := (mem s)(ptr := ucast (x_pos s), ptr + 2 := ucast (y_pos s),
        ptr + 4 := of_bool (left_btn (mouse_data s)), ptr + 5 := of_bool (middle_btn (mouse_data s)),
        ptr + 6 := of_bool (right_btn (mouse_data s)))\<rparr>)"

text \<open>\<open>temp_x = *(ptr)\<close> widens a signed \<open>char\<close>.\<close>

definition mouse_write :: "nat \<Rightarrow> u32 \<Rightarrow> i32 \<Rightarrow> 'a kernel_state_scheme \<Rightarrow> (i32 \<times> 'a kernel_state_scheme) option" where
  "mouse_write fd ptr nbytes s =
     (let temp_x = (scast (mem s ptr) :: u16); temp_y = (scast (mem s (ptr + 2)) :: u16) in
      if uint temp_x \<ge> NUM_COLS \<or> uint temp_y \<ge> NUM_ROWS then Some (-1, s)
      else Some (0, s\<lparr>x_pos := temp_x, y_pos := temp_y\<rparr>))"

definition mouse_close :: "nat \<Rightarrow> 'a kernel_state_scheme \<Rightarrow> (i32 \<times> 'a kernel_state_scheme) option" where
  "mouse_close fd s = Some (0, s)"

fun mouse_poll :: "nat \<Rightarrow> u8 \<Rightarrow> 'a hw_state_scheme \<Rightarrow> 'a hw_state_scheme" where
  "mouse_poll 0 flag s = s"
| "mouse_poll (Suc timeout) flag s =
     (let (v, s) = inb MOUSE_COMMAND_PORT s in
      if (if flag \<noteq> 0 then v AND 1 \<noteq> 0 else v AND 2 = 0) then s else mouse_poll timeout flag s)"

definition mouse_wait :: "u8 \<Rightarrow> 'a hw_state_scheme \<Rightarrow> 'a hw_state_scheme" where
  "mouse_wait flag s = mouse_poll TIMEOUT flag s"

definition mouse_write_data :: "u8 \<Rightarrow> 'a hw_state_scheme \<Rightarrow> 'a hw_state_scheme" where
  "mouse_write_data val s =
     outb val MOUSE_DATA_PORT (mouse_wait 1
       (outb DATA_PORT_SIGNAL MOUSE_COMMAND_PORT (mouse_wait 1 s)))"

definition mouse_read_data :: "'a hw_state_scheme \<Rightarrow> u8 \<times> 'a hw_state_scheme" where
  "mouse_read_data s = inb MOUSE_DATA_PORT (mouse_wait 0 s)"

definition mouse_init :: "'a pic_state_scheme \<Rightarrow> 'a pic_state_scheme" where
  "mouse_init s =
     (let s = outb ENABLE_AUX_MOUSE_DEVICE MOUSE_COMMAND_PORT (mouse_wait 1 s);
          s = outb GET_COMPAQ_STATUS MOUSE_COMMAND_PORT (mouse_wait 1 s);
          (status, s) = inb MOUSE_DATA_PORT (mouse_wait 0 s);
          status = (status OR 0x02) AND 0xDF;
          s = outb SET_COMPAQ_STATUS MOUSE_COMMAND_PORT (mouse_wait 1 s);
          s = mouse_wait 1 (outb status MOUSE_DATA_PORT (mouse_wait 1 s));
          s = snd (mouse_read_data (mouse_write_data SET_MOUSE_DEFAULT_SETTINGS s));
          s = snd (mouse_read_data (mouse_write_data ENABLE_MOUSE_STREAMING s))
      in enable_irq MOUSE_IRQ s)"

text \<open>
  The packet: the C expression leaves the order of its three \<open>inb\<close> calls open; the model has
  the order of the text, which is the order of the bytes of a packet.
\<close>

definition mouse_packet :: "u8 \<Rightarrow> u8 \<Rightarrow> u8 \<Rightarrow> mouse_t" where
  "mouse_packet b0 b1 b2 = \<lparr>left_btn = bit b0 0, right_btn = bit b0 1, middle_btn = bit b0 2,
     mouse_val = bit b0 3, x_sign_bit = bit b0 4, y_sign_bit = bit b0 5, x_overflow = bit b0 6,
     y_overflow = bit b0 7, x_movement = b1, y_movement = b2\<rparr>"

definition velocity :: "bool \<Rightarrow> u8 \<Rightarrow> int" where
  "velocity sign movement = (if \<not> sign then uint movement else - (0xFF - uint movement)) sdiv 2"

definition clamp :: "int \<Rightarrow> int \<Rightarrow> int" where
  "clamp v res = min (max v 0) (res - 1)"

definition mouse_handler :: "'a kernel_state_scheme \<Rightarrow> 'a kernel_state_scheme" where
  "mouse_handler s =
     (let (b0, s) = inb MOUSE_DATA_PORT s;
          (b1, s) = inb MOUSE_DATA_PORT s;
          (b2, s) = inb MOUSE_DATA_PORT s;
          temp_mouse = mouse_packet b0 b1 b2
      in if \<not> mouse_val temp_mouse \<or> y_overflow temp_mouse \<or> x_overflow temp_mouse
         then send_eoi MOUSE_IRQ s
         else
           let s = s\<lparr>mouse_data := temp_mouse\<rparr>;
               x_vel = velocity (x_sign_bit temp_mouse) (x_movement temp_mouse);
               y_vel = velocity (y_sign_bit temp_mouse) (y_movement temp_mouse);
               s = s\<lparr>fake_mouse_pos_x := word_of_int (clamp (uint (fake_mouse_pos_x s) + x_vel) FAKE_MOUSE_RES_X)\<rparr>;
               s = s\<lparr>fake_mouse_pos_y := word_of_int (clamp (uint (fake_mouse_pos_y s) - y_vel) FAKE_MOUSE_RES_Y)\<rparr>;
               s = s\<lparr>x_pos := word_of_int ((uint (fake_mouse_pos_x s) * NUM_COLS) div FAKE_MOUSE_RES_X)\<rparr>;
               s = s\<lparr>y_pos := word_of_int ((uint (fake_mouse_pos_y s) * NUM_ROWS) div FAKE_MOUSE_RES_Y)\<rparr>
           in send_eoi MOUSE_IRQ s)"


section \<open>Frequencies of the real-time clock\<close>

lemma and_pred_power:
  "0 < n \<Longrightarrow> n AND (n - 1) = 0 \<Longrightarrow> \<exists>p. n = 2 ^ p" for n :: nat
proof (induction n rule: less_induct)
  case (less n)
  show ?case
  proof (cases "even n")
    case True
    then obtain m where m: "n = 2 * m" by (rule evenE)
    with less.prems(1) have "0 < m" "m < n" by simp_all
    moreover have "m AND (m - 1) = 0"
    proof -
      have "n - 1 = 2 * (m - 1) + 1" using m \<open>0 < m\<close> by simp
      then have "(n AND (n - 1)) div 2 = m AND (m - 1)"
        using drop_bit_and [of 1 n "n - 1"] m by (simp add: drop_bit_eq_div)
      with less.prems(2) show ?thesis by simp
    qed
    ultimately obtain p where "m = 2 ^ p" using less.IH by blast
    with m have "n = 2 ^ Suc p" by simp
    then show ?thesis by blast
  next
    case False
    then obtain m where m: "n = 2 * m + 1" by (rule oddE)
    then have "(n AND (n - 1)) div 2 = m"
      using drop_bit_and [of 1 n "n - 1"] by (simp add: drop_bit_eq_div)
    with less.prems(2) m have "n = 2 ^ 0" by simp
    then show ?thesis by blast
  qed
qed

lemma less_32_cases: "(\<exists>p<32. P p) \<longleftrightarrow> (\<exists>p\<in>set [0..<32]. P (p::nat))"
  by auto

lemma accepted_frequencies:
  "freq \<noteq> 0 \<and> freq AND (freq - 1) = 0 \<and> sint freq \<le> RTC_MAX_FREQ
     \<longleftrightarrow> freq \<in> {1, 2, 4, 8, 16, 32, 64, 128, 256, 512, 0x80000000}" for freq :: i32
proof
  assume a: "freq \<noteq> 0 \<and> freq AND (freq - 1) = 0 \<and> sint freq \<le> RTC_MAX_FREQ"
  then have "unat freq AND unat (freq - 1) = 0" by (metis unsigned_0 unsigned_and_eq)
  then have "unat freq AND (unat freq - 1) = 0" using a by (simp add: unat_minus_one)
  moreover have "0 < unat freq" using a by (simp add: unat_gt_0)
  ultimately have "\<exists>p. unat freq = 2 ^ p" by (intro and_pred_power)
  then obtain p where p: "unat freq = 2 ^ p" ..
  then have "(2::nat) ^ p < 2 ^ 32" using unat_lt_32 [of freq] by simp
  then have "p < 32" using power_less_imp_less_exp [of "2::nat" p 32] by simp
  moreover have "freq = of_nat (2 ^ p)" unfolding p [symmetric] by simp
  ultimately have "\<exists>p<32. freq = of_nat (2 ^ p)" by blast
  then have "\<exists>p\<in>set [0..<32]. freq = of_nat (2 ^ p)" by (simp only: less_32_cases)
  with a show "freq \<in> {1, 2, 4, 8, 16, 32, 64, 128, 256, 512, 0x80000000}"
    by (auto simp: upt_rec [of _ "32"] RTC_MAX_FREQ_def)
qed (auto simp: RTC_MAX_FREQ_def)

text \<open>
  \<open>rtc_write\<close> accepts the powers of two from 1 to 512, and the least integer (which passes
  the signed comparison and the power-of-two test); the descriptor then holds the number of
  ticks of the 512 Hz clock in a period, and other descriptors and memory are unchanged. Every
  other frequency is refused with \<open>-1\<close> and no change.
\<close>

theorem rtc_write_frequencies:
  assumes "has_fds s" and "get_fd fd s = Some f" and "fd < 8" and "freq = load32 (mem s) buf"
  shows "if freq \<in> {1, 2, 4, 8, 16, 32, 64, 128, 256, 512, 0x80000000}
    then \<exists>t. rtc_write fd buf nbytes s = Some (0, t) \<and> mem t = mem s
      \<and> get_fd fd t = Some (f\<lparr>file_position := word_of_int (512 sdiv sint freq)\<rparr>)
      \<and> (\<forall>j. j \<noteq> fd \<longrightarrow> get_fd j t = get_fd j s)
    else rtc_write fd buf nbytes s = Some (-1, s)"
proof -
  let ?g = "\<lambda>f. f\<lparr>file_position := word_of_int (RTC_MAX_FREQ sdiv sint freq)\<rparr>"
  obtain t where "upd_fd fd ?g s = Some t" "mem t = mem s"
    "\<forall>j. get_fd j t = (if j = fd then Some (?g f) else get_fd j s)"
    using upd_fd_run [OF assms(1-3), of ?g] by blast
  then show ?thesis
    using accepted_frequencies [of freq] assms(4)
    by (simp add: rtc_write_def Let_def RTC_MAX_FREQ_def)
qed


lemma tiny_kernel_freq: "load32 (mem (tiny_kernel\<lparr>mem := store32 (mem tiny_kernel) 0x20000 v\<rparr>)) 0x20000 = v"
  by simp

theorem rtc_write_frequencies_witness:
  "\<exists>t. rtc_write 2 0x20000 4 (tiny_kernel\<lparr>mem := store32 (mem tiny_kernel) 0x20000 256\<rparr>) = Some (0, t)
     \<and> get_fd 2 t = Some ((fd_of FileDriver 1)\<lparr>file_position := 2\<rparr>)"
  using rtc_write_frequencies [of "tiny_kernel\<lparr>mem := store32 (mem tiny_kernel) 0x20000 256\<rparr>" 2
      "fd_of FileDriver 1" 256 "0x20000" 4]
  by auto

section \<open>Waiting for the clock\<close>

text \<open>What the clock answers to the registers it was asked for: the minutes and the seconds are
  two decimal digits.\<close>

definition clock_ok :: "(io_event list \<Rightarrow> u16 \<Rightarrow> u8) \<Rightarrow> bool" where
  "clock_ok dev \<longleftrightarrow> (\<forall>log. \<forall>r\<in>{RTC_MINUTES, RTC_SECONDS}.
     number_of_bcd (dev (log @ [Out r SELECT_PORT]) WRITE_PORT) < 100)"

lemma update_status_bar_time_frame:
  "update_status_bar_time h m sec s = Some t \<Longrightarrow> \<exists>m'. t = s\<lparr>mem := m'\<rparr>"
  by (auto simp: update_status_bar_time_def Let_def bind_eq_Some_conv)

lemma local_hours_small: "unat (local_hours h) < 100"
proof -
  have "0 \<le> (uint h + 20) mod 24" "(uint h + 20) mod 24 < 24" by simp_all
  then show ?thesis
    by (simp add: local_hours_def cmos_consts unat_eq_nat_uint uint_word_of_int nat_less_iff)
qed

lemma cmos_handler_runs:
  assumes "clock_ok (io_dev s)"
  shows "\<exists>m log. cmos_handler s = Some (s\<lparr>mem := m, io_log := log\<rparr>)"
proof -
  let ?l1 = "io_log s @ [Out RTC_HOURS SELECT_PORT, In WRITE_PORT]"
  let ?l2 = "?l1 @ [Out RTC_MINUTES SELECT_PORT, In WRITE_PORT]"
  let ?l3 = "?l2 @ [Out RTC_SECONDS SELECT_PORT, In WRITE_PORT]"
  let ?h = "local_hours (hours_of_bcd (io_dev s (io_log s @ [Out RTC_HOURS SELECT_PORT]) WRITE_PORT))"
  let ?m = "number_of_bcd (io_dev s (?l1 @ [Out RTC_MINUTES SELECT_PORT]) WRITE_PORT)"
  let ?s = "number_of_bcd (io_dev s (?l2 @ [Out RTC_SECONDS SELECT_PORT]) WRITE_PORT)"
  have "?m < 100" "?s < 100" using assms unfolding clock_ok_def by blast+
  then have small: "unat ?m < 100" "unat ?s < 100" by (simp_all add: word_less_nat_alt)
  obtain t where t: "update_status_bar_time ?h ?m ?s (s\<lparr>io_log := ?l3\<rparr>) = Some t"
    using clock_drawn [OF local_hours_small small] by blast
  then obtain m where "t = s\<lparr>io_log := ?l3\<rparr>\<lparr>mem := m\<rparr>"
    using update_status_bar_time_frame by blast
  then have "t = s\<lparr>mem := m, io_log := ?l3\<rparr>" by simp
  with t have "cmos_handler s = Some (s\<lparr>mem := m, io_log := ?l3\<rparr>)"
    by (simp add: cmos_handler_def inb_def outb_def)
  then show ?thesis by blast
qed

lemma rtc_handler_runs:
  assumes "clock_ok (io_dev s)"
  shows "\<exists>m log. rtc_handler s = Some (s\<lparr>mem := m, io_log := log, global_count := global_count s + 1\<rparr>)"
proof -
  let ?s = "s\<lparr>global_count := global_count s + 1, io_log := io_log s @ [Out SELECT_C SELECT_PORT, In WRITE_PORT]\<rparr>"
  obtain m log where c: "cmos_handler ?s = Some (?s\<lparr>mem := m, io_log := log\<rparr>)"
    using cmos_handler_runs [of ?s] assms by auto
  have eoi: "\<exists>l. send_eoi RTC_IRQ t = t\<lparr>io_log := l\<rparr>" for t :: "'a kernel_state_scheme"
    by (auto simp: send_eoi_def outb_def)
  have "\<exists>m log. rtc_handler s = Some (send_eoi RTC_IRQ (?s\<lparr>mem := m, io_log := log\<rparr>))"
  proof (cases "drop_bit 4 (io_dev s (io_log s @ [Out SELECT_C SELECT_PORT]) WRITE_PORT AND 0x10) \<noteq> 0")
    case True
    with c show ?thesis by (auto simp: rtc_handler_def inb_def outb_def)
  next
    case False
    then have "rtc_handler s = Some (send_eoi RTC_IRQ (?s\<lparr>mem := mem ?s, io_log := io_log ?s\<rparr>))"
      by (simp add: rtc_handler_def inb_def outb_def)
    then show ?thesis by blast
  qed
  then obtain m log where "rtc_handler s = Some (send_eoi RTC_IRQ (?s\<lparr>mem := m, io_log := log\<rparr>))"
    by blast
  moreover obtain l where "send_eoi RTC_IRQ (?s\<lparr>mem := m, io_log := log\<rparr>) = ?s\<lparr>mem := m, io_log := log\<rparr>\<lparr>io_log := l\<rparr>"
    using eoi by blast
  moreover have "?s\<lparr>mem := m, io_log := log\<rparr>\<lparr>io_log := l\<rparr> = s\<lparr>mem := m, io_log := l, global_count := global_count s + 1\<rparr>"
    by simp
  ultimately show ?thesis by metis
qed

lemma rtc_wait_runs:
  assumes "clock_ok (io_dev s)"
  shows "\<exists>m log. rtc_wait target s = Some (s\<lparr>mem := m, io_log := log,
    global_count := max target (global_count s)\<rparr>)"
  using assms
proof (induction "unat target - unat (global_count s)" arbitrary: s)
  case 0
  then have "\<not> global_count s < target" by (simp add: word_less_nat_alt)
  then show ?case
    by (subst rtc_wait.simps) (auto simp: max_def intro!: exI [of _ "mem s"] exI [of _ "io_log s"])
next
  case (Suc n)
  then have less: "global_count s < target" by (simp add: word_less_nat_alt)
  then have next_count: "unat (global_count s + 1) = unat (global_count s) + 1"
    using unat_lt_32 [of target] unat_add_small [of "global_count s" 1] by (simp add: word_less_nat_alt)
  obtain m log where step:
    "rtc_handler s = Some (s\<lparr>mem := m, io_log := log, global_count := global_count s + 1\<rparr>)"
    using rtc_handler_runs [OF Suc.prems] by blast
  let ?s = "s\<lparr>mem := m, io_log := log, global_count := global_count s + 1\<rparr>"
  have "n = unat target - unat (global_count ?s)" "clock_ok (io_dev ?s)"
    using Suc.hyps(2) Suc.prems next_count by simp_all
  from Suc.hyps(1) [OF this] obtain m' log' where
    "rtc_wait target ?s = Some (?s\<lparr>mem := m', io_log := log', global_count := max target (global_count ?s)\<rparr>)"
    by blast
  moreover have "max target (global_count ?s) = max target (global_count s)"
    using less next_count by (auto simp: max_def word_le_nat_alt word_less_nat_alt word_unat_eq_iff)
  ultimately show ?case
    using less step by (subst rtc_wait.simps) auto
qed

text \<open>
  C37. \<open>rtc_read\<close> returns 0 after exactly as many clock interrupts as the descriptor asks for,
  whatever interrupts also redraw the clock, as long as the tick counter does not wrap; when it
  would wrap, the target is already passed and \<open>rtc_read\<close> returns without waiting.
\<close>

theorem rtc_read_waits:
  assumes "clock_ok (io_dev s)" and "get_fd fd s = Some f"
  shows "\<exists>t. rtc_read fd buf nbytes s = Some (0, t) \<and> PCB t = PCB s
    \<and> unat (global_count t) =
        (if unat (global_count s) + unat (file_position f) < 2 ^ 32
         then unat (global_count s) + unat (file_position f) else unat (global_count s))"
proof -
  let ?target = "global_count s + file_position f"
  obtain m log where w: "rtc_wait ?target s =
      Some (s\<lparr>mem := m, io_log := log, global_count := max ?target (global_count s)\<rparr>)"
    using rtc_wait_runs [OF assms(1)] by blast
  have "unat (max ?target (global_count s)) =
      (if unat (global_count s) + unat (file_position f) < 2 ^ 32
       then unat (global_count s) + unat (file_position f) else unat (global_count s))"
    using unat_lt_32 [of "global_count s"] unat_lt_32 [of "file_position f"]
    by (auto simp: max_def word_le_nat_alt unat_plus_if_size word_size)
  with w assms(2) show ?thesis by (simp add: rtc_read_def Let_def)
qed

theorem rtc_read_waits_witness:
  "\<exists>t. rtc_read 2 0 4 (tiny_kernel\<lparr>PCB := [(tiny_pcb 1)\<lparr>file_array := replicate 8 ((fd_of RtcDriver 1)\<lparr>file_position := 64\<rparr>)\<rparr>]\<rparr>) = Some (0, t)
     \<and> unat (global_count t) = 64"
proof -
  let ?f = "(fd_of RtcDriver 1)\<lparr>file_position := 64\<rparr>"
  let ?s = "tiny_kernel\<lparr>PCB := [(tiny_pcb 1)\<lparr>file_array := replicate 8 ?f\<rparr>]\<rparr>"
  have "clock_ok (io_dev ?s)" by (simp add: clock_ok_def tiny_kernel_def number_of_bcd_def)
  moreover have "get_fd 2 ?s = Some ?f"
    by (simp add: get_fd_def current_PCB_def tiny_kernel_def)
  moreover have "global_count ?s = 0" by (simp add: tiny_kernel_def)
  ultimately show ?thesis using rtc_read_waits [of ?s 2 ?f 0 4] by auto
qed


section \<open>The clock shows local time\<close>

definition bcd :: "nat \<Rightarrow> u8" where
  "bcd n = of_nat (n div 10 * 16 + n mod 10)"

lemma less_100_cases: "(\<forall>n<100. P n) \<longleftrightarrow> (\<forall>n\<in>set [0..<100]. P (n::nat))"
  by auto

lemma number_of_bcd_bcd: "n < 100 \<Longrightarrow> number_of_bcd (bcd n) = of_nat n"
proof -
  have "\<forall>n<100. number_of_bcd (bcd n) = of_nat n"
    unfolding less_100_cases by code_simp
  then show "n < 100 \<Longrightarrow> number_of_bcd (bcd n) = of_nat n" by blast
qed

lemma hours_of_bcd_bcd: "n < 24 \<Longrightarrow> local_hours (hours_of_bcd (bcd n)) = of_nat ((n + 20) mod 24)"
proof -
  have "\<forall>n\<in>set [0..<24]. local_hours (hours_of_bcd (bcd n)) = of_nat ((n + 20) mod 24)"
    by code_simp
  then show "n < 24 \<Longrightarrow> local_hours (hours_of_bcd (bcd n)) = of_nat ((n + 20) mod 24)" by simp
qed

text \<open>
  When the clock chip answers a 24-hour UTC time in BCD, the handler redraws the clock of
  every video page with that time moved by twenty hours, and touches no other memory.
\<close>

theorem cmos_handler_shows_local_time:
  assumes "\<forall>log. dev (log @ [Out RTC_HOURS SELECT_PORT]) WRITE_PORT = bcd h"
    and "\<forall>log. dev (log @ [Out RTC_MINUTES SELECT_PORT]) WRITE_PORT = bcd m"
    and "\<forall>log. dev (log @ [Out RTC_SECONDS SELECT_PORT]) WRITE_PORT = bcd sec"
    and "io_dev s = dev" and "h < 24" and "m < 60" and "sec < 60"
  shows "\<exists>t. cmos_handler s = Some t
    \<and> (\<forall>p\<in>set clock_pages. \<forall>i<8. mem t (cell_addr p (1991 + int i))
          = clock_text (of_nat ((h + 20) mod 24)) (of_nat m) (of_nat sec) ! i)
    \<and> (\<forall>a. (\<forall>p\<in>set clock_pages. \<not> in_range a (cell_addr p 1991) 16) \<longrightarrow> mem t a = mem s a)"
proof -
  let ?l = "io_log s @ [Out RTC_HOURS SELECT_PORT, In WRITE_PORT,
     Out RTC_MINUTES SELECT_PORT, In WRITE_PORT, Out RTC_SECONDS SELECT_PORT, In WRITE_PORT]"
  have dev: "dev (log @ [Out RTC_HOURS SELECT_PORT]) WRITE_PORT = bcd h"
    "dev (log @ [a, b, Out RTC_MINUTES SELECT_PORT]) WRITE_PORT = bcd m"
    "dev (log @ [a, b, c, d, Out RTC_SECONDS SELECT_PORT]) WRITE_PORT = bcd sec" for log a b c d
    using assms(1) spec [OF assms(2), of "log @ [a, b]"] spec [OF assms(3), of "log @ [a, b, c, d]"]
    by simp_all
  have "cmos_handler s = update_status_bar_time (of_nat ((h + 20) mod 24)) (of_nat m) (of_nat sec)
      (s\<lparr>io_log := ?l\<rparr>)"
    using assms(4-7) by (simp add: cmos_handler_def inb_def outb_def dev hours_of_bcd_bcd number_of_bcd_bcd)
  moreover have "unat (of_nat ((h + 20) mod 24) :: u8) < 100" "unat (of_nat m :: u8) < 100"
    "unat (of_nat sec :: u8) < 100"
    using assms(6,7) by (simp_all add: unat_of_nat)
  note clock_drawn [OF this, of "s\<lparr>io_log := ?l\<rparr>"]
  ultimately show ?thesis by simp
qed

definition noon_device :: "io_event list \<Rightarrow> u16 \<Rightarrow> u8" where
  "noon_device log port = (if last log = Out RTC_HOURS SELECT_PORT then bcd 12
     else if last log = Out RTC_MINUTES SELECT_PORT then bcd 34 else bcd 56)"

theorem cmos_handler_shows_local_time_witness:
  "\<exists>t. cmos_handler (tiny_kernel\<lparr>io_dev := noon_device\<rparr>) = Some t
    \<and> mem t (cell_addr 0xB8000 1992) = 56"
proof -
  let ?s = "tiny_kernel\<lparr>io_dev := noon_device\<rparr>"
  obtain t where t: "cmos_handler ?s = Some t"
    "\<forall>p\<in>set clock_pages. \<forall>i<8. mem t (cell_addr p (1991 + int i)) = clock_text 8 34 56 ! i"
    using cmos_handler_shows_local_time [of noon_device 12 34 56 ?s]
    by (auto simp: noon_device_def RTC_HOURS_def RTC_MINUTES_def RTC_SECONDS_def)
  from spec [OF bspec [OF t(2), of "0xB8000"], of 1]
  have "mem t (cell_addr 0xB8000 1992) = clock_text 8 34 56 ! 1"
    by (simp add: clock_pages_def)
  with t(1) show ?thesis
    by (simp add: clock_text_def two_digits_def digit_char_def itoa_lookup_eval)
qed

section \<open>The interval timer is never programmed\<close>

text \<open>
  \<open>pit_init\<close> writes no byte to the counter port: the two halves of the divisor go out as
  port numbers (155 and 46), with the port number of the counter as the data.
\<close>

theorem pit_init_misses_counter:
  "\<exists>xs. io_log (pit_init s) = io_log s @ xs \<and> (\<forall>d. Out d PIT_CHZ_PORT \<notin> set xs)
     \<and> Out 0x40 155 \<in> set xs \<and> Out 0x40 46 \<in> set xs"
proof -
  have irq: "\<exists>d. io_log (enable_irq 0 t) = io_log t @ [Out d MASTER_8259_PORT_DATA]" for t :: "'a pic_state_scheme"
    by (simp add: enable_irq_def outb_def NUM_IRQS_def Let_def)
  let ?t = "NMI_disable s"
  obtain v where v: "io_log ?t = io_log s @ [In SELECT_PORT, Out v SELECT_PORT]"
    by (simp add: NMI_disable_def inb_def outb_def)
  obtain d where d: "io_log (enable_irq 0 ?t) = io_log ?t @ [Out d MASTER_8259_PORT_DATA]"
    using irq by blast
  have "\<exists>w. io_log (pit_init s) = io_log s @ [In SELECT_PORT, Out v SELECT_PORT,
      Out d MASTER_8259_PORT_DATA, Out SQ_WAVE_CHZ_CMD PIT_MODECMD_PORT, Out 0x40 155, Out 0x40 46,
      In SELECT_PORT, Out w SELECT_PORT]"
    by (simp add: pit_init_def Let_def NMI_enable_def inb_def outb_def pit_consts d v)
  then obtain w where w: "io_log (pit_init s) = io_log s @ [In SELECT_PORT, Out v SELECT_PORT,
      Out d MASTER_8259_PORT_DATA, Out SQ_WAVE_CHZ_CMD PIT_MODECMD_PORT, Out 0x40 155, Out 0x40 46,
      In SELECT_PORT, Out w SELECT_PORT]" by blast
  show ?thesis
    by (rule exI, rule conjI, rule w)
      (simp add: pit_consts SELECT_PORT_def MASTER_8259_PORT_DATA_def)
qed

section \<open>The mouse stays on its screen\<close>

definition mouse_on_screen :: "'a kernel_state_scheme \<Rightarrow> bool" where
  "mouse_on_screen s \<longleftrightarrow> unat (fake_mouse_pos_x s) < 320 \<and> unat (fake_mouse_pos_y s) < 200
     \<and> unat (x_pos s) < 80 \<and> unat (y_pos s) < 25"

lemma unat_of_int_small: "0 \<le> v \<Longrightarrow> v < int n \<Longrightarrow> n \<le> 65536 \<Longrightarrow> unat (word_of_int v :: u16) < n"
  by (simp add: unat_eq_nat_uint uint_word_of_int nat_less_iff)

lemma unat_less_uint: "unat w < n \<longleftrightarrow> uint w < int n"
  by (metis of_nat_less_iff uint_nat)

lemma scaled_int:
  "0 \<le> v \<Longrightarrow> v < 320 \<Longrightarrow> 0 \<le> v * 80 div 320 \<and> v * 80 div 320 < 80"
  "0 \<le> v \<Longrightarrow> v < 200 \<Longrightarrow> 0 \<le> v * 25 div 200 \<and> v * 25 div 200 < (25::int)"
  using zdiv_mono1 [of "v * 80" "319 * 80" 320] zdiv_mono1 [of "v * 25" "199 * 25" 200] by simp_all

lemma scaled_word:
  "unat (f :: u16) < 320 \<Longrightarrow> unat (word_of_int ((uint f * NUM_COLS) div FAKE_MOUSE_RES_X) :: u16) < 80"
  "unat (f :: u16) < 200 \<Longrightarrow> unat (word_of_int ((uint f * NUM_ROWS) div FAKE_MOUSE_RES_Y) :: u16) < 25"
proof -
  assume "unat f < 320"
  then have "0 \<le> uint f" "uint f < 320" by (simp_all add: unat_less_uint)
  from scaled_int(1) [OF this]
  show "unat (word_of_int ((uint f * NUM_COLS) div FAKE_MOUSE_RES_X) :: u16) < 80"
    unfolding NUM_COLS_def FAKE_MOUSE_RES_X_def by (intro unat_of_int_small) simp_all
next
  assume "unat f < 200"
  then have "0 \<le> uint f" "uint f < 200" by (simp_all add: unat_less_uint)
  from scaled_int(2) [OF this]
  show "unat (word_of_int ((uint f * NUM_ROWS) div FAKE_MOUSE_RES_Y) :: u16) < 25"
    unfolding NUM_ROWS_def FAKE_MOUSE_RES_Y_def by (intro unat_of_int_small) simp_all
qed

lemma send_eoi_log: "\<exists>l. send_eoi irq t = t\<lparr>io_log := l\<rparr>"
  by (auto simp: send_eoi_def outb_def Let_def)

lemma clamp_word: "0 < n \<Longrightarrow> n \<le> 65536 \<Longrightarrow> unat (word_of_int (clamp v (int n)) :: u16) < n"
  by (rule unat_of_int_small) (auto simp: clamp_def)

lemma mouse_handler_on_screen:
  assumes "mouse_on_screen s"
  shows "mouse_on_screen (mouse_handler s)"
proof -
  let ?x = "\<lambda>v. word_of_int (clamp v FAKE_MOUSE_RES_X) :: u16"
  let ?y = "\<lambda>v. word_of_int (clamp v FAKE_MOUSE_RES_Y) :: u16"
  have x: "unat (?x v) < 320" for v
    using clamp_word [of 320 v] by (simp add: mouse_consts)
  have y: "unat (?y v) < 200" for v
    using clamp_word [of 200 v] by (simp add: mouse_consts)
  have frame: "mouse_on_screen (send_eoi irq t) = mouse_on_screen t" for irq and t :: "'a kernel_state_scheme"
    using send_eoi_log [of irq t] by (auto simp: mouse_on_screen_def)
  have "\<exists>l d v w. mouse_handler s = send_eoi MOUSE_IRQ (s\<lparr>io_log := l\<rparr>)
    \<or> mouse_handler s = send_eoi MOUSE_IRQ (s\<lparr>io_log := l, mouse_data := d, fake_mouse_pos_x := ?x v,
        fake_mouse_pos_y := ?y w, x_pos := word_of_int ((uint (?x v) * NUM_COLS) div FAKE_MOUSE_RES_X),
        y_pos := word_of_int ((uint (?y w) * NUM_ROWS) div FAKE_MOUSE_RES_Y)\<rparr>)"
    unfolding mouse_handler_def inb_def by (simp add: Let_def) blast
  then show ?thesis
    by (elim exE disjE; simp only: frame)
      (use assms x y in \<open>simp_all add: mouse_on_screen_def scaled_word\<close>)
qed

text \<open>
  C38. Whatever the mouse sends, the position stays inside the 320 by 200 pixel area and the
  text cell inside the 80 by 25 screen; opening the mouse establishes this and writing a
  position keeps it (positions off the screen are refused).
\<close>

theorem mouse_stays_on_screen:
  assumes "mouse_on_screen s"
  shows "mouse_on_screen (mouse_handler s)
    \<and> (\<forall>name. \<exists>t. mouse_open name s = Some (0, t) \<and> mouse_on_screen t)
    \<and> (\<forall>fd ptr nbytes. \<exists>r t. mouse_write fd ptr nbytes s = Some (r, t) \<and> mouse_on_screen t)"
proof (intro conjI allI)
  show "mouse_on_screen (mouse_handler s)" using assms by (rule mouse_handler_on_screen)
  show "\<exists>t. mouse_open name s = Some (0, t) \<and> mouse_on_screen t" for name
    by (simp add: mouse_open_def mouse_on_screen_def screen_consts mouse_consts)
  show "\<exists>r t. mouse_write fd ptr nbytes s = Some (r, t) \<and> mouse_on_screen t" for fd ptr nbytes
    using assms by (simp add: mouse_write_def Let_def mouse_on_screen_def screen_consts
        unat_less_uint not_le)
qed

theorem mouse_stays_on_screen_witness:
  "mouse_on_screen (mouse_handler (tiny_kernel\<lparr>io_dev := (\<lambda>_ _. 0x28)\<rparr>))
     \<and> fake_mouse_pos_x (mouse_handler (tiny_kernel\<lparr>io_dev := (\<lambda>_ _. 0x28)\<rparr>)) = 180"
proof
  have "mouse_on_screen (tiny_kernel\<lparr>io_dev := (\<lambda>_ _. 0x28)\<rparr>)"
    by (simp add: mouse_on_screen_def tiny_kernel_def)
  then show "mouse_on_screen (mouse_handler (tiny_kernel\<lparr>io_dev := (\<lambda>_ _. 0x28)\<rparr>))"
    using mouse_stays_on_screen by blast
  show "fake_mouse_pos_x (mouse_handler (tiny_kernel\<lparr>io_dev := (\<lambda>_ _. 0x28)\<rparr>)) = 180"
    by (simp add: mouse_handler_def inb_def Let_def mouse_packet_def send_eoi_def outb_def
        tiny_kernel_def velocity_def clamp_def mouse_consts bit_simps)
qed

end
