(* ===== verification/Terminal.thy ===== *)
theory Terminal
  imports Devices
begin

text \<open>
  The output side of the three terminals: the \<open>_multi\<close> routines and the status bar of
  \<open>src/lib.c\<close>, the cursor and the scrolling of \<open>src/devices/keyboard.c\<close>, the writing half of
  \<open>src/devices/terminal.c\<close>, and \<open>src/paging/multi_terminals.c\<close>.

  \<open>putc_multi\<close> is a second instance of the contract \<open>char_screen\<close> of \<open>Console\<close>, with the cursor
  in the terminal and the page as a parameter. The main result is that \<open>terminal_write\<close>, for
  every text and from every well-formed terminal, stays inside the arrays of the terminal and
  the text rows of its page.
\<close>

section \<open>Addresses\<close>

definition VISUAL_VIRTUAL_ADDR :: u32 where "VISUAL_VIRTUAL_ADDR = 0xB8000"

definition virtual_terminal_addresses :: "u32 list" where
  "virtual_terminal_addresses = [0xB9000, 0xBA000, 0xBB000]"

definition physical_terminal_addresses :: "u32 list" where
  "physical_terminal_addresses = [0xB9000, 0xBA000, 0xBB000]"

definition TEXT_ROWS :: int where "TEXT_ROWS = NUM_ROWS - STATUS_BAR_HEIGHT"

text \<open>The displayed terminal, and changing it in place.\<close>

definition cur_term :: "'a kernel_state_scheme \<Rightarrow> terminal_t option" where
  "cur_term s = peek_int (three_terminals s) (current_term s)"

definition set_cur :: "terminal_t \<Rightarrow> 'a kernel_state_scheme \<Rightarrow> 'a kernel_state_scheme option" where
  "set_cur t s = map_option (\<lambda>ts. s\<lparr>three_terminals := ts\<rparr>) (poke_int (three_terminals s) (current_term s) t)"

text \<open>
  The choice at the head of \<open>terminal_read\<close>, \<open>write_parser\<close> and \<open>terminal_scroll\<close>: the screen
  when the terminal of the running process is displayed, its backing page otherwise.
\<close>

definition active_screen :: "'a kernel_state_scheme \<Rightarrow> (u32 \<times> nat) option" where
  "active_screen s = do {
     p \<leftarrow> peek (all_process s) (unat (current_process_pid s));
     if current_term s = uint (active_terminal_idx p)
     then Some (VISUAL_VIRTUAL_ADDR, nat (current_term s))
     else do {
       let terminal_idx = unat (active_terminal_idx p);
       addr \<leftarrow> peek virtual_terminal_addresses terminal_idx;
       Some (addr, terminal_idx)
     }
   }"

section \<open>Characters on a page\<close>

definition clear_multi :: "u32 \<Rightarrow> nat \<Rightarrow> 'a kernel_state_scheme \<Rightarrow> 'a kernel_state_scheme option" where
  "clear_multi ptr_vid terminal_idx s = do {
     t \<leftarrow> get_term terminal_idx s;
     set_term terminal_idx (t\<lparr>term_screen_x := 0, term_screen_y := 0\<rparr>)
       (s\<lparr>mem := clear_cells ptr_vid (mem s)\<rparr>)
   }"

text \<open>\<open>putc_multi\<close> on the terminal and the memory it uses.\<close>

definition putc_term :: "u8 \<Rightarrow> u32 \<Rightarrow> terminal_t \<times> mem \<Rightarrow> terminal_t \<times> mem" where
  "putc_term c ptr_vid tm =
     (let (t, m) = tm;
          (t, m) = (if c = 10 \<or> c = 13
             then (t\<lparr>term_screen_y := term_screen_y t + 1, term_screen_x := 0\<rparr>, m)
             else (t\<lparr>term_screen_x := term_screen_x t + 1\<rparr>,
                   put_cell ptr_vid (NUM_COLS * term_screen_y t + term_screen_x t) c ATTRIB m))
      in (t\<lparr>term_screen_y := (term_screen_y t + (term_screen_x t sdiv NUM_COLS)) smod (NUM_ROWS - STATUS_BAR_HEIGHT),
            term_screen_x := term_screen_x t smod NUM_COLS\<rparr>, m))"

definition putc_multi :: "u8 \<Rightarrow> u32 \<Rightarrow> nat \<Rightarrow> 'a kernel_state_scheme \<Rightarrow> 'a kernel_state_scheme option" where
  "putc_multi c ptr_vid terminal_idx s = do {
     t \<leftarrow> get_term terminal_idx s;
     let (t, m) = putc_term c ptr_vid (t, mem s);
     set_term terminal_idx t (s\<lparr>mem := m\<rparr>)
   }"

definition setc_multi :: "int \<Rightarrow> int \<Rightarrow> u8 \<Rightarrow> u32 \<Rightarrow> mem \<Rightarrow> mem" where
  "setc_multi x y c ptr_vid m = put_cell ptr_vid (NUM_COLS * y + x) c ATTRIB m"

definition getc_multi :: "int \<Rightarrow> int \<Rightarrow> u32 \<Rightarrow> mem \<Rightarrow> u8" where
  "getc_multi x y ptr_vid m = m (cell_addr ptr_vid (NUM_COLS * y + x))"

section \<open>The status bar\<close>

definition status_bar_colors :: "u8 list" where "status_bar_colors = [4, 2, 1]"

text \<open>
  The text for a process: its command name and, after a blank, its arguments, in a buffer of 128
  bytes. The lengths are below 122, so the 8-bit variables that hold them do not wrap; only
  \<open>starting_text_pt\<close> can.
\<close>

fun copy_into :: "u8 list \<Rightarrow> nat \<Rightarrow> u8 list \<Rightarrow> u8 list option" where
  "copy_into p i [] = Some p"
| "copy_into p i (c # cs) = do { p \<leftarrow> poke p i c; copy_into p (Suc i) cs }"

definition process_label :: "PCB_BLOCK \<Rightarrow> (u8 list \<times> nat) option" where
  "process_label p = do {
     cmd_len \<leftarrow> strlen (cmd_name p);
     arg_len \<leftarrow> strlen (args p);
     p_name \<leftarrow> copy_into (replicate 128 0) 0 (take cmd_len (cmd_name p));
     (p_name, total_idx) \<leftarrow>
       (if arg_len > 0
        then map_option (\<lambda>q. (q, cmd_len + 1 + arg_len)) (copy_into p_name cmd_len (32 # take arg_len (args p)))
        else Some (p_name, cmd_len));
     p_name \<leftarrow> poke p_name total_idx 0;
     Some (p_name, cmd_len + arg_len)
   }"

definition draw_status_cell :: "u8 list \<Rightarrow> nat \<Rightarrow> u8 \<Rightarrow> u8 \<Rightarrow> int \<Rightarrow> mem \<Rightarrow> mem option" where
  "draw_status_cell p_name text_len starting_text_pt color col m =
     (let idx = NUM_COLS * (NUM_ROWS - 1) + col in
      if col \<ge> uint starting_text_pt \<and> col < uint starting_text_pt + (int text_len + 2)
      then do {
        c \<leftarrow> peek_int p_name (col - uint starting_text_pt);
        Some (put_cell VIDEO idx c (push_bit 4 color OR 0x0F) m)
      }
      else Some (put_cell VIDEO idx 32 (push_bit 4 color) m))"

definition draw_status_part :: "nat \<Rightarrow> 'a kernel_state_scheme \<Rightarrow> 'a kernel_state_scheme option" where
  "draw_status_part i s = do {
     let dist_per_column = (NUM_COLS - TIME_BAR_WIDTH) div int MAX_MULTIPROCESS_NUM;
     pid \<leftarrow> peek (multi_process_idx s) i;
     p \<leftarrow> peek (PCB s) (unat pid);
     (p_name, text_len) \<leftarrow> process_label p;
     let starting_text_pt = word_of_int (int i * dist_per_column + dist_per_column div 2
           - (int text_len + 2) div 2 + 1);
     let color = (if current_term s = int i then status_bar_colors ! i + 8 else status_bar_colors ! i);
     m \<leftarrow> loop_over [int i * dist_per_column .. (int i + 1) * dist_per_column - 1]
       (draw_status_cell p_name text_len starting_text_pt color) (mem s);
     Some (s\<lparr>mem := m\<rparr>)
   }"

definition draw_status_bar :: "'a kernel_state_scheme \<Rightarrow> 'a kernel_state_scheme option" where
  "draw_status_bar s = loop_over [0..<MAX_MULTIPROCESS_NUM] draw_status_part s"

section \<open>The cursor\<close>

text \<open>The argument of \<open>move_cursor\<close> is ignored: the displayed terminal has the position.\<close>

definition cursor_bytes :: "int \<Rightarrow> u32" where
  "cursor_bytes loc =
     (let cursor_row = loc div NUM_COLS; cursor_col = loc mod NUM_COLS;
          cursor_row = (if cursor_row \<ge> NUM_ROWS - STATUS_BAR_HEIGHT
                        then NUM_ROWS - 1 - STATUS_BAR_HEIGHT else cursor_row)
      in word_of_int (cursor_row * NUM_COLS + cursor_col))"

definition move_cursor :: "int \<Rightarrow> 'a kernel_state_scheme \<Rightarrow> 'a kernel_state_scheme option" where
  "move_cursor loc s = do {
     t \<leftarrow> cur_term s;
     let t = (if cursor_loc t \<le> 0 then t\<lparr>cursor_loc := 0\<rparr> else t);
     s \<leftarrow> set_cur t s;
     let pos = cursor_bytes (cursor_loc t);
     Some (outb (ucast (drop_bit 8 pos AND 0xFF)) 0x3D5 (outb 0x0E 0x3D4
       (outb (ucast (pos AND 0xFF)) 0x3D5 (outb 0x0F 0x3D4 s))))
   }"

text \<open>The third write of \<open>enable_cursor\<close> has data and port the wrong way round, as in the code.\<close>

definition enable_cursor :: "'a kernel_state_scheme \<Rightarrow> 'a kernel_state_scheme option" where
  "enable_cursor s =
     (let s = outb 0x0A 0x3D4 s;
          (v, s) = inb 0x3D5 s;
          s = outb ((v AND 0xC0) OR 0) 0x3D5 s;
          s = outb (ucast (0x3D4 :: u16)) 0x0B s;
          (w, s) = inb 0x3D5 s;
          s = outb ((w AND 0xE0) OR 15) 0x3D5 s
      in do {
        t \<leftarrow> cur_term s;
        s \<leftarrow> set_cur (t\<lparr>cursor_loc := 0\<rparr>) s;
        move_cursor 0 s
      })"

section \<open>Scrolling\<close>

definition command_buffer_scroll :: "nat \<Rightarrow> 'a kernel_state_scheme \<Rightarrow> 'a kernel_state_scheme option" where
  "command_buffer_scroll terminal_idx s = do {
     t \<leftarrow> get_term terminal_idx s;
     let rows = fold (\<lambda>row cb. cb[row := cb ! (row + 1)]) [0..<MAX_COMMAND_STORE - 1] (command_buffer t);
     let rows = rows[MAX_COMMAND_STORE - 1 := replicate CHAR_BUFFER_SIZE 0];
     set_term terminal_idx (t\<lparr>command_buffer := rows, write_command_row := int MAX_COMMAND_STORE - 1\<rparr>) s
   }"

text \<open>The rows of a page as the history buffer keeps them.\<close>

definition page_rows :: "u32 \<Rightarrow> mem \<Rightarrow> u8 list list" where
  "page_rows base m =
     map (\<lambda>row. map (\<lambda>idx. m (cell_addr base (NUM_COLS * int row + int idx))) [0..<nat NUM_COLS])
       [0..<nat (NUM_ROWS - STATUS_BAR_HEIGHT)]"

definition scroll_page :: "u32 \<Rightarrow> mem \<Rightarrow> mem" where
  "scroll_page base m =
     (let m = memcpy base (base + word_of_int (NUM_COLS * 2))
                (word_of_int ((NUM_COLS * 2) * (NUM_ROWS - STATUS_BAR_HEIGHT - 1))) m
      in fold (\<lambda>idx m. m(cell_addr base (NUM_COLS * (NUM_ROWS - STATUS_BAR_HEIGHT - 1) + int idx) := 0))
           [0..<nat NUM_COLS] m)"

definition terminal_scroll :: "'a kernel_state_scheme \<Rightarrow> 'a kernel_state_scheme option" where
  "terminal_scroll s = do {
     (addr, terminal_idx) \<leftarrow> active_screen s;
     t \<leftarrow> get_term terminal_idx s;
     let m = scroll_page addr (mem s);
     set_term terminal_idx (t\<lparr>history_buffer := page_rows addr m, row_index := row_index t - 1,
         term_screen_x := 0, term_screen_y := NUM_ROWS - STATUS_BAR_HEIGHT - 1,
         cursor_loc := NUM_COLS * (row_index t - 1)\<rparr>)
       (s\<lparr>mem := m\<rparr>)
   }"

section \<open>Opening and closing\<close>

definition blank_history :: "u8 list list \<Rightarrow> u8 list list" where
  "blank_history h = fold (\<lambda>row h. h[row := replicate (nat NUM_COLS) 0])
     [0..<nat (NUM_ROWS - STATUS_BAR_HEIGHT)] h"

text \<open>\<open>for (idx = 0; idx < n; idx++) buf[idx] = '\0';\<close>\<close>

definition zero_first :: "nat \<Rightarrow> u8 list \<Rightarrow> u8 list" where
  "zero_first n buf = fold (\<lambda>i b. b[i := 0]) [0..<n] buf"

definition terminal_init :: "'a kernel_state_scheme \<Rightarrow> 'a kernel_state_scheme option" where
  "terminal_init s = do {
     t \<leftarrow> cur_term s;
     s \<leftarrow> set_cur (t\<lparr>history_buffer := blank_history (history_buffer t),
         live_buffer := zero_first SCREEN_SIZE (live_buffer t),
         live_buffer_store := zero_first SCREEN_SIZE (live_buffer_store t),
         bytes_read := 0, bytes_read_store := 0, cursor_loc := 0, term_screen_x := 0,
         term_screen_y := 0, row_index := 0, bytes_written := 0, read_in_progress := 0\<rparr>) s;
     addr \<leftarrow> peek_int virtual_terminal_addresses (current_term s);
     clear_multi addr (nat (current_term s)) s
   }"

definition terminal_open :: "u8 list \<Rightarrow> 'a kernel_state_scheme \<Rightarrow> (i32 \<times> 'a kernel_state_scheme) option" where
  "terminal_open file s = do { s \<leftarrow> terminal_init s; Some (0, s) }"

definition terminal_close :: "nat \<Rightarrow> 'a kernel_state_scheme \<Rightarrow> (i32 \<times> 'a kernel_state_scheme) option" where
  "terminal_close fd s = do {
     t \<leftarrow> cur_term s;
     s \<leftarrow> set_cur (t\<lparr>history_buffer := blank_history (history_buffer t)\<rparr>) s;
     addr \<leftarrow> peek_int virtual_terminal_addresses (current_term s);
     s \<leftarrow> clear_multi addr (nat (current_term s)) s;
     t \<leftarrow> cur_term s;
     s \<leftarrow> set_cur (t\<lparr>row_index := 0, bytes_written := 0, bytes_read := 0, bytes_read_store := 0,
         live_buffer := zero_first CHAR_BUFFER_SIZE (live_buffer t),
         live_buffer_store := zero_first CHAR_BUFFER_SIZE (live_buffer_store t)\<rparr>) s;
     Some (0, s)
   }"

definition three_term_init :: "'a kernel_state_scheme \<Rightarrow> 'a kernel_state_scheme option" where
  "three_term_init s = do {
     s \<leftarrow> loop_over [0..<3] (\<lambda>term s. terminal_init (s\<lparr>current_term := int term\<rparr>)) s;
     Some (s\<lparr>current_term := 0\<rparr>)
   }"

section \<open>Writing\<close>

definition poke2 :: "u8 list list \<Rightarrow> int \<Rightarrow> int \<Rightarrow> u8 \<Rightarrow> u8 list list option" where
  "poke2 rows i j c = do { r \<leftarrow> peek_int rows i; r \<leftarrow> poke_int r j c; poke_int rows i r }"

definition write_parser :: "u8 \<Rightarrow> 'a kernel_state_scheme \<Rightarrow> 'a kernel_state_scheme option" where
  "write_parser c s = do {
     (addr, terminal_idx) \<leftarrow> active_screen s;
     t \<leftarrow> get_term terminal_idx s;
     let t = (if bytes_written t \<ge> NUM_COLS then t\<lparr>row_index := row_index t + 1, bytes_written := 0\<rparr> else t);
     s \<leftarrow> set_term terminal_idx t s;
     s \<leftarrow> (if row_index t \<ge> NUM_ROWS - STATUS_BAR_HEIGHT then terminal_scroll s else Some s);
     t \<leftarrow> get_term terminal_idx s;
     h \<leftarrow> poke2 (history_buffer t) (row_index t) (bytes_written t) c;
     s \<leftarrow> set_term terminal_idx (t\<lparr>history_buffer := h\<rparr>) s;
     putc_multi c addr terminal_idx s
   }"

definition record_char :: "u8 \<Rightarrow> terminal_t \<Rightarrow> terminal_t option" where
  "record_char c t = do {
     live \<leftarrow> (if bytes_written t smod NUM_COLS = 0
              then poke (zero_first CHAR_BUFFER_SIZE (live_buffer t)) 0 c
              else poke_int (live_buffer t) (bytes_written t) c);
     Some (if c = 10
           then t\<lparr>bytes_written := 0, cursor_loc := (cursor_loc t sdiv NUM_COLS + 1) * NUM_COLS,
                  row_index := row_index t + 1, live_buffer := zero_first CHAR_BUFFER_SIZE live\<rparr>
           else t\<lparr>live_buffer := live, bytes_written := bytes_written t + 1, cursor_loc := cursor_loc t + 1\<rparr>)
   }"

definition write_char :: "nat \<Rightarrow> u32 \<Rightarrow> nat \<Rightarrow> 'a kernel_state_scheme \<Rightarrow> 'a kernel_state_scheme option" where
  "write_char terminal_idx ptr idx s = do {
     let c = mem s (ptr + of_nat idx);
     s \<leftarrow> write_parser c s;
     t \<leftarrow> get_term terminal_idx s;
     t \<leftarrow> record_char c t;
     set_term terminal_idx t s
   }"

definition terminal_write :: "nat \<Rightarrow> u32 \<Rightarrow> i32 \<Rightarrow> 'a kernel_state_scheme \<Rightarrow> (i32 \<times> 'a kernel_state_scheme) option" where
  "terminal_write fd ptr n s = do {
     p \<leftarrow> peek (all_process s) (unat (current_process_pid s));
     let terminal_idx = unat (active_terminal_idx p);
     if ptr = 0 \<or> sint n < 0 then Some (-1, s)
     else do {
       s \<leftarrow> loop_over [0..<nat (sint n)] (write_char terminal_idx ptr) (cli s);
       t \<leftarrow> get_term terminal_idx s;
       store \<leftarrow> poke (live_buffer_store t) 0 0;
       let col = bytes_written t smod NUM_COLS;
       let t = t\<lparr>live_buffer_store := store, bytes_read_store := 0, bytes_read := col, bytes_written := col,
                live_buffer_location := col\<rparr>;
       s \<leftarrow> set_term terminal_idx t s;
       s \<leftarrow> (if current_term s = int terminal_idx then move_cursor (cursor_loc t) s else Some s);
       Some (n, sti s)
     }
   }"


section \<open>putc_multi implements the contract\<close>

definition term_pos :: "terminal_t \<times> mem \<Rightarrow> int \<times> int" where
  "term_pos tm = (term_screen_x (fst tm), term_screen_y (fst tm))"

interpretation termscr: char_screen term_pos "\<lambda>c. putc_term c base" snd base for base
proof unfold_locales
  fix c and s :: "terminal_t \<times> mem"
  assume "is_newline c" "on_screen (term_pos s)"
  then show "snd (putc_term c base s) = snd s
      \<and> term_pos (putc_term c base s) = (0, (snd (term_pos s) + 1) mod 24)"
    by (cases s) (auto simp: term_pos_def is_newline_def putc_term_def on_screen_def screen_consts)
next
  fix c and s :: "terminal_t \<times> mem"
  assume "\<not> is_newline c" "on_screen (term_pos s)"
  then show "snd (putc_term c base s) = put_cell base (cursor_index (term_pos s)) c ATTRIB (snd s)
      \<and> term_pos (putc_term c base s) = ((fst (term_pos s) + 1) mod 80,
          (snd (term_pos s) + (fst (term_pos s) + 1) div 80) mod 24)"
    by (cases s) (auto simp: term_pos_def is_newline_def putc_term_def on_screen_def screen_consts
        cursor_index_def)
qed

lemma putc_term_fields [simp]:
  "live_buffer (fst (putc_term c base tm)) = live_buffer (fst tm)"
  "live_buffer_store (fst (putc_term c base tm)) = live_buffer_store (fst tm)"
  "history_buffer (fst (putc_term c base tm)) = history_buffer (fst tm)"
  "bytes_written (fst (putc_term c base tm)) = bytes_written (fst tm)"
  "bytes_read (fst (putc_term c base tm)) = bytes_read (fst tm)"
  "bytes_read_store (fst (putc_term c base tm)) = bytes_read_store (fst tm)"
  "live_buffer_location (fst (putc_term c base tm)) = live_buffer_location (fst tm)"
  "row_index (fst (putc_term c base tm)) = row_index (fst tm)"
  "cursor_loc (fst (putc_term c base tm)) = cursor_loc (fst tm)"
  "read_in_progress (fst (putc_term c base tm)) = read_in_progress (fst tm)"
  "command_buffer (fst (putc_term c base tm)) = command_buffer (fst tm)"
  by (cases tm, simp add: putc_term_def Let_def)+

section \<open>Scrolling a page\<close>

lemma copy_ok_scroll: "copy_ok base (base + 160) 3680"
  by (simp add: copy_ok_def)

lemma fold_zero_cells:
  fixes m :: mem
  shows "int n \<le> 80 \<Longrightarrow> fold (\<lambda>idx m. m(cell_addr base (1840 + int idx) := 0)) [0..<n] m a
    = (if \<exists>idx<n. a = cell_addr base (1840 + int idx) then 0 else m a)"
  by (induction n) (auto simp: less_Suc_eq)

lemma scroll_page_eq:
  "scroll_page base m a = (if \<exists>idx<80. a = cell_addr base (1840 + int idx) then 0
     else copy_block m base (base + 160) 3680 a)"
  using copy_ok_scroll [of base] fold_zero_cells [of 80 base]
  by (simp add: scroll_page_def screen_consts memcpy_copy)

lemma scroll_page_frame:
  assumes "\<not> in_range a base 3840"
  shows "scroll_page base m a = m a"
proof -
  have "a \<noteq> cell_addr base (1840 + int idx)" if "idx < 80" for idx
    using cell_in_area(1) [of "1840 + int idx" 1920 base] assms that by auto
  moreover have "\<not> in_range a base 3680" using assms in_range_mono by fastforce
  ultimately show ?thesis by (auto simp: scroll_page_eq copy_block_def)
qed

text \<open>What scrolling shows: every row but the last is the row below it, the last is empty.\<close>

lemma scroll_page_cells:
  assumes "0 \<le> i" and "i < 1920"
  shows "scroll_page base m (cell_addr base i)
    = (if i < 1840 then m (cell_addr base (i + 80)) else 0)"
proof -
  obtain k where k: "i = int k" "k < 1920" using assms by (metis nonneg_int_cases of_nat_less_numeral_iff)
  have last: "(\<exists>idx<80. cell_addr base i = cell_addr base (1840 + int idx)) \<longleftrightarrow> 1840 \<le> i"
  proof
    assume "1840 \<le> i"
    then show "\<exists>idx<80. cell_addr base i = cell_addr base (1840 + int idx)"
      using assms by (intro exI [of _ "nat (i - 1840)"]) auto
  qed (use assms in \<open>auto simp: cell_addr_inj\<close>)
  have "in_range (cell_addr base i) base 3680" if "i < 1840"
    using cell_in_area(1) [of i 1840 base] assms that by simp
  then have "copy_block m base (base + 160) 3680 (cell_addr base i) = m (cell_addr base (i + 80))" if "i < 1840"
    using that by (simp add: copy_block_def cell_addr_def algebra_simps)
  with last show ?thesis by (auto simp: scroll_page_eq)
qed

section \<open>Well-formed terminals\<close>

text \<open>
  The arrays have their sizes, the cursor is on the text rows, and the line position can only be
  beyond the last row at the beginning of a line. \<open>mid_line\<close> is the state between the two
  halves of writing a character.
\<close>

definition term_arrays :: "terminal_t \<Rightarrow> bool" where
  "term_arrays t \<longleftrightarrow> length (live_buffer t) = 2000 \<and> length (live_buffer_store t) = 2000
     \<and> length (history_buffer t) = 24 \<and> (\<forall>r\<in>set (history_buffer t). length r = 80)
     \<and> on_screen (term_screen_x t, term_screen_y t)"

definition term_ok :: "terminal_t \<Rightarrow> bool" where
  "term_ok t \<longleftrightarrow> term_arrays t \<and> 0 \<le> bytes_written t \<and> bytes_written t \<le> 80
     \<and> 0 \<le> row_index t \<and> row_index t \<le> 24 \<and> (row_index t = 24 \<longrightarrow> bytes_written t = 0)"

definition mid_line :: "terminal_t \<Rightarrow> bool" where
  "mid_line t \<longleftrightarrow> term_arrays t \<and> 0 \<le> bytes_written t \<and> bytes_written t < 80
     \<and> 0 \<le> row_index t \<and> row_index t < 24"

lemma term_arrays_page_rows: "length (page_rows base m) = 24" "r \<in> set (page_rows base m) \<Longrightarrow> length r = 80"
  by (auto simp: page_rows_def screen_consts)

lemma poke2_run:
  assumes "0 \<le> i" "i < int (length rows)" "\<forall>r\<in>set rows. length r = n" "0 \<le> j" "j < int n"
  shows "\<exists>rows'. poke2 rows i j c = Some rows' \<and> length rows' = length rows \<and> (\<forall>r\<in>set rows'. length r = n)"
proof -
  have i: "nat i < length rows" using assms by auto
  then have "length (rows ! nat i) = n" using assms(3) nth_mem by blast
  then have "poke2 rows i j c = Some (rows[nat i := (rows ! nat i)[nat j := c]])"
    using assms i by (simp add: poke2_def peek_int_def poke_int_def nat_less_iff)
  moreover have "length r = n" if "r \<in> set (rows[nat i := (rows ! nat i)[nat j := c]])" for r
    using that assms(3) \<open>length (rows ! nat i) = n\<close> by (auto dest!: set_update_subset_insert [THEN subsetD])
  ultimately show ?thesis by auto
qed

lemma length_zero_first [simp]: "length (zero_first n xs) = length xs"
proof -
  have "length (fold (\<lambda>i b. b[i := 0]) js xs) = length xs" for js
    by (induction js arbitrary: xs) simp_all
  then show ?thesis by (simp add: zero_first_def)
qed

lemma record_char_ok:
  assumes "mid_line t"
  shows "\<exists>t'. record_char c t = Some t' \<and> term_ok t'"
proof -
  have b: "0 \<le> bytes_written t" "bytes_written t < 80" "length (live_buffer t) = 2000"
    using assms by (simp_all add: mid_line_def term_arrays_def)
  then have "\<exists>live. (if bytes_written t smod NUM_COLS = 0
              then poke (zero_first CHAR_BUFFER_SIZE (live_buffer t)) 0 c
              else poke_int (live_buffer t) (bytes_written t) c) = Some live \<and> length live = 2000"
    by (auto simp: poke_int_def screen_consts)
  then obtain live where "(if bytes_written t smod NUM_COLS = 0
              then poke (zero_first CHAR_BUFFER_SIZE (live_buffer t)) 0 c
              else poke_int (live_buffer t) (bytes_written t) c) = Some live" "length live = 2000"
    by blast
  with assms show ?thesis by (auto simp: record_char_def mid_line_def term_ok_def term_arrays_def)
qed


section \<open>Writing stays in bounds\<close>

lemma active_screen_frame [simp]:
  "active_screen (s\<lparr>mem := m\<rparr>) = active_screen s"
  "active_screen (s\<lparr>three_terminals := ts\<rparr>) = active_screen s"
  "active_screen (s\<lparr>int_flag := b\<rparr>) = active_screen s"
  "active_screen (s\<lparr>io_log := l\<rparr>) = active_screen s"
  by (simp_all add: active_screen_def cong: if_cong)

lemma term_access:
  "i < length (three_terminals s) \<Longrightarrow> get_term i s = Some (three_terminals s ! i)"
  "i < length (three_terminals s) \<Longrightarrow> set_term i t s = Some (s\<lparr>three_terminals := (three_terminals s)[i := t]\<rparr>)"
  by (simp_all add: get_term_def set_term_def)

text \<open>A state that differs from \<open>s\<close> in terminal \<open>i\<close> and the page at \<open>addr\<close> only.\<close>

definition with_term :: "'a kernel_state_scheme \<Rightarrow> nat \<Rightarrow> terminal_t \<times> mem \<Rightarrow> 'a kernel_state_scheme" where
  "with_term s i tm = s\<lparr>three_terminals := (three_terminals s)[i := fst tm], mem := snd tm\<rparr>"

lemma with_term_access:
  assumes "i < length (three_terminals s)"
  shows "get_term i (with_term s i (t, m)) = Some t"
    and "set_term i t' (with_term s i (t, m)) = Some (with_term s i (t', m))"
    and "mem (with_term s i (t, m)) = m"
    and "active_screen (with_term s i (t, m)) = active_screen s"
    and "(with_term s i (t, m))\<lparr>mem := m'\<rparr> = with_term s i (t, m')"
  using assms by (simp_all add: with_term_def get_term_def set_term_def)

lemma with_term_inj:
  assumes "i < length (three_terminals s)" and "with_term s i (t, m) = with_term s i (t', m')"
  shows "t = t' \<and> m = m'"
  using with_term_access(1,3) [OF assms(1)] assms(2) by (metis option.inject)

lemma with_term_self: "i < length (three_terminals s) \<Longrightarrow> with_term s i (three_terminals s ! i, mem s) = s"
  by (simp add: with_term_def)

text \<open>The same, one level down: writing on a terminal and a memory.\<close>

definition scroll_term :: "u32 \<Rightarrow> terminal_t \<times> mem \<Rightarrow> terminal_t \<times> mem" where
  "scroll_term addr tm =
     (let t = fst tm; m = scroll_page addr (snd tm)
      in (t\<lparr>history_buffer := page_rows addr m, row_index := row_index t - 1,
            term_screen_x := 0, term_screen_y := 23, cursor_loc := 80 * (row_index t - 1)\<rparr>, m))"

definition wrap_line :: "terminal_t \<Rightarrow> terminal_t" where
  "wrap_line t = (if bytes_written t \<ge> 80 then t\<lparr>row_index := row_index t + 1, bytes_written := 0\<rparr> else t)"

definition parse_term :: "u32 \<Rightarrow> u8 \<Rightarrow> terminal_t \<times> mem \<Rightarrow> (terminal_t \<times> mem) option" where
  "parse_term addr c tm = do {
     let t = wrap_line (fst tm);
     let (t, m) = (if row_index t \<ge> 24 then scroll_term addr (t, snd tm) else (t, snd tm));
     h \<leftarrow> poke2 (history_buffer t) (row_index t) (bytes_written t) c;
     Some (putc_term c addr (t\<lparr>history_buffer := h\<rparr>, m))
   }"

lemma terminal_scroll_with:
  assumes "active_screen s = Some (addr, i)" and "i < length (three_terminals s)"
  shows "terminal_scroll (with_term s i tm) = Some (with_term s i (scroll_term addr tm))"
  using assms with_term_access [OF assms(2)]
  by (cases tm) (simp add: terminal_scroll_def scroll_term_def screen_consts Let_def)

lemma write_parser_with:
  assumes "active_screen s = Some (addr, i)" and "i < length (three_terminals s)"
  shows "write_parser c (with_term s i tm) = map_option (with_term s i) (parse_term addr c tm)"
proof (cases tm)
  case (Pair t m)
  note a = with_term_access [OF assms(2)] terminal_scroll_with [OF assms]
  have putc: "putc_multi c addr i (with_term s i (t, m)) = Some (with_term s i (putc_term c addr (t, m)))" for t m
    by (cases "putc_term c addr (t, m)") (simp add: putc_multi_def a)
  define w where "w = wrap_line t"
  show ?thesis
  proof (cases "row_index w \<ge> 24")
    case True
    obtain t' m' where s: "scroll_term addr (w, m) = (t', m')" by fastforce
    show ?thesis
      using True by (cases "poke2 (history_buffer t') (row_index t') (bytes_written t') c")
        (simp_all add: write_parser_def parse_term_def Pair a assms(1) screen_consts putc s
          flip: w_def wrap_line_def)
  next
    case False
    show ?thesis
      using False by (cases "poke2 (history_buffer w) (row_index w) (bytes_written w) c")
        (simp_all add: write_parser_def parse_term_def Pair a assms(1) screen_consts putc
          flip: w_def wrap_line_def)
  qed
qed

lemma wrap_line_ok:
  assumes "term_ok t"
  shows "term_arrays (wrap_line t)" "0 \<le> bytes_written (wrap_line t)" "bytes_written (wrap_line t) < 80"
    "0 \<le> row_index (wrap_line t)" "row_index (wrap_line t) \<le> 24"
  using assms by (auto simp: wrap_line_def term_ok_def term_arrays_def)

lemma scroll_term_fields:
  "bytes_written (fst (scroll_term addr tm)) = bytes_written (fst tm)"
  "row_index (fst (scroll_term addr tm)) = row_index (fst tm) - 1"
  "term_arrays (fst tm) \<Longrightarrow> term_arrays (fst (scroll_term addr tm))"
  "snd (scroll_term addr tm) = scroll_page addr (snd tm)"
  using term_arrays_page_rows
  by (simp_all add: scroll_term_def Let_def term_arrays_def on_screen_def)

lemma parse_term_safe:
  assumes "term_ok t"
  shows "\<exists>t' m'. parse_term addr c (t, m) = Some (t', m') \<and> mid_line t'
    \<and> (\<forall>a. \<not> in_range a addr 3840 \<longrightarrow> m' a = m a)"
proof -
  define w where "w = wrap_line t"
  define v where "v = (if row_index w \<ge> 24 then scroll_term addr (w, m) else (w, m))"
  have mid: "mid_line (fst v)"
    using wrap_line_ok [OF assms] by (auto simp: v_def w_def mid_line_def scroll_term_fields)
  have frame: "\<not> in_range a addr 3840 \<Longrightarrow> snd v a = m a" for a
    by (simp add: v_def scroll_term_fields scroll_page_frame)
  from mid obtain h where h: "poke2 (history_buffer (fst v)) (row_index (fst v)) (bytes_written (fst v)) c = Some h"
    "length h = 24" "\<forall>r\<in>set h. length r = 80"
    using poke2_run [of "row_index (fst v)" "history_buffer (fst v)" 80 "bytes_written (fst v)" c]
    by (auto simp: mid_line_def term_arrays_def)
  let ?u = "((fst v)\<lparr>history_buffer := h\<rparr>, snd v)"
  obtain t' m' where p: "putc_term c addr ?u = (t', m')" by fastforce
  have "on_screen (term_pos ?u)" using mid by (simp add: mid_line_def term_arrays_def term_pos_def)
  from termscr.put_on_screen [OF this, of c addr] termscr.put_frame [OF this, where c = c and base = addr]
  have "on_screen (term_screen_x t', term_screen_y t')" "\<forall>a. \<not> in_range a addr 3840 \<longrightarrow> m' a = snd v a"
    by (simp_all add: p term_pos_def)
  moreover have "mid_line t'"
    using mid h(2,3) putc_term_fields [of c addr ?u] \<open>on_screen (term_screen_x t', term_screen_y t')\<close>
    by (simp add: p mid_line_def term_arrays_def)
  moreover have "parse_term addr c (t, m) = Some (t', m')"
    using h(1) p by (cases "24 \<le> row_index w") (simp_all add: parse_term_def v_def case_prod_beta flip: w_def)
  ultimately show ?thesis using frame by auto
qed

lemma write_char_with:
  assumes "active_screen s = Some (addr, i)" and "i < length (three_terminals s)" and "term_ok t"
  shows "\<exists>t' m'. write_char i ptr idx (with_term s i (t, m)) = Some (with_term s i (t', m')) \<and> term_ok t'
    \<and> (\<forall>a. \<not> in_range a addr 3840 \<longrightarrow> m' a = m a)"
proof -
  let ?c = "m (ptr + of_nat idx)"
  obtain t1 m1 where 1: "parse_term addr ?c (t, m) = Some (t1, m1)" "mid_line t1"
    "\<forall>a. \<not> in_range a addr 3840 \<longrightarrow> m1 a = m a"
    using parse_term_safe [OF assms(3)] by blast
  obtain t2 where "record_char ?c t1 = Some t2" "term_ok t2" using record_char_ok [OF 1(2)] by blast
  with 1 show ?thesis
    by (auto simp: write_char_def with_term_access [OF assms(2)] write_parser_with [OF assms(1,2)])
qed


text \<open>The whole loop, and what follows it.\<close>

lemma write_loop_with:
  assumes "active_screen s = Some (addr, i)" and "i < length (three_terminals s)" and "term_ok t"
  shows "\<exists>t' m'. loop_over js (write_char i ptr) (with_term s i (t, m)) = Some (with_term s i (t', m'))
    \<and> term_ok t' \<and> (\<forall>a. \<not> in_range a addr 3840 \<longrightarrow> m' a = m a)"
proof -
  let ?I = "\<lambda>u. \<exists>t' m'. u = with_term s i (t', m') \<and> term_ok t' \<and> (\<forall>a. \<not> in_range a addr 3840 \<longrightarrow> m' a = m a)"
  have "\<exists>u. loop_over js (write_char i ptr) (with_term s i (t, m)) = Some u \<and> ?I u"
  proof (rule loop_over_invariant)
    show "?I (with_term s i (t, m))" using assms(3) by blast
    show "\<exists>v. write_char i ptr idx u = Some v \<and> ?I v" if "?I u" for idx u
    proof -
      from that obtain t1 m1 where "u = with_term s i (t1, m1)" "term_ok t1"
        "\<forall>a. \<not> in_range a addr 3840 \<longrightarrow> m1 a = m a" by blast
      with write_char_with [OF assms(1,2), of t1 ptr idx m1] show ?thesis by force
    qed
  qed
  then show ?thesis by blast
qed

lemma active_screen_index:
  assumes "active_screen s = Some (addr, i)"
  shows "\<exists>p. peek (all_process s) (unat (current_process_pid s)) = Some p \<and> unat (active_terminal_idx p) = i"
  using assms by (auto simp: active_screen_def Let_def bind_eq_Some_conv split: if_splits)

definition after_write :: "terminal_t \<Rightarrow> terminal_t" where
  "after_write t = t\<lparr>live_buffer_store := (live_buffer_store t)[0 := 0], bytes_read_store := 0,
     bytes_read := bytes_written t smod 80, bytes_written := bytes_written t smod 80,
     live_buffer_location := bytes_written t smod 80\<rparr>"

lemma after_write_ok: "term_ok t \<Longrightarrow> term_ok (after_write t\<lparr>cursor_loc := loc\<rparr>)"
  by (auto simp: after_write_def term_ok_def term_arrays_def)

definition cursor_writes :: "int \<Rightarrow> io_event list" where
  "cursor_writes loc = (let pos = cursor_bytes loc in
     [Out 0x0F 0x3D4, Out (ucast (pos AND 0xFF)) 0x3D5,
      Out 0x0E 0x3D4, Out (ucast (drop_bit 8 pos AND 0xFF)) 0x3D5])"

lemma with_term_log: "(with_term s i tm)\<lparr>io_log := l\<rparr> = with_term (s\<lparr>io_log := l\<rparr>) i tm"
  "io_log (with_term s i tm) = io_log s"
  by (simp_all add: with_term_def)

lemma cur_term_with:
  assumes "current_term s = int i" and "i < length (three_terminals s)"
  shows "cur_term (with_term s i (t, m)) = Some t"
    and "set_cur t' (with_term s i (t, m)) = Some (with_term s i (t', m))"
  using assms by (simp_all add: cur_term_def set_cur_def peek_int_def poke_int_def with_term_def)

lemma move_cursor_with:
  assumes "current_term s = int i" and "i < length (three_terminals s)"
  shows "move_cursor loc (with_term s i (t, m))
    = Some (with_term (s\<lparr>io_log := io_log s @ cursor_writes (max 0 (cursor_loc t))\<rparr>) i
        (t\<lparr>cursor_loc := max 0 (cursor_loc t)\<rparr>, m))"
proof -
  have t: "(if cursor_loc t \<le> 0 then t\<lparr>cursor_loc := 0\<rparr> else t) = t\<lparr>cursor_loc := max 0 (cursor_loc t)\<rparr>"
    by simp
  show ?thesis
    using cur_term_with [OF assms]
    by (simp add: move_cursor_def t outb_def cursor_writes_def Let_def with_term_log)
qed

text \<open>What \<open>terminal_write\<close> does with the result of its loop: only the cursor is left.\<close>

lemma terminal_write_with:
  assumes act: "active_screen s = Some (addr, i)" and i: "i < length (three_terminals s)"
    and run: "loop_over [0..<nat (sint n)] (write_char i ptr) (cli s) = Some (with_term (cli s) i (t, m))"
    and ok: "term_arrays t" and args: "ptr \<noteq> 0" "0 \<le> sint n"
  shows "\<exists>loc log. terminal_write fd ptr n s = Some (n,
    with_term (s\<lparr>io_log := log, int_flag := True\<rparr>) i (after_write t\<lparr>cursor_loc := loc\<rparr>, m))"
proof -
  obtain p where p: "peek (all_process s) (unat (current_process_pid s)) = Some p" "unat (active_terminal_idx p) = i"
    using active_screen_index [OF act] by blast
  have pi: "uint (active_terminal_idx p) = int i" using p(2) by auto
  have i': "i < length (three_terminals (cli s))" using i by (simp add: cli_def)
  let ?u = "with_term (cli s) i (after_write t, m)"
  have tail: "\<exists>loc log. (if current_term ?u = int i then move_cursor (cursor_loc (after_write t)) ?u else Some ?u)
      = Some (with_term ((cli s)\<lparr>io_log := log\<rparr>) i (after_write t\<lparr>cursor_loc := loc\<rparr>, m))"
  proof (cases "current_term (cli s) = int i")
    case True
    then have "current_term ?u = int i" by (simp add: with_term_def)
    with move_cursor_with [OF True i'] show ?thesis by auto
  next
    case False
    then have "current_term ?u \<noteq> int i" by (simp add: with_term_def)
    moreover have "?u = with_term ((cli s)\<lparr>io_log := io_log s\<rparr>) i (after_write t\<lparr>cursor_loc := cursor_loc (after_write t)\<rparr>, m)"
      by (simp add: cli_def)
    ultimately show ?thesis by metis
  qed
  then obtain loc log where tl: "(if current_term ?u = int i then move_cursor (cursor_loc (after_write t)) ?u else Some ?u)
      = Some (with_term ((cli s)\<lparr>io_log := log\<rparr>) i (after_write t\<lparr>cursor_loc := loc\<rparr>, m))" by blast
  have sti: "sti (with_term ((cli s)\<lparr>io_log := log\<rparr>) i v) = with_term (s\<lparr>io_log := log, int_flag := True\<rparr>) i v" for v
    by (simp add: sti_def cli_def with_term_def)
  have "poke (live_buffer_store t) 0 0 = Some ((live_buffer_store t)[0 := 0])"
    using ok by (simp add: term_arrays_def)
  then have "terminal_write fd ptr n s = (if current_term ?u = int i then move_cursor (cursor_loc (after_write t)) ?u else Some ?u)
      \<bind> (\<lambda>s. Some (n, sti s))"
    using p pi run args
    by (simp add: terminal_write_def with_term_access [OF i'] screen_consts after_write_def Let_def
        del: peek_Some_iff)
  then show ?thesis unfolding tl by (auto simp: sti)
qed

lemma terminal_write_run:
  assumes "active_screen s = Some (addr, i)" and "i < length (three_terminals s)"
    and "term_ok (three_terminals s ! i)" and "ptr \<noteq> 0" and "0 \<le> sint n"
  shows "\<exists>t m log. terminal_write fd ptr n s = Some (n, with_term (s\<lparr>io_log := log, int_flag := True\<rparr>) i (t, m))
    \<and> term_ok t \<and> (\<forall>a. \<not> in_range a addr 3840 \<longrightarrow> m a = mem s a)"
proof -
  have c: "active_screen (cli s) = Some (addr, i)" "i < length (three_terminals (cli s))"
    "with_term (cli s) i (three_terminals s ! i, mem s) = cli s"
    using assms(1,2) by (simp_all add: cli_def with_term_def)
  obtain t m where run: "loop_over [0..<nat (sint n)] (write_char i ptr) (cli s) = Some (with_term (cli s) i (t, m))"
    "term_ok t" "\<forall>a. \<not> in_range a addr 3840 \<longrightarrow> m a = mem s a"
    using write_loop_with [OF c(1,2) assms(3), of "[0..<nat (sint n)]" ptr "mem s"] unfolding c(3) by blast
  have "term_arrays t" using run(2) by (simp add: term_ok_def)
  from terminal_write_with [OF assms(1,2) run(1) this assms(4,5)] obtain loc log where
    "terminal_write fd ptr n s = Some (n,
      with_term (s\<lparr>io_log := log, int_flag := True\<rparr>) i (after_write t\<lparr>cursor_loc := loc\<rparr>, m))" by blast
  with run(2,3) after_write_ok [of t loc] show ?thesis by blast
qed

text \<open>
  C18. \<open>terminal_write\<close> is safe for every text: from a well-formed terminal it writes all \<open>n\<close>
  bytes whatever they are (scrolling and wrapping included) without leaving an array, keeps the
  terminal well-formed and the other terminals as they are, and changes no byte outside the
  text rows of the page it writes to.
\<close>

theorem terminal_write_safe:
  assumes "active_screen s = Some (addr, i)" and "i < length (three_terminals s)"
    and "term_ok (three_terminals s ! i)" and "ptr \<noteq> 0" and "0 \<le> sint n"
  shows "\<exists>u. terminal_write fd ptr n s = Some (n, u) \<and> term_ok (three_terminals u ! i)
    \<and> (\<forall>j. j \<noteq> i \<longrightarrow> three_terminals u ! j = three_terminals s ! j)
    \<and> (\<forall>a. \<not> in_range a addr 3840 \<longrightarrow> mem u a = mem s a)"
proof -
  obtain t m log where "terminal_write fd ptr n s = Some (n, with_term (s\<lparr>io_log := log, int_flag := True\<rparr>) i (t, m))"
    "term_ok t" "\<forall>a. \<not> in_range a addr 3840 \<longrightarrow> m a = mem s a"
    using terminal_write_run [OF assms] by blast
  then show ?thesis using assms(2) by (simp add: with_term_def)
qed


section \<open>A text on a line\<close>

lemma putc_term_pos:
  assumes "term_pos (t, m) = term_pos (u, m)"
  shows "snd (putc_term c base (t, m)) = snd (putc_term c base (u, m))"
    and "term_pos (putc_term c base (t, m)) = term_pos (putc_term c base (u, m))"
  using assms by (auto simp: putc_term_def term_pos_def Let_def)

lemma record_char_plain:
  assumes "mid_line t" and "c \<noteq> 10"
  shows "\<exists>t'. record_char c t = Some t' \<and> bytes_written t' = bytes_written t + 1
    \<and> row_index t' = row_index t \<and> (\<forall>m. term_pos (t', m) = term_pos (t, m))"
proof -
  have b: "0 \<le> bytes_written t" "bytes_written t < 80" "length (live_buffer t) = 2000"
    using assms by (simp_all add: mid_line_def term_arrays_def)
  then have "\<exists>live. (if bytes_written t smod NUM_COLS = 0
              then poke (zero_first CHAR_BUFFER_SIZE (live_buffer t)) 0 c
              else poke_int (live_buffer t) (bytes_written t) c) = Some live"
    by (auto simp: poke_int_def screen_consts)
  with assms(2) show ?thesis by (auto simp: record_char_def term_pos_def)
qed

lemma parse_term_plain:
  assumes "term_ok t" and "row_index t < 24" and "bytes_written t < 80"
  shows "\<exists>t'. parse_term addr c (t, m) = Some (t', snd (putc_term c addr (t, m)))
    \<and> bytes_written t' = bytes_written t \<and> row_index t' = row_index t
    \<and> term_pos (t', m') = term_pos (putc_term c addr (t, m))"
proof -
  obtain t1 m1 where p: "parse_term addr c (t, m) = Some (t1, m1)"
    using parse_term_safe [OF assms(1)] by blast
  then obtain h where h: "putc_term c addr (t\<lparr>history_buffer := h\<rparr>, m) = (t1, m1)"
    using assms(2,3) by (auto simp: parse_term_def wrap_line_def bind_eq_Some_conv)
  let ?u = "(t\<lparr>history_buffer := h\<rparr>, m)"
  have eq: "t1 = fst (putc_term c addr ?u)" "m1 = snd (putc_term c addr ?u)"
    unfolding h by simp_all
  have "term_pos ?u = term_pos (t, m)" by (simp add: term_pos_def)
  note same = putc_term_pos [OF this, of c addr]
  have "term_pos (t1, m') = term_pos (putc_term c addr ?u)" unfolding eq(1) by (simp add: term_pos_def)
  with p same eq show ?thesis by simp
qed

lemma write_line_with:
  assumes act: "active_screen s = Some (addr, i)" "i < length (three_terminals s)"
    and ok: "term_ok t" "row_index t < 24" "bytes_written t + int n \<le> 80"
    and pos: "fst (term_pos (t, m)) + int n < 80"
    and line: "length cs = n" "\<forall>c\<in>set cs. \<not> is_newline c"
      "\<forall>k<n. m (ptr + of_nat k) = cs ! k \<and> \<not> in_range (ptr + of_nat k) addr 3840"
  shows "\<exists>t'. loop_over [0..<n] (write_char i ptr) (with_term s i (t, m))
      = Some (with_term s i (t', snd (fold (\<lambda>c. putc_term c addr) cs (t, m)))) \<and> term_ok t'
    \<and> row_index t' = row_index t \<and> bytes_written t' = bytes_written t + int n
    \<and> (\<forall>m'. term_pos (t', m') = term_pos (fold (\<lambda>c. putc_term c addr) cs (t, m)))"
  using ok(3) pos line
proof (induction n arbitrary: cs)
  case 0
  then show ?case using ok by (auto simp: term_pos_def)
next
  case (Suc n)
  let ?cs = "take n cs" and ?c = "cs ! n"
  let ?f = "fold (\<lambda>c. putc_term c addr) ?cs (t, m)"
  have cs: "cs = ?cs @ [?c]" using Suc.prems(3) by (simp add: take_Suc_conv_app_nth flip: take_Suc_conv_app_nth)
  have "\<exists>t'. loop_over [0..<n] (write_char i ptr) (with_term s i (t, m))
      = Some (with_term s i (t', snd ?f)) \<and> term_ok t'
    \<and> row_index t' = row_index t \<and> bytes_written t' = bytes_written t + int n
    \<and> (\<forall>m'. term_pos (t', m') = term_pos ?f)"
    using Suc.prems by (intro Suc.IH) (auto dest: in_set_takeD)
  then obtain t1 where t1: "loop_over [0..<n] (write_char i ptr) (with_term s i (t, m)) = Some (with_term s i (t1, snd ?f))"
    "term_ok t1" "row_index t1 = row_index t" "bytes_written t1 = bytes_written t + int n"
    "\<forall>m'. term_pos (t1, m') = term_pos ?f" by blast
  have "on_screen (term_pos (t, m))" using ok(1) by (simp add: term_ok_def term_arrays_def term_pos_def)
  then have "snd ?f (ptr + of_nat n) = ?c"
    using termscr.puts_safe [where s = "(t, m)" and cs = ?cs and base = addr] Suc.prems(5) by auto
  moreover obtain t2 where t2: "parse_term addr ?c (t1, snd ?f) = Some (t2, snd (putc_term ?c addr (t1, snd ?f)))"
    "bytes_written t2 = bytes_written t1" "row_index t2 = row_index t1"
    "\<forall>m'. term_pos (t2, m') = term_pos (putc_term ?c addr (t1, snd ?f))"
    using parse_term_plain [OF t1(2), of addr ?c "snd ?f"] t1(3,4) ok(2) Suc.prems(1) by (simp add: term_pos_def) blast
  moreover have "mid_line t2" using parse_term_safe [OF t1(2), of addr ?c "snd ?f"] t2(1) by simp
  moreover have "?c \<noteq> 10" using Suc.prems(3,4) by (auto simp: is_newline_def)
  note record_char_plain [OF calculation(6) this]
  ultimately obtain t3 where t3: "write_char i ptr n (with_term s i (t1, snd ?f))
      = Some (with_term s i (t3, snd (putc_term ?c addr (t1, snd ?f))))"
    "bytes_written t3 = bytes_written t1 + 1" "row_index t3 = row_index t1"
    "\<forall>m'. term_pos (t3, m') = term_pos (putc_term ?c addr (t1, snd ?f))"
    by (auto simp: write_char_def with_term_access [OF act(2)] write_parser_with [OF act])
  have "term_pos (t1, snd ?f) = term_pos (fst ?f, snd ?f)" using t1(5) by simp
  note step = putc_term_pos [OF this, of ?c addr]
  have "term_ok t3"
    using write_char_with [OF act t1(2), of ptr n "snd ?f"] t3(1)
    by (auto dest!: with_term_inj [OF act(2)])
  moreover have "fold (\<lambda>c. putc_term c addr) cs (t, m) = putc_term ?c addr ?f" by (subst cs) simp
  ultimately show ?case using t1 t3 step by (auto simp: loop_over_append intro!: exI [of _ t3])
qed


text \<open>
  A text without line breaks that fits on the current line appears there: the cells from the
  cursor on hold its bytes, in order, and the cursor stands behind them. (The buffer must not
  lie in the page itself.)
\<close>

theorem terminal_write_shows:
  assumes "active_screen s = Some (addr, i)" and "i < length (three_terminals s)"
    and "t = three_terminals s ! i" and "term_ok t" and "row_index t < 24"
    and "bytes_written t + int n \<le> 80" and "term_screen_x t + int n < 80" and "ptr \<noteq> 0"
    and "\<forall>k<n. \<not> is_newline (mem s (ptr + of_nat k)) \<and> \<not> in_range (ptr + of_nat k) addr 3840"
  shows "\<exists>u. terminal_write fd ptr (of_nat n) s = Some (of_nat n, u)
    \<and> (\<forall>k<n. mem u (cell_addr addr (80 * term_screen_y t + term_screen_x t + int k)) = mem s (ptr + of_nat k))
    \<and> term_screen_x (three_terminals u ! i) = term_screen_x t + int n
    \<and> term_screen_y (three_terminals u ! i) = term_screen_y t"
proof -
  define cs where "cs = map (\<lambda>k. mem s (ptr + of_nat k)) [0..<n]"
  have cs: "length cs = n" "\<forall>c\<in>set cs. \<not> is_newline c"
    "\<forall>k<n. mem s (ptr + of_nat k) = cs ! k \<and> \<not> in_range (ptr + of_nat k) addr 3840"
    using assms(9) by (auto simp: cs_def)
  have c: "active_screen (cli s) = Some (addr, i)" "i < length (three_terminals (cli s))"
    "with_term (cli s) i (t, mem s) = cli s"
    using assms(1-3) by (simp_all add: cli_def with_term_def)
  let ?f = "fold (\<lambda>c. putc_term c addr) cs (t, mem s)"
  have n: "n < 81" using assms(4,6) by (auto simp: term_ok_def)
  then have sn: "sint (of_nat n :: i32) = int n" by (simp add: signed_of_nat signed_take_bit_int_eq_self)
  obtain t1 where run: "loop_over [0..<n] (write_char i ptr) (cli s) = Some (with_term (cli s) i (t1, snd ?f))"
    "term_ok t1" "\<forall>m'. term_pos (t1, m') = term_pos ?f"
    using write_line_with [OF c(1,2) assms(4-6) _ cs] assms(7) unfolding c(3) by (auto simp: term_pos_def)
  have "loop_over [0..<nat (sint (of_nat n :: i32))] (write_char i ptr) (cli s) = Some (with_term (cli s) i (t1, snd ?f))"
    using run(1) by (simp add: sn)
  moreover have "term_arrays t1" using run(2) by (simp add: term_ok_def)
  ultimately obtain loc log where u: "terminal_write fd ptr (of_nat n) s = Some (of_nat n,
      with_term (s\<lparr>io_log := log, int_flag := True\<rparr>) i (after_write t1\<lparr>cursor_loc := loc\<rparr>, snd ?f))"
    using terminal_write_with [OF assms(1,2) _ _ assms(8), where fd = fd and n = "of_nat n" and t = t1 and m = "snd ?f"] sn by auto
  have "on_screen (term_pos (t, mem s))" using assms(4) by (simp add: term_ok_def term_arrays_def term_pos_def)
  from termscr.puts_line [OF this cs(2), of addr] assms(7) cs(1)
  have line: "term_pos ?f = (term_screen_x t + int n, term_screen_y t)"
    "\<forall>k<n. snd ?f (cell_addr addr (80 * term_screen_y t + term_screen_x t + int k)) = cs ! k"
    by (simp_all add: term_pos_def cursor_index_def)
  from line(1) run(3) have "term_screen_x t1 = term_screen_x t + int n" "term_screen_y t1 = term_screen_y t"
    by (simp_all add: term_pos_def)
  with u line(2) cs(3) assms(2) show ?thesis by (simp add: with_term_def after_write_def)
qed


section \<open>Scrolling\<close>

text \<open>
  \<open>terminal_scroll\<close> moves every text row of the running process's page up by one, empties the
  last row and nothing else in memory, and the history buffer then is what the page shows.
\<close>

theorem terminal_scroll_moves_rows:
  assumes "active_screen s = Some (addr, i)" and "i < length (three_terminals s)"
  shows "\<exists>u. terminal_scroll s = Some u
    \<and> (\<forall>row col. 0 \<le> row \<and> row < 24 \<and> 0 \<le> col \<and> col < 80 \<longrightarrow>
        mem u (cell_addr addr (80 * row + col)) =
          (if row < 23 then mem s (cell_addr addr (80 * (row + 1) + col)) else 0)
        \<and> history_buffer (three_terminals u ! i) ! nat row ! nat col = mem u (cell_addr addr (80 * row + col)))
    \<and> (\<forall>a. \<not> in_range a addr 3840 \<longrightarrow> mem u a = mem s a)
    \<and> row_index (three_terminals u ! i) = row_index (three_terminals s ! i) - 1"
proof -
  let ?tm = "(three_terminals s ! i, mem s)"
  have run: "terminal_scroll s = Some (with_term s i (scroll_term addr ?tm))"
    using terminal_scroll_with [OF assms, of ?tm] with_term_self [OF assms(2)] by simp
  have "scroll_page addr (mem s) (cell_addr addr (80 * row + col))
      = (if row < 23 then mem s (cell_addr addr (80 * (row + 1) + col)) else 0)"
    if "0 \<le> row" "row < 24" "0 \<le> col" "col < 80" for row col
    using that scroll_page_cells [of "80 * row + col" addr "mem s"] by (auto simp: algebra_simps)
  moreover have "page_rows addr m ! nat row ! nat col = m (cell_addr addr (80 * row + col))"
    if "0 \<le> row" "row < 24" "0 \<le> col" "col < 80" for row col and m :: mem
    using that by (simp add: page_rows_def screen_consts nat_less_iff)
  ultimately show ?thesis
    using run assms(2) by (simp add: with_term_def scroll_term_def Let_def scroll_page_frame)
qed

section \<open>Witnesses\<close>

lemma tiny_kernel_screen: "active_screen tiny_kernel = Some (0xB8000, 0)"
  "0 < length (three_terminals tiny_kernel)" "three_terminals tiny_kernel ! 0 = blank_term"
  by (simp_all add: active_screen_def tiny_kernel_def VISUAL_VIRTUAL_ADDR_def)

lemma blank_term_ok: "term_ok blank_term"
  by (simp add: term_ok_def term_arrays_def blank_term_def on_screen_def)

theorem terminal_write_safe_witness:
  "\<exists>u. terminal_write 1 0x20000 5000 tiny_kernel = Some (5000, u) \<and> term_ok (three_terminals u ! 0)"
  using terminal_write_safe [OF tiny_kernel_screen(1,2), where ptr = "0x20000" and n = 5000 and fd = 1]
    blank_term_ok tiny_kernel_screen(3) by simp blast

theorem terminal_write_shows_witness:
  "\<exists>u. terminal_write 1 0x20000 (of_nat 7) tiny_kernel = Some (of_nat 7, u)
     \<and> term_screen_x (three_terminals u ! 0) = 7"
proof -
  have "\<forall>k\<in>set [0..<7]. \<not> is_newline (mem tiny_kernel (0x20000 + of_nat k))
      \<and> \<not> in_range (0x20000 + of_nat k) 0xB8000 3840"
    by (simp add: upt_rec tiny_kernel_def tiny_mem_def is_newline_def in_range_def)
  then have "\<forall>k<7. \<not> is_newline (mem tiny_kernel (0x20000 + of_nat k))
      \<and> \<not> in_range (0x20000 + of_nat k) 0xB8000 3840" by simp
  then show ?thesis
    using terminal_write_shows [OF tiny_kernel_screen(1,2), of blank_term 7 "0x20000" 1]
      blank_term_ok tiny_kernel_screen(3) by (auto simp: blank_term_def)
qed

theorem terminal_scroll_moves_rows_witness:
  "\<exists>u. terminal_scroll tiny_kernel = Some u \<and> row_index (three_terminals u ! 0) = -1"
  using terminal_scroll_moves_rows [OF tiny_kernel_screen(1,2)] tiny_kernel_screen(3)
  by (auto simp: blank_term_def)

end
