(* ===== verification/Switching.thy ===== *)
theory Switching
  imports Terminal
begin

text \<open>
  Switching: \<open>process_context_switch\<close> of \<open>src/scheduler/scheduler.c\<close> and \<open>terminal_switch\<close> of
  \<open>src/devices/keyboard.c\<close>. The registers \<open>esp\<close> and \<open>ebp\<close> are fields of the state: after a
  switch, the kernel goes on in the frame the restored values point to.

  The theorems: switching away and back restores registers, process, address space and kernel
  stack; switching terminals exchanges the pages behind the screen.
\<close>

section \<open>Context switch\<close>

definition KEYBOARD_IRQ :: u32 where "KEYBOARD_IRQ = 1"

text \<open>The scheduled process of slot \<open>i\<close>, and its control block.\<close>

definition slot_process :: "u8 \<Rightarrow> 'a kernel_state_scheme \<Rightarrow> (u8 \<times> process_t) option" where
  "slot_process i s = do {
     idx \<leftarrow> peek (multi_process_idx s) (unat i);
     p \<leftarrow> peek (all_process s) (unat idx);
     Some (idx, p)
   }"

definition save_context :: "u8 \<Rightarrow> 'a kernel_state_scheme \<Rightarrow> 'a kernel_state_scheme option" where
  "save_context i s = do {
     (idx, p) \<leftarrow> slot_process i s;
     ps \<leftarrow> poke (all_process s) (unat idx) (p\<lparr>saved_esp := esp s, saved_ebp := ebp s\<rparr>);
     Some (s\<lparr>all_process := ps\<rparr>)
   }"

text \<open>Only the displayed terminal gets keyboard interrupts.\<close>

definition gate_keyboard :: "u8 \<Rightarrow> 'a kernel_state_scheme \<Rightarrow> 'a kernel_state_scheme" where
  "gate_keyboard process_to s =
     (if uint process_to \<noteq> current_term s \<and> keyboard_disabled s = 0
      then (disable_irq KEYBOARD_IRQ s)\<lparr>keyboard_disabled := 1\<rparr>
      else if uint process_to = current_term s \<and> keyboard_disabled s \<noteq> 0
      then (enable_irq KEYBOARD_IRQ s)\<lparr>keyboard_disabled := 0\<rparr> else s)"

text \<open>The user's video page is the screen for the displayed terminal and the backing page else.\<close>

definition map_slot_video :: "u8 \<Rightarrow> 'a kernel_state_scheme \<Rightarrow> 'a kernel_state_scheme option" where
  "map_slot_video process_to s =
     (if current_term s = uint process_to then Some (map_video VIDEO_MEM_FULL_ADDR s)
      else do { phys \<leftarrow> peek physical_terminal_addresses (unat process_to); Some (map_video phys s) })"

definition process_context_switch :: "u8 \<Rightarrow> u8 \<Rightarrow> 'a kernel_state_scheme \<Rightarrow> 'a kernel_state_scheme option" where
  "process_context_switch process_from process_to s = do {
     s \<leftarrow> save_context process_from s;
     (idx, p) \<leftarrow> slot_process process_to s;
     let s = s\<lparr>current_process_pid := idx\<rparr>;
     s \<leftarrow> map_slot_video process_to s;
     pcb_idx \<leftarrow> process_PCB p;
     pcb \<leftarrow> peek (PCB s) pcb_idx;
     let s = map_process (pcb_pid pcb) s;
     let s = s\<lparr>tss_esp0 := kernel_stack_base (pcb_pid pcb)\<rparr>;
     let s = gate_keyboard process_to s;
     let s = send_eoi PIT_IRQ s;
     Some (s\<lparr>esp := saved_esp p, ebp := saved_ebp p\<rparr>)
   }"

section \<open>Terminal switch\<close>

definition terminal_switch :: "int \<Rightarrow> u8 \<Rightarrow> 'a kernel_state_scheme \<Rightarrow> 'a kernel_state_scheme option" where
  "terminal_switch new_term all_terms_initialized s =
     (if new_term = current_term s then Some s
      else do {
        old_addr \<leftarrow> peek_int virtual_terminal_addresses (current_term s);
        let s = s\<lparr>mem := memcpy old_addr VISUAL_VIRTUAL_ADDR 0x1000 (mem s)\<rparr>;
        new_addr \<leftarrow> peek_int virtual_terminal_addresses new_term;
        let s = s\<lparr>mem := memcpy VISUAL_VIRTUAL_ADDR new_addr 0x1000 (mem s)\<rparr>;
        let old_term = word_of_int (current_term s);
        let s = s\<lparr>current_term := new_term\<rparr>;
        t \<leftarrow> peek_int (three_terminals s) new_term;
        s \<leftarrow> move_cursor (cursor_loc t) s;
        s \<leftarrow> draw_status_bar s;
        if all_terms_initialized \<noteq> 0
        then process_context_switch old_term (word_of_int new_term)
               (s\<lparr>current_multiprocess := word_of_int new_term\<rparr>)
        else Some s
      })"

section \<open>The result of a context switch\<close>

text \<open>
  The tables of the scheduler fit together: three slots with distinct processes, whose control
  blocks exist.
\<close>

definition sched_ok :: "'a kernel_state_scheme \<Rightarrow> bool" where
  "sched_ok s \<longleftrightarrow> length (multi_process_idx s) = 3 \<and> distinct (multi_process_idx s)
     \<and> (\<forall>i<3. unat (multi_process_idx s ! i) < length (all_process s)
          \<and> (\<exists>k<length (PCB s). process_PCB (all_process s ! unat (multi_process_idx s ! i)) = Some k))"

definition slot_entry :: "'a kernel_state_scheme \<Rightarrow> nat \<Rightarrow> process_t" where
  "slot_entry s i = all_process s ! unat (multi_process_idx s ! i)"

definition slot_pid :: "'a kernel_state_scheme \<Rightarrow> nat \<Rightarrow> u8" where
  "slot_pid s i = pcb_pid (PCB s ! the (process_PCB (slot_entry s i)))"

definition saved_in :: "'a kernel_state_scheme \<Rightarrow> nat \<Rightarrow> process_t list" where
  "saved_in s i = (all_process s)[unat (multi_process_idx s ! i) :=
     slot_entry s i\<lparr>saved_esp := esp s, saved_ebp := ebp s\<rparr>]"

text \<open>The page behind the user's video mapping of a slot.\<close>

definition slot_page :: "'a kernel_state_scheme \<Rightarrow> nat \<Rightarrow> u32" where
  "slot_page s i = (if current_term s = int i then 0xB8000 else 0xB9000 + of_nat i * 0x1000)"

lemma all_less_3: "(\<forall>i<3. P i) \<longleftrightarrow> P 0 \<and> P 1 \<and> P (2 :: nat)"
  by (auto simp: less_Suc_eq numeral_3_eq_3 numeral_2_eq_2)

lemma less_3_cases: "(i::nat) < 3 \<Longrightarrow> i = 0 \<or> i = 1 \<or> i = 2"
  by auto

lemma physical_page: "i < 3 \<Longrightarrow> peek physical_terminal_addresses i = Some (0xB9000 + of_nat i * 0x1000)"
  by (auto dest!: less_3_cases simp: physical_terminal_addresses_def)

lemma distinct_slots:
  assumes "sched_ok s" and "i < 3" and "j < 3" and "i \<noteq> j"
  shows "unat (multi_process_idx s ! i) \<noteq> unat (multi_process_idx s ! j)"
  using assms nth_eq_iff_index_eq [of "multi_process_idx s" i j] by (auto simp: sched_ok_def word_unat_eq_iff)

lemma save_context_run:
  assumes "sched_ok s" and "i < 3"
  shows "save_context (of_nat i) s = Some (s\<lparr>all_process := saved_in s i\<rparr>)"
proof -
  have u: "unat (of_nat i :: u8) = i" using assms(2) by (simp add: unat_of_nat)
  show ?thesis
    using assms by (simp add: save_context_def slot_process_def u sched_ok_def saved_in_def slot_entry_def)
qed

lemma sched_ok_saved: "sched_ok s \<Longrightarrow> i < 3 \<Longrightarrow> sched_ok (s\<lparr>all_process := saved_in s i\<rparr>)"
  by (auto simp: sched_ok_def saved_in_def slot_entry_def nth_list_update)

lemma gate_run:
  "\<exists>l mm kd. send_eoi PIT_IRQ (gate_keyboard p s) = s\<lparr>io_log := l, master_mask := mm, keyboard_disabled := kd\<rparr>"
proof -
  have "\<exists>l mm kd. gate_keyboard p s = s\<lparr>io_log := l, master_mask := mm, keyboard_disabled := kd\<rparr>"
  proof -
    have "gate_keyboard p s = s\<lparr>io_log := io_log (gate_keyboard p s),
        master_mask := master_mask (gate_keyboard p s), keyboard_disabled := keyboard_disabled (gate_keyboard p s)\<rparr>"
      by (simp add: gate_keyboard_def disable_irq_def enable_irq_def outb_def Let_def KEYBOARD_IRQ_def NUM_IRQS_def)
    then show ?thesis by blast
  qed
  then obtain l mm kd where g: "gate_keyboard p s = s\<lparr>io_log := l, master_mask := mm, keyboard_disabled := kd\<rparr>"
    by blast
  obtain l' where "send_eoi PIT_IRQ (gate_keyboard p s) = (gate_keyboard p s)\<lparr>io_log := l'\<rparr>"
    using send_eoi_log by blast
  then have "send_eoi PIT_IRQ (gate_keyboard p s) = s\<lparr>io_log := l', master_mask := mm, keyboard_disabled := kd\<rparr>"
    by (simp add: g)
  then show ?thesis by blast
qed

text \<open>What changes in a context switch; the rest of the state stays.\<close>

lemma context_switch_run:
  assumes ok: "sched_ok s" and i: "i < 3" and j: "j < 3" and ne: "i \<noteq> j"
  shows "\<exists>u. process_context_switch (of_nat i) (of_nat j) s = Some u
    \<and> all_process u = saved_in s i \<and> multi_process_idx u = multi_process_idx s \<and> PCB u = PCB s
    \<and> current_process_pid u = multi_process_idx s ! j
    \<and> esp u = saved_esp (slot_entry s j) \<and> ebp u = saved_ebp (slot_entry s j)
    \<and> page_directory u = page_directory (map_process (slot_pid s j) (map_video (slot_page s j) s))
    \<and> page_table_vid u = (page_table_vid s)[0 := slot_page s j OR 7]
    \<and> page_table_vid_at u = page_table_vid_at s
    \<and> tss_esp0 u = kernel_stack_base (slot_pid s j)
    \<and> mem u = mem s \<and> current_term u = current_term s \<and> three_terminals u = three_terminals s
    \<and> current_multiprocess u = current_multiprocess s \<and> num_multiprocess u = num_multiprocess s
    \<and> on_default_term u = on_default_term s"
proof -
  let ?s1 = "s\<lparr>all_process := saved_in s i\<rparr>"
  have uj: "unat (of_nat j :: u8) = j" "uint (of_nat j :: u8) = int j"
    using j by (simp_all add: unat_of_nat uint_nat)
  have ok1: "sched_ok ?s1" using ok i by (rule sched_ok_saved)
  have entry: "slot_entry ?s1 j = slot_entry s j"
    using distinct_slots [OF ok i j ne] by (simp add: slot_entry_def saved_in_def)
  have slot: "slot_process (of_nat j) ?s1 = Some (multi_process_idx s ! j, slot_entry s j)"
    using ok1 j entry by (simp add: slot_process_def uj sched_ok_def slot_entry_def)
  obtain k where k: "process_PCB (slot_entry s j) = Some k" "k < length (PCB s)"
    using ok j by (auto simp: sched_ok_def slot_entry_def)
  let ?s2 = "map_video (slot_page s j) (?s1\<lparr>current_process_pid := multi_process_idx s ! j\<rparr>)"
  let ?s3 = "(map_process (slot_pid s j) ?s2)\<lparr>tss_esp0 := kernel_stack_base (slot_pid s j)\<rparr>"
  obtain l mm kd where g: "send_eoi PIT_IRQ (gate_keyboard (of_nat j) ?s3)
      = ?s3\<lparr>io_log := l, master_mask := mm, keyboard_disabled := kd\<rparr>"
    using gate_run by blast
  have pcb: "peek (PCB ?s2) k = Some (PCB s ! k)" "pcb_pid (PCB s ! k) = slot_pid s j"
    using k by (simp_all add: map_video_def slot_pid_def)
  have v: "map_slot_video (of_nat j) (?s1\<lparr>current_process_pid := multi_process_idx s ! j\<rparr>) = Some ?s2"
    using j by (simp add: map_slot_video_def uj physical_page slot_page_def VIDEO_MEM_FULL_ADDR_def)
  have "process_context_switch (of_nat i) (of_nat j) s
      = Some (?s3\<lparr>io_log := l, master_mask := mm, keyboard_disabled := kd,
          esp := saved_esp (slot_entry s j), ebp := saved_ebp (slot_entry s j)\<rparr>)"
    using pcb g j unfolding process_context_switch_def save_context_run [OF ok i]
    by (simp add: slot v k(1) Let_def del: peek_Some_iff)
  then show ?thesis
    by (simp add: map_process_def map_video_def Let_def USER_READ_WRITE_PRESENT_ENABLE_def)
qed


section \<open>Switching away and back\<close>

lemma map_process_dir: "page_directory (map_process pid s) = (page_directory s)[32 := process_frame pid OR 0x87]"
  by (simp add: map_process_def process_index Let_def) (simp add: page_consts process_frame_def)

lemma translate_process:
  assumes "user_page va" and "page_directory t = page_directory (map_process pid r)"
    and "length (page_directory r) = 1024"
  shows "translate user t va = Some (process_frame pid OR (va AND 0x003FFFFF))"
  using assms process_frame_entry [where pid = pid] by (simp add: translate_def user_page_index map_process_dir)

lemma slot_entry_saved:
  "sched_ok s \<Longrightarrow> i < 3 \<Longrightarrow> saved_in s i ! unat (multi_process_idx s ! i)
     = slot_entry s i\<lparr>saved_esp := esp s, saved_ebp := ebp s\<rparr>"
  by (simp add: saved_in_def sched_ok_def)

text \<open>
  C8. Switching from one slot to another and back, whatever the other process did meanwhile with
  the registers and memory, continues the first process: its registers, its pid, its program
  page and its kernel stack are what they were, and the other's registers are saved.
\<close>

theorem context_switch_roundtrip:
  assumes "sched_ok s" and "i < 3" and "j < 3" and "i \<noteq> j"
    and "current_process_pid s = multi_process_idx s ! i"
    and "length (page_directory s) = 1024" and "user_page va"
  shows "\<exists>u v. process_context_switch (of_nat i) (of_nat j) s = Some u
    \<and> process_context_switch (of_nat j) (of_nat i) (u\<lparr>esp := x, ebp := y, mem := m\<rparr>) = Some v
    \<and> esp v = esp s \<and> ebp v = ebp s \<and> current_process_pid v = current_process_pid s \<and> mem v = m
    \<and> translate True u va = Some (process_frame (slot_pid s j) OR (va AND 0x003FFFFF))
    \<and> translate True v va = Some (process_frame (slot_pid s i) OR (va AND 0x003FFFFF))
    \<and> tss_esp0 v = kernel_stack_base (slot_pid s i)
    \<and> saved_esp (slot_entry v j) = x \<and> saved_ebp (slot_entry v j) = y"
proof -
  obtain u where u: "process_context_switch (of_nat i) (of_nat j) s = Some u"
    "all_process u = saved_in s i" "multi_process_idx u = multi_process_idx s" "PCB u = PCB s"
    "page_directory u = page_directory (map_process (slot_pid s j) (map_video (slot_page s j) s))"
    using context_switch_run [OF assms(1-4)] by blast
  define w where "w = u\<lparr>esp := x, ebp := y, mem := m\<rparr>"
  have w: "all_process w = saved_in s i" "multi_process_idx w = multi_process_idx s" "PCB w = PCB s"
    "esp w = x" "ebp w = y" "mem w = m" "page_directory w = page_directory u"
    by (simp_all add: w_def u)
  have okw: "sched_ok w"
    using sched_ok_saved [OF assms(1,2)] by (simp add: sched_ok_def w)
  have entry: "slot_entry w i = slot_entry s i\<lparr>saved_esp := esp s, saved_ebp := ebp s\<rparr>"
    using slot_entry_saved [OF assms(1,2)] by (simp add: slot_entry_def w)
  have pid: "slot_pid w i = slot_pid s i" by (simp add: slot_pid_def entry w)
  obtain v where v: "process_context_switch (of_nat j) (of_nat i) w = Some v"
    "all_process v = saved_in w j" "multi_process_idx v = multi_process_idx w"
    "current_process_pid v = multi_process_idx w ! i"
    "esp v = saved_esp (slot_entry w i)" "ebp v = saved_ebp (slot_entry w i)"
    "page_directory v = page_directory (map_process (slot_pid w i) (map_video (slot_page w i) w))"
    "tss_esp0 v = kernel_stack_base (slot_pid w i)" "mem v = mem w"
    using context_switch_run [OF okw assms(3,2)] assms(4) by blast
  have "length (page_directory u) = 1024" using assms(6) by (simp add: u(5) map_process_dir map_video_def)
  then have len: "length (page_directory (map_video p s)) = 1024" "length (page_directory (map_video p w)) = 1024" for p
    using assms(6) by (simp_all add: map_video_def w(7))
  have other: "unat (multi_process_idx s ! j) \<noteq> unat (multi_process_idx s ! i)"
    using distinct_slots [OF assms(1,3,2)] assms(4) by auto
  have "all_process v ! unat (multi_process_idx s ! j) = slot_entry w j\<lparr>saved_esp := esp w, saved_ebp := ebp w\<rparr>"
    using slot_entry_saved [OF okw assms(3)] by (simp add: v(2) w(2))
  then have "saved_esp (slot_entry v j) = x" "saved_ebp (slot_entry v j) = y"
    by (simp_all add: slot_entry_def v(3) w)
  moreover have "translate True u va = Some (process_frame (slot_pid s j) OR (va AND 0x003FFFFF))"
    "translate True v va = Some (process_frame (slot_pid s i) OR (va AND 0x003FFFFF))"
    using translate_process [OF assms(7) u(5) len(1)] translate_process [OF assms(7) v(7) len(2)] by (simp_all add: pid)
  ultimately show ?thesis
    using u(1) v(1,4-6,8,9) assms(5) by (simp add: entry pid w flip: w_def)
qed


section \<open>The status bar keeps to its row\<close>

definition status_ok :: "'a kernel_state_scheme \<Rightarrow> bool" where
  "status_ok s \<longleftrightarrow> length (multi_process_idx s) = 3 \<and>
     (\<forall>i<3. unat (multi_process_idx s ! i) < length (PCB s)
       \<and> (\<exists>l n. process_label (PCB s ! unat (multi_process_idx s ! i)) = Some (l, n) \<and> n \<le> 126))"

lemma length_copy_into: "copy_into p i cs = Some q \<Longrightarrow> length q = length p"
  by (induction p i cs rule: copy_into.induct) (auto simp: bind_eq_Some_conv poke_Some_iff)

lemma process_label_length: "process_label p = Some (l, n) \<Longrightarrow> length l = 128"
  by (auto simp: process_label_def bind_eq_Some_conv poke_Some_iff dest!: length_copy_into split: if_splits)

lemma status_cell_frame:
  assumes "0 \<le> col" and "col < 80" and "\<not> in_range a 0xB8F00 160"
  shows "put_cell VIDEO (1920 + col) c attr m a = m a"
proof -
  have "cell_addr VIDEO (1920 + col) = cell_addr 0xB8F00 col" by (simp add: cell_addr_def VIDEO_def algebra_simps)
  then show ?thesis using cell_in_area [of col 80 "0xB8F00"] assms by (auto simp: put_cell_def)
qed

lemma draw_status_cell_run:
  assumes "length l = 128" and "n \<le> 126" and "0 \<le> col" and "col < 80"
  shows "\<exists>m'. draw_status_cell l n st color col m = Some m' \<and> (\<forall>a. \<not> in_range a 0xB8F00 160 \<longrightarrow> m' a = m a)"
  using assms status_cell_frame [OF assms(3,4)]
  by (auto simp: draw_status_cell_def screen_consts peek_int_def Let_def)

lemma draw_status_part_run:
  assumes "status_ok s" and "i < 3"
  shows "\<exists>m. draw_status_part i s = Some (s\<lparr>mem := m\<rparr>) \<and> (\<forall>a. \<not> in_range a 0xB8F00 160 \<longrightarrow> m a = mem s a)"
proof -
  obtain l n where l: "unat (multi_process_idx s ! i) < length (PCB s)" "i < length (multi_process_idx s)"
    "process_label (PCB s ! unat (multi_process_idx s ! i)) = Some (l, n)" "n \<le> 126"
    using assms by (auto simp: status_ok_def)
  have len: "length l = 128" using l(3) by (rule process_label_length)
  have "\<exists>m. loop_over [int i * 23 .. (int i + 1) * 23 - 1] (draw_status_cell l n st color) (mem s) = Some m
      \<and> (\<forall>a. \<not> in_range a 0xB8F00 160 \<longrightarrow> m a = mem s a)" for st color
  proof (rule loop_over_invariant)
    show "\<exists>t. draw_status_cell l n st color col m = Some t \<and> (\<forall>a. \<not> in_range a 0xB8F00 160 \<longrightarrow> t a = mem s a)"
      if "col \<in> set [int i * 23 .. (int i + 1) * 23 - 1]" "\<forall>a. \<not> in_range a 0xB8F00 160 \<longrightarrow> m a = mem s a" for col m
      using draw_status_cell_run [OF len l(4), of col st color m] that assms(2) by fastforce
  qed simp
  then obtain m where "loop_over [int i * 23 .. (int i + 1) * 23 - 1]
      (draw_status_cell l n (word_of_int (int i * 23 + 11 - (int n + 2) div 2 + 1))
        (if current_term s = int i then status_bar_colors ! i + 8 else status_bar_colors ! i)) (mem s) = Some m"
      "\<forall>a. \<not> in_range a 0xB8F00 160 \<longrightarrow> m a = mem s a"
    by blast
  with l show ?thesis
    by (auto simp: draw_status_part_def screen_consts MAX_MULTIPROCESS_NUM_def Let_def)
qed

lemma draw_status_bar_run:
  assumes "status_ok s"
  shows "\<exists>m. draw_status_bar s = Some (s\<lparr>mem := m\<rparr>) \<and> (\<forall>a. \<not> in_range a 0xB8F00 160 \<longrightarrow> m a = mem s a)"
proof -
  let ?I = "\<lambda>u. \<exists>m. u = s\<lparr>mem := m\<rparr> \<and> (\<forall>a. \<not> in_range a 0xB8F00 160 \<longrightarrow> m a = mem s a)"
  have "\<exists>u. loop_over [0..<3] draw_status_part s = Some u \<and> ?I u"
  proof (rule loop_over_invariant)
    have "s = s\<lparr>mem := mem s\<rparr>" by simp
    then show "?I s" by metis
    fix i u assume i: "i \<in> set [0..<3]" and u: "?I u"
    then obtain m where m: "u = s\<lparr>mem := m\<rparr>" "\<forall>a. \<not> in_range a 0xB8F00 160 \<longrightarrow> m a = mem s a" by blast
    have "status_ok u" using assms by (simp add: m(1) status_ok_def)
    from draw_status_part_run [OF this, of i] i obtain m' where
      "draw_status_part i u = Some (u\<lparr>mem := m'\<rparr>)" "\<forall>a. \<not> in_range a 0xB8F00 160 \<longrightarrow> m' a = m a"
      by (auto simp: m(1))
    with m show "\<exists>v. draw_status_part i u = Some v \<and> ?I v" by auto
  qed
  then show ?thesis by (auto simp: draw_status_bar_def MAX_MULTIPROCESS_NUM_def)
qed

section \<open>Switching terminals exchanges the pages\<close>

definition backing_page :: "nat \<Rightarrow> u32" where
  "backing_page i = 0xB9000 + of_nat i * 0x1000"

lemma virtual_page: "i < 3 \<Longrightarrow> peek_int virtual_terminal_addresses (int i) = Some (backing_page i)"
  by (auto dest!: less_3_cases simp: virtual_terminal_addresses_def backing_page_def peek_int_def)

lemma in_range_nat:
  "q < 4294967296 \<Longrightarrow> k < 4294967296 \<Longrightarrow> k + n \<le> 4294967296 \<Longrightarrow>
   in_range (of_nat q) (of_nat k) n \<longleftrightarrow> k \<le> q \<and> q < k + n"
  using in_range_of_nat [of q k n 0] by simp

lemma page_nat: "backing_page i + of_nat k = of_nat (757760 + i * 4096 + k)"
  "0xB8000 + of_nat k = (of_nat (753664 + k) :: u32)" "0xB8F00 = (of_nat 757504 :: u32)"
  "backing_page i = of_nat (757760 + i * 4096)" "0xB8000 = (of_nat 753664 :: u32)"
  by (simp_all add: backing_page_def algebra_simps)

text \<open>Addresses of different pages are apart.\<close>

lemma pages_apart:
  assumes "i < 3" and "j < 3" and "k < 4096"
  shows "in_range (backing_page j + of_nat k) (backing_page i) 4096 \<longleftrightarrow> i = j"
    and "\<not> in_range (backing_page j + of_nat k) 0xB8000 4096"
    and "\<not> in_range (0xB8000 + of_nat k) (backing_page i) 4096"
    and "in_range (0xB8000 + of_nat k) 0xB8000 4096"
    and "\<not> in_range (backing_page j + of_nat k) 0xB8F00 160"
    and "k < 3840 \<Longrightarrow> \<not> in_range (0xB8000 + of_nat k) 0xB8F00 160"
proof -
  show "in_range (backing_page j + of_nat k) (backing_page i) 4096 \<longleftrightarrow> i = j"
    unfolding page_nat(1,2) unfolding page_nat(3-5) using assms by (subst in_range_nat) auto
  show "\<not> in_range (backing_page j + of_nat k) 0xB8000 4096"
    unfolding page_nat(1,2) unfolding page_nat(3-5) using assms by (subst in_range_nat) auto
  show "\<not> in_range (0xB8000 + of_nat k) (backing_page i) 4096"
    unfolding page_nat(1,2) unfolding page_nat(3-5) using assms by (subst in_range_nat) auto
  show "in_range (0xB8000 + of_nat k) 0xB8000 4096"
    unfolding page_nat(1,2) unfolding page_nat(3-5) using assms by (subst in_range_nat) auto
  show "\<not> in_range (backing_page j + of_nat k) 0xB8F00 160"
    unfolding page_nat(1,2) unfolding page_nat(3-5) using assms by (subst in_range_nat) auto
  show "k < 3840 \<Longrightarrow> \<not> in_range (0xB8000 + of_nat k) 0xB8F00 160"
    unfolding page_nat(1,2) unfolding page_nat(3-5) using assms by (subst in_range_nat) auto
qed


lemma in_status_row: "in_range a 0xB8F00 160 \<Longrightarrow> in_range a 0xB8000 4096"
proof -
  assume r: "in_range a 0xB8F00 160"
  have "a - 0xB8000 = (a - 0xB8F00) + of_nat 3840" by (simp add: algebra_simps)
  moreover have "unat ((a - 0xB8F00) + of_nat 3840) = unat (a - 0xB8F00) + 3840"
    using r by (subst unat_add_small) (simp_all add: in_range_def)
  ultimately show "in_range a 0xB8000 4096" using r by (simp add: in_range_def)
qed

text \<open>The memory after the two copies.\<close>

definition swapped :: "nat \<Rightarrow> nat \<Rightarrow> mem \<Rightarrow> mem" where
  "swapped i j m = memcpy 0xB8000 (backing_page j) 0x1000 (memcpy (backing_page i) 0xB8000 0x1000 m)"

lemma swapped_mem:
  assumes "i < 3" and "j < 3" and "i \<noteq> j"
  shows "k < 4096 \<Longrightarrow> swapped i j m (0xB8000 + of_nat k) = m (backing_page j + of_nat k)"
    and "k < 4096 \<Longrightarrow> swapped i j m (backing_page i + of_nat k) = m (0xB8000 + of_nat k)"
    and "\<not> in_range a 0xB8000 4096 \<Longrightarrow> \<not> in_range a (backing_page i) 4096 \<Longrightarrow> swapped i j m a = m a"
proof -
  have ok: "copy_ok (backing_page i) 0xB8000 4096" "copy_ok 0xB8000 (backing_page j) 4096"
    using assms(1,2) by (auto dest!: less_3_cases simp: copy_ok_def backing_page_def)
  have eq: "swapped i j m = copy_block (copy_block m (backing_page i) 0xB8000 4096) 0xB8000 (backing_page j) 4096"
    using memcpy_copy [of "backing_page i" "0xB8000" "0x1000"] memcpy_copy [of "0xB8000" "backing_page j" "0x1000"] ok
    by (simp add: swapped_def)
  show "k < 4096 \<Longrightarrow> swapped i j m (0xB8000 + of_nat k) = m (backing_page j + of_nat k)"
    using pages_apart(1,4) [of i j k] assms by (simp add: eq copy_block_def)
  show "k < 4096 \<Longrightarrow> swapped i j m (backing_page i + of_nat k) = m (0xB8000 + of_nat k)"
    using pages_apart(1,2) [of i i k] assms by (simp add: eq copy_block_def)
  show "\<not> in_range a 0xB8000 4096 \<Longrightarrow> \<not> in_range a (backing_page i) 4096 \<Longrightarrow> swapped i j m a = m a"
    by (simp add: eq copy_block_def)
qed

text \<open>The steps of \<open>terminal_switch\<close> up to the context switch.\<close>

lemma terminal_switch_run:
  assumes "status_ok s" and "length (three_terminals s) = 3"
    and "current_term s = int i" and "i < 3" and "j < 3" and "i \<noteq> j"
  shows "\<exists>m log ts. (\<forall>a. \<not> in_range a 0xB8F00 160 \<longrightarrow> m a = swapped i j (mem s) a)
    \<and> length ts = length (three_terminals s)
    \<and> terminal_switch (int j) flag s =
      (let u = s\<lparr>mem := m, io_log := log, three_terminals := ts, current_term := int j\<rparr>
       in if flag \<noteq> 0 then process_context_switch (of_nat i) (of_nat j) (u\<lparr>current_multiprocess := of_nat j\<rparr>)
          else Some u)"
proof -
  let ?s1 = "s\<lparr>mem := swapped i j (mem s), current_term := int j\<rparr>"
  let ?t = "three_terminals s ! j"
  let ?s2 = "with_term (?s1\<lparr>io_log := io_log s @ cursor_writes (max 0 (cursor_loc ?t))\<rparr>) j
     (?t\<lparr>cursor_loc := max 0 (cursor_loc ?t)\<rparr>, swapped i j (mem s))"
  have j: "j < length (three_terminals ?s1)" using assms by simp
  have "with_term ?s1 j (?t, swapped i j (mem s)) = ?s1"
    using with_term_self [OF j] by simp
  then have cursor: "move_cursor (cursor_loc ?t) ?s1 = Some ?s2"
    using move_cursor_with [of ?s1 j "cursor_loc ?t" ?t "swapped i j (mem s)"] j by simp
  have "status_ok ?s2" using assms(1) by (simp add: status_ok_def with_term_def)
  from draw_status_bar_run [OF this] obtain m where m: "draw_status_bar ?s2 = Some (?s2\<lparr>mem := m\<rparr>)"
    "\<forall>a. \<not> in_range a 0xB8F00 160 \<longrightarrow> m a = swapped i j (mem s) a" by (auto simp: with_term_def)
  have idx: "(word_of_int (int i) :: u8) = of_nat i" "(word_of_int (int j) :: u8) = of_nat j"
    "peek_int (three_terminals ?s1) (int j) = Some ?t"
    using j by (simp_all add: peek_int_def)
  let ?u = "s\<lparr>mem := m, io_log := io_log ?s2, three_terminals := three_terminals ?s2, current_term := int j\<rparr>"
  have u: "?s2\<lparr>mem := m\<rparr> = ?u" by (simp add: with_term_def)
  have "terminal_switch (int j) flag s = (if flag \<noteq> 0
      then process_context_switch (of_nat i) (of_nat j) (?u\<lparr>current_multiprocess := of_nat j\<rparr>) else Some ?u)"
    using assms(3-6) cursor m(1) idx(3)
    by (simp add: terminal_switch_def virtual_page VISUAL_VIRTUAL_ADDR_def idx(1,2) Let_def u
        flip: swapped_def)
  moreover have "length (three_terminals ?s2) = length (three_terminals s)" by (simp add: with_term_def)
  ultimately show ?thesis using m(2) unfolding Let_def by blast
qed

text \<open>
  C24. Displaying another terminal saves the screen in the old terminal's page and brings the new
  terminal's page to the screen (its text rows; the status row is redrawn), changes no other
  memory, and, once the terminals run, hands the processor to the new terminal's process.
\<close>

theorem terminal_switch_swaps:
  assumes "status_ok s" and "sched_ok s" and "length (three_terminals s) = 3"
    and "current_term s = int i" and "i < 3" and "j < 3" and "i \<noteq> j"
  shows "\<exists>u. terminal_switch (int j) flag s = Some u \<and> current_term u = int j
    \<and> (\<forall>k<3840. mem u (0xB8000 + of_nat k) = mem s (backing_page j + of_nat k))
    \<and> (\<forall>k<4096. mem u (backing_page i + of_nat k) = mem s (0xB8000 + of_nat k))
    \<and> (\<forall>a. \<not> in_range a 0xB8000 4096 \<and> \<not> in_range a (backing_page i) 4096 \<longrightarrow> mem u a = mem s a)
    \<and> (flag \<noteq> 0 \<longrightarrow> current_process_pid u = multi_process_idx s ! j \<and> current_multiprocess u = of_nat j)"
proof -
  obtain m log ts where m: "\<forall>a. \<not> in_range a 0xB8F00 160 \<longrightarrow> m a = swapped i j (mem s) a"
    and run: "terminal_switch (int j) flag s =
      (let u = s\<lparr>mem := m, io_log := log, three_terminals := ts, current_term := int j\<rparr>
       in if flag \<noteq> 0 then process_context_switch (of_nat i) (of_nat j) (u\<lparr>current_multiprocess := of_nat j\<rparr>)
          else Some u)"
    using terminal_switch_run [OF assms(1,3-7)] by blast
  let ?u = "s\<lparr>mem := m, io_log := log, three_terminals := ts, current_term := int j, current_multiprocess := of_nat j\<rparr>"
  have "sched_ok ?u" using assms(2) by (simp add: sched_ok_def)
  from context_switch_run [OF this assms(5-7)] obtain v where
    "process_context_switch (of_nat i) (of_nat j) ?u = Some v" "mem v = m" "current_term v = int j"
    "current_process_pid v = multi_process_idx s ! j" "current_multiprocess v = of_nat j" by auto
  with run obtain u where u: "terminal_switch (int j) flag s = Some u" "mem u = m" "current_term u = int j"
    "flag \<noteq> 0 \<longrightarrow> current_process_pid u = multi_process_idx s ! j \<and> current_multiprocess u = of_nat j"
    by (cases "flag \<noteq> 0") auto
  note sw = swapped_mem [OF assms(5-7)]
  have "m (0xB8000 + of_nat k) = mem s (backing_page j + of_nat k)" if "k < 3840" for k
    using sw(1) [of k] m pages_apart(6) [OF assms(5,6), of k] that by simp
  moreover have "m (backing_page i + of_nat k) = mem s (0xB8000 + of_nat k)" if "k < 4096" for k
    using sw(2) [of k] m pages_apart(5) [OF assms(5,5), of k] that by simp
  moreover have "m a = mem s a" if "\<not> in_range a 0xB8000 4096" "\<not> in_range a (backing_page i) 4096" for a
  proof -
    have "\<not> in_range a 0xB8F00 160" using that(1) in_status_row by blast
    with m sw(3) [OF that, of "mem s"] show ?thesis by simp
  qed
  ultimately show ?thesis using u by auto
qed


section \<open>Witnesses\<close>

lemma tiny_kernel_sched: "sched_ok tiny_kernel"
  unfolding sched_ok_def all_less_3 by (simp add: tiny_kernel_def)

lemma tiny_kernel_label: "process_label (tiny_pcb r) = Some (replicate 128 0, 0)"
proof -
  have "strlen (replicate 122 0) = Some 0"
    unfolding strlen_def by (subst strlen_from.simps) simp
  moreover have "(replicate 128 0)[0 := 0] = replicate 128 (0 :: u8)"
    by (rule list_update_same_conv [THEN iffD2]) simp_all
  ultimately show ?thesis by (simp add: process_label_def tiny_pcb_def)
qed

lemma tiny_kernel_status: "status_ok tiny_kernel"
  unfolding status_ok_def all_less_3
  by (simp add: tiny_kernel_def tiny_kernel_label)

theorem context_switch_roundtrip_witness:
  "\<exists>u v. process_context_switch 0 1 tiny_kernel = Some u
     \<and> process_context_switch 1 0 (u\<lparr>esp := 7, ebp := 8, mem := (\<lambda>_. 0)\<rparr>) = Some v
     \<and> esp v = 0 \<and> current_process_pid v = 0"
  using context_switch_roundtrip [OF tiny_kernel_sched, where i = 0 and j = 1 and va = "0x08048000" and x = 7 and y = 8 and m = "\<lambda>_. 0"]
  by (auto simp: user_page_def tiny_kernel_def)

theorem terminal_switch_swaps_witness:
  "\<exists>u. terminal_switch (int 2) 1 tiny_kernel = Some u \<and> current_term u = 2 \<and> current_process_pid u = 2"
  using terminal_switch_swaps [OF tiny_kernel_status tiny_kernel_sched, of 0 2 1]
  by (auto simp: tiny_kernel_def)

end
