(* ===== verification/Keyboard.thy ===== *)
theory Keyboard
  imports Switching
begin

text \<open>
  The input side of the terminals, \<open>src/devices/keyboard.c\<close>: the scan code handler with its
  modifier keys, the line editing it drives (insertion, deletion, tab, moving inside the line,
  recalling commands, clearing the screen, entering the line), and \<open>terminal_read\<close> of
  \<open>src/devices/terminal.c\<close>, which waits for an entered line and delivers it.

  Editing works on the displayed terminal, whose page is the screen. The line being edited is
  the part of \<open>live_buffer\<close> between \<open>bytes_written\<close> (behind the prompt) and \<open>bytes_read\<close>;
  \<open>live_buffer_location\<close> is the place of the cursor in it.
\<close>

section \<open>Constants\<close>

definition KEYBOARD_DATA_PORT :: u16 where "KEYBOARD_DATA_PORT = 0x60"
definition KEYBOARD_STATUS_PORT :: u16 where "KEYBOARD_STATUS_PORT = 0x64"
definition LCTRL :: u8 where "LCTRL = 29"
definition LSHIFT :: u8 where "LSHIFT = 42"
definition RSHIFT :: u8 where "RSHIFT = 54"
definition ALT :: u8 where "ALT = 56"
definition CAPS_LOCK :: u8 where "CAPS_LOCK = 58"
definition BACKSPACE :: u8 where "BACKSPACE = 14"
definition ENTER :: u8 where "ENTER = 28"
definition TAB :: u8 where "TAB = 15"
definition KEY_UP :: u8 where "KEY_UP = 0x48"
definition KEY_DOWN :: u8 where "KEY_DOWN = 0x50"
definition KEY_RIGHT :: u8 where "KEY_RIGHT = 0x4D"
definition KEY_LEFT :: u8 where "KEY_LEFT = 0x4B"
definition ENTER_SPAM_RATE :: u8 where "ENTER_SPAM_RATE = 1"
definition MIN_ALPHABET :: u8 where "MIN_ALPHABET = 97"
definition MAX_ALPHABET :: u8 where "MAX_ALPHABET = 122"
definition MAX_ASCII :: u8 where "MAX_ASCII = 128"
definition RELEASE_OFFSET :: u8 where "RELEASE_OFFSET = 0x80"
definition ALT_OFFSET :: nat where "ALT_OFFSET = 57"

lemmas key_consts = KEYBOARD_DATA_PORT_def KEYBOARD_STATUS_PORT_def LCTRL_def LSHIFT_def RSHIFT_def
  ALT_def CAPS_LOCK_def BACKSPACE_def ENTER_def TAB_def KEY_UP_def KEY_DOWN_def KEY_RIGHT_def
  KEY_LEFT_def ENTER_SPAM_RATE_def MIN_ALPHABET_def MAX_ALPHABET_def MAX_ASCII_def
  RELEASE_OFFSET_def ALT_OFFSET_def

text \<open>The characters of the scan codes; 57 places further, those typed with shift.\<close>

definition printable_scan_codes :: "u8 list" where
  "printable_scan_codes =
    [0, 0, 49, 50, 51, 52, 53, 54, 55, 56, 57, 48, 45, 61, 0, 0, 113, 119, 101, 114, 116, 121,
     117, 105, 111, 112, 91, 93, 0, 0, 97, 115, 100, 102, 103, 104, 106, 107, 108, 59, 39, 96,
     0, 92, 122, 120, 99, 118, 98, 110, 109, 44, 46, 47, 0, 0, 0, 32, 0, 33, 64, 35, 36, 37,
     94, 38, 42, 40, 41, 95, 43, 0, 0, 81, 87, 69, 82, 84, 89, 85, 73, 79, 80, 123, 125, 0, 0,
     65, 83, 68, 70, 71, 72, 74, 75, 76, 58, 34, 126, 0, 124, 90, 88, 67, 86, 66, 78, 77, 60,
     62, 63, 0, 0, 0, 32]"

section \<open>Moving inside the line\<close>

text \<open>The text position belonging to a cursor location; C division truncates.\<close>

definition place_cursor :: "int \<Rightarrow> terminal_t \<Rightarrow> terminal_t" where
  "place_cursor loc t = t\<lparr>cursor_loc := loc, term_screen_x := loc smod NUM_COLS, term_screen_y := loc sdiv NUM_COLS\<rparr>"

definition cursor_left :: "'a kernel_state_scheme \<Rightarrow> 'a kernel_state_scheme option" where
  "cursor_left s = do {
     t \<leftarrow> cur_term s;
     if live_buffer_location t > bytes_written t then do {
       let t = place_cursor (cursor_loc t - 1) t;
       s \<leftarrow> set_cur t s;
       s \<leftarrow> move_cursor (cursor_loc t) s;
       t \<leftarrow> cur_term s;
       set_cur (t\<lparr>live_buffer_location := live_buffer_location t - 1\<rparr>) s
     }
     else Some s
   }"

text \<open>\<open>bytes_read\<close> is not a local variable here: the global of that name is assigned.\<close>

definition cursor_right :: "'a kernel_state_scheme \<Rightarrow> 'a kernel_state_scheme option" where
  "cursor_right s = do {
     t \<leftarrow> cur_term s;
     let s = s\<lparr>g_bytes_read := bytes_read t\<rparr>;
     if \<not> (term_screen_y t = NUM_ROWS - 1 \<and> term_screen_x t = NUM_COLS - 1)
        \<and> live_buffer_location t < g_bytes_read s then do {
       let t = place_cursor (cursor_loc t + 1) t;
       s \<leftarrow> set_cur t s;
       s \<leftarrow> move_cursor (cursor_loc t) s;
       t \<leftarrow> cur_term s;
       set_cur (t\<lparr>live_buffer_location := live_buffer_location t + 1\<rparr>) s
     }
     else Some s
   }"

section \<open>Insertion\<close>

text \<open>One round of the loop that makes room: the line and the screen move one place right.\<close>

definition shift_right :: "int \<Rightarrow> int \<Rightarrow> u8 list \<times> mem \<Rightarrow> (u8 list \<times> mem) option" where
  "shift_right row idx lm = do {
     let (live, m) = lm;
     c \<leftarrow> peek_int live idx;
     live \<leftarrow> poke_int live (idx + 1) c;
     Some (live, setc_multi (idx + 1) row (getc_multi idx row VISUAL_VIRTUAL_ADDR m) VISUAL_VIRTUAL_ADDR m)
   }"

text \<open>\<open>for (idx = bytes_read - 1; idx >= live_buffer_location; idx--)\<close>\<close>

definition make_room :: "terminal_t \<Rightarrow> mem \<Rightarrow> (u8 list \<times> mem) option" where
  "make_room t m =
     (if live_buffer_location t < bytes_read t
      then loop_over (rev [live_buffer_location t .. bytes_read t - 1]) (shift_right (row_index t)) (live_buffer t, m)
      else Some (live_buffer t, m))"

text \<open>What \<open>output_char\<close> does once, and \<open>tab\<close> four times: scroll if needed, insert, print.\<close>

definition insert_char :: "u8 \<Rightarrow> 'a kernel_state_scheme \<Rightarrow> 'a kernel_state_scheme option" where
  "insert_char c s = do {
     t \<leftarrow> cur_term s;
     let line_estimate = (if bytes_read t \<ge> NUM_COLS then 1 else 0);
     s \<leftarrow> (if line_estimate + row_index t \<ge> NUM_ROWS - STATUS_BAR_HEIGHT
           then do {
             s \<leftarrow> terminal_scroll s;
             t \<leftarrow> cur_term s;
             set_cur (t\<lparr>cursor_loc := cursor_loc t + NUM_COLS\<rparr>) s
           }
           else Some s);
     t \<leftarrow> cur_term s;
     (live, m) \<leftarrow> make_room t (mem s);
     live \<leftarrow> poke_int live (live_buffer_location t) c;
     s \<leftarrow> set_cur (t\<lparr>live_buffer := live\<rparr>) (s\<lparr>mem := m\<rparr>);
     s \<leftarrow> putc_multi c VISUAL_VIRTUAL_ADDR (nat (current_term s)) s;
     t \<leftarrow> cur_term s;
     set_cur (t\<lparr>bytes_read := bytes_read t + 1, live_buffer_location := live_buffer_location t + 1\<rparr>) s
   }"

text \<open>Moving the cursor by \<open>n\<close> places and showing it.\<close>

definition advance_cursor :: "int \<Rightarrow> 'a kernel_state_scheme \<Rightarrow> 'a kernel_state_scheme option" where
  "advance_cursor n s = do {
     t \<leftarrow> cur_term s;
     s \<leftarrow> set_cur (t\<lparr>cursor_loc := cursor_loc t + n\<rparr>) s;
     move_cursor (cursor_loc t + n) s
   }"

definition output_char :: "u8 \<Rightarrow> 'a kernel_state_scheme \<Rightarrow> 'a kernel_state_scheme option" where
  "output_char c s = do {
     t \<leftarrow> cur_term s;
     if bytes_read t < int CHAR_BUFFER_SIZE - 1 + bytes_written t
     then do { s \<leftarrow> insert_char c s; advance_cursor 1 s }
     else Some s
   }"

definition tab :: "u8 \<Rightarrow> 'a kernel_state_scheme \<Rightarrow> 'a kernel_state_scheme option" where
  "tab c s = do {
     t \<leftarrow> cur_term s;
     if bytes_read t + 3 < int CHAR_BUFFER_SIZE - 1 + bytes_written t
     then do { s \<leftarrow> loop_over [0..<4] (\<lambda>tab_counter. insert_char c) s; advance_cursor 4 s }
     else Some s
   }"

section \<open>Deletion\<close>

definition shift_left :: "int \<Rightarrow> int \<Rightarrow> u8 list \<times> mem \<Rightarrow> (u8 list \<times> mem) option" where
  "shift_left row idx lm = do {
     let (live, m) = lm;
     c \<leftarrow> peek_int live (idx + 1);
     live \<leftarrow> poke_int live idx c;
     Some (live, setc_multi idx row (getc_multi (idx + 1) row VISUAL_VIRTUAL_ADDR m) VISUAL_VIRTUAL_ADDR m)
   }"

text \<open>
  \<open>for (idx = live_buffer_location; idx < bytes_read + 1; idx++)\<close>, and the place behind the loop
  is cleared.
\<close>

definition close_gap :: "terminal_t \<Rightarrow> mem \<Rightarrow> (u8 list \<times> mem) option" where
  "close_gap t m = do {
     (live, m) \<leftarrow> loop_over [live_buffer_location t .. bytes_read t] (shift_left (row_index t)) (live_buffer t, m);
     live \<leftarrow> poke_int live (bytes_read t + 1) 0;
     Some (live, setc_multi (bytes_read t + 1) (row_index t) 0 VISUAL_VIRTUAL_ADDR m)
   }"

definition backspace :: "'a kernel_state_scheme \<Rightarrow> 'a kernel_state_scheme option" where
  "backspace s = do {
     t \<leftarrow> cur_term s;
     if live_buffer_location t > bytes_written t then do {
       let t = t\<lparr>bytes_read := bytes_read t - 1, live_buffer_location := live_buffer_location t - 1\<rparr>;
       let cursor_flag = (bytes_read t \<ge> 0);
       let t = (if bytes_read t < 0 then t\<lparr>bytes_read := 0\<rparr> else t);
       live \<leftarrow> poke_int (live_buffer t) (live_buffer_location t) 0;
       let t = t\<lparr>live_buffer := live\<rparr>;
       let t = (if term_screen_x t = 0
                then t\<lparr>term_screen_x := NUM_COLS - 1, term_screen_y := term_screen_y t - 1\<rparr>
                else t\<lparr>term_screen_x := term_screen_x t - 1\<rparr>);
       (live, m) \<leftarrow>
         (if live_buffer_location t < bytes_read t then close_gap t (mem s)
          else Some (live_buffer t,
                 setc_multi (term_screen_x t) (term_screen_y t) 0 VISUAL_VIRTUAL_ADDR (mem s)));
       let t = t\<lparr>live_buffer := live\<rparr>;
       s \<leftarrow> set_cur t (s\<lparr>mem := m\<rparr>);
       if cursor_loc t > 0 \<and> cursor_flag then advance_cursor (-1) s else Some s
     }
     else Some s
   }"

section \<open>Entering the line and clearing the screen\<close>

text \<open>The copy of the entered line to the history.\<close>

definition enter_history :: "terminal_t \<Rightarrow> u8 list list option" where
  "enter_history t =
     loop_over [0 .. bytes_read t - 1]
       (\<lambda>idx h. do {
          c \<leftarrow> peek_int (live_buffer t) idx;
          if idx \<ge> NUM_COLS \<and> row_index t + 1 < NUM_ROWS - STATUS_BAR_HEIGHT
          then poke2 h (row_index t + 1) (idx - NUM_COLS) c
          else poke2 h (row_index t) idx c
        }) (history_buffer t)"

text \<open>\<open>for (idx = 0; idx < n; idx++) dst[idx] = src[idx];\<close>\<close>

definition copy_first :: "int \<Rightarrow> u8 list \<Rightarrow> u8 list \<Rightarrow> u8 list option" where
  "copy_first n src dst =
     loop_over [0 .. n - 1] (\<lambda>idx dst. do { c \<leftarrow> peek_int src idx; poke_int dst idx c }) dst"

definition enter_line :: "terminal_t \<Rightarrow> terminal_t option" where
  "enter_line t = do {
     h \<leftarrow> enter_history t;
     let t = t\<lparr>history_buffer := h\<rparr>;
     let t = t\<lparr>row_index := row_index t + (if bytes_read t > NUM_COLS then 2 else 1)\<rparr>;
     store \<leftarrow> copy_first (bytes_read t) (live_buffer t) (live_buffer_store t);
     store \<leftarrow> poke_int store (bytes_read t) 10;
     live \<leftarrow> loop_over [0 .. bytes_read t - 1] (\<lambda>idx l. poke_int l idx 0) (live_buffer t);
     Some (t\<lparr>live_buffer_store := store, live_buffer := live, bytes_read_store := bytes_read t,
             bytes_read := 0, live_buffer_location := 0\<rparr>)
   }"

text \<open>The scrolling test reads the global \<open>row_index\<close>, not the terminal's.\<close>

definition new_line :: "'a kernel_state_scheme \<Rightarrow> 'a kernel_state_scheme option" where
  "new_line s = do {
     t \<leftarrow> cur_term s;
     t \<leftarrow> enter_line t;
     s \<leftarrow> set_cur t s;
     s \<leftarrow> putc_multi 10 VISUAL_VIRTUAL_ADDR (nat (current_term s)) s;
     s \<leftarrow> (if g_row_index s \<ge> NUM_ROWS - STATUS_BAR_HEIGHT then terminal_scroll s else Some s);
     t \<leftarrow> cur_term s;
     let t = (if bytes_written t > 0 then t\<lparr>bytes_written := 0\<rparr> else t);
     let t = t\<lparr>cursor_loc := (cursor_loc t sdiv NUM_COLS + 1) * NUM_COLS\<rparr>;
     s \<leftarrow> set_cur t s;
     move_cursor (cursor_loc t) s
   }"

definition reprint_char :: "int \<Rightarrow> 'a kernel_state_scheme \<Rightarrow> 'a kernel_state_scheme option" where
  "reprint_char idx s = do {
     t \<leftarrow> cur_term s;
     c \<leftarrow> peek_int (live_buffer t) idx;
     h \<leftarrow> poke2 (history_buffer t) (row_index t) idx c;
     s \<leftarrow> set_cur (t\<lparr>history_buffer := h\<rparr>) s;
     s \<leftarrow> putc_multi c VISUAL_VIRTUAL_ADDR (nat (current_term s)) s;
     t \<leftarrow> cur_term s;
     s \<leftarrow> set_cur (place_cursor (cursor_loc t + 1) t) s;
     move_cursor (cursor_loc t + 1) s
   }"

definition buffer_clear :: "'a kernel_state_scheme \<Rightarrow> 'a kernel_state_scheme option" where
  "buffer_clear s = do {
     t \<leftarrow> cur_term s;
     s \<leftarrow> set_cur (t\<lparr>cursor_loc := 0\<rparr>) s;
     s \<leftarrow> move_cursor 0 s;
     t \<leftarrow> cur_term s;
     s \<leftarrow> set_cur (t\<lparr>history_buffer := blank_history (history_buffer t)\<rparr>) s;
     s \<leftarrow> clear_multi VISUAL_VIRTUAL_ADDR (nat (current_term s)) s;
     t \<leftarrow> cur_term s;
     s \<leftarrow> set_cur (t\<lparr>row_index := 0\<rparr>) s;
     s \<leftarrow> loop_over [0 .. bytes_read t - 1] reprint_char s;
     t \<leftarrow> cur_term s;
     set_cur (t\<lparr>live_buffer_location := bytes_read t\<rparr>) s
   }"

section \<open>Recalling commands\<close>

text \<open>
  The line being typed is put aside when recalling begins. The length used is the global
  \<open>bytes_read_store\<close>, just copied from the terminal: that of the last entered line.
\<close>

definition put_aside :: "'a kernel_state_scheme \<Rightarrow> 'a kernel_state_scheme option" where
  "put_aside s = do {
     t \<leftarrow> cur_term s;
     let s = s\<lparr>g_bytes_written := bytes_written t, g_bytes_read_store := bytes_read_store t\<rparr>;
     if view_command_row t = write_command_row t then do {
       temp \<leftarrow> loop_over [0 .. int SCREEN_SIZE - 1]
         (\<lambda>idx temp. if idx < g_bytes_read_store s
            then do { c \<leftarrow> peek_int (live_buffer t) (g_bytes_written s + idx); poke_int temp idx c }
            else poke_int temp idx 0) (temp_commands t);
       set_cur (t\<lparr>temp_commands := temp, temp_bytes_read := bytes_read t\<rparr>) s
     }
     else Some s
   }"

definition erase_line :: "'a kernel_state_scheme \<Rightarrow> 'a kernel_state_scheme option" where
  "erase_line s = loop_over [0..<CHAR_BUFFER_SIZE] (\<lambda>idx. backspace) s"

text \<open>
  The loops that type a recalled command: until a zero byte of its row in the command buffer,
  or the end of the row. \<open>from_temp\<close> takes the characters from the line put aside instead.
\<close>

fun retype :: "nat \<Rightarrow> nat \<Rightarrow> int \<Rightarrow> bool \<Rightarrow> 'a kernel_state_scheme \<Rightarrow> 'a kernel_state_scheme option" where
  "retype 0 idx view_row from_temp s = Some s"
| "retype (Suc n) idx view_row from_temp s = do {
     t \<leftarrow> cur_term s;
     row \<leftarrow> peek_int (command_buffer t) view_row;
     c \<leftarrow> peek row idx;
     if c = 0 then Some s
     else do {
       c \<leftarrow> (if from_temp then peek (temp_commands t) idx else Some c);
       s \<leftarrow> output_char c s;
       retype n (idx + 1) view_row from_temp s
     }
   }"

definition prev_command :: "'a kernel_state_scheme \<Rightarrow> 'a kernel_state_scheme option" where
  "prev_command s = do {
     s \<leftarrow> put_aside s;
     t \<leftarrow> cur_term s;
     if view_command_row t > 0 then do {
       let view_row = view_command_row t - 1;
       s \<leftarrow> set_cur (t\<lparr>view_command_row := view_row\<rparr>) s;
       s \<leftarrow> erase_line s;
       retype CHAR_BUFFER_SIZE 0 view_row False s
     }
     else Some s
   }"

definition next_command :: "'a kernel_state_scheme \<Rightarrow> 'a kernel_state_scheme option" where
  "next_command s = do {
     s \<leftarrow> put_aside s;
     t \<leftarrow> cur_term s;
     let write_row = write_command_row t;
     if view_command_row t < write_row then do {
       let view_row = view_command_row t + 1;
       s \<leftarrow> set_cur (t\<lparr>view_command_row := view_row\<rparr>) s;
       s \<leftarrow> erase_line s;
       retype CHAR_BUFFER_SIZE 0 view_row (\<not> view_row \<le> write_row - 1) s
     }
     else Some s
   }"

section \<open>Keys\<close>

text \<open>The four bytes of the parse buffer: character, control, backspace, tab.\<close>

definition read_parser :: "u8 \<Rightarrow> u8 \<Rightarrow> u8 \<Rightarrow> u8 \<Rightarrow> 'a kernel_state_scheme \<Rightarrow> 'a kernel_state_scheme option" where
  "read_parser c ctrl bsp tb s = do {
     t \<leftarrow> cur_term s;
     if read_in_progress t = 0 then Some s
     else if c = 10 then new_line s
     else if ctrl = 49 \<and> (c = 108 \<or> c = 76) then buffer_clear s
     else if bsp = 49 then backspace s
     else if tb = 49 then tab c s
     else output_char c s
   }"

text \<open>Filling the global parse buffer and parsing it.\<close>

definition parse_key :: "u8 \<Rightarrow> u8 \<Rightarrow> u8 \<Rightarrow> u8 \<Rightarrow> 'a kernel_state_scheme \<Rightarrow> 'a kernel_state_scheme option" where
  "parse_key c ctrl bsp tb s = read_parser c ctrl bsp tb (s\<lparr>parse_buffer := [c, ctrl, bsp, tb]\<rparr>)"

definition keyboard_init :: "'a kernel_state_scheme \<Rightarrow> 'a kernel_state_scheme option" where
  "keyboard_init s = do {
     s \<leftarrow> enable_cursor (enable_irq KEYBOARD_IRQ s);
     Some (s\<lparr>shift_pressed := 0, ctrl_pressed := 0, caps_pressed := 0, key_pressed := 0, current_key := 0,
            enter_pressed := 0, spam_enters_received := 0, handled_enter := 1\<rparr>)
   }"

text \<open>The character of a key that is not a special key: \<open>'\0'\<close> for a release.\<close>

definition key_char :: "u8 \<Rightarrow> 'a kernel_state_scheme \<Rightarrow> (u8 \<times> 'a kernel_state_scheme) option" where
  "key_char keycode s =
     (if keycode < MAX_ASCII then do {
        let s = s\<lparr>key_pressed := 1\<rparr>;
        let idx_offset = (if shift_pressed s = 0 \<and> caps_pressed s \<noteq> 0 \<or> shift_pressed s \<noteq> 0 \<and> caps_pressed s = 0
                          then ALT_OFFSET else 0);
        c \<leftarrow> peek printable_scan_codes (unat keycode);
        let idx_offset = (if (c < MIN_ALPHABET \<or> c > MAX_ALPHABET) \<and> caps_pressed s \<noteq> 0
                          then (if shift_pressed s \<noteq> 0 then ALT_OFFSET else 0) else idx_offset);
        d \<leftarrow> peek printable_scan_codes (unat keycode + idx_offset);
        Some (d, s)
      }
      else Some (0, s\<lparr>key_pressed := 0\<rparr>))"

definition enter_key :: "'a kernel_state_scheme \<Rightarrow> 'a kernel_state_scheme option" where
  "enter_key s = do {
     s \<leftarrow> (if enter_pressed s = 0 \<or> spam_enters_received s > ENTER_SPAM_RATE
           then do {
             let s = s\<lparr>enter_pressed := 1\<rparr>;
             s \<leftarrow> parse_key 10 48 49 48 s;
             Some (s\<lparr>spam_enters_received := 0\<rparr>)
           }
           else Some s);
     let s = (if enter_pressed s \<noteq> 0 then s\<lparr>spam_enters_received := spam_enters_received s + 1\<rparr> else s);
     Some (s\<lparr>enter_pressed := 1\<rparr>)
   }"

text \<open>The first half of the handler: special keys act, other keys give their character.\<close>

definition handle_keycode :: "u8 \<Rightarrow> 'a kernel_state_scheme \<Rightarrow> (u8 \<times> 'a kernel_state_scheme) option" where
  "handle_keycode keycode s =
     (let done = map_option (Pair 0) in
      if keycode = LCTRL then Some (0, s\<lparr>ctrl_pressed := 1\<rparr>)
      else if keycode = LCTRL + RELEASE_OFFSET then Some (0, s\<lparr>ctrl_pressed := 0\<rparr>)
      else if keycode = LSHIFT \<or> keycode = RSHIFT then Some (0, s\<lparr>shift_pressed := 1\<rparr>)
      else if keycode = LSHIFT + RELEASE_OFFSET \<or> keycode = RSHIFT + RELEASE_OFFSET
        then Some (0, s\<lparr>shift_pressed := 0\<rparr>)
      else if keycode = CAPS_LOCK then Some (0, s\<lparr>caps_pressed := 1 - caps_pressed s\<rparr>)
      else if keycode = ALT then Some (0, s\<lparr>alt_pressed := 1\<rparr>)
      else if keycode = ALT + RELEASE_OFFSET then Some (0, s\<lparr>alt_pressed := 0\<rparr>)
      else if keycode = ENTER then done (enter_key s)
      else if keycode = ENTER + RELEASE_OFFSET then Some (0, s\<lparr>enter_pressed := 0\<rparr>)
      else if keycode = BACKSPACE then done (parse_key 48 48 49 48 s)
      else if keycode = TAB then done (parse_key 32 48 48 49 s)
      else if keycode = KEY_UP then done (prev_command s)
      else if keycode = KEY_DOWN then done (next_command s)
      else if keycode = KEY_LEFT then done (cursor_left s)
      else if keycode = KEY_RIGHT then done (cursor_right s)
      else key_char keycode s)"

text \<open>The second half: terminal keys, typed characters, control-L.\<close>

definition handle_char :: "u8 \<Rightarrow> 'a kernel_state_scheme \<Rightarrow> 'a kernel_state_scheme option" where
  "handle_char c s =
     (if c = 33 \<and> shift_pressed s \<noteq> 1 \<and> alt_pressed s \<noteq> 0 then terminal_switch 0 1 s
      else if c = 64 \<and> shift_pressed s \<noteq> 1 \<and> alt_pressed s \<noteq> 0 then terminal_switch 1 1 s
      else if c = 35 \<and> shift_pressed s \<noteq> 1 \<and> alt_pressed s \<noteq> 0 then terminal_switch 2 1 s
      else if c > 0 \<and> ctrl_pressed s = 0 then parse_key c 48 48 48 s
      else if ctrl_pressed s \<noteq> 0 \<and> (c = 108 \<or> c = 76) then parse_key c 49 48 48 s
      else Some s)"

definition keyboard_handler :: "'a kernel_state_scheme \<Rightarrow> 'a kernel_state_scheme option" where
  "keyboard_handler s = do {
     let (status, s) = inb KEYBOARD_STATUS_PORT s;
     s \<leftarrow> (if status AND 1 \<noteq> 0
           then do {
             let (keycode, s) = inb KEYBOARD_DATA_PORT s;
             (printable_char, s) \<leftarrow> handle_keycode keycode s;
             handle_char printable_char s
           }
           else Some s);
     Some (send_eoi KEYBOARD_IRQ s)
   }"

section \<open>Reading a line\<close>

text \<open>
  \<open>terminal_read\<close> up to its waiting loop. The arguments are checked after the terminal is
  marked as being read.
\<close>

definition begin_read :: "nat \<Rightarrow> 'a kernel_state_scheme \<Rightarrow> 'a kernel_state_scheme option" where
  "begin_read terminal_idx s = do {
     t \<leftarrow> get_term terminal_idx s;
     set_term terminal_idx (t\<lparr>read_in_progress := 1\<rparr>) s
   }"

text \<open>The waiting loop: each round of the model is one keyboard interrupt.\<close>

partial_function (option) await_line :: "nat \<Rightarrow> 'a kernel_state_scheme \<Rightarrow> 'a kernel_state_scheme option" where
  "await_line terminal_idx s = do {
     t \<leftarrow> get_term terminal_idx s;
     c \<leftarrow> peek_int (live_buffer_store t) (bytes_read_store t);
     if c \<noteq> 10 then do { s \<leftarrow> keyboard_handler s; await_line terminal_idx s } else Some s
   }"

text \<open>
  One round of the copying loop: the character goes to the user's buffer and to the command
  buffer.
\<close>

definition deliver_char :: "u32 \<Rightarrow> int \<Rightarrow> int \<Rightarrow> int \<Rightarrow> (terminal_t \<times> mem) \<Rightarrow> (terminal_t \<times> mem) option" where
  "deliver_char ptr local_bytes_written command_loc idx tm = do {
     let (t, m) = tm;
     let buf_idx = idx - local_bytes_written;
     if buf_idx < bytes_read_store t then do {
       c \<leftarrow> peek_int (live_buffer_store t) idx;
       let m = m(ptr + word_of_int buf_idx := c);
       if bytes_read_store t > local_bytes_written then do {
         cb \<leftarrow> poke2 (command_buffer t) command_loc buf_idx c;
         Some (t\<lparr>command_buffer := cb\<rparr>, m)
       }
       else Some (t, m)
     }
     else Some (t, m)
   }"

definition deliver_line :: "u32 \<Rightarrow> int \<Rightarrow> terminal_t \<times> mem \<Rightarrow> (int \<times> terminal_t \<times> mem) option" where
  "deliver_line ptr local_bytes_written tm = do {
     let command_loc = write_command_row (fst tm);
     let n = max 0 (bytes_read_store (fst tm) - local_bytes_written);
     (t, m) \<leftarrow> loop_over [local_bytes_written .. bytes_read_store (fst tm) - 1]
       (deliver_char ptr local_bytes_written command_loc) tm;
     let t = (if bytes_read_store t > local_bytes_written
              then t\<lparr>write_command_row := write_command_row t + 1,
                     view_command_row := write_command_row t + 1\<rparr> else t);
     let m = m(ptr + word_of_int n := 10);
     store \<leftarrow> loop_over [0 .. bytes_read_store t - 1] (\<lambda>idx l. poke_int l idx 0) (live_buffer_store t);
     Some (n + 1, t\<lparr>live_buffer_store := store, bytes_read_store := 0, read_in_progress := 0\<rparr>, m)
   }"

definition finish_read :: "nat \<Rightarrow> u32 \<Rightarrow> int \<Rightarrow> 'a kernel_state_scheme \<Rightarrow> (i32 \<times> 'a kernel_state_scheme) option" where
  "finish_read terminal_idx ptr local_bytes_written s = do {
     let s = cli s;
     t \<leftarrow> get_term terminal_idx s;
     s \<leftarrow> (if write_command_row t \<ge> int MAX_COMMAND_STORE then command_buffer_scroll terminal_idx s else Some s);
     t \<leftarrow> get_term terminal_idx s;
     (len, t, m) \<leftarrow> deliver_line ptr local_bytes_written (t, mem s);
     s \<leftarrow> set_term terminal_idx t (s\<lparr>mem := m\<rparr>);
     Some (word_of_int len, sti s)
   }"

definition terminal_read :: "nat \<Rightarrow> u32 \<Rightarrow> i32 \<Rightarrow> 'a kernel_state_scheme \<Rightarrow> (i32 \<times> 'a kernel_state_scheme) option" where
  "terminal_read fd ptr bytes s = do {
     (addr, terminal_idx) \<leftarrow> active_screen s;
     s \<leftarrow> begin_read terminal_idx s;
     if ptr = 0 \<or> sint bytes < 0 then Some (-1, s)
     else do {
       t \<leftarrow> get_term terminal_idx s;
       let local_bytes_written = bytes_written t;
       s \<leftarrow> await_line terminal_idx (sti s);
       finish_read terminal_idx ptr local_bytes_written s
     }
   }"


section \<open>Moving parts of the line\<close>

lemma shift_right_run:
  assumes "b < length live"
  shows "a \<le> b \<Longrightarrow> \<exists>live' m'. loop_over (rev [int a .. int b - 1]) (shift_right row) (live, m) = Some (live', m')
    \<and> length live' = length live
    \<and> (\<forall>x<length live. live' ! x = (if a < x \<and> x \<le> b then live ! (x - 1) else live ! x))"
  using assms
proof (induction b arbitrary: live m)
  case 0
  then show ?case by simp
next
  case (Suc b)
  show ?case
  proof (cases "a = Suc b")
    case False
    then have le: "a \<le> b" using Suc.prems(1) by simp
    let ?live = "live[Suc b := live ! b]"
    let ?m = "setc_multi (int b + 1) row (getc_multi (int b) row VISUAL_VIRTUAL_ADDR m) VISUAL_VIRTUAL_ADDR m"
    have step: "shift_right row (int b) (live, m) = Some (?live, ?m)"
      using Suc.prems(2) by (simp add: shift_right_def peek_int_def poke_int_def nat_add_distrib)
    obtain live' m' where ih: "loop_over (rev [int a .. int b - 1]) (shift_right row) (?live, ?m) = Some (live', m')"
      "length live' = length live"
      "\<forall>x<length live. live' ! x = (if a < x \<and> x \<le> b then ?live ! (x - 1) else ?live ! x)"
      using Suc.IH [OF le, of ?live ?m] Suc.prems(2) by auto
    have "[int a .. int (Suc b) - 1] = [int a .. int b - 1] @ [int b]"
      using le by (simp add: upto_rec2)
    then have "loop_over (rev [int a .. int (Suc b) - 1]) (shift_right row) (live, m) = Some (live', m')"
      using step ih(1) by simp
    moreover have "live' ! x = (if a < x \<and> x \<le> Suc b then live ! (x - 1) else live ! x)" if "x < length live" for x
      using that ih(3) Suc.prems(2) le by (auto simp: nth_list_update less_Suc_eq_le)
    ultimately show ?thesis using ih(2) by blast
  qed auto
qed

lemma shift_left_run:
  assumes "b + 1 < length live"
  shows "\<exists>live' m'. loop_over [int a .. int b] (shift_left row) (live, m) = Some (live', m')
    \<and> length live' = length live
    \<and> (\<forall>x<length live. live' ! x = (if a \<le> x \<and> x \<le> b then live ! (x + 1) else live ! x))"
  using assms
proof (induction "Suc b - a" arbitrary: a live m)
  case 0
  then have "[int a .. int b] = []" by simp
  with 0 show ?case by auto
next
  case (Suc n)
  then have le: "a \<le> b" by simp
  let ?live = "live[a := live ! (a + 1)]"
  let ?m = "setc_multi (int a) row (getc_multi (int a + 1) row VISUAL_VIRTUAL_ADDR m) VISUAL_VIRTUAL_ADDR m"
  have step: "shift_left row (int a) (live, m) = Some (?live, ?m)"
    using Suc.prems le by (simp add: shift_left_def peek_int_def poke_int_def nat_add_distrib)
  have "n = Suc b - (a + 1)" using Suc.hyps(2) by simp
  then obtain live' m' where ih: "loop_over [int (a + 1) .. int b] (shift_left row) (?live, ?m) = Some (live', m')"
    "length live' = length live"
    "\<forall>x<length live. live' ! x = (if a + 1 \<le> x \<and> x \<le> b then ?live ! (x + 1) else ?live ! x)"
    using Suc.hyps(1) [of "a + 1" ?live ?m] Suc.prems by auto
  have "[int a .. int b] = int a # [int (a + 1) .. int b]" using le by (simp add: upto_rec1 algebra_simps)
  then have "loop_over [int a .. int b] (shift_left row) (live, m) = Some (live', m')"
    using step ih(1) by simp
  moreover have "live' ! x = (if a \<le> x \<and> x \<le> b then live ! (x + 1) else live ! x)" if "x < length live" for x
    using that ih(3) Suc.prems le by (auto simp: nth_list_update)
  ultimately show ?case using ih(2) by blast
qed


section \<open>The line as an edit buffer\<close>

text \<open>
  The abstract edit buffer: a text and a place in it. \<open>edit_view\<close> is the abstraction.
\<close>

datatype edit = Insert u8 | Delete | Left | Right

fun edit_abs :: "edit \<Rightarrow> u8 list \<times> nat \<Rightarrow> u8 list \<times> nat" where
  "edit_abs (Insert c) (xs, p) = (if length xs < 127 then (take p xs @ c # drop p xs, p + 1) else (xs, p))"
| "edit_abs Delete (xs, p) = (if p > 0 then (take (p - 1) xs @ drop p xs, p - 1) else (xs, p))"
| "edit_abs Left (xs, p) = (xs, p - 1)"
| "edit_abs Right (xs, p) = (xs, if p < length xs then p + 1 else p)"

fun edit_op :: "edit \<Rightarrow> 'a kernel_state_scheme \<Rightarrow> 'a kernel_state_scheme option" where
  "edit_op (Insert c) = output_char c"
| "edit_op Delete = backspace"
| "edit_op Left = cursor_left"
| "edit_op Right = cursor_right"

definition line_of :: "terminal_t \<Rightarrow> u8 list" where
  "line_of t = take (nat (bytes_read t - bytes_written t)) (drop (nat (bytes_written t)) (live_buffer t))"

definition edit_view :: "terminal_t \<Rightarrow> u8 list \<times> nat" where
  "edit_view t = (line_of t, nat (live_buffer_location t - bytes_written t))"

text \<open>
  The editing invariant: the prompt, the cursor and the end of the line are in order, the line
  is at most 127 characters, and the cursor location moves with the place in the line, from a
  \<open>base\<close> on the text rows.
\<close>

definition edit_ok :: "int \<Rightarrow> terminal_t \<Rightarrow> bool" where
  "edit_ok base t \<longleftrightarrow> length (live_buffer t) = 2000 \<and> 0 \<le> bytes_written t \<and> bytes_written t \<le> 80
     \<and> bytes_written t \<le> live_buffer_location t \<and> live_buffer_location t \<le> bytes_read t
     \<and> bytes_read t \<le> bytes_written t + 127 \<and> 0 \<le> base \<and> base \<le> 1840
     \<and> cursor_loc t = base + (live_buffer_location t - bytes_written t)
     \<and> 80 * term_screen_y t + term_screen_x t \<le> 1967"

text \<open>Editing leaves everything else of the terminal alone.\<close>

definition same_rest :: "terminal_t \<Rightarrow> terminal_t \<Rightarrow> bool" where
  "same_rest t t' \<longleftrightarrow> bytes_written t' = bytes_written t \<and> row_index t' = row_index t
     \<and> history_buffer t' = history_buffer t \<and> live_buffer_store t' = live_buffer_store t
     \<and> bytes_read_store t' = bytes_read_store t \<and> command_buffer t' = command_buffer t
     \<and> write_command_row t' = write_command_row t \<and> read_in_progress t' = read_in_progress t"

lemma length_line_of: "edit_ok base t \<Longrightarrow> int (length (line_of t)) = bytes_read t - bytes_written t"
  by (auto simp: edit_ok_def line_of_def min_def)

text \<open>The abstraction of inserting, of deleting and of moving.\<close>

lemma line_of_insert:
  assumes ok: "edit_ok base t" and br: "bytes_read t < bytes_written t + 127"
    and len: "length live = 2000"
    and live: "\<forall>x<2000. live ! x = (if nat (live_buffer_location t) < x \<and> x \<le> nat (bytes_read t)
        then live_buffer t ! (x - 1) else live_buffer t ! x)"
  shows "line_of (t\<lparr>live_buffer := live[nat (live_buffer_location t) := c], bytes_read := bytes_read t + 1\<rparr>)
    = take (nat (live_buffer_location t - bytes_written t)) (line_of t) @ c
        # drop (nat (live_buffer_location t - bytes_written t)) (line_of t)"
proof -
  obtain W L B where n: "bytes_written t = int W" "live_buffer_location t = int L" "bytes_read t = int B"
    using ok by (metis edit_ok_def nonneg_int_cases order_trans)
  have o: "W \<le> L" "L \<le> B" "B < W + 127" "W \<le> 80" "length (live_buffer t) = 2000"
    using ok br by (simp_all add: edit_ok_def n)
  have view: "line_of t = take (B - W) (drop W (live_buffer t))"
    "nat (live_buffer_location t - bytes_written t) = L - W"
    using o by (simp_all add: line_of_def n flip: of_nat_diff)
  have lhs: "line_of (t\<lparr>live_buffer := live[nat (live_buffer_location t) := c], bytes_read := bytes_read t + 1\<rparr>)
      = take (Suc B - W) (drop W (live[L := c]))"
    using o by (simp add: line_of_def n nat_diff_distrib' nat_add_distrib)
  show ?thesis
    unfolding lhs view
  proof (rule nth_equalityI)
    fix k assume k: "k < length (take (Suc B - W) (drop W (live[L := c])))"
    then have k': "k < Suc B - W" by simp
    have live': "live ! (W + k) = (if L < W + k then live_buffer t ! (W + k - 1) else live_buffer t ! (W + k))"
    proof -
      have "W + k < 2000" "W + k \<le> B" using o k' by linarith+
      with live [unfolded n nat_int, rule_format, of "W + k"] show ?thesis by simp
    qed
    consider "W + k < L" | "k = L - W" | "k > L - W" by linarith
    then show "take (Suc B - W) (drop W (live[L := c])) ! k
        = (take (L - W) (take (B - W) (drop W (live_buffer t))) @ c # drop (L - W) (take (B - W) (drop W (live_buffer t)))) ! k"
    proof cases
      case 3
      then obtain j where "k = Suc j" "L - W \<le> j" "L < W + k" by (cases k) simp_all
      then show ?thesis using o len live' k' by (simp add: nth_append nth_Cons' Suc_diff_le)
    next
      case 1
      then have "k < L - W" "\<not> L < W + k" "L \<noteq> W + k" by linarith+
      then show ?thesis using o len live' k' by (simp add: nth_append)
    qed (use o len live' k' in \<open>simp add: nth_append\<close>)
  qed (use o len in auto)
qed

lemma line_of_delete:
  assumes ok: "edit_ok base t" and p: "bytes_written t < live_buffer_location t"
    and len: "length live = 2000"
    and live: "\<forall>x. nat (bytes_written t) \<le> x \<and> x < nat (bytes_read t - 1) \<longrightarrow>
      live ! x = (if nat (live_buffer_location t) - 1 \<le> x then live_buffer t ! (x + 1) else live_buffer t ! x)"
  shows "line_of (t\<lparr>live_buffer := live, bytes_read := bytes_read t - 1\<rparr>)
    = take (nat (live_buffer_location t - bytes_written t) - 1) (line_of t)
        @ drop (nat (live_buffer_location t - bytes_written t)) (line_of t)"
proof -
  obtain W L B where n: "bytes_written t = int W" "live_buffer_location t = int L" "bytes_read t = int B"
    using ok by (metis edit_ok_def nonneg_int_cases order_trans)
  have o: "W < L" "L \<le> B" "B \<le> W + 127" "W \<le> 80" "length (live_buffer t) = 2000"
    using ok p by (simp_all add: edit_ok_def n)
  have view: "line_of t = take (B - W) (drop W (live_buffer t))"
    "nat (live_buffer_location t - bytes_written t) = L - W"
    using o by (simp_all add: line_of_def n flip: of_nat_diff)
  have lhs: "line_of (t\<lparr>live_buffer := live, bytes_read := bytes_read t - 1\<rparr>) = take (B - 1 - W) (drop W live)"
    using o by (simp add: line_of_def n nat_diff_distrib')
  have b1: "nat (bytes_read t - 1) = B - 1" using o n by simp
  show ?thesis
    unfolding lhs view
  proof (rule nth_equalityI)
    fix k assume k: "k < length (take (B - 1 - W) (drop W live))"
    then have k': "k < B - 1 - W" by simp
    have live': "live ! (W + k) = (if L - 1 \<le> W + k then live_buffer t ! (W + k + 1) else live_buffer t ! (W + k))"
      using live [unfolded b1, unfolded n nat_int, rule_format, of "W + k"] k' by simp
    show "take (B - 1 - W) (drop W live) ! k
        = (take (L - W - 1) (take (B - W) (drop W (live_buffer t))) @ drop (L - W) (take (B - W) (drop W (live_buffer t)))) ! k"
    proof (cases "L - 1 \<le> W + k")
      case True
      then have "\<not> k < L - W - 1" "L - W + (k - (L - W - 1)) = k + 1" using o by linarith+
      then show ?thesis using o len live' k' True by (simp add: nth_append add.assoc [symmetric])
    next
      case False
      then have "k < L - W - 1" using o by linarith
      then show ?thesis using o len live' k' False by (simp add: nth_append)
    qed
  qed (use o len in auto)
qed


section \<open>Running the editing operations\<close>

lemma putc_term_row: "80 * term_screen_y (fst (putc_term c base tm)) + term_screen_x (fst (putc_term c base tm)) \<le> 1967"
proof -
  have "x smod 80 \<le> 79" "x smod 24 \<le> 23" for x :: int
    using smod_int_compares(3)
    by (simp_all add: smod_int_alt_def sgn_if) (smt (verit) pos_mod_bound pos_mod_sign)+
  then have "80 * (y smod 24) + x smod 80 \<le> 1967" for x y :: int by smt
  from this this [where x = 0] show ?thesis by (cases tm) (auto simp: putc_term_def screen_consts Let_def)
qed

lemma putc_term_command: "write_command_row (fst (putc_term c base tm)) = write_command_row (fst tm)"
  by (cases tm, simp add: putc_term_def Let_def)

lemma putc_multi_with:
  assumes "i < length (three_terminals s)"
  shows "putc_multi c addr i (with_term s i tm) = Some (with_term s i (putc_term c addr tm))"
  using with_term_access [OF assms]
  by (cases tm, cases "putc_term c addr tm") (simp add: putc_multi_def)

lemma with_term_current [simp]: "current_term (with_term s i tm) = current_term s"
  "g_row_index (with_term s i tm) = g_row_index s" "g_bytes_read (with_term s i tm) = g_bytes_read s"
  by (simp_all add: with_term_def)

lemma advance_cursor_with:
  assumes "current_term s = int i" and "i < length (three_terminals s)"
  shows "advance_cursor n (with_term s i (t, m))
    = Some (with_term (s\<lparr>io_log := io_log s @ cursor_writes (max 0 (cursor_loc t + n))\<rparr>) i
        (t\<lparr>cursor_loc := max 0 (cursor_loc t + n)\<rparr>, m))"
  using cur_term_with [OF assms] move_cursor_with [OF assms, where t = "t\<lparr>cursor_loc := cursor_loc t + n\<rparr>"]
  by (simp add: advance_cursor_def)

lemma make_room_run:
  assumes "edit_ok base t" and "bytes_read t < bytes_written t + 127"
  shows "\<exists>live m'. make_room t m = Some (live, m') \<and> length live = 2000
    \<and> (\<forall>x<2000. live ! x = (if nat (live_buffer_location t) < x \<and> x \<le> nat (bytes_read t)
        then live_buffer t ! (x - 1) else live_buffer t ! x))"
proof (cases "live_buffer_location t < bytes_read t")
  case True
  obtain L B where n: "live_buffer_location t = int L" "bytes_read t = int B"
    using assms(1) by (metis edit_ok_def nonneg_int_cases order_trans)
  have o: "L \<le> B" "B < 2000" "length (live_buffer t) = 2000"
    using assms by (auto simp: edit_ok_def n)
  from shift_right_run [of B "live_buffer t" L "row_index t" m] o True show ?thesis
    by (simp add: make_room_def n)
next
  case False
  then have "live_buffer_location t = bytes_read t" using assms(1) by (simp add: edit_ok_def)
  with assms(1) show ?thesis by (auto simp: make_room_def edit_ok_def)
qed

text \<open>No insertion scrolls: the line stays above the last row, or is on one row of the screen.\<close>

definition no_scroll :: "terminal_t \<Rightarrow> bool" where
  "no_scroll t \<longleftrightarrow> row_index t \<le> 22 \<or> row_index t = 23 \<and> bytes_read t < 80"

lemma insert_char_with:
  assumes cur: "current_term s = int i" "i < length (three_terminals s)"
    and ok: "edit_ok base t" "bytes_read t < bytes_written t + 127" "no_scroll t"
  shows "\<exists>t' m'. insert_char c (with_term s i (t, m)) = Some (with_term s i (t', m'))
    \<and> line_of t' = take (nat (live_buffer_location t - bytes_written t)) (line_of t) @ c
        # drop (nat (live_buffer_location t - bytes_written t)) (line_of t)
    \<and> same_rest t t' \<and> bytes_read t' = bytes_read t + 1
    \<and> live_buffer_location t' = live_buffer_location t + 1
    \<and> cursor_loc t' = cursor_loc t \<and> length (live_buffer t') = 2000
    \<and> 80 * term_screen_y t' + term_screen_x t' \<le> 1967"
proof -
  obtain live m1 where room: "make_room t m = Some (live, m1)" "length live = 2000"
    "\<forall>x<2000. live ! x = (if nat (live_buffer_location t) < x \<and> x \<le> nat (bytes_read t)
        then live_buffer t ! (x - 1) else live_buffer t ! x)"
    using make_room_run [OF ok(1,2)] by blast
  have loc: "0 \<le> live_buffer_location t" "nat (live_buffer_location t) < 2000"
    using ok(1,2) by (auto simp: edit_ok_def)
  then have poke: "poke_int live (live_buffer_location t) c = Some (live[nat (live_buffer_location t) := c])"
    using room(2) by (simp add: poke_int_def)
  let ?t1 = "t\<lparr>live_buffer := live[nat (live_buffer_location t) := c]\<rparr>"
  obtain t2 m2 where p: "putc_term c VISUAL_VIRTUAL_ADDR (?t1, m1) = (t2, m2)" by fastforce
  let ?t3 = "t2\<lparr>bytes_read := bytes_read t2 + 1, live_buffer_location := live_buffer_location t2 + 1\<rparr>"
  have noscroll: "\<not> (if bytes_read t \<ge> NUM_COLS then 1 else 0) + row_index t \<ge> NUM_ROWS - STATUS_BAR_HEIGHT"
    using ok(3) by (auto simp: no_scroll_def screen_consts)
  note c = cur_term_with [OF cur]
  have eqs: "nat (current_term s) = i" "\<And>tm. mem (with_term s i tm) = snd tm"
    using cur(1) by (simp_all add: with_term_def)
  have run: "insert_char c (with_term s i (t, m)) = Some (with_term s i (?t3, m2))"
    using noscroll poke p
    by (simp add: insert_char_def c room(1) eqs with_term_access(5) [OF cur(2)] putc_multi_with [OF cur(2)] Let_def)
  have f: "live_buffer t2 = live_buffer ?t1" "bytes_read t2 = bytes_read t"
      "bytes_written t2 = bytes_written t" "live_buffer_location t2 = live_buffer_location t"
      "cursor_loc t2 = cursor_loc t"
    using putc_term_fields [of c VISUAL_VIRTUAL_ADDR "(?t1, m1)"] by (simp_all add: p)
  have same: "same_rest t ?t3"
    using putc_term_fields [of c VISUAL_VIRTUAL_ADDR "(?t1, m1)"] putc_term_command [of c VISUAL_VIRTUAL_ADDR "(?t1, m1)"]
    by (simp add: p same_rest_def)
  have "line_of ?t3 = line_of (t\<lparr>live_buffer := live[nat (live_buffer_location t) := c], bytes_read := bytes_read t + 1\<rparr>)"
    by (simp add: line_of_def f)
  moreover have "80 * term_screen_y ?t3 + term_screen_x ?t3 \<le> 1967"
    using putc_term_row [of c VISUAL_VIRTUAL_ADDR "(?t1, m1)"] by (simp add: p)
  ultimately show ?thesis using line_of_insert [OF ok(1,2) room(2,3)] run f same room(2)
    by (intro exI [of _ ?t3] exI [of _ m2]) simp
qed

text \<open>What an editing operation may change of the kernel besides the terminal and the memory.\<close>

definition editing :: "'a kernel_state_scheme \<Rightarrow> io_event list \<Rightarrow> int \<Rightarrow> 'a kernel_state_scheme" where
  "editing s l g = s\<lparr>io_log := l, g_bytes_read := g\<rparr>"

lemma editing_simps [simp]:
  "current_term (editing s l g) = current_term s" "three_terminals (editing s l g) = three_terminals s"
  "editing (editing s l g) l' g' = editing s l' g'" "io_log (editing s l g) = l"
  "g_row_index (editing s l g) = g_row_index s" "active_screen (editing s l g) = active_screen s"
  by (simp_all add: editing_def active_screen_def cong del: if_weak_cong)

lemma editing_self: "s = editing s (io_log s) (g_bytes_read s)"
  by (simp add: editing_def)

lemma editing_eqs: "s\<lparr>io_log := l\<rparr> = editing s l (g_bytes_read s)"
  "s\<lparr>io_log := l, g_bytes_read := g\<rparr> = editing s l g" "s\<lparr>g_bytes_read := g\<rparr> = editing s (io_log s) g"
  "(editing s l g)\<lparr>io_log := l'\<rparr> = editing s l' g" "(editing s l g)\<lparr>g_bytes_read := g'\<rparr> = editing s l g'"
  by (simp_all add: editing_def)

lemma edit_okD:
  assumes "edit_ok base t"
  obtains W L B where "bytes_written t = int W" "live_buffer_location t = int L" "bytes_read t = int B"
    "W \<le> L" "L \<le> B" "B \<le> W + 127" "W \<le> 80" "length (live_buffer t) = 2000"
    "cursor_loc t = base + int (L - W)" "0 \<le> base" "base \<le> 1840"
proof -
  obtain W L B where n: "bytes_written t = int W" "live_buffer_location t = int L" "bytes_read t = int B"
    using assms by (metis edit_ok_def nonneg_int_cases order_trans)
  with assms that [OF n] show ?thesis by (simp add: edit_ok_def of_nat_diff)
qed

lemma output_char_with:
  assumes cur: "current_term s = int i" "i < length (three_terminals s)"
    and ok: "edit_ok base t" "no_scroll t"
  shows "\<exists>l t' m'. output_char c (with_term s i (t, m)) = Some (with_term (s\<lparr>io_log := l\<rparr>) i (t', m'))
    \<and> edit_view t' = edit_abs (Insert c) (edit_view t) \<and> edit_ok base t' \<and> same_rest t t'"
proof (cases "bytes_read t < bytes_written t + 127")
  case True
  obtain t' m' where t': "insert_char c (with_term s i (t, m)) = Some (with_term s i (t', m'))"
    "line_of t' = take (nat (live_buffer_location t - bytes_written t)) (line_of t) @ c
        # drop (nat (live_buffer_location t - bytes_written t)) (line_of t)"
    "same_rest t t'" "bytes_read t' = bytes_read t + 1" "live_buffer_location t' = live_buffer_location t + 1"
    "cursor_loc t' = cursor_loc t" "length (live_buffer t') = 2000"
    "80 * term_screen_y t' + term_screen_x t' \<le> 1967"
    using insert_char_with [OF cur ok(1) True ok(2)] by blast
  let ?t = "t'\<lparr>cursor_loc := max 0 (cursor_loc t' + 1)\<rparr>"
  have run: "output_char c (with_term s i (t, m))
      = Some (with_term (s\<lparr>io_log := io_log s @ cursor_writes (max 0 (cursor_loc t' + 1))\<rparr>) i (?t, m'))"
    using True t'(1) by (simp add: output_char_def cur_term_with [OF cur] advance_cursor_with [OF cur] kernel_consts)
  have same: "same_rest t ?t" and bw: "bytes_written t' = bytes_written t"
    using t'(3) by (simp_all add: same_rest_def)
  have "edit_ok base ?t" using ok(1) t' bw True by (simp add: edit_ok_def)
  moreover have "nat (live_buffer_location t + 1 - bytes_written t) = nat (live_buffer_location t - bytes_written t) + 1"
    using ok(1) by (auto simp: edit_ok_def)
  moreover have "line_of ?t = line_of t'" by (simp add: line_of_def)
  ultimately have "edit_ok base ?t" "edit_view ?t = edit_abs (Insert c) (edit_view t)"
    using t'(2,5) bw True length_line_of [OF ok(1)] by (simp_all add: edit_view_def)
  note view = this
  with view show ?thesis using run same by blast
next
  case False
  then have "output_char c (with_term s i (t, m)) = Some (with_term (s\<lparr>io_log := io_log s\<rparr>) i (t, m))"
    by (simp add: output_char_def cur_term_with [OF cur] kernel_consts)
  moreover have "edit_view t = edit_abs (Insert c) (edit_view t)"
    using False length_line_of [OF ok(1)] by (simp add: edit_view_def)
  moreover have "same_rest t t" by (simp add: same_rest_def)
  ultimately show ?thesis using ok(1) by blast
qed

lemma place_cursor_row: "80 * term_screen_y (place_cursor loc t) + term_screen_x (place_cursor loc t) = loc"
  using mult_sdiv_smod_eq [of 80 loc] by (simp add: place_cursor_def screen_consts)

lemma cursor_left_with:
  assumes cur: "current_term s = int i" "i < length (three_terminals s)" and ok: "edit_ok base t"
  shows "\<exists>l t'. cursor_left (with_term s i (t, m)) = Some (with_term (s\<lparr>io_log := l\<rparr>) i (t', m))
    \<and> edit_view t' = edit_abs Left (edit_view t) \<and> edit_ok base t' \<and> same_rest t t'"
proof (cases "live_buffer_location t > bytes_written t")
  case True
  let ?p = "place_cursor (cursor_loc t - 1) t"
  let ?l = "io_log s @ cursor_writes (cursor_loc t - 1)"
  let ?t = "?p\<lparr>live_buffer_location := live_buffer_location t - 1\<rparr>"
  have nn: "cursor_loc t - 1 \<ge> 0" using True ok by (simp add: edit_ok_def)
  have p: "?p\<lparr>cursor_loc := cursor_loc t - 1\<rparr> = ?p" "max 0 (cursor_loc ?p) = cursor_loc t - 1"
    using nn by (simp_all add: place_cursor_def)
  have "move_cursor (cursor_loc t - 1) (with_term s i (?p, m)) = Some (with_term (s\<lparr>io_log := ?l\<rparr>) i (?p, m))"
    by (simp only: move_cursor_with [OF cur] p)
  then have "cursor_left (with_term s i (t, m)) = Some (with_term (s\<lparr>io_log := ?l\<rparr>) i (?t, m))"
    using True cur_term_with [OF cur] cur_term_with [of "s\<lparr>io_log := ?l\<rparr>" i] cur
    by (simp add: cursor_left_def Let_def) (simp add: place_cursor_def)
  moreover have "edit_view ?t = edit_abs Left (edit_view t)"
    by (simp add: edit_view_def line_of_def place_cursor_def)
  moreover have "edit_ok base ?t" using ok True place_cursor_row [of "cursor_loc t - 1" t]
    by (simp add: edit_ok_def place_cursor_def)
  moreover have "same_rest t ?t" by (simp add: same_rest_def place_cursor_def)
  ultimately show ?thesis by blast
next
  case False
  then have "cursor_left (with_term s i (t, m)) = Some (with_term (s\<lparr>io_log := io_log s\<rparr>) i (t, m))"
    by (simp add: cursor_left_def cur_term_with [OF cur])
  moreover have "edit_view t = edit_abs Left (edit_view t)" using False by (simp add: edit_view_def)
  moreover have "same_rest t t" by (simp add: same_rest_def)
  ultimately show ?thesis using ok by blast
qed

lemma cursor_right_with:
  assumes cur: "current_term s = int i" "i < length (three_terminals s)" and ok: "edit_ok base t"
  shows "\<exists>l t'. cursor_right (with_term s i (t, m)) = Some (with_term (editing s l (bytes_read t)) i (t', m))
    \<and> edit_view t' = edit_abs Right (edit_view t) \<and> edit_ok base t' \<and> same_rest t t'"
proof -
  let ?s = "editing s (io_log s) (bytes_read t)"
  have g: "(with_term s i (t, m))\<lparr>g_bytes_read := bytes_read t\<rparr> = with_term ?s i (t, m)"
    by (simp add: with_term_def editing_def)
  have cur': "current_term ?s = int i" "i < length (three_terminals ?s)" using cur by simp_all
  have g': "g_bytes_read (with_term ?s i tm) = bytes_read t" for tm by (simp add: editing_def)
  have pos: "\<not> (term_screen_y t = 24 \<and> term_screen_x t = 79)" using ok by (auto simp: edit_ok_def)
  show ?thesis
  proof (cases "live_buffer_location t < bytes_read t")
    case True
    let ?p = "place_cursor (cursor_loc t + 1) t"
    let ?l = "io_log s @ cursor_writes (cursor_loc t + 1)"
    let ?t = "?p\<lparr>live_buffer_location := live_buffer_location t + 1\<rparr>"
    have nn: "cursor_loc t + 1 \<ge> 0" using True ok by (simp add: edit_ok_def)
    have p: "?p\<lparr>cursor_loc := cursor_loc t + 1\<rparr> = ?p" "max 0 (cursor_loc ?p) = cursor_loc t + 1"
      using nn by (simp_all add: place_cursor_def)
    have "move_cursor (cursor_loc t + 1) (with_term ?s i (?p, m)) = Some (with_term (editing s ?l (bytes_read t)) i (?p, m))"
      by (simp only: move_cursor_with [OF cur'] p editing_eqs(4) editing_simps(4))
    then have "cursor_right (with_term s i (t, m)) = Some (with_term (editing s ?l (bytes_read t)) i (?t, m))"
      using True pos cur_term_with [OF cur] cur_term_with [OF cur'] cur_term_with [of "editing s ?l (bytes_read t)" i] cur
      by (simp add: cursor_right_def g g' Let_def screen_consts) (simp add: place_cursor_def)
    moreover have "edit_view ?t = edit_abs Right (edit_view t)"
      using True ok length_line_of [OF ok]
      by (auto simp: edit_view_def place_cursor_def edit_ok_def) (simp_all add: line_of_def)
    moreover have "edit_ok base ?t" using ok True place_cursor_row [of "cursor_loc t + 1" t]
      by (simp add: edit_ok_def place_cursor_def)
    moreover have "same_rest t ?t" by (simp add: same_rest_def place_cursor_def)
    ultimately show ?thesis by blast
  next
    case False
    then have "cursor_right (with_term s i (t, m)) = Some (with_term ?s i (t, m))"
      by (simp add: cursor_right_def cur_term_with [OF cur] g g')
    moreover have "edit_view t = edit_abs Right (edit_view t)"
      using False ok length_line_of [OF ok] by (auto simp: edit_view_def edit_ok_def)
    moreover have "same_rest t t" by (simp add: same_rest_def)
    ultimately show ?thesis using ok by blast
  qed
qed

text \<open>Removing a character from the line in memory.\<close>

lemma close_gap_run:
  assumes "live_buffer_location t = int L" "bytes_read t = int B" "B + 1 < length (live_buffer t)" "L \<le> B"
  shows "\<exists>live m'. close_gap t m = Some (live, m') \<and> length live = length (live_buffer t)
    \<and> (\<forall>x<B. live ! x = (if L \<le> x then live_buffer t ! (x + 1) else live_buffer t ! x))"
proof -
  obtain live m' where "loop_over [int L .. int B] (shift_left (row_index t)) (live_buffer t, m) = Some (live, m')"
    "length live = length (live_buffer t)"
    "\<forall>x<length (live_buffer t). live ! x = (if L \<le> x \<and> x \<le> B then live_buffer t ! (x + 1) else live_buffer t ! x)"
    using shift_left_run [OF assms(3), of L "row_index t" m] by blast
  then show ?thesis using assms by (auto simp: close_gap_def poke_int_def nat_add_distrib nth_list_update)
qed

text \<open>
  Backspace before the cursor is moved: the line loses the character before the cursor. The
  character is first overwritten by zero, then the rest of the line is moved over it.
\<close>

lemma backspace_with:
  assumes cur: "current_term s = int i" "i < length (three_terminals s)" and ok: "edit_ok base t"
  shows "\<exists>l t' m'. backspace (with_term s i (t, m)) = Some (with_term (s\<lparr>io_log := l\<rparr>) i (t', m'))
    \<and> edit_view t' = edit_abs Delete (edit_view t) \<and> edit_ok base t' \<and> same_rest t t'"
proof (cases "live_buffer_location t > bytes_written t")
  case False
  then have "backspace (with_term s i (t, m)) = Some (with_term (s\<lparr>io_log := io_log s\<rparr>) i (t, m))"
    by (simp add: backspace_def cur_term_with [OF cur])
  moreover have "edit_view t = edit_abs Delete (edit_view t)" using False by (simp add: edit_view_def)
  moreover have "same_rest t t" by (simp add: same_rest_def)
  ultimately show ?thesis using ok by blast
next
  case True
  obtain W L B where n: "bytes_written t = int W" "live_buffer_location t = int L" "bytes_read t = int B"
    "W \<le> L" "L \<le> B" "B \<le> W + 127" "W \<le> 80" "length (live_buffer t) = 2000"
    "cursor_loc t = base + int (L - W)" "0 \<le> base" "base \<le> 1840"
    using edit_okD [OF ok] by metis
  have pos: "W < L" "0 < B" "0 < L" using True n by simp_all
  let ?x = "if term_screen_x t = 0 then NUM_COLS - 1 else term_screen_x t - 1"
  let ?y = "if term_screen_x t = 0 then term_screen_y t - 1 else term_screen_y t"
  let ?t0 = "t\<lparr>bytes_read := bytes_read t - 1, live_buffer_location := live_buffer_location t - 1,
      live_buffer := (live_buffer t)[L - 1 := 0], term_screen_x := ?x, term_screen_y := ?y\<rparr>"
  let ?gap = "if L - 1 < B - 1 then close_gap ?t0 m
      else Some (live_buffer ?t0, setc_multi ?x ?y 0 VISUAL_VIRTUAL_ADDR m)"
  have gap: "\<exists>live m'. ?gap = Some (live, m') \<and> length live = 2000
    \<and> (\<forall>x. W \<le> x \<and> x < B - 1 \<longrightarrow> live ! x = (if L - 1 \<le> x then live_buffer t ! (x + 1) else live_buffer t ! x))"
  proof (cases "L - 1 < B - 1")
    case True
    have "\<exists>live m'. close_gap ?t0 m = Some (live, m') \<and> length live = length (live_buffer ?t0)
      \<and> (\<forall>x<B - 1. live ! x = (if L - 1 \<le> x then live_buffer ?t0 ! (x + 1) else live_buffer ?t0 ! x))"
      by (rule close_gap_run) (use n pos True in \<open>simp_all add: of_nat_diff\<close>)
    then show ?thesis using True n by (auto simp: nth_list_update)
  next
    case False
    with n pos show ?thesis by (auto simp: nth_list_update)
  qed
  then obtain live m' where g: "?gap = Some (live, m')" "length live = 2000"
    "\<forall>x. W \<le> x \<and> x < B - 1 \<longrightarrow> live ! x = (if L - 1 \<le> x then live_buffer t ! (x + 1) else live_buffer t ! x)"
    by blast
  let ?t1 = "?t0\<lparr>live_buffer := live\<rparr>"
  let ?t2 = "?t1\<lparr>cursor_loc := cursor_loc t - 1\<rparr>"
  have mem': "(with_term s i (t, m))\<lparr>mem := m'\<rparr> = with_term s i (t, m')" "mem (with_term s i (t, m)) = m"
    by (simp_all add: with_term_def)
  have c: "cursor_loc t - 1 \<ge> 0" "max 0 (cursor_loc t - 1) = cursor_loc t - 1" "cursor_loc t > 0" using n pos by simp_all
  have adv: "advance_cursor (- 1) (with_term s i (?t1, m'))
      = Some (with_term (s\<lparr>io_log := io_log s @ cursor_writes (cursor_loc t - 1)\<rparr>) i (?t2, m'))"
    using c by (simp add: advance_cursor_with [OF cur])
  have poke: "poke_int (live_buffer t) (int L - 1) 0 = Some ((live_buffer t)[L - 1 := 0])"
    using n pos by (simp add: poke_int_def nat_diff_distrib')
  have cond: "(int L - 1 < int B - 1) = (L - 1 < B - 1)" using pos n by linarith
  have nonneg: "\<not> int B - 1 < 0" "0 \<le> int B - 1" "int W < int L" using pos by simp_all
  have run: "backspace (with_term s i (t, m))
      = Some (with_term (s\<lparr>io_log := io_log s @ cursor_writes (cursor_loc t - 1)\<rparr>) i (?t2, m'))"
  proof (cases "L - 1 < B - 1")
    case True
    with g(1) adv show ?thesis
      by (cases "term_screen_x t = 0")
        (simp_all add: backspace_def cur_term_with [OF cur] n(1-3) pos pos(2) [THEN less_imp_neq, THEN not_sym] nonneg poke cond c mem' Let_def)
  next
    case False
    with g(1) adv show ?thesis
      by (cases "term_screen_x t = 0")
        (simp_all add: backspace_def cur_term_with [OF cur] n(1-3) pos pos(2) [THEN less_imp_neq, THEN not_sym] nonneg poke cond c mem' Let_def)
  qed
  have line: "line_of (t\<lparr>live_buffer := live, bytes_read := bytes_read t - 1\<rparr>)
    = take (nat (live_buffer_location t - bytes_written t) - 1) (line_of t)
        @ drop (nat (live_buffer_location t - bytes_written t)) (line_of t)"
    by (rule line_of_delete [OF ok True g(2)]) (use g(3) n pos in \<open>auto simp: nat_diff_distrib'\<close>)
  have "edit_view ?t2 = edit_abs Delete (edit_view t)"
    using line pos n by (simp add: edit_view_def line_of_def [of ?t2]) (simp add: line_of_def)
  moreover have "edit_ok base ?t2"
    using ok n pos g(2) by (auto simp: edit_ok_def screen_consts)
  moreover have "same_rest t ?t2" by (simp add: same_rest_def)
  ultimately show ?thesis using run by blast
qed

lemma edit_op_with:
  assumes cur: "current_term s = int i" "i < length (three_terminals s)"
    and ok: "edit_ok base t" "no_scroll t"
  shows "\<exists>l g t' m'. edit_op e (with_term s i (t, m)) = Some (with_term (editing s l g) i (t', m'))
    \<and> edit_view t' = edit_abs e (edit_view t) \<and> edit_ok base t' \<and> same_rest t t'"
proof (cases e)
  case (Insert c)
  with output_char_with [OF assms, of c m] show ?thesis by (auto simp: editing_eqs)
next
  case Delete
  with backspace_with [OF cur ok(1), of m] show ?thesis by (auto simp: editing_eqs)
next
  case Left
  with cursor_left_with [OF cur ok(1), of m] show ?thesis by (auto simp: editing_eqs)
next
  case Right
  with cursor_right_with [OF cur ok(1), of m] show ?thesis by auto
qed

text \<open>Room for \<open>n\<close> more operations without scrolling.\<close>

definition room_for :: "nat \<Rightarrow> terminal_t \<Rightarrow> bool" where
  "room_for n t \<longleftrightarrow> row_index t \<le> 22 \<or> row_index t = 23 \<and> bytes_read t + int n \<le> 80"

lemma edit_abs_grows: "length (fst (edit_abs e v)) \<le> Suc (length (fst v))"
  by (cases "(e, v)" rule: edit_abs.cases) auto

lemma same_rest_trans: "same_rest t u \<Longrightarrow> same_rest u v \<Longrightarrow> same_rest t v"
  by (simp add: same_rest_def)

lemma edits_with:
  assumes "current_term s = int i" "i < length (three_terminals s)" "edit_ok base t" "room_for (length es) t"
  shows "\<exists>l g t' m'. loop_over es edit_op (with_term s i (t, m)) = Some (with_term (editing s l g) i (t', m'))
    \<and> edit_view t' = fold edit_abs es (edit_view t) \<and> edit_ok base t' \<and> same_rest t t'"
  using assms
proof (induction es arbitrary: s t m)
  case Nil
  have "same_rest t t" by (simp add: same_rest_def)
  moreover have "loop_over [] edit_op (with_term s i (t, m))
      = Some (with_term (editing s (io_log s) (g_bytes_read s)) i (t, m))" by (simp add: editing_def)
  ultimately show ?case using Nil.prems(3) by (metis fold_simps(1))
next
  case (Cons e es)
  have "no_scroll t" using Cons.prems(4) by (auto simp: room_for_def no_scroll_def)
  then obtain l g t1 m1 where e: "edit_op e (with_term s i (t, m)) = Some (with_term (editing s l g) i (t1, m1))"
    "edit_view t1 = edit_abs e (edit_view t)" "edit_ok base t1" "same_rest t t1"
    using edit_op_with [OF Cons.prems(1-3), of e m] by blast
  have "bytes_read t1 \<le> bytes_read t + 1"
  proof -
    have "length (line_of t1) \<le> Suc (length (line_of t))"
      using edit_abs_grows [of e "edit_view t"] arg_cong [OF e(2), of fst] by (simp add: edit_view_def)
    with length_line_of [OF Cons.prems(3)] length_line_of [OF e(3)] e(4) show ?thesis
      by (simp add: same_rest_def)
  qed
  then have "room_for (length es) t1" using Cons.prems(4) e(4) by (auto simp: room_for_def same_rest_def)
  then obtain l' g' t' m' where "loop_over es edit_op (with_term (editing s l g) i (t1, m1))
      = Some (with_term (editing (editing s l g) l' g') i (t', m'))"
    "edit_view t' = fold edit_abs es (edit_view t1)" "edit_ok base t'" "same_rest t1 t'"
    using Cons.IH [of "editing s l g" t1 m1] Cons.prems e(3) by auto
  moreover from this(4) e(4) have "same_rest t t'" by (rule same_rest_trans [rotated])
  ultimately have "loop_over (e # es) edit_op (with_term s i (t, m)) = Some (with_term (editing s l' g') i (t', m'))"
    "edit_view t' = fold edit_abs (e # es) (edit_view t)" "edit_ok base t'" "same_rest t t'"
    using e by simp_all
  then show ?case by blast
qed


lemma blank_edit_ok: "edit_ok 0 blank_term" "room_for n blank_term" "edit_view blank_term = ([], 0)"
  by (simp_all add: edit_ok_def room_for_def blank_term_def edit_view_def line_of_def)


end
