(* ===== verification/ReadLine.thy ===== *)
theory ReadLine
  imports Keyboard
begin

text \<open>
  Entering a line: what \<open>new_line\<close> and the last part of \<open>terminal_read\<close> do with the edited line,
  and the whole of \<open>terminal_read\<close> for a keyboard that sends Enter. The characters typed come
  back to the reader, followed by a newline, and are remembered in the command buffer.
\<close>

section \<open>Loops over a buffer\<close>

lemma upto_Suc: "[0 .. int (Suc n) - 1] = [0 .. int n - 1] @ [int n]"
  by (simp add: upto_rec2)

lemma zero_loop:
  assumes "n \<le> length xs"
  shows "loop_over [0 .. int n - 1] (\<lambda>idx l. poke_int l idx (0::u8)) xs = Some (replicate n 0 @ drop n xs)"
  using assms
proof (induction n)
  case (Suc n)
  have "(replicate n 0 @ drop n xs)[n := 0] = replicate (Suc n) (0::u8) @ drop (Suc n) xs"
    using Suc.prems by (simp add: Cons_nth_drop_Suc [symmetric] list_update_append replicate_app_Cons_same)
  with Suc show ?case by (simp only: upto_Suc loop_over_append) (simp add: poke_int_def)
qed simp

lemma copy_first_run:
  assumes "n \<le> length src" "n \<le> length dst"
  shows "copy_first (int n) src dst = Some (take n src @ drop n dst)"
  using assms
proof (induction n)
  case (Suc n)
  have "(take n src @ drop n dst)[n := src ! n] = take (Suc n) src @ drop (Suc n) dst"
    using Suc.prems
    by (simp add: Cons_nth_drop_Suc [symmetric] list_update_append take_Suc_conv_app_nth min_absorb2)
  with Suc show ?case
    by (simp only: copy_first_def upto_Suc loop_over_append) (simp add: peek_int_def poke_int_def)
qed (simp add: copy_first_def)

text \<open>The history of an entered line: the rows keep their sizes, so the copy is defined.\<close>

definition history_ok :: "u8 list list \<Rightarrow> bool" where
  "history_ok h \<longleftrightarrow> length h = 24 \<and> (\<forall>r\<in>set h. length r = 80)"

lemma history_cell_run:
  assumes "history_ok h" "0 \<le> i" "i < 24" "0 \<le> j" "j < 80"
  shows "\<exists>h'. poke2 h i j c = Some h' \<and> history_ok h'"
  using poke2_run [of i h 80 j c] assms by (auto simp: history_ok_def)

definition line_fits :: "terminal_t \<Rightarrow> bool" where
  "line_fits t \<longleftrightarrow> 0 \<le> row_index t \<and> 0 \<le> bytes_read t
     \<and> (row_index t \<le> 22 \<and> bytes_read t \<le> 160 \<or> row_index t = 23 \<and> bytes_read t \<le> 80)"

lemma enter_history_run:
  assumes "history_ok (history_buffer t)" "line_fits t" "length (live_buffer t) = 2000"
  shows "\<exists>h. enter_history t = Some h \<and> history_ok h"
  unfolding enter_history_def
proof (rule loop_over_invariant [of history_ok])
  fix idx h assume i: "idx \<in> set [0 .. bytes_read t - 1]" and h: "history_ok h"
  let ?c = "live_buffer t ! nat idx"
  have c: "peek_int (live_buffer t) idx = Some ?c"
    using i assms(2,3) by (auto simp: peek_int_def line_fits_def)
  have "(if idx \<ge> 80 \<and> row_index t + 1 < 24 then \<exists>h'. poke2 h (row_index t + 1) (idx - 80) ?c = Some h' \<and> history_ok h'
      else \<exists>h'. poke2 h (row_index t) idx ?c = Some h' \<and> history_ok h')"
    using i assms(2) by (auto simp: line_fits_def intro!: history_cell_run [OF h])
  then show "\<exists>h'. (do { c \<leftarrow> peek_int (live_buffer t) idx;
          if idx \<ge> NUM_COLS \<and> row_index t + 1 < NUM_ROWS - STATUS_BAR_HEIGHT
          then poke2 h (row_index t + 1) (idx - NUM_COLS) c
          else poke2 h (row_index t) idx c }) = Some h' \<and> history_ok h'"
    by (auto simp: c screen_consts split: if_splits)
qed (use assms in simp)

section \<open>Enter\<close>

text \<open>What entering the line does to the terminal: the line moves to the store.\<close>

definition line_entered :: "terminal_t \<Rightarrow> terminal_t \<Rightarrow> bool" where
  "line_entered t t' \<longleftrightarrow> bytes_read_store t' = bytes_read t \<and> length (live_buffer_store t') = 2000
     \<and> take (nat (bytes_read t)) (live_buffer_store t') = take (nat (bytes_read t)) (live_buffer t)
     \<and> live_buffer_store t' ! nat (bytes_read t) = 10
     \<and> bytes_read t' = 0 \<and> live_buffer_location t' = 0 \<and> bytes_written t' = 0
     \<and> command_buffer t' = command_buffer t \<and> write_command_row t' = write_command_row t
     \<and> read_in_progress t' = read_in_progress t"

lemma enter_line_run:
  assumes "history_ok (history_buffer t)" "line_fits t" "length (live_buffer t) = 2000"
    and "length (live_buffer_store t) = 2000"
  shows "\<exists>t'. enter_line t = Some t' \<and> line_entered t (t'\<lparr>bytes_written := 0\<rparr>)
    \<and> bytes_written t' = bytes_written t \<and> cursor_loc t' = cursor_loc t"
proof -
  obtain h where h: "enter_history t = Some h" using enter_history_run [OF assms(1-3)] by blast
  obtain B where B: "bytes_read t = int B" "B \<le> 160"
    using assms(2) by (auto simp: line_fits_def elim!: nonneg_int_cases)
  have c: "copy_first (int B) (live_buffer t) (live_buffer_store t) = Some (take B (live_buffer t) @ drop B (live_buffer_store t))"
    using copy_first_run [of B] assms B by simp
  have z: "loop_over [0 .. int B - 1] (\<lambda>idx l. poke_int l idx 0) (live_buffer t) = Some (replicate B 0 @ drop B (live_buffer t))"
    using zero_loop [of B] assms B by simp
  have p: "poke_int (take B (live_buffer t) @ drop B (live_buffer_store t)) (int B) 10
    = Some ((take B (live_buffer t) @ drop B (live_buffer_store t))[B := 10])"
    using assms B by (simp add: poke_int_def)
  show ?thesis
    using assms B by (simp add: enter_line_def h c z p line_entered_def Let_def nth_append)
qed

lemma new_line_with:
  assumes cur: "current_term s = int i" "i < length (three_terminals s)" and g: "g_row_index s < 24"
    and t: "history_ok (history_buffer t)" "line_fits t" "length (live_buffer t) = 2000"
      "length (live_buffer_store t) = 2000" "0 \<le> bytes_written t"
  shows "\<exists>l t'. new_line (with_term s i (t, m)) = Some (with_term (s\<lparr>io_log := l\<rparr>) i (t', m)) \<and> line_entered t t'"
proof -
  obtain t1 where t1: "enter_line t = Some t1" "line_entered t (t1\<lparr>bytes_written := 0\<rparr>)"
    "bytes_written t1 = bytes_written t" "cursor_loc t1 = cursor_loc t"
    using enter_line_run [OF t(1-4)] by blast
  obtain t2 m2 where p: "putc_term 10 VISUAL_VIRTUAL_ADDR (t1, m) = (t2, m2)" by fastforce
  then have m2: "m2 = m" by (auto simp: putc_term_def Let_def)
  let ?loc = "(cursor_loc t2 sdiv NUM_COLS + 1) * NUM_COLS"
  let ?t3 = "t2\<lparr>bytes_written := 0, cursor_loc := ?loc\<rparr>"
  let ?t4 = "t2\<lparr>bytes_written := 0, cursor_loc := max 0 ?loc\<rparr>"
  let ?s' = "s\<lparr>io_log := io_log s @ cursor_writes (max 0 ?loc)\<rparr>"
  have bw: "(if bytes_written t2 > 0 then t2\<lparr>bytes_written := 0\<rparr> else t2) = t2\<lparr>bytes_written := 0\<rparr>"
    using putc_term_fields(4) [of 10 VISUAL_VIRTUAL_ADDR "(t1, m)"] t1(3) t(5) by (auto simp: p)
  have move: "move_cursor ?loc (with_term s i (?t3, m)) = Some (with_term ?s' i (?t4, m))"
    by (simp add: move_cursor_with [OF cur])
  have n: "nat (current_term s) = i" using cur(1) by simp
  have "new_line (with_term s i (t, m)) = Some (with_term ?s' i (?t4, m))"
    using g move
    by (simp add: new_line_def cur_term_with [OF cur] t1(1) putc_multi_with [OF cur(2)] n p m2 bw
        screen_consts Let_def del: max.absorb_iff1 max.absorb_iff2)
  moreover have "line_entered t ?t4"
    using t1(2) putc_term_fields [of 10 VISUAL_VIRTUAL_ADDR "(t1, m)"] putc_term_command [of 10 VISUAL_VIRTUAL_ADDR "(t1, m)"]
    by (simp add: p line_entered_def)
  ultimately show ?thesis by blast
qed

section \<open>Delivering the line\<close>

text \<open>\<open>m'\<close> is \<open>m\<close> with the bytes \<open>bs\<close> written at \<open>ptr\<close>.\<close>

definition bytes_put :: "u32 \<Rightarrow> u8 list \<Rightarrow> mem \<Rightarrow> mem \<Rightarrow> bool" where
  "bytes_put ptr bs m m' \<longleftrightarrow> (\<forall>k<length bs. m' (ptr + of_nat k) = bs ! k)
     \<and> (\<forall>a. \<not> in_range a ptr (length bs) \<longrightarrow> m' a = m a)"

lemma bytes_put_Nil [simp]: "bytes_put ptr [] m m' \<longleftrightarrow> m' = m"
  by (auto simp: bytes_put_def)

lemma bytes_put_snoc:
  assumes "bytes_put ptr bs m m1" and "length bs < 2 ^ 31"
  shows "bytes_put ptr (bs @ [c]) m (m1(ptr + of_nat (length bs) := c))"
proof -
  have "ptr + of_nat k \<noteq> ptr + of_nat (length bs)" if "k < length bs" for k
  proof
    assume "ptr + of_nat k = ptr + of_nat (length bs)"
    then have "unat (of_nat k :: u32) = unat (of_nat (length bs) :: u32)" by simp
    with that assms(2) show False by (simp add: unat_of_nat_small)
  qed
  moreover have "in_range (ptr + of_nat (length bs)) ptr (Suc (length bs))"
    using assms(2) by (simp add: in_range_def unat_of_nat_small)
  moreover have "in_range a ptr (length bs) \<Longrightarrow> in_range a ptr (Suc (length bs))" for a
    by (simp add: in_range_def)
  ultimately show ?thesis
    using assms(1) by (auto simp: bytes_put_def nth_append less_Suc_eq)
qed

text \<open>The command buffer with \<open>bs\<close> at the head of row \<open>R\<close>.\<close>

definition remember :: "nat \<Rightarrow> u8 list \<Rightarrow> u8 list list \<Rightarrow> u8 list list" where
  "remember R bs cb = cb[R := bs @ drop (length bs) (cb ! R)]"

definition commands_ok :: "terminal_t \<Rightarrow> bool" where
  "commands_ok t \<longleftrightarrow> length (command_buffer t) = 20 \<and> (\<forall>r\<in>set (command_buffer t). length r = 128)"

lemma remember_snoc:
  assumes "R < length cb" "length bs < length (cb ! R)"
  shows "poke2 (remember R bs cb) (int R) (int (length bs)) c = Some (remember R (bs @ [c]) cb)"
  using assms
  by (simp add: poke2_def remember_def peek_int_def poke_int_def list_update_append Cons_nth_drop_Suc [symmetric])

lemma deliver_chars_run:
  assumes store: "bytes_read_store t = int B" "B < length (live_buffer_store t)" "length (live_buffer_store t) = 2000"
    and cb: "commands_ok t" "R < 20" and n: "W + n \<le> B" "n \<le> 127"
  shows "\<exists>m'. loop_over [int W .. int (W + n) - 1] (deliver_char ptr (int W) (int R)) (t, m)
      = Some (t\<lparr>command_buffer := remember R (take n (drop W (live_buffer_store t))) (command_buffer t)\<rparr>, m')
    \<and> bytes_put ptr (take n (drop W (live_buffer_store t))) m m'"
  using n
proof (induction n)
  case 0
  show ?case by (simp add: remember_def)
next
  case (Suc n)
  let ?xs = "take n (drop W (live_buffer_store t))"
  let ?c = "live_buffer_store t ! (W + n)"
  obtain m' where ih: "loop_over [int W .. int (W + n) - 1] (deliver_char ptr (int W) (int R)) (t, m)
      = Some (t\<lparr>command_buffer := remember R ?xs (command_buffer t)\<rparr>, m')" "bytes_put ptr ?xs m m'"
    using Suc by auto
  have len: "length ?xs = n" using Suc.prems store by simp
  have xs: "take (Suc n) (drop W (live_buffer_store t)) = ?xs @ [?c]"
    using Suc.prems store by (simp add: take_Suc_conv_app_nth)
  have R: "R < length (command_buffer t)" "length (command_buffer t ! R) = 128"
    using cb by (auto simp: commands_ok_def)
  have p: "poke2 (remember R ?xs (command_buffer t)) (int R) (int n) ?c
      = Some (remember R (?xs @ [?c]) (command_buffer t))"
    using remember_snoc [OF R(1), of ?xs ?c] R Suc.prems len by simp
  have "deliver_char ptr (int W) (int R) (int (W + n)) (t\<lparr>command_buffer := remember R ?xs (command_buffer t)\<rparr>, m')
      = Some (t\<lparr>command_buffer := remember R (?xs @ [?c]) (command_buffer t)\<rparr>, m'(ptr + of_nat n := ?c))"
    using Suc.prems store p by (simp add: deliver_char_def peek_int_def nat_add_distrib)
  moreover have "[int W .. int (W + Suc n) - 1] = [int W .. int (W + n) - 1] @ [int (W + n)]"
    by (simp add: upto_rec2)
  moreover have "bytes_put ptr (?xs @ [?c]) m (m'(ptr + of_nat n := ?c))"
    using bytes_put_snoc [OF ih(2), of ?c] len Suc.prems by simp
  ultimately show ?case using ih(1) by (simp add: loop_over_append xs del: upto.simps)
qed

text \<open>The whole delivery of a line \<open>W\<close> bytes into the store.\<close>

definition delivered :: "nat \<Rightarrow> u8 list \<Rightarrow> terminal_t \<Rightarrow> terminal_t \<Rightarrow> bool" where
  "delivered R xs t t' \<longleftrightarrow> bytes_read_store t' = 0 \<and> read_in_progress t' = 0
     \<and> bytes_read t' = bytes_read t \<and> bytes_written t' = bytes_written t
     \<and> live_buffer_location t' = live_buffer_location t
     \<and> (if xs = [] then command_buffer t' = command_buffer t \<and> write_command_row t' = int R
        else command_buffer t' = remember R xs (command_buffer t) \<and> write_command_row t' = int R + 1
          \<and> view_command_row t' = int R + 1)"

lemma deliver_line_run:
  assumes store: "bytes_read_store t = int B" "B < 2000" "length (live_buffer_store t) = 2000"
    and cb: "commands_ok t" "write_command_row t = int R" "R < 20"
    and W: "W \<le> B" "B \<le> W + 127"
    and xs: "xs = drop W (take B (live_buffer_store t))"
  shows "\<exists>t' m'. deliver_line ptr (int W) (t, m) = Some (int (length xs) + 1, t', m')
    \<and> bytes_put ptr (xs @ [10]) m m' \<and> delivered R xs t t'"
proof -
  let ?n = "B - W"
  have x: "xs = take ?n (drop W (live_buffer_store t))" "length xs = ?n"
    using xs W store by (simp_all add: drop_take)
  let ?t1 = "t\<lparr>command_buffer := remember R xs (command_buffer t)\<rparr>"
  obtain m1 where m1: "loop_over [int W .. int B - 1] (deliver_char ptr (int W) (int R)) (t, m) = Some (?t1, m1)"
    "bytes_put ptr xs m m1"
  proof -
    have "?n \<le> 127" using W by linarith
    with deliver_chars_run [of t B R W ?n ptr m] store cb W x(1) that show ?thesis by (auto simp del: upto.simps)
  qed
  have len: "max 0 (int B - int W) = int (length xs)" using W x(2) by simp
  have z: "loop_over [0 .. int B - 1] (\<lambda>idx l. poke_int l idx 0) (live_buffer_store t)
      = Some (replicate B 0 @ drop B (live_buffer_store t))"
    using zero_loop [of B "live_buffer_store t"] store by (simp del: upto.simps)
  let ?store = "replicate B 0 @ drop B (live_buffer_store t)"
  have put: "bytes_put ptr (xs @ [10]) m (m1(ptr + of_nat (length xs) := 10))"
    using bytes_put_snoc [OF m1(2)] W x(2) by simp
  show ?thesis
  proof (cases "W < B")
    case True
    let ?t2 = "?t1\<lparr>write_command_row := int R + 1, view_command_row := int R + 1,
      live_buffer_store := ?store, bytes_read_store := 0, read_in_progress := 0\<rparr>"
    have "deliver_line ptr (int W) (t, m) = Some (int (length xs) + 1, ?t2, m1(ptr + of_nat (length xs) := 10))"
      using m1(1) z True store(1) cb(2) by (simp add: deliver_line_def len Let_def del: upto.simps)
    moreover have "delivered R xs t ?t2" using True x(2) by (auto simp: delivered_def)
    ultimately show ?thesis using put by blast
  next
    case False
    then have WB: "W = B" "xs = []" using W x by simp_all
    have r: "remember R [] (command_buffer t) = command_buffer t" by (simp add: remember_def)
    let ?t2 = "?t1\<lparr>live_buffer_store := ?store, bytes_read_store := 0, read_in_progress := 0\<rparr>"
    have "deliver_line ptr (int W) (t, m) = Some (int (length xs) + 1, ?t2, m1(ptr + of_nat (length xs) := 10))"
      using m1(1) z store(1) cb(2) WB by (simp add: deliver_line_def Let_def del: upto.simps)
    moreover have "delivered R xs t ?t2" using WB cb(2) r by (auto simp: delivered_def)
    ultimately show ?thesis using put by blast
  qed
qed

section \<open>Scrolling the command buffer\<close>

lemma shift_rows:
  "n < length xs \<Longrightarrow> fold (\<lambda>row cb. cb[row := cb ! (row + 1)]) [0..<n] xs = take n (tl xs) @ drop n xs"
proof (induction n)
  case (Suc n)
  have "take n (tl xs) @ drop n xs = take n (tl xs) @ xs ! n # xs ! Suc n # drop (Suc (Suc n)) xs"
    using Suc.prems by (simp add: Cons_nth_drop_Suc)
  moreover have "take (Suc n) (tl xs) = take n (tl xs) @ [xs ! Suc n]"
    using Suc.prems by (simp add: take_Suc_conv_app_nth nth_tl)
  moreover have "drop (Suc n) xs = xs ! Suc n # drop (Suc (Suc n)) xs"
    using Suc.prems by (simp add: Cons_nth_drop_Suc)
  ultimately show ?case using Suc by (simp add: list_update_append nth_append)
qed simp

definition make_command_room :: "terminal_t \<Rightarrow> terminal_t" where
  "make_command_room t = (if write_command_row t \<ge> 20
     then t\<lparr>command_buffer := tl (command_buffer t) @ [replicate 128 0], write_command_row := 19\<rparr> else t)"

lemma command_buffer_scroll_with:
  assumes "i < length (three_terminals s)" and "commands_ok t"
  shows "(if write_command_row t \<ge> 20 then command_buffer_scroll i (with_term s i (t, m)) else Some (with_term s i (t, m)))
    = Some (with_term s i (make_command_room t, m))"
proof -
  have len: "length (command_buffer t) = 20" using assms(2) by (simp add: commands_ok_def)
  then have "take 19 (tl (command_buffer t)) = tl (command_buffer t)" by simp
  moreover have "drop 19 (command_buffer t) = [command_buffer t ! 19]"
    using len Cons_nth_drop_Suc [of 19 "command_buffer t"] by simp
  ultimately have "(fold (\<lambda>row cb. cb[row := cb ! (row + 1)]) [0..<19] (command_buffer t))[19 := replicate 128 0]
      = tl (command_buffer t) @ [replicate 128 0]"
    using shift_rows [of 19 "command_buffer t"] len by (simp add: list_update_append)
  then show ?thesis
    by (simp add: command_buffer_scroll_def with_term_access [OF assms(1)] make_command_room_def kernel_consts)
qed

lemma make_command_room_ok:
  assumes "commands_ok t"
  shows "commands_ok (make_command_room t)"
  using assms list.set_sel(2) [of "command_buffer t"]
  by (cases "command_buffer t") (auto simp: commands_ok_def make_command_room_def)

lemma make_command_room_same [simp]:
  "bytes_read_store (make_command_room t) = bytes_read_store t"
  "live_buffer_store (make_command_room t) = live_buffer_store t"
  "bytes_read (make_command_room t) = bytes_read t" "bytes_written (make_command_room t) = bytes_written t"
  "write_command_row (make_command_room t) = min 19 (write_command_row t)"
  by (auto simp: make_command_room_def)

lemma finish_read_with:
  assumes i: "i < length (three_terminals s)"
    and store: "bytes_read_store t = int B" "B < 2000" "length (live_buffer_store t) = 2000"
    and cb: "commands_ok t" "0 \<le> write_command_row t"
    and W: "W \<le> B" "B \<le> W + 127"
    and xs: "xs = drop W (take B (live_buffer_store t))"
  shows "\<exists>t' m'. finish_read i ptr (int W) (with_term s i (t, m))
      = Some (word_of_int (int (length xs) + 1), with_term (sti s) i (t', m'))
    \<and> bytes_put ptr (xs @ [10]) m m'
    \<and> delivered (nat (min 19 (write_command_row t))) xs (make_command_room t) t'"
proof -
  let ?R = "nat (min 19 (write_command_row t))"
  have R: "?R < 20" by linarith
  obtain t' m' where run: "deliver_line ptr (int W) (make_command_room t, m) = Some (int (length xs) + 1, t', m')"
    and post: "bytes_put ptr (xs @ [10]) m m'" "delivered ?R xs (make_command_room t) t'"
    using deliver_line_run [of "make_command_room t" B ?R W xs ptr m] make_command_room_ok [OF cb(1)]
      store cb W xs R by auto
  have ints: "cli (with_term s i tm) = with_term (cli s) i tm" "sti (with_term (cli s) i tm) = with_term (sti s) i tm" for tm
    by (simp_all add: cli_def sti_def with_term_def)
  have i': "i < length (three_terminals (cli s))" using i by (simp add: cli_def)
  note scroll = command_buffer_scroll_with [OF i' cb(1), of m]
  have "finish_read i ptr (int W) (with_term s i (t, m))
      = Some (word_of_int (int (length xs) + 1), with_term (sti s) i (t', m'))"
    using run scroll
    by (simp add: finish_read_def ints with_term_access [OF i'] kernel_consts del: of_int_add)
  with post show ?thesis by blast
qed

section \<open>Reading a line, ended by Enter\<close>

text \<open>What pressing Enter changes of the kernel besides the terminal.\<close>

definition keyed :: "'a kernel_state_scheme \<Rightarrow> io_event list \<Rightarrow> u8 list \<Rightarrow> 'a kernel_state_scheme" where
  "keyed s l pb = s\<lparr>io_log := l, enter_pressed := 1, parse_buffer := pb, spam_enters_received := 1\<rparr>"

lemma keyed_simps [simp]:
  "three_terminals (keyed s l pb) = three_terminals s" "current_term (keyed s l pb) = current_term s"
  by (simp_all add: keyed_def)

definition sends_enter :: "'a kernel_state_scheme \<Rightarrow> bool" where
  "sends_enter s \<longleftrightarrow> io_dev s (io_log s) 0x64 AND 1 \<noteq> 0 \<and> io_dev s (io_log s @ [In 0x64]) 0x60 = 28"

definition enterable :: "terminal_t \<Rightarrow> bool" where
  "enterable t \<longleftrightarrow> history_ok (history_buffer t) \<and> line_fits t \<and> length (live_buffer t) = 2000
     \<and> length (live_buffer_store t) = 2000 \<and> 0 \<le> bytes_written t"

lemma keyboard_enter_with:
  assumes cur: "current_term s = int i" "i < length (three_terminals s)" and g: "g_row_index s < 24"
    and t: "enterable t" "read_in_progress t \<noteq> 0" and dev: "sends_enter s" "enter_pressed s = 0"
  shows "\<exists>l pb t'. keyboard_handler (with_term s i (t, m)) = Some (with_term (keyed s l pb) i (t', m)) \<and> line_entered t t'"
proof -
  let ?l = "io_log s @ [In 0x64, In 0x60]"
  let ?s1 = "s\<lparr>io_log := ?l, enter_pressed := 1, parse_buffer := [10, 48, 49, 48]\<rparr>"
  have cur1: "current_term ?s1 = int i" "i < length (three_terminals ?s1)" "g_row_index ?s1 < 24"
    using cur g by simp_all
  obtain l t' where nl: "new_line (with_term ?s1 i (t, m)) = Some (with_term (?s1\<lparr>io_log := l\<rparr>) i (t', m))"
    "line_entered t t'"
    using new_line_with [OF cur1, of t m] t(1) by (auto simp: enterable_def)
  have st: "(with_term s i (t, m))\<lparr>io_log := ?l, enter_pressed := 1, parse_buffer := [10, 48, 49, 48]\<rparr>
      = with_term ?s1 i (t, m)"
    by (simp add: with_term_def)
  have rd: "read_parser 10 48 49 48 (with_term ?s1 i (t, m)) = Some (with_term (?s1\<lparr>io_log := l\<rparr>) i (t', m))"
    using nl(1) t(2) by (simp add: read_parser_def cur_term_with [OF cur1(1,2)])
  have ek: "enter_key ((with_term s i (t, m))\<lparr>io_log := ?l\<rparr>)
      = Some (with_term (keyed s l [10, 48, 49, 48]) i (t', m))"
  proof -
    have ep: "enter_pressed ((with_term s i (t, m))\<lparr>io_log := ?l\<rparr>) = 0"
      "enter_pressed (with_term (?s1\<lparr>io_log := l\<rparr>) i (t', m)) = 1"
      using dev(2) by (simp_all add: with_term_def)
    have fin: "(with_term (?s1\<lparr>io_log := l\<rparr>) i (t', m))\<lparr>spam_enters_received := 1, enter_pressed := 1\<rparr>
        = with_term (keyed s l [10, 48, 49, 48]) i (t', m)"
      by (simp add: with_term_def keyed_def)
    show ?thesis using rd st fin ep by (simp add: enter_key_def parse_key_def)
  qed
  have "\<exists>l'. send_eoi KEYBOARD_IRQ (with_term (keyed s l [10, 48, 49, 48]) i (t', m))
      = with_term (keyed s l' [10, 48, 49, 48]) i (t', m)"
  proof -
    obtain l' where "send_eoi KEYBOARD_IRQ (with_term (keyed s l [10, 48, 49, 48]) i (t', m))
        = (with_term (keyed s l [10, 48, 49, 48]) i (t', m))\<lparr>io_log := l'\<rparr>"
      using send_eoi_log by blast
    moreover have "(with_term (keyed s l [10, 48, 49, 48]) i (t', m))\<lparr>io_log := l'\<rparr>
        = with_term (keyed s l' [10, 48, 49, 48]) i (t', m)"
      by (simp add: with_term_def keyed_def)
    ultimately show ?thesis by auto
  qed
  moreover have "handle_keycode 28 ((with_term s i (t, m))\<lparr>io_log := ?l\<rparr>)
      = Some (0, with_term (keyed s l [10, 48, 49, 48]) i (t', m))"
    using ek by (simp add: handle_keycode_def key_consts)
  moreover have "inb KEYBOARD_STATUS_PORT (with_term s i (t, m))
      = (io_dev s (io_log s) 0x64, (with_term s i (t, m))\<lparr>io_log := io_log s @ [In 0x64]\<rparr>)"
    "inb KEYBOARD_DATA_PORT ((with_term s i (t, m))\<lparr>io_log := io_log s @ [In 0x64]\<rparr>)
      = (28, (with_term s i (t, m))\<lparr>io_log := ?l\<rparr>)"
    using dev(1) by (simp_all add: inb_def with_term_def key_consts sends_enter_def)
  moreover have "handle_char 0 u = Some u" for u :: "'a kernel_state_scheme" by (simp add: handle_char_def)
  moreover have "io_dev s (io_log s) 0x64 AND 1 \<noteq> 0" using dev(1) by (simp add: sends_enter_def)
  ultimately show ?thesis using nl(2) by (auto simp: keyboard_handler_def)
qed

text \<open>The waiting loop returns after one round when the keyboard sends Enter.\<close>

lemma await_line_with:
  assumes cur: "current_term s = int i" "i < length (three_terminals s)" and g: "g_row_index s < 24"
    and t: "enterable t" "read_in_progress t \<noteq> 0" and dev: "sends_enter s" "enter_pressed s = 0"
    and waiting: "0 \<le> bytes_read_store t" "bytes_read_store t < 2000"
      "live_buffer_store t ! nat (bytes_read_store t) \<noteq> 10"
  shows "\<exists>l pb t'. await_line i (with_term s i (t, m)) = Some (with_term (keyed s l pb) i (t', m)) \<and> line_entered t t'"
proof -
  obtain l pb t' where k: "keyboard_handler (with_term s i (t, m)) = Some (with_term (keyed s l pb) i (t', m))"
    "line_entered t t'"
    using keyboard_enter_with [OF cur g t dev] by blast
  have i': "i < length (three_terminals (keyed s l pb))" using cur(2) by simp
  have "bytes_read_store t' = bytes_read t" "0 \<le> bytes_read t" "bytes_read t < 2000"
    "length (live_buffer_store t') = 2000" "live_buffer_store t' ! nat (bytes_read t) = 10"
    using k(2) t(1) by (auto simp: line_entered_def enterable_def line_fits_def)
  then have stop: "await_line i (with_term (keyed s l pb) i (t', m)) = Some (with_term (keyed s l pb) i (t', m))"
    by (subst await_line.simps) (simp add: with_term_access(1) [OF i'] peek_int_def)
  have "peek_int (live_buffer_store t) (bytes_read_store t) = Some (live_buffer_store t ! nat (bytes_read_store t))"
    using t(1) waiting by (auto simp: peek_int_def enterable_def)
  then have "await_line i (with_term s i (t, m)) = Some (with_term (keyed s l pb) i (t', m))"
    using waiting(3) k(1) stop
    by (subst await_line.simps) (simp add: with_term_access(1) [OF cur(2)])
  with k(2) show ?thesis by blast
qed

text \<open>A terminal in which a line can be read.\<close>

definition can_read :: "terminal_t \<Rightarrow> bool" where
  "can_read t \<longleftrightarrow> enterable t \<and> commands_ok t \<and> 0 \<le> write_command_row t
     \<and> bytes_written t \<le> bytes_read t \<and> bytes_read t \<le> bytes_written t + 127
     \<and> 0 \<le> bytes_read_store t \<and> bytes_read_store t < 2000
     \<and> live_buffer_store t ! nat (bytes_read_store t) \<noteq> 10"


section \<open>The character of a key\<close>

definition is_letter_key :: "u8 \<Rightarrow> bool" where
  "is_letter_key k \<longleftrightarrow> 97 \<le> printable_scan_codes ! unat k \<and> printable_scan_codes ! unat k \<le> 122"

text \<open>Shift selects the second half of the table; for letters, caps lock inverts it.\<close>

definition key_place :: "u8 \<Rightarrow> 'a kernel_state_scheme \<Rightarrow> nat" where
  "key_place k s = unat k +
     (if (if is_letter_key k then (shift_pressed s \<noteq> 0) \<noteq> (caps_pressed s \<noteq> 0) else shift_pressed s \<noteq> 0)
      then 57 else 0)"

text \<open>
  C40. The character of a key: nothing for a release; for a key press the entry of the
  115-entry table that shift selects, with caps lock inverting shift for letters only. When the
  entry would be past the table (the function keys with shift, and every scan code from 115 on)
  the handler reads outside the array, and the model has no result.
\<close>

theorem key_char_in_table:
  "key_char k s =
    (if unat k \<ge> 128 then Some (0, s\<lparr>key_pressed := 0\<rparr>)
     else if key_place k s < 115 then Some (printable_scan_codes ! key_place k s, s\<lparr>key_pressed := 1\<rparr>)
     else None)"
proof -
  have len: "length printable_scan_codes = 115" by (simp add: printable_scan_codes_def)
  have lt: "k < 128 \<longleftrightarrow> unat k < 128" by (simp add: word_less_nat_alt)
  show ?thesis
    by (auto simp: key_char_def key_place_def is_letter_key_def key_consts len lt peek_def Let_def not_less not_le)
qed

lemma key_char_past_table: "key_char 59 (s\<lparr>shift_pressed := 1\<rparr>) = None"
  by (simp add: key_char_def key_consts printable_scan_codes_def peek_def Let_def)

section \<open>Witnesses\<close>

definition typed_kernel :: "unit kernel_state_scheme" where
  "typed_kernel = tiny_kernel\<lparr>
     three_terminals := replicate 3 (blank_term\<lparr>live_buffer := 108 # 115 # replicate 1998 0,
       bytes_read := 2, live_buffer_location := 2\<rparr>),
     io_dev := (\<lambda>_ p. if p = 0x64 then 1 else 28)\<rparr>"


end
