(* ===== verification/Syscalls.thy ===== *)
theory Syscalls
  imports ReadLine
begin

text \<open>
  The system calls: \<open>src/interrupts/syscalls.c\<close> and the entry \<open>irq_syscall\<close> of
  \<open>src/interrupts/syscalls_linkage.S\<close>.

  The functions behind a descriptor's operation table are chosen by \<open>driver_t\<close>; a call through a
  null or unset pointer has no result. A string argument is the list of the bytes from its
  address on; a buffer argument is the physical address the user's pointer leads to (the kernel
  itself is mapped to itself), which \<open>irq_syscall\<close> computes with the processor's translation.
  What the compiler and the linker choose is the parameter \<open>env\<close>: the address of the local
  array \<open>buf\<close> of \<open>sys_execute\<close>, the addresses of two messages, and the former contents of two
  uninitialised local structures.
\<close>

section \<open>Constants\<close>

definition HALT_EXCEPTION :: u32 where "HALT_EXCEPTION = 256"
definition ENTRY_ADDRESS_BYTE_1 :: u32 where "ENTRY_ADDRESS_BYTE_1 = 24"
definition FILE_HEADER_SIZE :: nat where "FILE_HEADER_SIZE = 4"
definition FLAG_SET :: u8 where "FLAG_SET = 1"
definition FLAG_UNSET :: u8 where "FLAG_UNSET = 0"
definition RETURN_FAIL :: i32 where "RETURN_FAIL = -1"
definition RETURN_PASS :: i32 where "RETURN_PASS = 0"
definition STDIN_FD :: int where "STDIN_FD = 0"
definition STDOUT_FD :: int where "STDOUT_FD = 1"

lemmas call_consts = HALT_EXCEPTION_def ENTRY_ADDRESS_BYTE_1_def FILE_HEADER_SIZE_def FLAG_SET_def
  FLAG_UNSET_def RETURN_FAIL_def RETURN_PASS_def STDIN_FD_def STDOUT_FD_def

definition executable_magic_numbers :: "u8 list" where
  "executable_magic_numbers = [0x7F, 0x45, 0x4C, 0x46]"

record c_env =
  header_buf :: u32
  full_msg :: u32
  root_msg :: u32
  junk_dentry :: dentry
  junk_process :: process_t

section \<open>Processes and drivers\<close>

definition init_PCBs :: "'a kernel_state_scheme \<Rightarrow> 'a kernel_state_scheme option" where
  "init_PCBs s = loop_over [0..<MAX_PROCESSES]
     (\<lambda>idx s. do { p \<leftarrow> peek (PCB s) idx; set_PCB idx (p\<lparr>running := 0\<rparr>) s }) s"

text \<open>Where \<open>init_PCBs\<close> puts the control block of a process.\<close>

definition PCB_at :: "u8 \<Rightarrow> u32" where
  "PCB_at idx = PCB_KERNEL_PHYSICAL_ADDRESS - PCB_KERNEL_PHYSICAL_OFFSET - ucast idx * PCB_KERNEL_PHYSICAL_OFFSET"

text \<open>The operation tables; \<open>terminal\<close> has no \<open>open\<close> and no \<open>close\<close>.\<close>

fun driver_read :: "driver_t \<Rightarrow> dentry \<Rightarrow> nat \<Rightarrow> u32 \<Rightarrow> i32 \<Rightarrow> 'a kernel_state_scheme \<Rightarrow> (i32 \<times> 'a kernel_state_scheme) option" where
  "driver_read NoDriver junk fd buf nbytes s = None"
| "driver_read TerminalDriver junk fd buf nbytes s = terminal_read fd buf nbytes s"
| "driver_read RtcDriver junk fd buf nbytes s = rtc_read fd buf nbytes s"
| "driver_read FileDriver junk fd buf nbytes s = file_read fd buf nbytes s"
| "driver_read DirectoryDriver junk fd buf nbytes s = dir_read junk fd buf nbytes s"
| "driver_read MouseDriver junk fd buf nbytes s = mouse_read fd buf nbytes s"

fun driver_write :: "driver_t \<Rightarrow> nat \<Rightarrow> u32 \<Rightarrow> i32 \<Rightarrow> 'a kernel_state_scheme \<Rightarrow> (i32 \<times> 'a kernel_state_scheme) option" where
  "driver_write NoDriver fd buf nbytes s = None"
| "driver_write TerminalDriver fd buf nbytes s = terminal_write fd buf nbytes s"
| "driver_write RtcDriver fd buf nbytes s = rtc_write fd buf nbytes s"
| "driver_write FileDriver fd buf nbytes s = file_write fd buf nbytes s"
| "driver_write DirectoryDriver fd buf nbytes s = dir_write fd buf nbytes s"
| "driver_write MouseDriver fd buf nbytes s = mouse_write fd buf nbytes s"

fun driver_open :: "driver_t \<Rightarrow> dentry \<Rightarrow> u8 list \<Rightarrow> 'a kernel_state_scheme \<Rightarrow> (i32 \<times> 'a kernel_state_scheme) option" where
  "driver_open NoDriver junk filename s = None"
| "driver_open TerminalDriver junk filename s = None"
| "driver_open RtcDriver junk filename s = rtc_open filename s"
| "driver_open FileDriver junk filename s = file_open junk filename s"
| "driver_open DirectoryDriver junk filename s = dir_open junk filename s"
| "driver_open MouseDriver junk filename s = mouse_open filename s"

fun driver_close :: "driver_t \<Rightarrow> nat \<Rightarrow> 'a kernel_state_scheme \<Rightarrow> (i32 \<times> 'a kernel_state_scheme) option" where
  "driver_close NoDriver fd s = None"
| "driver_close TerminalDriver fd s = None"
| "driver_close RtcDriver fd s = rtc_close fd s"
| "driver_close FileDriver fd s = file_close fd s"
| "driver_close DirectoryDriver fd s = dir_close fd s"
| "driver_close MouseDriver fd s = mouse_close fd s"

section \<open>Descriptors\<close>

definition sys_read :: "c_env \<Rightarrow> i32 \<Rightarrow> u32 \<Rightarrow> i32 \<Rightarrow> 'a kernel_state_scheme \<Rightarrow> (i32 \<times> 'a kernel_state_scheme) option" where
  "sys_read env fd buf nbytes s =
     (if sint fd \<ge> int FILE_DESCRIPTOR_SIZE \<or> sint fd < 0 \<or> sint fd = STDOUT_FD then Some (RETURN_FAIL, s)
      else do {
        f \<leftarrow> get_fd (nat (sint fd)) s;
        if fd_flags f AND PRESENT_BITMASK = 0 then Some (RETURN_FAIL, s)
        else driver_read (operation_table f) (junk_dentry env) (nat (sint fd)) buf nbytes s
      })"

definition sys_write :: "i32 \<Rightarrow> u32 \<Rightarrow> i32 \<Rightarrow> 'a kernel_state_scheme \<Rightarrow> (i32 \<times> 'a kernel_state_scheme) option" where
  "sys_write fd buf nbytes s =
     (if sint fd \<ge> int FILE_DESCRIPTOR_SIZE \<or> sint fd < 0 \<or> sint fd = STDIN_FD then Some (RETURN_FAIL, s)
      else do {
        f \<leftarrow> get_fd (nat (sint fd)) s;
        if fd_flags f AND PRESENT_BITMASK = 0 then Some (RETURN_FAIL, s)
        else driver_write (operation_table f) (nat (sint fd)) buf nbytes s
      })"

text \<open>The entry of the file to open, created when there is none of that name.\<close>

definition find_or_create :: "u8 list \<Rightarrow> dentry \<Rightarrow> 'a kernel_state_scheme \<Rightarrow> (dentry option \<times> 'a kernel_state_scheme) option" where
  "find_or_create filename junk s = do {
     (status, entry) \<leftarrow> read_dentry_by_name filename junk s;
     if status = RETURN_FAIL then do {
       (new_dentry, s) \<leftarrow> create_new_file filename s;
       Some (if new_dentry = 0 then None else Some (load_dentry (mem s) new_dentry), s)
     }
     else Some (Some entry, s)
   }"

fun find_fd :: "nat list \<Rightarrow> 'a kernel_state_scheme \<Rightarrow> nat option option" where
  "find_fd [] s = Some None"
| "find_fd (idx # rest) s = do {
     f \<leftarrow> get_fd idx s;
     if fd_flags f AND PRESENT_BITMASK = 0 then Some (Some idx) else find_fd rest s
   }"

definition opened_fd :: "bool \<Rightarrow> dentry \<Rightarrow> file_array_t \<Rightarrow> file_array_t" where
  "opened_fd is_mouse entry f =
     (let f = f\<lparr>fd_inode := inode_num entry, file_position := 0, fd_flags := fd_flags f OR 1\<rparr>;
          dir_file_type = file_type entry
      in if is_mouse then f\<lparr>operation_table := MouseDriver\<rparr>
         else if dir_file_type = FS_TYPE_RTC
         then f\<lparr>fd_flags := fd_flags f OR 2,
                file_position := word_of_int (RTC_MAX_FREQ sdiv DEFAULT_RTC_FREQ),
                operation_table := RtcDriver\<rparr>
         else if dir_file_type = FS_TYPE_DIR then f\<lparr>operation_table := DirectoryDriver\<rparr>
         else if dir_file_type = FS_TYPE_FILE then f\<lparr>operation_table := FileDriver\<rparr>
         else f)"

definition open_slot :: "c_env \<Rightarrow> bool \<Rightarrow> dentry \<Rightarrow> u8 list \<Rightarrow> 'a kernel_state_scheme \<Rightarrow> (i32 \<times> 'a kernel_state_scheme) option" where
  "open_slot env is_mouse entry filename s = do {
     slot \<leftarrow> find_fd [FIRST_READABLE_FILE..<FILE_DESCRIPTOR_SIZE] s;
     (case slot of
        None \<Rightarrow> Some (RETURN_FAIL, s)
      | Some idx \<Rightarrow> do {
          s \<leftarrow> upd_fd idx (opened_fd is_mouse entry) s;
          f \<leftarrow> get_fd idx s;
          (r, s) \<leftarrow> driver_open (operation_table f) (junk_dentry env) filename s;
          Some (of_nat idx, s)
        })
   }"

text \<open>The name \<open>"mouse"\<close> with its terminator.\<close>

definition mouse_name :: "u8 list" where "mouse_name = [109, 111, 117, 115, 101, 0]"

definition sys_open :: "c_env \<Rightarrow> u8 list \<Rightarrow> 'a kernel_state_scheme \<Rightarrow> (i32 \<times> 'a kernel_state_scheme) option" where
  "sys_open env filename s = do {
     c \<leftarrow> peek filename 0;
     if c = 0 then Some (RETURN_FAIL, s)
     else do {
       d \<leftarrow> strncmp filename mouse_name 6;
       if d = 0 then open_slot env True (junk_dentry env) filename s
       else do {
         (entry, s) \<leftarrow> find_or_create filename (junk_dentry env) s;
         (case entry of
            None \<Rightarrow> Some (RETURN_FAIL, s)
          | Some entry \<Rightarrow> open_slot env False entry filename s)
       }
     }
   }"

definition sys_close :: "i32 \<Rightarrow> 'a kernel_state_scheme \<Rightarrow> (i32 \<times> 'a kernel_state_scheme) option" where
  "sys_close fd s =
     (if sint fd < int FIRST_READABLE_FILE \<or> sint fd \<ge> int FILE_DESCRIPTOR_SIZE then Some (RETURN_FAIL, s)
      else do {
        f \<leftarrow> get_fd (nat (sint fd)) s;
        if fd_flags f AND PRESENT_BITMASK = 1 then do {
          (r, s) \<leftarrow> driver_close (operation_table f) (nat (sint fd)) s;
          s \<leftarrow> upd_fd (nat (sint fd)) (\<lambda>f. f\<lparr>fd_flags := fd_flags f AND 0, fd_inode := 0, file_position := 0\<rparr>) s;
          Some (RETURN_PASS, s)
        }
        else Some (RETURN_FAIL, s)
      })"

section \<open>Arguments, signals and video memory\<close>

text \<open>\<open>nbytes > strlen(args) + 1\<close> compares unsigned numbers.\<close>

definition sys_getargs :: "u32 \<Rightarrow> i32 \<Rightarrow> 'a kernel_state_scheme \<Rightarrow> (i32 \<times> 'a kernel_state_scheme) option" where
  "sys_getargs buf nbytes s = do {
     p \<leftarrow> current_PCB s;
     c \<leftarrow> peek (args p) 0;
     if c = 0 then Some (RETURN_FAIL, s)
     else do {
       len \<leftarrow> strlen (args p);
       let n = (if nbytes > of_nat len + 1 then of_nat len + 1 else nbytes);
       m \<leftarrow> loop_over [0..<nat (sint n)]
         (\<lambda>i m. do { c \<leftarrow> peek (args p) i; Some (m(buf + of_nat i := c)) }) (mem s);
       Some (RETURN_PASS, s\<lparr>mem := m\<rparr>)
     }
   }"

definition sys_set_handler :: "i32 \<Rightarrow> u32 \<Rightarrow> 'a kernel_state_scheme \<Rightarrow> (i32 \<times> 'a kernel_state_scheme) option" where
  "sys_set_handler signum handler_address s = Some (RETURN_FAIL, s)"

definition sys_sigreturn :: "'a kernel_state_scheme \<Rightarrow> (i32 \<times> 'a kernel_state_scheme) option" where
  "sys_sigreturn s = Some (RETURN_FAIL, s)"

text \<open>A store of the kernel at a virtual address, byte by byte.\<close>

definition store32_virtual :: "u32 \<Rightarrow> u32 \<Rightarrow> 'a kernel_state_scheme \<Rightarrow> 'a kernel_state_scheme option" where
  "store32_virtual va v s =
     loop_over [0..<4]
       (\<lambda>i s. do { pa \<leftarrow> translate False s (va + of_nat i);
                    Some (s\<lparr>mem := (mem s)(pa := ucast (drop_bit (8 * i) v))\<rparr>) }) s"

definition sys_vidmap :: "u32 \<Rightarrow> 'a kernel_state_scheme \<Rightarrow> (i32 \<times> 'a kernel_state_scheme) option" where
  "sys_vidmap screen_start s =
     (if screen_start < PROGRAM_IMAGE_START_ADDRESS \<or> screen_start > PROGRAM_IMAGE_END_ADDRESS
      then Some (RETURN_FAIL, s)
      else do {
        s \<leftarrow> store32_virtual screen_start PROGRAM_IMAGE_END_ADDRESS s;
        Some (RETURN_PASS, map_video VIDEO_MEM_FULL_ADDR s)
      })"

section \<open>Executing a program\<close>

text \<open>
  How a system call ends: it returns a value to its caller; or control goes to a user program
  with the given instruction and stack pointer (\<open>iret\<close>); or, at the end of \<open>sys_halt\<close>, the frame of
  the \<open>sys_execute\<close> that started the program is restored and that call returns the value.
\<close>

datatype control = Returned i32 | EnterUser u32 u32 | ParentReturns i32

text \<open>
  The two words of a command, each in a zeroed buffer of 122 bytes; \<open>None\<close> inside is a blank
  command. A word that does not fit its buffer has no result.
\<close>

definition fill_buffer :: "u8 list \<Rightarrow> u8 list option" where
  "fill_buffer cs = copy_into (replicate ARG_BUF_SIZE 0) 0 cs"

definition parse_arguments :: "u8 list \<Rightarrow> u8 list option" where
  "parse_arguments command_end = do {
     a \<leftarrow> strtrimlead command_end;
     (case a of
        Null \<Rightarrow> fill_buffer []
      | Off j \<Rightarrow> do { n \<leftarrow> strlen (drop j command_end); fill_buffer (take n (drop j command_end)) })
   }"

definition parse_command :: "u8 list \<Rightarrow> (u8 list \<times> u8 list) option option" where
  "parse_command command = do {
     trimmed \<leftarrow> strtrimlead command;
     (case trimmed of
        Null \<Rightarrow> Some None
      | Off k \<Rightarrow> do {
          let trimmed_command = drop k command;
          command_end \<leftarrow> strchr trimmed_command 32;
          (case command_end of
             Off e \<Rightarrow> do {
               name \<leftarrow> fill_buffer (take e trimmed_command);
               arguments \<leftarrow> parse_arguments (drop e trimmed_command);
               Some (Some (name, arguments))
             }
           | Null \<Rightarrow> do {
               n \<leftarrow> strlen trimmed_command;
               name \<leftarrow> fill_buffer (take n trimmed_command);
               arguments \<leftarrow> fill_buffer [];
               Some (Some (name, arguments))
             })
        })
   }"

text \<open>The checks on the file: it exists and begins with the magic numbers.\<close>

definition find_executable :: "c_env \<Rightarrow> u8 list \<Rightarrow> 'a kernel_state_scheme
    \<Rightarrow> ((dentry \<times> u32) option \<times> 'a kernel_state_scheme) option" where
  "find_executable env command_name s = do {
     (status, ret) \<leftarrow> read_dentry_by_name command_name (junk_dentry env) s;
     if status = RETURN_FAIL then Some (None, s)
     else do {
       let file_size = get_file_size ret s;
       let s = s\<lparr>mem := memset (header_buf env) 0 (of_nat FILE_HEADER_SIZE) (mem s)\<rparr>;
       (n, s) \<leftarrow> read_data (inode_num ret) 0 (header_buf env) (of_nat FILE_HEADER_SIZE) s;
       d \<leftarrow> strncmp executable_magic_numbers (load_bytes (mem s) (header_buf env) FILE_HEADER_SIZE) FILE_HEADER_SIZE;
       Some (if d \<noteq> 0 then None else Some (ret, file_size), s)
     }
   }"

text \<open>\<open>while(root->parent != NULL) root = root->parent;\<close>\<close>

partial_function (option) root_of :: "PCB_BLOCK list \<Rightarrow> nat \<Rightarrow> nat option" where
  "root_of pcbs i = do {
     p \<leftarrow> peek pcbs i;
     (case parent p of None \<Rightarrow> Some i | Some q \<Rightarrow> root_of pcbs q)
   }"

fun find_pid :: "nat list \<Rightarrow> 'a kernel_state_scheme \<Rightarrow> nat option option" where
  "find_pid [] s = Some None"
| "find_pid (idx # rest) s = do {
     p \<leftarrow> peek (PCB s) idx;
     if running p = 0 then Some (Some idx) else find_pid rest s
   }"

definition terminal_fd :: "file_array_t \<Rightarrow> file_array_t" where
  "terminal_fd f = f\<lparr>operation_table := TerminalDriver, fd_flags := fd_flags f OR 1\<rparr>"

definition setup_PCB :: "nat \<Rightarrow> nat \<Rightarrow> u8 list \<Rightarrow> u8 list \<Rightarrow> PCB_BLOCK \<Rightarrow> PCB_BLOCK option" where
  "setup_PCB idx parent_idx command_name argument_name p = do {
     a \<leftarrow> strcpy (args p) argument_name;
     c \<leftarrow> strcpy (cmd_name p) command_name;
     f0 \<leftarrow> peek (file_array p) 0;
     f1 \<leftarrow> peek (file_array p) 1;
     fs \<leftarrow> poke (file_array p) 0 (terminal_fd f0);
     fs \<leftarrow> poke fs 1 (terminal_fd f1);
     Some (p\<lparr>running := FLAG_SET, pcb_pid := of_nat idx,
             parent := (if idx < MAX_MULTIPROCESS_NUM then None else Some parent_idx),
             args := a, cmd_name := c, file_array := fs\<rparr>)
   }"

text \<open>
  Loading: the process's page is mapped and the file is read to the virtual address
  0x08048000, so to the page's physical memory; a file that would run over the end of the 4 MB
  page has no result. The entry point is in bytes 24 to 27.
\<close>

definition load_program :: "u32 \<Rightarrow> u32 \<Rightarrow> 'a kernel_state_scheme \<Rightarrow> (u32 \<times> 'a kernel_state_scheme) option" where
  "load_program inode file_size s = do {
     let s = map_process (current_process_pid s) s;
     ptr \<leftarrow> translate False s PROGRAM_VIRTUAL_ADDRESS_START;
     if unat file_size > 0x400000 - 0x48000 then None
     else do {
       (n, s) \<leftarrow> read_data inode 0 ptr file_size s;
       Some (load32 (mem s) (ptr + ENTRY_ADDRESS_BYTE_1), s)
     }
   }"

text \<open>The first entry \<open>x\<close> becomes \<open>y\<close>.\<close>

fun replace_first :: "'b \<Rightarrow> 'b \<Rightarrow> 'b list \<Rightarrow> 'b list" where
  "replace_first x y [] = []"
| "replace_first x y (z # zs) = (if z = x then y # zs else z # replace_first x y zs)"

text \<open>The scheduler runs the new process in its parent's place; root shells have their own.\<close>

definition schedule_child :: "c_env \<Rightarrow> nat \<Rightarrow> nat \<Rightarrow> 'a kernel_state_scheme \<Rightarrow> 'a kernel_state_scheme option" where
  "schedule_child env parent_idx root s =
     (if unat (current_process_pid s) \<ge> MAX_MULTIPROCESS_NUM then do {
        r \<leftarrow> peek (PCB s) root;
        p \<leftarrow> peek (PCB s) parent_idx;
        let process = (junk_process env)\<lparr>process_PCB := Some (unat (current_process_pid s)),
                                         active_terminal_idx := pcb_pid r\<rparr>;
        let s = s\<lparr>multi_process_idx := replace_first (pcb_pid p) (current_process_pid s) (multi_process_idx s)\<rparr>;
        ps \<leftarrow> poke (all_process s) (unat (current_process_pid s)) process;
        Some (s\<lparr>all_process := ps\<rparr>)
      }
      else Some s)"

definition start_process :: "c_env \<Rightarrow> dentry \<Rightarrow> u32 \<Rightarrow> nat \<Rightarrow> nat \<Rightarrow> 'a kernel_state_scheme \<Rightarrow> (control \<times> 'a kernel_state_scheme) option" where
  "start_process env ret file_size parent_idx root s = do {
     let (flags, s) = cli_and_save s;
     (entry_address, s) \<leftarrow> load_program (inode_num ret) file_size s;
     let pid = current_process_pid s;
     let user_stack_base_ptr = PROCESS_VIRTUAL_ADDRESS_START + PROCESS_USER_PHYSICAL_OFFSET;
     let s = s\<lparr>tss_esp0 := kernel_stack_base pid\<rparr>;
     p \<leftarrow> peek (PCB s) (unat pid);
     s \<leftarrow> set_PCB (unat pid) (p\<lparr>pcb_esp := esp s, pcb_ebp := ebp s\<rparr>) s;
     s \<leftarrow> schedule_child env parent_idx root s;
     s \<leftarrow> draw_status_bar s;
     let s = restore_flags flags s;
     Some (EnterUser entry_address user_stack_base_ptr, s)
   }"

text \<open>
  Finding a free control block and filling it in; the error message has 51 characters. A
  process in one of the first three blocks is a root shell and has no parent.
\<close>

definition create_process :: "c_env \<Rightarrow> dentry \<Rightarrow> u32 \<Rightarrow> u8 list \<Rightarrow> u8 list \<Rightarrow> 'a kernel_state_scheme \<Rightarrow> (control \<times> 'a kernel_state_scheme) option" where
  "create_process env ret file_size command_name argument_name s = do {
     let parent_idx = unat (current_process_pid s);
     root \<leftarrow> root_of (PCB s) parent_idx;
     slot \<leftarrow> find_pid [0..<MAX_PROCESSES] s;
     (case slot of
        None \<Rightarrow> do {
          (n, s) \<leftarrow> sys_write 1 (full_msg env) 51 s;
          Some (Returned RETURN_PASS, s)
        }
      | Some idx \<Rightarrow> do {
          p \<leftarrow> peek (PCB s) idx;
          p \<leftarrow> setup_PCB idx parent_idx command_name argument_name p;
          s \<leftarrow> set_PCB idx p (s\<lparr>current_process_pid := of_nat idx\<rparr>);
          start_process env ret file_size parent_idx root s
        })
   }"

definition sys_execute :: "c_env \<Rightarrow> u8 list \<Rightarrow> 'a kernel_state_scheme \<Rightarrow> (control \<times> 'a kernel_state_scheme) option" where
  "sys_execute env command s = do {
     let s = sti s;
     c \<leftarrow> peek command 0;
     if c = 0 then Some (Returned RETURN_FAIL, s)
     else do {
       words \<leftarrow> parse_command command;
       (case words of
          None \<Rightarrow> Some (Returned RETURN_FAIL, s)
        | Some (command_name, argument_name) \<Rightarrow> do {
            (found, s) \<leftarrow> find_executable env command_name s;
            (case found of
               None \<Rightarrow> Some (Returned RETURN_FAIL, s)
             | Some (ret, file_size) \<Rightarrow> create_process env ret file_size command_name argument_name s)
          })
     }
   }"

section \<open>Halting\<close>

text \<open>Closing the open descriptors from 2 on: the present bit is cleared before the call.\<close>

definition close_one :: "nat \<Rightarrow> nat \<Rightarrow> 'a kernel_state_scheme \<Rightarrow> 'a kernel_state_scheme option" where
  "close_one pcb i s = do {
     p \<leftarrow> peek (PCB s) pcb;
     f \<leftarrow> peek (file_array p) i;
     if fd_flags f AND PRESENT_BITMASK \<noteq> 0 then do {
       fs \<leftarrow> poke (file_array p) i (f\<lparr>fd_flags := fd_flags f AND DISABLE_LAST_BIT_MASK\<rparr>);
       s \<leftarrow> set_PCB pcb (p\<lparr>file_array := fs\<rparr>) s;
       (r, s) \<leftarrow> driver_close (operation_table f) i s;
       Some s
     }
     else Some s
   }"

definition stop_process :: "nat \<Rightarrow> 'a kernel_state_scheme \<Rightarrow> 'a kernel_state_scheme option" where
  "stop_process pcb s = do {
     p \<leftarrow> peek (PCB s) pcb;
     s \<leftarrow> set_PCB pcb (p\<lparr>running := FLAG_UNSET\<rparr>) s;
     loop_over [FIRST_READABLE_FILE..<FILE_DESCRIPTOR_SIZE] (close_one pcb) s
   }"

text \<open>The command of the shell that replaces a halted root shell.\<close>

definition shell_name :: "u8 list" where "shell_name = [115, 104, 101, 108, 108, 0]"

text \<open>
  The return to the parent, from \<open>cli\<close> on, with the end of \<open>sys_execute\<close> behind
  \<open>return_from_halt\<close>: the registers are those of the \<open>sys_execute\<close> that started the process, its
  result is \<open>error_return_value\<close>, which is reset. The code reads \<open>flags\<close> after it has changed \<open>ebp\<close>; the model
  takes the value that was saved, as when the compiler keeps the variable in a register.
\<close>

definition return_to_parent :: "nat \<Rightarrow> nat \<Rightarrow> u8 \<Rightarrow> 'a kernel_state_scheme \<Rightarrow> (control \<times> 'a kernel_state_scheme) option" where
  "return_to_parent pcb parent_idx status s = do {
     let (flags, s) = cli_and_save s;
     pp \<leftarrow> peek (PCB s) parent_idx;
     let s = map_process (pcb_pid pp) s;
     let s = s\<lparr>tss_esp0 := kernel_stack_base (pcb_pid pp)\<rparr>;
     let s = (if unat (current_process_pid s) \<ge> MAX_MULTIPROCESS_NUM
              then s\<lparr>multi_process_idx := replace_first (current_process_pid s) (pcb_pid pp) (multi_process_idx s)\<rparr>
              else s);
     s \<leftarrow> draw_status_bar s;
     let s = s\<lparr>current_process_pid := pcb_pid pp\<rparr>;
     let s = (if error_return_value s \<noteq> HALT_EXCEPTION then s\<lparr>error_return_value := ucast status\<rparr> else s);
     p \<leftarrow> peek (PCB s) pcb;
     let s = restore_flags flags (s\<lparr>esp := pcb_esp p, ebp := pcb_ebp p\<rparr>);
     let ret_value = error_return_value s;
     Some (ParentReturns ret_value, s\<lparr>error_return_value := 0\<rparr>)
   }"

definition halt_child :: "u8 \<Rightarrow> nat \<Rightarrow> 'a kernel_state_scheme \<Rightarrow> (control \<times> 'a kernel_state_scheme) option" where
  "halt_child status pcb s = do {
     p \<leftarrow> peek (PCB s) pcb;
     parent_idx \<leftarrow> parent p;
     s \<leftarrow> stop_process pcb s;
     return_to_parent pcb parent_idx status s
   }"

text \<open>A root shell is replaced by a new one.\<close>

definition halt_root :: "c_env \<Rightarrow> u8 \<Rightarrow> nat \<Rightarrow> 'a kernel_state_scheme \<Rightarrow> (control \<times> 'a kernel_state_scheme) option" where
  "halt_root env status pcb s = do {
     (n, s) \<leftarrow> sys_write 1 (root_msg env) 31 s;
     s \<leftarrow> stop_process pcb s;
     sys_execute env shell_name (s\<lparr>current_process_pid := 0, error_return_value := ucast status\<rparr>)
   }"

text \<open>
  When the new shell could not be started, the code goes on as for any other process; the
  parent pointer it then follows is null, which has no result.
\<close>

definition sys_halt :: "c_env \<Rightarrow> u8 \<Rightarrow> 'a kernel_state_scheme \<Rightarrow> (control \<times> 'a kernel_state_scheme) option" where
  "sys_halt env status s = do {
     let pcb = unat (current_process_pid s);
     p \<leftarrow> peek (PCB s) pcb;
     if parent p = Some pcb \<or> parent p = None then do {
       (c, s) \<leftarrow> halt_root env status pcb s;
       (case c of Returned n \<Rightarrow> halt_child status pcb s | _ \<Rightarrow> Some (c, s))
     }
     else halt_child status pcb s
   }"

definition sys_halt_wrapper :: "c_env \<Rightarrow> u32 \<Rightarrow> 'a kernel_state_scheme \<Rightarrow> (control \<times> 'a kernel_state_scheme) option" where
  "sys_halt_wrapper env status s =
     (if status = HALT_EXCEPTION then sys_halt env 0 (s\<lparr>error_return_value := HALT_EXCEPTION\<rparr>)
      else sys_halt env (ucast status AND 0xFF) s)"

section \<open>The system call entry\<close>

text \<open>
  The pointer argument of a call as a physical address, and the string it points to: its first
  2048 bytes, more than the routines that read names and commands look at. A null pointer is
  passed on; a pointer that is not mapped faults.
\<close>

definition user_ptr :: "'a kernel_state_scheme \<Rightarrow> u32 \<Rightarrow> u32 option" where
  "user_ptr s p = (if p = 0 then Some 0 else translate False s p)"

definition user_string :: "'a kernel_state_scheme \<Rightarrow> u32 \<Rightarrow> u8 list option" where
  "user_string s p = do { pa \<leftarrow> translate False s p; Some (load_bytes (mem s) pa 2048) }"

definition returning :: "(i32 \<times> 's) option \<Rightarrow> (control \<times> 's) option" where
  "returning r = map_option (map_prod Returned id) r"

text \<open>\<open>sys_disbatch\<close>: the functions by number, with the arguments from ebx, ecx and edx.\<close>

definition irq_syscall :: "c_env \<Rightarrow> i32 \<Rightarrow> u32 \<Rightarrow> u32 \<Rightarrow> u32 \<Rightarrow> 'a kernel_state_scheme \<Rightarrow> (control \<times> 'a kernel_state_scheme) option" where
  "irq_syscall env eax ebx ecx edx s =
     (if sint eax < 1 \<or> sint eax > 10 then Some (Returned (-1), s)
      else if eax = 1 then sys_halt_wrapper env ebx s
      else if eax = 2 then do { command \<leftarrow> user_string s ebx; sys_execute env command s }
      else if eax = 3 then do { buf \<leftarrow> user_ptr s ecx; returning (sys_read env ebx buf edx s) }
      else if eax = 4 then do { buf \<leftarrow> user_ptr s ecx; returning (sys_write ebx buf edx s) }
      else if eax = 5 then do { filename \<leftarrow> user_string s ebx; returning (sys_open env filename s) }
      else if eax = 6 then returning (sys_close ebx s)
      else if eax = 7 then do { buf \<leftarrow> user_ptr s ebx; returning (sys_getargs buf ecx s) }
      else if eax = 8 then returning (sys_vidmap ebx s)
      else if eax = 9 then returning (sys_set_handler ebx ecx s)
      else returning (sys_sigreturn s))"

end
