(* ===== verification/Calls.thy ===== *)
theory Calls
  imports Syscalls
begin

text \<open>
  What the system calls on descriptors, arguments and video memory promise: bad descriptors are
  refused without effect, opening takes the lowest free descriptor and closing frees it, the
  arguments are copied up to their terminator, the video page is mapped on request.
\<close>

section \<open>Refused descriptors\<close>

definition fd_valid :: "i32 \<Rightarrow> bool" where
  "fd_valid fd \<longleftrightarrow> 0 \<le> sint fd \<and> sint fd < 8"

text \<open>
  C33. A descriptor out of range or not open is refused by read, write and close with -1, and so
  are reading standard output, writing standard input and closing either; nothing changes.
\<close>

theorem bad_descriptors_refused:
  assumes "fd_valid fd \<longrightarrow> (\<exists>f. get_fd (nat (sint fd)) s = Some f \<and> \<not> is_present f)"
  shows "sys_read env fd buf n s = Some (-1, s) \<and> sys_write fd buf n s = Some (-1, s) \<and> sys_close fd s = Some (-1, s)
    \<and> sys_read env 1 buf n s = Some (-1, s) \<and> sys_write 0 buf n s = Some (-1, s)
    \<and> sys_close 0 s = Some (-1, s) \<and> sys_close 1 s = Some (-1, s)"
proof (cases "fd_valid fd")
  case True
  with assms obtain f where f: "get_fd (nat (sint fd)) s = Some f" "fd_flags f AND 1 = 0"
    by (auto simp: is_present_def kernel_consts)
  then show ?thesis
    by (cases "sint fd = 1"; cases "sint fd = 0")
      (simp_all add: sys_read_def sys_write_def sys_close_def kernel_consts call_consts)
next
  case False
  then show ?thesis
    by (auto simp: fd_valid_def sys_read_def sys_write_def sys_close_def kernel_consts call_consts)
qed

section \<open>Opening and closing\<close>

lemma find_fd_run:
  assumes "\<forall>i\<in>set xs. \<exists>f. get_fd i s = Some f"
  shows "find_fd xs s = Some (find (\<lambda>i. \<not> is_present (the (get_fd i s))) xs)"
  using assms by (induction xs) (auto simp: is_present_def kernel_consts)

lemma present_bit: "(x OR 1 :: i32) AND 1 = 1" "((x OR 1) OR 2 :: i32) AND 1 = 1" "(x OR 1 :: i32) AND 1 \<noteq> 0"
proof -
  have "(x OR 1 :: i32) AND 1 = 1" "((x OR 1) OR 2 :: i32) AND 1 = 1"
    by (rule bit_word_eqI, auto simp: bit_simps)+
  then show "(x OR 1 :: i32) AND 1 = 1" "((x OR 1) OR 2 :: i32) AND 1 = 1" "(x OR 1 :: i32) AND 1 \<noteq> 0" by simp_all
qed

lemma opened_fd_present: "is_present (opened_fd mouse e f)" "fd_flags (opened_fd mouse e f) AND 1 = 1"
  by (auto simp: opened_fd_def is_present_def kernel_consts Let_def present_bit)

text \<open>The kinds of directory entries there are, and their drivers.\<close>

definition driver_of :: "u32 \<Rightarrow> driver_t" where
  "driver_of ty = (if ty = 0 then RtcDriver else if ty = 1 then DirectoryDriver else FileDriver)"

lemma opened_driver: "file_type e \<le> 2 \<Longrightarrow> operation_table (opened_fd False e f) = driver_of (file_type e)"
proof -
  assume "file_type e \<le> 2"
  then have "file_type e = 0 \<or> file_type e = 1 \<or> file_type e = 2"
  proof -
    have "unat (file_type e) = unat (0::u32) \<or> unat (file_type e) = unat (1::u32) \<or> unat (file_type e) = unat (2::u32)"
      using \<open>file_type e \<le> 2\<close> by (simp add: word_le_nat_alt) linarith
    then show ?thesis by (simp only: word_unat_eq_iff [symmetric])
  qed
  then show ?thesis
    by (auto simp: opened_fd_def driver_of_def FS_TYPE_RTC_def FS_TYPE_DIR_def FS_TYPE_FILE_def Let_def)
qed

text \<open>Opening an existing entry: the lowest free descriptor from 2 on, or -1.\<close>

definition free_fds :: "'a kernel_state_scheme \<Rightarrow> nat list" where
  "free_fds s = filter (\<lambda>i. \<not> is_present (the (get_fd i s))) [2..<8]"

lemma find_filter: "find P xs = (case filter P xs of [] \<Rightarrow> None | x # _ \<Rightarrow> Some x)"
  by (induction xs) auto

lemma driver_open_run:
  assumes "read_dentry_by_name name junk s = Some (status, e)" and "file_type e' \<le> 2"
  shows "\<exists>r. driver_open (driver_of (file_type e')) junk name s = Some (r, s)"
  using assms
  by (auto simp: driver_of_def rtc_open_def dir_open_def file_open_def)

text \<open>Descriptors do not matter for the directory.\<close>

lemma find_dentry_same:
  "mem t = mem s \<Longrightarrow> fs_boot_block t = fs_boot_block s \<Longrightarrow> find_dentry n d t i = find_dentry n d s i"
proof (induction n d s i rule: find_dentry.induct)
  case (1 fname dentry s i)
  have n: "num_dir_entries t = num_dir_entries s" using 1 by (simp add: num_dir_entries_def)
  show ?case
    using 1 by (subst (1 2) find_dentry.simps) (auto simp: n intro!: Option.bind_cong)
qed

lemma read_dentry_same:
  "mem t = mem s \<Longrightarrow> fs_boot_block t = fs_boot_block s \<Longrightarrow> read_dentry_by_name n d t = read_dentry_by_name n d s"
  unfolding read_dentry_by_name_def by (rule find_dentry_same)

lemma free_fds_sub: "k \<in> set (free_fds s) \<Longrightarrow> 2 \<le> k \<and> k < 8"
  unfolding free_fds_def set_filter set_upt by simp

lemma open_slot_run:
  assumes "has_fds s" and dir: "read_dentry_by_name name (junk_dentry env) s = Some (status, d)" and "file_type e \<le> 2"
  shows "(case free_fds s of
      [] \<Rightarrow> open_slot env False e name s = Some (-1, s)
    | k # _ \<Rightarrow> \<exists>f u. open_slot env False e name s = Some (of_nat k, u) \<and> get_fd k s = Some f \<and> has_fds u
        \<and> mem u = mem s \<and> (\<forall>j. get_fd j u = (if j = k then Some (opened_fd False e f) else get_fd j s)))"
proof -
  have all: "\<forall>i\<in>set [FIRST_READABLE_FILE..<FILE_DESCRIPTOR_SIZE]. \<exists>f. get_fd i s = Some f"
    using fds.get_ok [OF assms(1)] by auto
  have find: "find_fd [FIRST_READABLE_FILE..<FILE_DESCRIPTOR_SIZE] s
      = Some (case free_fds s of [] \<Rightarrow> None | k # _ \<Rightarrow> Some k)"
    using find_fd_run [OF all] by (simp add: find_filter free_fds_def kernel_consts)
  show ?thesis
  proof (cases "free_fds s")
    case Nil
    with find show ?thesis by (simp add: open_slot_def call_consts)
  next
    case (Cons k ks)
    then have k: "k < 8" using free_fds_sub [of k s] by simp
    then obtain f where f: "get_fd k s = Some f"
      using fds.get_ok [OF assms(1), of k] by (auto simp: FILE_DESCRIPTOR_SIZE_def)
    obtain u where u: "upd_fd k (opened_fd False e) s = Some u" "has_fds u" "mem u = mem s"
      "fs_boot_block u = fs_boot_block s" "\<forall>j. get_fd j u = (if j = k then Some (opened_fd False e f) else get_fd j s)"
      using upd_fd_run [OF assms(1) f k] by blast
    have "read_dentry_by_name name (junk_dentry env) u = Some (status, d)"
      using dir read_dentry_same [of u s] u by simp
    then obtain r where "driver_open (operation_table (opened_fd False e f)) (junk_dentry env) name u = Some (r, u)"
      using driver_open_run [of name "junk_dentry env" u status d e] assms(3) by (auto simp: opened_driver)
    with find Cons u f have "open_slot env False e name s = Some (of_nat k, u)"
      by (simp add: open_slot_def)
    with Cons f u show ?thesis by auto
  qed
qed

text \<open>The entry of a name, and the names the file system can look up that are not the mouse.\<close>

definition entry_for :: "u8 list \<Rightarrow> 'a fs_state_scheme \<Rightarrow> dentry option" where
  "entry_for bs s = find (\<lambda>e. entry_name e = bs) (directory s)"

definition file_like :: "u8 list \<Rightarrow> bool" where
  "file_like bs \<longleftrightarrow> bs \<noteq> [] \<and> 0 \<notin> set bs \<and> bs \<noteq> [109, 111, 117, 115, 101]"

lemma lookup_entry:
  assumes "0 \<notin> set bs" "num_dir_entries s \<le> 63" "entry_for bs s = Some e"
  shows "read_dentry_by_name (bs @ 0 # r) d s = Some (0, e)"
  using find_dentry_spec [OF assms(1,2), of r d 0] assms(3)
  by (simp add: read_dentry_by_name_def lookup_result_def entry_for_def FOUND_def)

lemma not_mouse:
  assumes "file_like bs"
  shows "\<exists>d. strncmp (bs @ 0 # r) mouse_name 6 = Some d \<and> d \<noteq> 0"
proof -
  have c: "c_string (bs @ 0 # r) = bs" "c_string mouse_name = [109, 111, 117, 115, 101]"
    using assms by (auto simp: c_string_def file_like_def mouse_name_def takeWhile_append)
  have "take 6 bs \<noteq> [109, 111, 117, 115, 101]"
  proof
    assume eq: "take 6 bs = [109, 111, 117, 115, 101]"
    then have "length (take 6 bs) = 5" by simp
    then have "length bs = 5" by (simp add: min_def split: if_splits)
    then have "take 6 bs = bs" by simp
    with eq assms show False by (simp add: file_like_def)
  qed
  then have "\<not> prefix_eq (bs @ 0 # r) mouse_name 6" by (simp add: prefix_eq_def c)
  moreover have "CString.readable (bs @ 0 # r) 6" "CString.readable mouse_name 6"
    by (simp_all add: CString.readable_def mouse_name_def)
  ultimately show ?thesis using strncmp_zero_iff by blast
qed

lemma sys_open_existing:
  assumes "file_like bs" "num_dir_entries s \<le> 63" "entry_for bs s = Some e"
  shows "sys_open env (bs @ 0 # r) s = open_slot env False e (bs @ 0 # r) s"
proof -
  have "peek (bs @ 0 # r) 0 = Some (hd bs)" "hd bs \<noteq> 0"
    using assms(1) by (cases bs; auto simp: file_like_def)+
  moreover obtain d where "strncmp (bs @ 0 # r) mouse_name 6 = Some d" "d \<noteq> 0"
    using not_mouse [OF assms(1)] by blast
  moreover have "find_or_create (bs @ 0 # r) (junk_dentry env) s = Some (Some e, s)"
    using lookup_entry [of bs s e r] assms by (simp add: find_or_create_def file_like_def call_consts)
  ultimately show ?thesis by (simp add: sys_open_def del: peek_Some_iff)
qed

text \<open>
  C26. Opening an existing file, directory or clock takes the lowest free descriptor from 2 on,
  sets it up for the entry (its inode, position 0 or the clock's rate, the driver of its type),
  and changes no other descriptor and no memory; with no free descriptor it returns -1.
\<close>

theorem open_takes_lowest_free:
  assumes "has_fds s" and "file_like bs" and "num_dir_entries s \<le> 63" and "entry_for bs s = Some e"
    and "file_type e \<le> 2"
  shows "(case free_fds s of
      [] \<Rightarrow> sys_open env (bs @ 0 # r) s = Some (-1, s)
    | k # _ \<Rightarrow> \<exists>f u. sys_open env (bs @ 0 # r) s = Some (of_nat k, u) \<and> get_fd k s = Some f
        \<and> mem u = mem s \<and> (\<forall>j. get_fd j u = (if j = k then Some (opened_fd False e f) else get_fd j s))
        \<and> operation_table (opened_fd False e f) = driver_of (file_type e)
        \<and> fd_inode (opened_fd False e f) = inode_num e)"
proof -
  have dir: "read_dentry_by_name (bs @ 0 # r) (junk_dentry env) s = Some (0, e)"
    using lookup_entry assms(2-4) by (auto simp: file_like_def)
  have inode: "fd_inode (opened_fd m e f) = inode_num e" for m f by (simp add: opened_fd_def Let_def)
  show ?thesis
    using open_slot_run [OF assms(1) dir assms(5)] sys_open_existing [OF assms(2-4), of env r]
      opened_driver [OF assms(5)] inode by (auto split: list.splits)
qed

lemma word_small: "k < 8 \<Longrightarrow> sint (of_nat k :: i32) = int k"
  by (auto simp: less_Suc_eq numeral_eq_Suc)

lemma close_run:
  assumes "has_fds u" "get_fd k u = Some f" "2 \<le> k" "k < 8" "fd_flags f AND 1 = 1" "operation_table f = driver_of ty"
  shows "\<exists>v g. sys_close (of_nat k) u = Some (0, v) \<and> mem v = mem u \<and> has_fds v
    \<and> (\<forall>j. get_fd j v = (if j = k then Some g else get_fd j u))
    \<and> fd_flags g = 0 \<and> fd_inode g = 0 \<and> file_position g = 0"
proof -
  obtain w h r where w: "driver_close (operation_table f) k u = Some (r, w)" "has_fds w" "mem w = mem u"
    "\<forall>j. get_fd j w = (if j = k then Some h else get_fd j u)"
  proof (cases "driver_of ty = RtcDriver")
    case True
    obtain w where "upd_fd k (\<lambda>f. f\<lparr>file_position := 0\<rparr>) u = Some w" "has_fds w" "mem w = mem u"
      "\<forall>j. get_fd j w = (if j = k then Some (f\<lparr>file_position := 0\<rparr>) else get_fd j u)"
      using upd_fd_run [OF assms(1,2,4)] by blast
    with True show ?thesis using that [of 0 w] assms(6) by (simp add: rtc_close_def)
  next
    case False
    then show ?thesis using that [of 0 u f] assms
      by (auto simp: driver_of_def file_close_def dir_close_def split: if_splits)
  qed
  let ?g = "h\<lparr>fd_flags := fd_flags h AND 0, fd_inode := 0, file_position := 0\<rparr>"
  have "get_fd k w = Some h" using w(4) by simp
  from upd_fd_run [OF w(2) this assms(4), of "\<lambda>f. f\<lparr>fd_flags := fd_flags f AND 0, fd_inode := 0, file_position := 0\<rparr>"]
  obtain v where v: "upd_fd k (\<lambda>f. f\<lparr>fd_flags := fd_flags f AND 0, fd_inode := 0, file_position := 0\<rparr>) w = Some v"
    "has_fds v" "mem v = mem w" "\<forall>j. get_fd j v = (if j = k then Some ?g else get_fd j w)" by blast
  have "sys_close (of_nat k) u = Some (0, v)"
    using assms w(1) v(1) by (simp add: sys_close_def word_small kernel_consts call_consts)
  with v w show ?thesis by (intro exI [of _ v] exI [of _ ?g]) auto
qed

text \<open>
  C21. Closing what was just opened frees the descriptor: the call returns 0, the descriptor is
  empty, all others and memory are as before the opening, so the same descriptors are free.
\<close>

theorem open_then_close:
  assumes "has_fds s" and "file_like bs" and "num_dir_entries s \<le> 63" and "entry_for bs s = Some e"
    and "file_type e \<le> 2" and "free_fds s = k # ks"
  shows "\<exists>u v. sys_open env (bs @ 0 # r) s = Some (of_nat k, u) \<and> sys_close (of_nat k) u = Some (0, v)
    \<and> mem v = mem s \<and> free_fds v = free_fds s \<and> (\<forall>j. j \<noteq> k \<longrightarrow> get_fd j v = get_fd j s)
    \<and> free_fds u = ks"
proof -
  have k: "2 \<le> k" "k < 8" using free_fds_sub [of k s] assms(6) by simp_all
  have dir: "read_dentry_by_name (bs @ 0 # r) (junk_dentry env) s = Some (0, e)"
    using lookup_entry assms(2-4) by (auto simp: file_like_def)
  obtain f u where u: "sys_open env (bs @ 0 # r) s = Some (of_nat k, u)" "has_fds u" "mem u = mem s"
    "\<forall>j. get_fd j u = (if j = k then Some (opened_fd False e f) else get_fd j s)"
    using open_slot_run [OF assms(1) dir assms(5)] sys_open_existing [OF assms(2-4), of env r] assms(6) by auto
  have "get_fd k u = Some (opened_fd False e f)" using u(4) by simp
  from close_run [OF u(2) this k opened_fd_present(2) opened_driver [OF assms(5)]]
  obtain v g where v: "sys_close (of_nat k) u = Some (0, v)" "mem v = mem u"
    "\<forall>j. get_fd j v = (if j = k then Some g else get_fd j u)" "fd_flags g = 0" by blast
  have "k \<in> set (free_fds s)" using assms(6) by simp
  then have kf: "\<not> is_present (the (get_fd k s))" unfolding free_fds_def set_filter by simp
  have "free_fds v = free_fds s"
    unfolding free_fds_def
  proof (rule filter_cong [OF refl])
    fix i assume "i \<in> set [2..<8]"
    show "(\<not> is_present (the (get_fd i v))) = (\<not> is_present (the (get_fd i s)))"
      using v(3,4) u(4) kf by (cases "i = k") (auto simp: is_present_def)
  qed
  moreover have "free_fds u = ks"
  proof -
    have "free_fds u = filter (\<lambda>i. i \<noteq> k) (free_fds s)"
      unfolding free_fds_def filter_filter
      by (rule filter_cong [OF refl]) (use u(4) opened_fd_present(1) in auto)
    moreover have "distinct (free_fds s)" unfolding free_fds_def by (intro distinct_filter distinct_upt)
    ultimately show ?thesis using assms(6) by (auto simp: filter_id_conv)
  qed
  ultimately show ?thesis using u v by auto
qed

section \<open>Arguments\<close>

lemma copy_loop:
  assumes "n \<le> length xs"
  shows "\<exists>m'. loop_over [0..<n] (\<lambda>i m. do { c \<leftarrow> peek xs i; Some (m(buf + of_nat i := c)) }) m = Some m'
    \<and> (n < 2 ^ 31 \<longrightarrow> bytes_put buf (take n xs) m m')"
  using assms
proof (induction n)
  case (Suc n)
  let ?f = "\<lambda>i m. do { c \<leftarrow> peek xs i; Some (m(buf + of_nat i := c)) }"
  have "n \<le> length xs" using Suc.prems by simp
  from Suc.IH [OF this] obtain m1 where m1: "loop_over [0..<n] ?f m = Some m1"
    "n < 2 ^ 31 \<longrightarrow> bytes_put buf (take n xs) m m1" by blast
  have "bytes_put buf (take (Suc n) xs) m (m1(buf + of_nat n := xs ! n))" if "Suc n < 2 ^ 31"
    using bytes_put_snoc [of buf "take n xs" m m1 "xs ! n"] m1(2) that Suc.prems by (simp add: take_Suc_conv_app_nth)
  moreover have "loop_over [0..<Suc n] (\<lambda>i m. do { c \<leftarrow> peek xs i; Some (m(buf + of_nat i := c)) }) m
      = Some (m1(buf + of_nat n := xs ! n))"
    using m1(1) Suc.prems by (simp add: loop_over_append)
  ultimately show ?case by blast
qed simp

lemma sint_unat_small:
  assumes "unat x < 2 ^ 31"
  shows "sint (x :: i32) = int (unat x)"
proof -
  have "0 \<le> int (unat x)" "int (unat x) < int (2 ^ 31)" using assms by (simp_all only: of_nat_less_iff of_nat_0_le_iff)
  moreover have "- (2 ^ 31) \<le> (0 :: int)" "int (2 ^ 31) = 2 ^ 31" by simp_all
  ultimately have "signed_take_bit 31 (int (unat x)) = int (unat x)"
    by (intro signed_take_bit_int_eq_self) (metis order_trans, metis)
  moreover have "sint x = signed_take_bit 31 (int (unat x))" by (simp add: sint_uint)
  ultimately show ?thesis by (rule trans [rotated])
qed

text \<open>The number of bytes copied: \<open>nbytes\<close> is compared as an unsigned number.\<close>

definition args_count :: "i32 \<Rightarrow> nat \<Rightarrow> nat" where
  "args_count nbytes len = (if unat nbytes > len + 1 then len + 1 else unat nbytes)"

text \<open>
  \<open>sys_getargs\<close> copies the arguments with their terminator, cut to \<open>nbytes\<close>, to the buffer and
  changes nothing else of memory; without arguments it returns -1. A negative size counts as
  larger than every string, so it never limits the copy.
\<close>

theorem getargs_copies:
  assumes "current_PCB s = Some p" and "args p = a @ 0 # rest" and "0 \<notin> set a" and "length a < 122"
  shows "if a = [] then sys_getargs buf n s = Some (-1, s)
    else \<exists>m. sys_getargs buf n s = Some (0, s\<lparr>mem := m\<rparr>)
      \<and> bytes_put buf (take (args_count n (length a)) (a @ [0])) (mem s) m"
proof (cases "a = []")
  case True
  with assms show ?thesis by (simp add: sys_getargs_def call_consts)
next
  case False
  have len: "strlen (args p) = Some (length a)"
    using assms(2,3) by (simp add: strlen_def strlen_from_first first_index_def takeWhile_append)
  have hd: "peek (args p) 0 = Some (hd a)" "hd a \<noteq> 0"
    using False assms(2,3) by (cases a; auto)+
  let ?n = "if n > of_nat (length a) + 1 then of_nat (length a) + 1 else n"
  have u: "unat (of_nat (length a) + 1 :: i32) = length a + 1"
    using unat_of_nat_small [of "length a + 1"] assms(4) by (simp add: add.commute)
  then have cnt: "unat ?n = args_count n (length a)"
    by (simp add: args_count_def word_less_nat_alt)
  then have le: "unat ?n \<le> length a + 1" by (simp add: args_count_def)
  then have sn: "nat (sint ?n) = args_count n (length a)"
    using assms(4) cnt le sint_unat_small [of ?n] by simp
  have take: "take (args_count n (length a)) (args p) = take (args_count n (length a)) (a @ [0])"
    using le cnt by (simp add: assms(2) take_Cons')
  obtain m where m: "loop_over [0..<args_count n (length a)] (\<lambda>i m. do { c \<leftarrow> peek (args p) i; Some (m(buf + of_nat i := c)) }) (mem s) = Some m"
    "args_count n (length a) < 2 ^ 31 \<longrightarrow> bytes_put buf (take (args_count n (length a)) (args p)) (mem s) m"
    using copy_loop [of "args_count n (length a)" "args p" buf "mem s"] le cnt assms(2) by auto
  have "sys_getargs buf n s = Some (0, s\<lparr>mem := m\<rparr>)"
    using assms(1) hd len m(1) unfolding sys_getargs_def
    by (simp add: sn call_consts Let_def del: peek_Some_iff)
  moreover have "args_count n (length a) < 2 ^ 31" using le cnt assms(4) by simp
  ultimately show ?thesis using False m(2) take by auto
qed

section \<open>Video memory\<close>

text \<open>A store of four bytes through the program's page.\<close>

lemma translate_mem [simp]: "translate user (s\<lparr>mem := m\<rparr>) va = translate user s va"
  by (simp add: translate_def table_of_def cong: if_cong option.case_cong)

lemma store32_virtual_run:
  assumes "\<forall>i\<in>set [0..<4]. translate False s (va + of_nat i) = Some (pa + of_nat i)"
  shows "store32_virtual va v s = Some (s\<lparr>mem := store32 (mem s) pa v\<rparr>)"
  using assms
  by (simp add: store32_virtual_def store32_def upt_rec numeral_eq_Suc)

lemma program_page:
  assumes "page_directory s ! 32 = process_frame pid OR 0x87" "length (page_directory s) = 1024" "user_page va"
  shows "translate user s va = Some (process_frame pid + (va AND 0x003FFFFF))"
proof -
  have "page_directory s = page_directory (map_process pid s)"
    using assms(1,2) list_update_id [of "page_directory s" 32] by (simp add: map_process_dir)
  with translate_process [OF assms(3) this assms(2)] show ?thesis by (simp add: frame_offset)
qed

text \<open>The offset of a program address in its page.\<close>

lemma user_offset:
  assumes "user_page va"
  shows "va AND 0x003FFFFF = va - 0x08000000" "unat (va - 0x08000000) = unat va - 0x08000000"
    "0x08000000 \<le> unat va" "unat va < 0x08400000"
proof -
  have m: "(0x003FFFFF :: u32) = mask 22" by (simp add: mask_eq_exp_minus_1)
  show b: "0x08000000 \<le> unat va" "unat va < 0x08400000"
    using assms by (simp_all add: user_page_def word_le_nat_alt word_less_nat_alt)
  show u: "unat (va - 0x08000000) = unat va - 0x08000000"
    using b by (simp add: unat_sub_small)
  have "unat (take_bit 22 va) = unat va mod 0x400000" by (simp add: unsigned_take_bit_eq take_bit_eq_mod unat_mod)
  also have "\<dots> = unat va - 0x08000000" using b by (simp add: mod_nat_eqI)
  finally show "va AND 0x003FFFFF = va - 0x08000000"
    unfolding m take_bit_eq_mask [symmetric] by (simp add: word_unat_eq_iff u)
qed

lemma page_offset_add:
  assumes "user_page va" "unat va + k < 0x08400000"
  shows "(va + of_nat k) AND 0x003FFFFF = (va AND 0x003FFFFF) + of_nat k" "user_page (va + of_nat k)"
proof -
  note o = user_offset [OF assms(1)]
  have k: "unat (of_nat k :: u32) = k" using assms(2) by (simp add: unat_of_nat_small)
  have "unat (va + of_nat k) = unat va + k" using assms(2) k by (simp add: unat_add_small)
  then show u: "user_page (va + of_nat k)"
    using o(3) assms(2) by (simp add: user_page_def word_le_nat_alt word_less_nat_alt)
  show "(va + of_nat k) AND 0x003FFFFF = (va AND 0x003FFFFF) + of_nat k"
    using o(1) user_offset(1) [OF u] by simp
qed

text \<open>
  \<open>sys_vidmap\<close> refuses a pointer outside the program's address range. For a pointer whose
  four bytes lie in the program page it stores the address 0x08400000 there, in the process's own
  frame, makes that page of addresses the screen for the program, and leaves the program's
  page mapped as it was.
\<close>

theorem vidmap_maps_screen:
  assumes "tables_ok s" and "page_directory s ! 32 = process_frame pid OR 0x87"
  shows "(a < 0x08000000 \<or> a > 0x08400000 \<longrightarrow> sys_vidmap a s = Some (-1, s))
    \<and> (0x08000000 \<le> a \<and> a \<le> 0x083FFFFC \<longrightarrow>
        (\<exists>u. sys_vidmap a s = Some (0, u)
          \<and> mem u = store32 (mem s) (process_frame pid + (a - 0x08000000)) 0x08400000
          \<and> (\<forall>va. 0x08400000 \<le> va \<and> va < 0x08401000 \<longrightarrow> translate True u va = Some (0xB8000 OR (va AND 0xFFF)))
          \<and> (\<forall>va. user_page va \<longrightarrow> translate True u va = Some (process_frame pid + (va - 0x08000000)))))"
proof (intro conjI impI)
  assume "a < 0x08000000 \<or> a > 0x08400000"
  then show "sys_vidmap a s = Some (-1, s)"
    by (auto simp: sys_vidmap_def page_consts call_consts)
next
  assume a: "0x08000000 \<le> a \<and> a \<le> 0x083FFFFC"
  have len: "length (page_directory s) = 1024" using assms(1) by (simp add: tables_ok_def)
  have page: "user_page a" and au: "unat a \<le> 0x083FFFFC"
    using a by (simp_all add: user_page_def word_le_nat_alt word_less_nat_alt)
  let ?pa = "process_frame pid + (a - 0x08000000)"
  have tr: "translate user s va = Some (process_frame pid + (va - 0x08000000))" if "user_page va" for va user
    using program_page [OF assms(2) len that] user_offset(1) [OF that] by simp
  have bytes: "\<forall>i\<in>set [0..<4]. translate False s (a + of_nat i) = Some (?pa + of_nat i)"
  proof
    fix i :: nat assume "i \<in> set [0..<4]"
    then have "unat a + i < 0x08400000" using au by simp
    from tr [OF page_offset_add(2) [OF page this]] show "translate False s (a + of_nat i) = Some (?pa + of_nat i)"
      by simp
  qed
  let ?s1 = "s\<lparr>mem := store32 (mem s) ?pa 0x08400000\<rparr>"
  let ?u = "map_video 0xB8000 ?s1"
  have range: "\<not> (a < 0x08000000 \<or> a > 0x08400000)" using a by (auto simp: word_le_nat_alt word_less_nat_alt)
  have run: "sys_vidmap a s = Some (0, ?u)"
    using range store32_virtual_run [OF bytes, where v = "0x08400000"]
    by (simp add: sys_vidmap_def page_consts call_consts)
  have ok: "tables_ok ?s1" using assms(1) by (simp add: tables_ok_def)
  have dir: "page_directory ?u ! 32 = process_frame pid OR 0x87" "length (page_directory ?u) = 1024"
    using assms(2) len by (simp_all add: map_video_def video_index)
  have "mem ?u = store32 (mem s) ?pa 0x08400000" by (simp add: map_video_def)
  moreover have "translate True ?u va = Some (0xB8000 OR (va AND 0xFFF))" if "0x08400000 \<le> va \<and> va < 0x08401000" for va
    using map_video_maps [OF ok, where phys = "0xB8000" and va = va and user = True] that by simp
  moreover have "translate True ?u va = Some (process_frame pid + (va - 0x08000000))" if "user_page va" for va
    using program_page [OF dir that] user_offset(1) [OF that] by simp
  ultimately show "\<exists>u. sys_vidmap a s = Some (0, u)
      \<and> mem u = store32 (mem s) ?pa 0x08400000
      \<and> (\<forall>va. 0x08400000 \<le> va \<and> va < 0x08401000 \<longrightarrow> translate True u va = Some (0xB8000 OR (va AND 0xFFF)))
      \<and> (\<forall>va. user_page va \<longrightarrow> translate True u va = Some (process_frame pid + (va - 0x08000000)))"
    using run by blast
qed

section \<open>Witnesses\<close>

definition tiny_env :: c_env where
  "tiny_env = \<lparr>header_buf = 0x30000, full_msg = 0x31000, root_msg = 0x32000,
     junk_dentry = load_dentry (\<lambda>_. 0) 0,
     junk_process = \<lparr>process_PCB = None, saved_esp = 0, saved_ebp = 0, active_terminal_idx = 0\<rparr>\<rparr>"

theorem bad_descriptors_refused_witness:
  "sys_read tiny_env 5 0x20000 4 tiny_kernel = Some (-1, tiny_kernel) \<and> sys_close 5 tiny_kernel = Some (-1, tiny_kernel)"
  using bad_descriptors_refused [of 5 tiny_kernel tiny_env "0x20000" 4]
  by (auto simp: get_fd_def current_PCB_def tiny_kernel_def tiny_pcb_def fd_of_def is_present_def)

lemma tiny_free_fds: "free_fds tiny_kernel = [4, 5, 6, 7]"
  by (simp add: free_fds_def upt_rec is_present_def get_fd_def current_PCB_def tiny_kernel_def tiny_pcb_def fd_of_def
      kernel_consts numeral_eq_Suc)

lemma tiny_entry:
  "\<exists>e. entry_for [97] tiny_kernel = Some e \<and> file_type e = 2 \<and> inode_num e = 0" "num_dir_entries tiny_kernel \<le> 63"
proof -
  have d: "directory tiny_kernel = directory tiny_fs" "num_dir_entries tiny_kernel = num_dir_entries tiny_fs"
    by (simp_all add: directory_def num_dir_entries_def tiny_kernel_def tiny_fs_def)
  have e: "directory tiny_fs = [load_dentry tiny_mem (entry_addr 0x10000 0)]"
    by (simp add: directory_def tiny_num_entries) (simp add: tiny_fs_def)
  have "entry_name (load_dentry tiny_mem (entry_addr 0x10000 0)) = [97]" using tiny_directory by (simp add: e)
  moreover have "file_type (load_dentry tiny_mem (entry_addr 0x10000 0)) = 2"
    "inode_num (load_dentry tiny_mem (entry_addr 0x10000 0)) = 0"
    by (simp_all add: load_dentry_def load32_def entry_addr_def tiny_mem_def)
  ultimately show "\<exists>e. entry_for [97] tiny_kernel = Some e \<and> file_type e = 2 \<and> inode_num e = 0"
    by (simp add: entry_for_def d e)
  show "num_dir_entries tiny_kernel \<le> 63" by (simp add: d tiny_num_entries)
qed

lemma file_like_a: "file_like [97]"
  by (simp add: file_like_def)

theorem open_takes_lowest_free_witness:
  "\<exists>u f. sys_open tiny_env [97, 0] tiny_kernel = Some (4, u) \<and> get_fd 4 u = Some f \<and> operation_table f = FileDriver"
proof -
  obtain e where e: "entry_for [97] tiny_kernel = Some e" "file_type e = 2" using tiny_entry(1) by blast
  show ?thesis
    using open_takes_lowest_free [OF tiny_kernel_fds(1) file_like_a tiny_entry(2) e(1), of tiny_env "[]"] e(2)
    by (auto simp: tiny_free_fds driver_of_def)
qed

theorem open_then_close_witness:
  "\<exists>u v. sys_open tiny_env [97, 0] tiny_kernel = Some (4, u) \<and> sys_close 4 u = Some (0, v) \<and> free_fds v = [4, 5, 6, 7]"
proof -
  obtain e where e: "entry_for [97] tiny_kernel = Some e" "file_type e = 2" using tiny_entry(1) by blast
  show ?thesis
    using open_then_close [OF tiny_kernel_fds(1) file_like_a tiny_entry(2) e(1) _ tiny_free_fds, of tiny_env "[]"] e(2)
    by (auto simp: tiny_free_fds)
qed

theorem getargs_copies_witness:
  "\<exists>m. sys_getargs 0x20000 10 (tiny_kernel\<lparr>PCB := [(tiny_pcb 1)\<lparr>args := 120 # 121 # replicate 120 0\<rparr>]\<rparr>)
      = Some (0, tiny_kernel\<lparr>PCB := [(tiny_pcb 1)\<lparr>args := 120 # 121 # replicate 120 0\<rparr>], mem := m\<rparr>)
    \<and> m 0x20000 = 120 \<and> m 0x20001 = 121 \<and> m 0x20002 = 0"
proof -
  let ?p = "(tiny_pcb 1)\<lparr>args := 120 # 121 # replicate 120 0\<rparr>"
  let ?s = "tiny_kernel\<lparr>PCB := [?p]\<rparr>"
  have "current_PCB ?s = Some ?p" by (simp add: current_PCB_def tiny_kernel_def)
  moreover have "args ?p = [120, 121] @ 0 # replicate 119 0" by (simp add: numeral_eq_Suc)
  ultimately obtain m where m: "sys_getargs 0x20000 10 ?s = Some (0, ?s\<lparr>mem := m\<rparr>)"
    "bytes_put 0x20000 (take (args_count 10 (length [120::u8, 121])) ([120, 121] @ [0])) (mem ?s) m"
    using getargs_copies [of ?s ?p "[120, 121]" "replicate 119 0" "0x20000" 10] by auto
  have "\<forall>k<3. m (0x20000 + of_nat k) = [120, 121, 0] ! k"
    using m(2) by (simp add: bytes_put_def args_count_def)
  then have "m 0x20000 = 120" "m 0x20001 = 121" "m 0x20002 = 0" by (simp_all add: all_less_3)
  with m(1) show ?thesis by auto
qed

theorem vidmap_maps_screen_witness:
  "\<exists>u. sys_vidmap 0x08050000 (tiny_kernel\<lparr>page_directory := (replicate 1024 0)[32 := 0x00800087]\<rparr>) = Some (0, u)
     \<and> translate True u 0x08400000 = Some 0xB8000"
proof -
  let ?s = "tiny_kernel\<lparr>page_directory := (replicate 1024 0)[32 := 0x00800087]\<rparr>"
  have "tables_ok ?s" by (simp add: tables_ok_def tiny_kernel_def)
  moreover have "page_directory ?s ! 32 = process_frame 0 OR 0x87" by (simp add: process_frame_def)
  ultimately show ?thesis
    using vidmap_maps_screen [of ?s 0 "0x08050000"] by (auto dest!: spec [of _ "0x08400000"])
qed

end
