(* ===== verification/Processes.thy ===== *)
theory Processes
  imports Calls
begin

text \<open>
  Programs: what \<open>sys_execute\<close> and \<open>sys_halt\<close> promise. A command that names no executable file
  changes no process; a process gets the first free control block, its own page with the whole
  file in it and its own kernel stack; halting brings the parent back with the status.
\<close>

section \<open>Reading the command\<close>

text \<open>The words of a command: leading blanks are skipped, the first word ends at a blank.\<close>

definition skip_blanks :: "u8 list \<Rightarrow> u8 list" where
  "skip_blanks = dropWhile (\<lambda>c. c = 32)"

definition first_word :: "u8 list \<Rightarrow> u8 list" where
  "first_word cs = takeWhile (\<lambda>c. c \<noteq> 32) (skip_blanks cs)"

definition other_words :: "u8 list \<Rightarrow> u8 list" where
  "other_words cs = skip_blanks (dropWhile (\<lambda>c. c \<noteq> 32) (skip_blanks cs))"

definition buffered :: "u8 list \<Rightarrow> u8 list" where
  "buffered cs = cs @ replicate (122 - length cs) 0"

lemma copy_into_run:
  "i + length cs \<le> length p \<Longrightarrow> copy_into p i cs = Some (take i p @ cs @ drop (i + length cs) p)"
proof (induction cs arbitrary: p i)
  case (Cons c cs)
  then have "copy_into (p[i := c]) (Suc i) cs = Some (take (Suc i) (p[i := c]) @ cs @ drop (Suc i + length cs) (p[i := c]))"
    by simp
  moreover have "take (Suc i) (p[i := c]) = take i p @ [c]"
    using Cons.prems by (simp add: take_Suc_conv_app_nth)
  ultimately show ?case using Cons.prems by (simp add: poke_def)
qed simp

lemma fill_buffer_run: "length cs \<le> 122 \<Longrightarrow> fill_buffer cs = Some (buffered cs)"
  by (simp add: fill_buffer_def buffered_def copy_into_run kernel_consts)

lemma copy_into_overflow: "i + length cs > length p \<Longrightarrow> i \<le> length p \<Longrightarrow> copy_into p i cs = None"
  by (induction cs arbitrary: p i) (auto simp: poke_def)

lemma fill_buffer_overflow: "length cs > 122 \<Longrightarrow> fill_buffer cs = None"
  by (simp add: fill_buffer_def copy_into_overflow kernel_consts)

text \<open>Cutting a list where a condition first fails.\<close>

lemma takeWhile_stop: "\<not> P x \<Longrightarrow> takeWhile P (xs @ x # r) = takeWhile P xs"
  by (induction xs) auto

lemma drop_takeWhile: "drop (length (takeWhile P xs)) (xs @ r) = dropWhile P xs @ r"
  by (induction xs) auto

lemma take_takeWhile: "take (length (takeWhile P xs)) (xs @ r) = takeWhile P xs"
  by (induction xs) auto

lemma nth_takeWhile: "(xs @ x # r) ! length (takeWhile P xs) = hd (dropWhile P xs @ x # r)"
  by (induction xs) auto

lemma strtrimlead_run:
  assumes "0 \<notin> set cs"
  shows "\<exists>k. strtrimlead (cs @ 0 # r) = Some (if skip_blanks cs = [] then Null else Off k)
    \<and> drop k (cs @ 0 # r) = skip_blanks cs @ 0 # r"
proof -
  let ?w = "takeWhile (\<lambda>c. c = 32) cs"
  have k: "takeWhile (\<lambda>c. c = 32) (cs @ 0 # r) = ?w" by (rule takeWhile_stop) simp
  have "skip_blanks cs = [] \<longleftrightarrow> hd (skip_blanks cs @ 0 # r) = 0"
  proof (cases "skip_blanks cs")
    case (Cons x xs)
    then have "x \<in> set cs" unfolding skip_blanks_def by (metis set_dropWhileD list.set_intros(1))
    with assms Cons show ?thesis by auto
  qed simp
  moreover have "strtrimlead (cs @ 0 # r) = Some (if (cs @ 0 # r) ! length ?w = 0 then Null else Off (length ?w))"
    using strtrimlead_spec [of "cs @ 0 # r"] unfolding k Let_def by simp
  ultimately show ?thesis
    using drop_takeWhile [of "\<lambda>c. c = 32" cs "0 # r"]
    unfolding nth_takeWhile skip_blanks_def by auto
qed

lemma strchr_run:
  assumes "0 \<notin> set cs"
  shows "strchr (cs @ 0 # r) 32
    = Some (if dropWhile (\<lambda>c. c \<noteq> 32) cs = [] then Null else Off (length (takeWhile (\<lambda>c. c \<noteq> 32) cs)))"
proof -
  let ?w = "takeWhile (\<lambda>c. c \<noteq> 32) cs"
  let ?d = "dropWhile (\<lambda>c. c \<noteq> 32) cs"
  have k: "takeWhile (\<lambda>d. d \<noteq> 0 \<and> d \<noteq> 32) (cs @ 0 # r) = ?w"
  proof -
    have "takeWhile (\<lambda>d. d \<noteq> 0 \<and> d \<noteq> 32) (cs @ 0 # r) = takeWhile (\<lambda>d. d \<noteq> 0 \<and> d \<noteq> 32) cs"
      by (rule takeWhile_stop) simp
    also have "\<dots> = ?w" using assms by (intro takeWhile_cong) auto
    finally show ?thesis .
  qed
  have iff: "hd (?d @ 0 # r) = 0 \<longleftrightarrow> ?d = []"
  proof (cases ?d)
    case (Cons x xs)
    then have "x = 32" using hd_dropWhile [of "\<lambda>c. c \<noteq> 32" cs] by simp
    with Cons show ?thesis by simp
  next
    case Nil
    show ?thesis unfolding Nil by simp
  qed
  have "0 \<in> set (cs @ 0 # r)" "(32 :: u8) \<noteq> 0" by simp_all
  from strchr_spec [OF this] show ?thesis
    by (simp only: k Let_def nth_takeWhile iff)
qed

lemma skip_blanks_no_zero: "0 \<notin> set cs \<Longrightarrow> 0 \<notin> set (skip_blanks cs)"
  unfolding skip_blanks_def using set_dropWhileD by fastforce

lemma parse_arguments_run:
  assumes "0 \<notin> set cs"
  shows "parse_arguments (cs @ 0 # r) = fill_buffer (skip_blanks cs)"
proof -
  obtain k where "strtrimlead (cs @ 0 # r) = Some (if skip_blanks cs = [] then Null else Off k)"
    "drop k (cs @ 0 # r) = skip_blanks cs @ 0 # r"
    using strtrimlead_run [OF assms] by blast
  then show ?thesis
    using skip_blanks_no_zero [OF assms]
    by (cases "skip_blanks cs = []") (simp_all add: parse_arguments_def del: drop_append)
qed

lemma parse_command_at:
  assumes "strtrimlead c = Some (Off k)" "drop k c = t" "strchr t 32 = Some (if d then Null else Off e)"
    and "strlen t = Some n"
  shows "parse_command c =
    (if d then do { name \<leftarrow> fill_buffer (take n t); arguments \<leftarrow> fill_buffer []; Some (Some (name, arguments)) }
     else do { name \<leftarrow> fill_buffer (take e t); arguments \<leftarrow> parse_arguments (drop e t); Some (Some (name, arguments)) })"
  using assms by (simp add: parse_command_def)

lemma parse_command_cases:
  assumes "0 \<notin> set cs"
  shows "parse_command (cs @ 0 # r) =
    (if skip_blanks cs = [] then Some None
     else if length (first_word cs) \<le> 122 \<and> length (other_words cs) \<le> 122
     then Some (Some (buffered (first_word cs), buffered (other_words cs))) else None)"
proof -
  let ?t = "skip_blanks cs"
  let ?d = "dropWhile (\<lambda>c. c \<noteq> 32) ?t"
  have z: "0 \<notin> set ?t" by (rule skip_blanks_no_zero [OF assms])
  then have zd: "0 \<notin> set ?d" using set_dropWhileD by fastforce
  obtain k where k: "strtrimlead (cs @ 0 # r) = Some (if ?t = [] then Null else Off k)"
    "drop k (cs @ 0 # r) = ?t @ 0 # r"
    using strtrimlead_run [OF assms] by blast
  have td: "?t = first_word cs @ ?d" by (simp add: first_word_def)
  have "parse_command (cs @ 0 # r) = (if ?t = [] then Some None
      else do { name \<leftarrow> fill_buffer (first_word cs); arguments \<leftarrow> fill_buffer (other_words cs); Some (Some (name, arguments)) })"
  proof (cases "?t = []")
    case False
    have cut: "drop (length (first_word cs)) (?t @ 0 # r) = ?d @ 0 # r" "take (length (first_word cs)) (?t @ 0 # r) = first_word cs"
      unfolding first_word_def by (rule drop_takeWhile, rule take_takeWhile)
    have len: "strlen (?t @ 0 # r) = Some (length ?t)" using z by simp
    have chr: "strchr (?t @ 0 # r) 32 = Some (if ?d = [] then Null else Off (length (first_word cs)))"
      using strchr_run [OF z] by (simp only: first_word_def)
    have start: "strtrimlead (cs @ 0 # r) = Some (Off k)" using k(1) False by simp
    note start = parse_command_at [OF this k(2) chr len]
    show ?thesis
    proof (cases "?d = []")
      case True
      have w: "first_word cs = ?t" using td unfolding True by (simp only: append_Nil2)
      have o: "other_words cs = []" unfolding other_words_def True by (simp add: skip_blanks_def)
      show ?thesis using False True unfolding start w o True by (simp only: refl if_True take_append diff_self_eq_0 take_0 take_all order_refl append_Nil2 if_False)
    next
      case d: False
      have "parse_arguments (?d @ 0 # r) = fill_buffer (other_words cs)"
        using parse_arguments_run [OF zd, of r] by (simp only: other_words_def)
      then show ?thesis using False d unfolding start by (simp only: if_False cut)
    qed
  qed (simp add: parse_command_def k)
  then show ?thesis
    using fill_buffer_run [of "first_word cs"] fill_buffer_run [of "other_words cs"]
      fill_buffer_overflow [of "first_word cs"] fill_buffer_overflow [of "other_words cs"]
    by (auto simp: not_le)
qed

text \<open>
  \<open>sys_execute\<close> splits a command into its first word and the rest without leading blanks,
  each padded with zeros to 122 bytes; a blank command is told apart. A word longer than 122
  bytes runs over the end of its buffer: the model has no result.
\<close>

theorem parse_command_splits:
  assumes "0 \<notin> set cs"
  shows "parse_command (cs @ 0 # r) =
    (if skip_blanks cs = [] then Some None
     else if length (first_word cs) \<le> 122 \<and> length (other_words cs) \<le> 122
     then Some (Some (buffered (first_word cs), buffered (other_words cs))) else None)"
  by (rule parse_command_cases [OF assms])

section \<open>Reading the file\<close>

text \<open>Reading a file from its start, as one store.\<close>

lemma read_start:
  assumes "file_ok s k" and "buffer_apart s buf (min (unat n) (inode_length s k))"
  shows "read_data k 0 buf n s = Some (of_nat (min (unat n) (inode_length s k)),
    s\<lparr>mem := store_bytes (mem s) buf (take (unat n) (file_contents s k))\<rparr>)"
proof (cases "inode_length s k = 0")
  case True
  then have "file_contents s k = []" by (simp add: file_contents_def)
  moreover have "store_bytes m buf [] = m" for m by (simp add: store_bytes_def fun_eq_iff in_range_def)
  ultimately show ?thesis using read_data_eof [OF assms(1), of 0 buf n] True by simp
next
  case False
  let ?c = "min (unat n) (inode_length s k)"
  have cnt: "read_count s k 0 (unat n) = ?c" by (simp add: read_count_def)
  have "gather (mem s) buf (read_addr s k 0) ?c = store_bytes (mem s) buf (take (unat n) (file_contents s k))"
    (is "?l = ?r")
  proof
    fix x show "?l x = ?r x"
      using read_addr_file_addr [of 0 "unat (x - buf)" s k]
      by (auto simp: gather_def store_bytes_def in_range_def file_contents_def)
  qed
  then show ?thesis
    using read_data_run [OF assms(1), of 0 n buf] False assms(2) unat_lt_32 [of n] by (simp add: cnt)
qed

definition elf_magic :: "u8 list" where "elf_magic = [0x7F, 0x45, 0x4C, 0x46]"

lemma strncmp_same_length:
  "length s1 = length s2 \<Longrightarrow> 0 \<notin> set s1 \<Longrightarrow> \<exists>d. strncmp s1 s2 (length s1) = Some d \<and> (d = 0 \<longleftrightarrow> s2 = s1)"
proof (induction s1 s2 rule: list_induct2)
  case (Cons x xs y ys)
  then show ?case by auto
qed simp

lemma header_check:
  assumes "length bs = 4"
  shows "\<exists>d. strncmp executable_magic_numbers bs 4 = Some d \<and> (d = 0 \<longleftrightarrow> bs = elf_magic)"
proof -
  have m: "executable_magic_numbers = elf_magic" "length elf_magic = 4" "0 \<notin> set elf_magic"
    by (simp_all add: executable_magic_numbers_def elf_magic_def)
  from strncmp_same_length [OF _ m(3), of bs] show ?thesis by (simp add: assms m(1,2))
qed

lemma header_bytes:
  assumes "length xs \<le> 4"
  shows "load_bytes (store_bytes (fill_block m h 0 4) h xs) h 4 = xs @ replicate (4 - length xs) 0"
proof (rule nth_equalityI)
  fix i assume "i < length (load_bytes (store_bytes (fill_block m h 0 4) h xs) h 4)"
  then have i: "i < 4" by simp
  then have "unat (of_nat i :: u32) = i" by (simp add: unat_of_nat_small)
  with i show "load_bytes (store_bytes (fill_block m h 0 4) h xs) h 4 ! i = (xs @ replicate (4 - length xs) 0) ! i"
    by (simp add: load_bytes_def store_bytes_def fill_block_def in_range_def nth_append)
qed (use assms in simp)

lemma header_elf:
  "take 4 xs @ replicate (4 - length (take 4 xs)) 0 = elf_magic \<longleftrightarrow> take 4 xs = elf_magic"
proof (cases "length xs \<ge> 4")
  case False
  then have "last (take 4 xs @ replicate (4 - length (take 4 xs)) (0::u8)) = 0" by simp
  then have "take 4 xs @ replicate (4 - length (take 4 xs)) 0 \<noteq> elf_magic" by (auto simp: elf_magic_def)
  moreover have "take 4 xs \<noteq> elf_magic"
  proof
    assume "take 4 xs = elf_magic"
    then have "length (take 4 xs) = 4" by (simp add: elf_magic_def)
    with False show False by simp
  qed
  ultimately show ?thesis by blast
qed simp

lemma find_executable_run:
  assumes w: "0 \<notin> set w" "length w \<le> 121" and dir: "num_dir_entries s \<le> 63"
    and buf: "buffer_apart s (header_buf env) 4"
    and fok: "\<forall>e. entry_for w s = Some e \<longrightarrow> file_ok s (inode_num e)"
  shows "(case entry_for w s of None \<Rightarrow> find_executable env (buffered w) s = Some (None, s)
    | Some e \<Rightarrow> \<exists>m. find_executable env (buffered w) s
        = Some (if take 4 (file_contents s (inode_num e)) = elf_magic
                then Some (e, of_nat (inode_length s (inode_num e))) else None, s\<lparr>mem := m\<rparr>)
        \<and> (\<forall>x. \<not> in_range x (header_buf env) 4 \<longrightarrow> m x = mem s x))"
proof -
  have b: "buffered w = w @ 0 # replicate (121 - length w) 0"
    using w(2) by (simp add: buffered_def Suc_diff_le flip: replicate_Suc)
  have look: "read_dentry_by_name (buffered w) (junk_dentry env) s
      = Some (case entry_for w s of Some e \<Rightarrow> (0, e) | None \<Rightarrow> (-1, junk_dentry env))"
    using find_dentry_spec [OF w(1) dir, of _ "junk_dentry env" 0]
    unfolding b read_dentry_by_name_def lookup_result_def entry_for_def FOUND_def NOT_FOUND_def by simp
  show ?thesis
  proof (cases "entry_for w s")
    case None
    with look show ?thesis by (simp add: find_executable_def call_consts)
  next
    case (Some e)
    let ?k = "inode_num e" and ?h = "header_buf env"
    have ok: "file_ok s ?k" using fok Some by blast
    let ?m0 = "fill_block (mem s) ?h 0 4"
    let ?s0 = "s\<lparr>mem := ?m0\<rparr>"
    have img: "same_image s ?s0"
      by (rule same_image_gather [OF buf]) (simp_all add: fill_block_def)
    note sm = same_image_file [OF img ok]
    have "buffer_apart ?s0 ?h (min (unat (4::u32)) (inode_length ?s0 ?k))"
      using buf by (simp add: buffer_apart_def sm(3,4))
    from read_start [OF sm(7) this]
    have rd: "read_data ?k 0 ?h 4 ?s0 = Some (of_nat (min 4 (inode_length s ?k)),
        s\<lparr>mem := store_bytes ?m0 ?h (take 4 (file_contents s ?k))\<rparr>)"
      by (simp add: sm(5,8))
    let ?m = "store_bytes ?m0 ?h (take 4 (file_contents s ?k))"
    have size: "get_file_size e s = of_nat (inode_length s ?k)"
      using file_ok_bounds(4) [OF ok] inode_length_eq [of s ?k, symmetric]
      by (simp add: get_file_size_def)
    obtain d where d: "strncmp executable_magic_numbers (load_bytes ?m ?h 4) 4 = Some d"
      "d = 0 \<longleftrightarrow> load_bytes ?m ?h 4 = elf_magic"
      using header_check [of "load_bytes ?m ?h 4"] by auto
    have hd: "load_bytes ?m ?h 4 = elf_magic \<longleftrightarrow> take 4 (file_contents s ?k) = elf_magic"
      using header_bytes [of "take 4 (file_contents s ?k)" "mem s" ?h] header_elf [of "file_contents s ?k"] by simp
    have "find_executable env (buffered w) s
        = Some (if take 4 (file_contents s ?k) = elf_magic then Some (e, of_nat (inode_length s ?k)) else None, s\<lparr>mem := ?m\<rparr>)"
      using look Some rd d hd
      by (simp add: find_executable_def call_consts size memset_fill)
    moreover have "?m x = mem s x" if "\<not> in_range x ?h 4" for x
      using that by (auto simp: store_bytes_def fill_block_def in_range_def)
    ultimately show ?thesis using Some by auto
  qed
qed

section \<open>Refused commands\<close>

lemma first_char: "cs \<noteq> [] \<Longrightarrow> 0 \<notin> set cs \<Longrightarrow> peek (cs @ 0 # r) 0 = Some (hd cs) \<and> hd cs \<noteq> (0 :: u8)"
  by (cases cs) auto

lemma blank_refused:
  assumes cs: "0 \<notin> set cs" and blank: "skip_blanks cs = []"
  shows "sys_execute env (cs @ 0 # r) s = Some (Returned (-1), s\<lparr>int_flag := True\<rparr>)"
proof (cases "cs = []")
  case False
  have "parse_command (cs @ 0 # r) = Some None" using parse_command_cases [OF cs, of r] blank by simp
  with first_char [OF False cs, of r] show ?thesis by (simp add: sys_execute_def call_consts sti_def del: peek_Some_iff)
qed (simp add: sys_execute_def call_consts sti_def)

text \<open>A name that is missing, or is not that of an executable file.\<close>

lemma not_executable:
  assumes w: "0 \<notin> set w" "length w \<le> 121" and dir: "num_dir_entries s \<le> 63" and buf: "buffer_apart s (header_buf env) 4"
    and fok: "\<forall>e. entry_for w s = Some e \<longrightarrow> file_ok s (inode_num e)"
    and bad: "entry_for w s = None \<or> take 4 (file_contents s (inode_num (the (entry_for w s)))) \<noteq> elf_magic"
  shows "\<exists>m. find_executable env (buffered w) s = Some (None, s\<lparr>mem := m\<rparr>)
    \<and> (\<forall>x. \<not> in_range x (header_buf env) 4 \<longrightarrow> m x = mem s x)"
proof (cases "entry_for w s")
  case None
  then have "find_executable env (buffered w) s = Some (None, s)"
    using find_executable_run [OF w, of s env] dir buf fok by simp
  moreover have "s = s\<lparr>mem := mem s\<rparr>" by simp
  ultimately have "find_executable env (buffered w) s = Some (None, s\<lparr>mem := mem s\<rparr>)" by metis
  then show ?thesis by blast
next
  case (Some e)
  with bad have "take 4 (file_contents s (inode_num e)) \<noteq> elf_magic" by simp
  with Some show ?thesis using find_executable_run [OF w, of s env] dir buf fok by simp
qed


section \<open>Witnesses\<close>

theorem parse_command_splits_witness:
  "parse_command [32, 97, 32, 32, 98, 0] = Some (Some (buffered [97], buffered [98]))"
  using parse_command_splits [of "[32, 97, 32, 32, 98]" "[]"]
  by (simp add: skip_blanks_def first_word_def other_words_def)

lemma tiny_header_apart: "buffer_apart tiny_kernel (header_buf tiny_env) 4"
proof -
  have "image_size tiny_kernel = 12288" "fs_boot_block tiny_kernel = 0x10000"
    by (simp_all add: image_size_def num_inodes_def num_data_blocks_def tiny_kernel_def tiny_mem_def load32_def)
  moreover have "i = 0 \<or> i = 1 \<or> i = 2 \<or> i = 3" if "i < 4" for i :: nat using that by linarith
  ultimately show ?thesis
    by (fastforce simp: buffer_apart_def in_range_def tiny_env_def)
qed

lemma tiny_first_byte: "file_contents tiny_kernel 0 ! 0 = 0"
proof -
  have "file_addr tiny_kernel 0 0 = 0x12000"
    by (simp add: file_addr_def file_block_def num_inodes_def slot_off_def data_off_def tiny_kernel_def tiny_mem_def load32_def)
  then show ?thesis by (simp add: file_contents_def tiny_kernel_file(2) upt_rec) (simp add: tiny_kernel_def tiny_mem_def)
qed


end
