(* ===== verification/Lifecycle.thy ===== *)
theory Lifecycle
  imports Processes
begin

text \<open>
  The life of a process, from \<open>sys_execute\<close> to \<open>sys_halt\<close>: a new process gets the first free
  control block, its own page with the whole file in it and its own kernel stack; when it halts,
  its parent goes on where it called \<open>sys_execute\<close>. The running processes form three stacks, one
  for each terminal, whose tops the scheduler runs.
\<close>

section \<open>Filling in a control block\<close>

definition pcb_ok :: "PCB_BLOCK \<Rightarrow> bool" where
  "pcb_ok p \<longleftrightarrow> length (file_array p) = 8 \<and> length (args p) = 122 \<and> length (cmd_name p) = 122"

definition new_PCB :: "nat \<Rightarrow> nat \<Rightarrow> u8 list \<Rightarrow> u8 list \<Rightarrow> PCB_BLOCK \<Rightarrow> PCB_BLOCK" where
  "new_PCB idx q w a p = p\<lparr>running := 1, pcb_pid := of_nat idx,
     parent := (if idx < 3 then None else Some q),
     args := a @ 0 # drop (Suc (length a)) (args p),
     cmd_name := w @ 0 # drop (Suc (length w)) (cmd_name p),
     file_array := (file_array p)[0 := terminal_fd (file_array p ! 0), 1 := terminal_fd (file_array p ! 1)]\<rparr>"

lemma buffered_string: "length w \<le> 121 \<Longrightarrow> buffered w = w @ 0 # replicate (121 - length w) 0"
  by (simp add: buffered_def Suc_diff_le flip: replicate_Suc)

lemma setup_PCB_run:
  assumes "pcb_ok p" "0 \<notin> set w" "0 \<notin> set a" "length w \<le> 121" "length a \<le> 121"
  shows "setup_PCB idx q (buffered w) (buffered a) p = Some (new_PCB idx q w a p)"
  using assms
  by (simp add: setup_PCB_def new_PCB_def pcb_ok_def buffered_string strcpy_spec call_consts kernel_consts
      nth_list_update)

lemma new_PCB_ok: "pcb_ok p \<Longrightarrow> length w \<le> 121 \<Longrightarrow> length a \<le> 121 \<Longrightarrow> pcb_ok (new_PCB idx q w a p)"
  by (simp add: pcb_ok_def new_PCB_def)

text \<open>The status bar can show a process whose command and arguments are 126 characters at most.\<close>

definition label_ok :: "PCB_BLOCK \<Rightarrow> bool" where
  "label_ok p \<longleftrightarrow> (\<exists>l n. process_label p = Some (l, n) \<and> n \<le> 126)"

lemma label_run:
  assumes "cmd_name p = w @ 0 # r" "args p = a @ 0 # r'" "0 \<notin> set w" "0 \<notin> set a" "length w + length a \<le> 126"
  shows "label_ok p"
proof -
  have "strlen (cmd_name p) = Some (length w)" "strlen (args p) = Some (length a)"
    using assms by simp_all
  then show ?thesis
    using assms(1,2,5) by (simp add: label_ok_def process_label_def copy_into_run del: copy_into.simps)
qed

lemma new_PCB_label:
  "0 \<notin> set w \<Longrightarrow> 0 \<notin> set a \<Longrightarrow> length w + length a \<le> 126 \<Longrightarrow> label_ok (new_PCB idx q w a p)"
  by (rule label_run) (auto simp: new_PCB_def)

lemma label_ok_more [simp]:
  "label_ok (p\<lparr>pcb_esp := x\<rparr>) = label_ok p" "label_ok (p\<lparr>pcb_ebp := x\<rparr>) = label_ok p"
  "label_ok (p\<lparr>running := r\<rparr>) = label_ok p" "label_ok (p\<lparr>file_array := f\<rparr>) = label_ok p"
  by (simp_all add: label_ok_def process_label_def cong: if_cong)

lemma status_ok_set:
  "status_ok s \<longleftrightarrow> length (multi_process_idx s) = 3
    \<and> (\<forall>x\<in>set (multi_process_idx s). unat x < length (PCB s) \<and> label_ok (PCB s ! unat x))"
  by (auto simp: status_ok_def label_ok_def all_set_conv_all_nth)

lemma replace_first_length [simp]: "length (replace_first x y zs) = length zs"
  by (induction zs) auto

lemma replace_first_set: "set (replace_first x y zs) \<subseteq> insert y (set zs)"
  by (induction zs) auto

lemma replace_first_back: "y \<notin> set zs \<Longrightarrow> replace_first y x (replace_first x y zs) = zs"
  by (induction zs) auto

section \<open>Loading\<close>

lemma load_program_run:
  assumes ok: "file_ok s k" and dir: "length (page_directory s) = 1024"
    and len: "inode_length s k \<le> 0x3B8000" and pid: "pid = current_process_pid s"
    and ap: "buffer_apart s (process_frame pid + 0x48000) (inode_length s k)"
  shows "load_program k (of_nat (inode_length s k)) s
    = (let m = store_bytes (mem s) (process_frame pid + 0x48000) (file_contents s k)
       in Some (load32 m (process_frame pid + 0x48000 + 24), (map_process pid s)\<lparr>mem := m\<rparr>))"
proof -
  let ?t = "map_process pid s"
  have frame: "mem ?t = mem s" "fs_boot_block ?t = fs_boot_block s" by (simp_all add: map_process_def Let_def)
  have same: "same_image s ?t" by (simp add: same_image_def frame)
  note sm = same_image_file [OF same ok]
  have size: "unat (of_nat (inode_length s k) :: u32) = inode_length s k"
    using len by (simp add: unat_of_nat_small)
  have "user_page 0x08048000" by (simp add: user_page_def)
  from map_process_user [OF dir this, of False pid]
  have ptr: "translate False ?t 0x08048000 = Some (process_frame pid + 0x48000)"
    using frame_offset [of pid "0x08048000"] by simp
  have lc: "length (file_contents s k) = inode_length s k" by (simp add: file_contents_def)
  have "buffer_apart ?t (process_frame pid + 0x48000) (min (unat (of_nat (inode_length s k) :: u32)) (inode_length ?t k))"
    using ap by (simp add: size sm(5) buffer_apart_def sm(3,4))
  from read_start [OF sm(7) this]
  have "read_data k 0 (process_frame pid + 0x48000) (of_nat (inode_length s k)) ?t
      = Some (of_nat (inode_length s k), ?t\<lparr>mem := store_bytes (mem s) (process_frame pid + 0x48000) (file_contents s k)\<rparr>)"
    by (simp add: size sm(5,8) lc frame)
  then show ?thesis
    using len by (simp add: load_program_def pid [symmetric] page_consts ptr size ENTRY_ADDRESS_BYTE_1_def Let_def)
qed

section \<open>Starting a process\<close>

text \<open>The tables have their full sizes and the status bar can be drawn.\<close>

definition procs_ok :: "'a kernel_state_scheme \<Rightarrow> bool" where
  "procs_ok s \<longleftrightarrow> length (PCB s) = 6 \<and> (\<forall>p\<in>set (PCB s). pcb_ok p) \<and> length (all_process s) = 6
     \<and> length (page_directory s) = 1024 \<and> current_process_pid s < 6 \<and> status_ok s"

definition first_free :: "'a kernel_state_scheme \<Rightarrow> nat option" where
  "first_free s = find (\<lambda>i. running (PCB s ! i) = 0) [0..<6]"

lemma find_pid_run:
  assumes "length (PCB s) = 6"
  shows "find_pid [0..<MAX_PROCESSES] s = Some (first_free s)"
proof -
  have "\<forall>i\<in>set xs. i < length (PCB s) \<Longrightarrow> find_pid xs s = Some (find (\<lambda>i. running (PCB s ! i) = 0) xs)" for xs
    by (induction xs) auto
  then show ?thesis by (simp add: first_free_def assms kernel_consts)
qed

lemma first_free_less: "first_free s = Some idx \<Longrightarrow> idx < 6 \<and> running (PCB s ! idx) = 0"
  by (auto simp: first_free_def find_Some_iff)

lemma root_of_less: "root_of pcbs i = Some r \<Longrightarrow> r < length pcbs \<and> parent (pcbs ! r) = None"
proof (induction rule: root_of.raw_induct [rotated 1, consumes 1])
  case (1 root_of i r)
  then show ?case by (auto simp: bind_eq_Some_conv peek_Some_iff split: option.splits)
qed

lemma schedule_child_run:
  assumes "pid = current_process_pid s" "unat pid < length (all_process s)"
    and "root < length (PCB s)" "q < length (PCB s)"
  shows "schedule_child env q root s = Some (if unat pid \<ge> 3
    then s\<lparr>multi_process_idx := replace_first (pcb_pid (PCB s ! q)) pid (multi_process_idx s),
           all_process := (all_process s)[unat pid := (junk_process env)\<lparr>process_PCB := Some (unat pid),
             active_terminal_idx := pcb_pid (PCB s ! root)\<rparr>]\<rparr>
    else s)"
  using assms by (simp add: schedule_child_def kernel_consts)

text \<open>The entry point, and the frame the program is in.\<close>

definition entry_point :: "u8 list \<Rightarrow> u32" where
  "entry_point bs = ucast (bs ! 24) OR push_bit 8 (ucast (bs ! 25))
     OR push_bit 16 (ucast (bs ! 26)) OR push_bit 24 (ucast (bs ! 27))"

definition program_addr :: "nat \<Rightarrow> u32" where
  "program_addr idx = process_frame (of_nat idx) + 0x48000"

lemma entry_point_loaded:
  assumes "28 \<le> length bs"
  shows "load32 (store_bytes m a bs) (a + 24) = entry_point bs"
proof -
  have "store_bytes m a bs (a + 24 + of_nat i) = bs ! (24 + i)" if "i < 4" for i
  proof -
    have "unat (24 + of_nat i :: u32) = 24 + i" using that by (simp add: unat_add_small unat_of_nat_small)
    then show ?thesis using that assms by (simp add: store_bytes_def in_range_def add.assoc)
  qed
  from this [of 0] this [of 1] this [of 2] this [of 3] show ?thesis
    by (simp add: load32_def entry_point_def)
qed

lemma program_addr_nat: "idx < 6 \<Longrightarrow> k < 0x3B8000 \<Longrightarrow> unat (program_addr idx + of_nat k) = 0x848000 + idx * 0x400000 + k"
proof -
  assume i: "idx < 6" and k: "k < 0x3B8000"
  then have "(of_nat idx :: u8) < 6" "unat (of_nat idx :: u8) = idx" by (simp_all add: word_less_nat_alt unat_of_nat)
  then have f: "unat (process_frame (of_nat idx)) = 0x800000 + idx * 0x400000" by (simp add: process_frame_bounds)
  then have "unat (program_addr idx) = 0x848000 + idx * 0x400000"
    using i by (simp add: program_addr_def unat_add_small)
  then show ?thesis using i k by (simp add: unat_add_small unat_of_nat_small)
qed

lemma program_not_status:
  assumes "idx < 6" and "k < 0x3B8000"
  shows "\<not> in_range (program_addr idx + of_nat k) 0xB8F00 160"
proof -
  have "unat (program_addr idx + of_nat k - 0xB8F00) = unat (program_addr idx + of_nat k) - 0xB8F00"
    using program_addr_nat [OF assms] by (subst unat_sub_small) auto
  then show ?thesis using program_addr_nat [OF assms] by (simp add: in_range_def)
qed

text \<open>What \<open>sys_execute\<close> leaves behind for the process \<open>idx\<close> with parent \<open>q\<close>.\<close>

definition started :: "c_env \<Rightarrow> nat \<Rightarrow> nat \<Rightarrow> nat \<Rightarrow> PCB_BLOCK \<Rightarrow> 'a kernel_state_scheme \<Rightarrow> 'a kernel_state_scheme \<Rightarrow> bool" where
  "started env idx q root p s u \<longleftrightarrow>
     current_process_pid u = of_nat idx
     \<and> PCB u = (PCB s)[idx := p\<lparr>pcb_esp := esp s, pcb_ebp := ebp s\<rparr>]
     \<and> page_directory u = (page_directory s)[32 := process_frame (of_nat idx) OR 0x87]
     \<and> tss_esp0 u = kernel_stack_base (of_nat idx)
     \<and> multi_process_idx u = (if idx \<ge> 3 then replace_first (pcb_pid (PCB s ! q)) (of_nat idx) (multi_process_idx s)
           else multi_process_idx s)
     \<and> all_process u = (if idx \<ge> 3 then (all_process s)[idx := (junk_process env)\<lparr>process_PCB := Some idx,
             active_terminal_idx := pcb_pid (PCB s ! root)\<rparr>] else all_process s)
     \<and> current_term u = current_term s \<and> error_return_value u = error_return_value s
     \<and> three_terminals u = three_terminals s \<and> num_multiprocess u = num_multiprocess s
     \<and> current_multiprocess u = current_multiprocess s \<and> on_default_term u = on_default_term s
     \<and> fs_boot_block u = fs_boot_block s \<and> int_flag u = int_flag s \<and> esp u = esp s \<and> ebp u = ebp s"

text \<open>The steps behind the loading: only the status bar can fail.\<close>

lemma start_process_loaded:
  assumes len: "length (PCB s) = 6" "length (all_process s) = 6" and idx: "idx < 6"
    and q: "q < 6" "root < 6" and distinct: "3 \<le> idx \<longrightarrow> q \<noteq> idx \<and> root \<noteq> idx"
    and ld: "load_program (inode_num e) n (cli (s\<lparr>current_process_pid := of_nat idx, PCB := (PCB s)[idx := p]\<rparr>))
      = Some (x, (map_process (of_nat idx) (cli (s\<lparr>current_process_pid := of_nat idx, PCB := (PCB s)[idx := p]\<rparr>)))\<lparr>mem := m\<rparr>)"
  shows "\<exists>v. start_process env e n q root (s\<lparr>current_process_pid := of_nat idx, PCB := (PCB s)[idx := p]\<rparr>)
      = do { u \<leftarrow> draw_status_bar v; Some (EnterUser x 0x08400000, u\<lparr>int_flag := int_flag s\<rparr>) }
    \<and> mem v = m \<and> (\<forall>m. started env idx q root p s (v\<lparr>mem := m, int_flag := int_flag s\<rparr>))"
proof -
  let ?pid = "of_nat idx :: u8"
  have pid: "unat ?pid = idx" using idx by (simp add: unat_of_nat)
  let ?s2 = "cli (s\<lparr>current_process_pid := ?pid, PCB := (PCB s)[idx := p]\<rparr>)"
  let ?p = "p\<lparr>pcb_esp := esp s, pcb_ebp := ebp s\<rparr>"
  let ?s3 = "(map_process ?pid ?s2)\<lparr>mem := m, tss_esp0 := kernel_stack_base ?pid, PCB := (PCB s)[idx := ?p]\<rparr>"
  have frame: "current_process_pid ?s3 = ?pid" "all_process ?s3 = all_process s" "multi_process_idx ?s3 = multi_process_idx s"
    "esp (map_process ?pid ?s2) = esp s" "ebp (map_process ?pid ?s2) = ebp s" "PCB (map_process ?pid ?s2) = (PCB s)[idx := p]"
    "current_process_pid (map_process ?pid ?s2) = ?pid"
    by (simp_all add: map_process_def Let_def cli_def)
  have sch: "schedule_child env q root ?s3 = Some (if idx \<ge> 3
    then ?s3\<lparr>multi_process_idx := replace_first (pcb_pid (PCB s ! q)) ?pid (multi_process_idx s),
           all_process := (all_process s)[idx := (junk_process env)\<lparr>process_PCB := Some idx,
             active_terminal_idx := pcb_pid (PCB s ! root)\<rparr>]\<rparr>
    else ?s3)" (is "_ = Some ?s4")
    using schedule_child_run [of ?pid ?s3 root q env] len idx q distinct pid by (auto simp: frame nth_list_update)
  have pk: "peek ((PCB s)[idx := p]) idx = Some p" using idx len(1) by simp
  have "start_process env e n q root (s\<lparr>current_process_pid := ?pid, PCB := (PCB s)[idx := p]\<rparr>)
      = do { u \<leftarrow> draw_status_bar ?s4; Some (EnterUser x 0x08400000, u\<lparr>int_flag := int_flag s\<rparr>) }"
    using ld sch idx len(1)
    by (simp add: start_process_def frame pid pk set_PCB_def page_consts Let_def)
  moreover have "mem ?s4 = m" by simp
  moreover have "started env idx q root p s (?s4\<lparr>mem := m', int_flag := int_flag s\<rparr>)" for m'
    by (simp add: started_def map_process_dir) (simp add: map_process_def Let_def cli_def)
  ultimately show ?thesis by blast
qed

lemma started_status:
  assumes "started env idx q root p s u" "status_ok s" "length (PCB s) = 6" "idx < 6" "label_ok p"
  shows "status_ok u"
  unfolding status_ok_set
proof (intro conjI ballI)
  have pid: "unat (of_nat idx :: u8) = idx" using assms(4) by (simp add: unat_of_nat)
  show "length (multi_process_idx u) = 3" using assms(1,2) by (simp add: status_ok_set started_def)
  fix x assume "x \<in> set (multi_process_idx u)"
  then have "x = of_nat idx \<or> x \<in> set (multi_process_idx s)"
    using assms(1) unfolding started_def by (auto split: if_splits dest!: subsetD [OF replace_first_set])
  then show "unat x < length (PCB u)" "label_ok (PCB u ! unat x)"
    using assms pid by (auto simp: started_def status_ok_set nth_list_update)
qed

lemma start_process_run:
  assumes len: "length (PCB s) = 6" "length (all_process s) = 6" "length (page_directory s) = 1024"
    and idx: "idx < 6" and p: "label_ok p" and st: "status_ok s"
    and ok: "file_ok s k" "28 \<le> inode_length s k" "inode_length s k \<le> 0x3B8000" and k: "k = inode_num e"
    and ap: "buffer_apart s (program_addr idx) (inode_length s k)"
    and q: "q < 6" "root < 6" and distinct: "3 \<le> idx \<longrightarrow> q \<noteq> idx \<and> root \<noteq> idx"
  shows "\<exists>u. start_process env e (of_nat (inode_length s k)) q root
        (s\<lparr>current_process_pid := of_nat idx, PCB := (PCB s)[idx := p]\<rparr>)
      = Some (EnterUser (entry_point (file_contents s k)) 0x08400000, u)
    \<and> started env idx q root p s u
    \<and> (\<forall>x. \<not> in_range x 0xB8F00 160 \<longrightarrow> mem u x = store_bytes (mem s) (program_addr idx) (file_contents s k) x)"
proof -
  let ?pid = "of_nat idx :: u8"
  let ?m = "store_bytes (mem s) (program_addr idx) (file_contents s k)"
  let ?s2 = "cli (s\<lparr>current_process_pid := ?pid, PCB := (PCB s)[idx := p]\<rparr>)"
  have same: "same_image s ?s2" by (simp add: same_image_def cli_def)
  note sm = same_image_file [OF same ok(1)]
  have c2: "page_directory ?s2 = page_directory s" "current_process_pid ?s2 = ?pid" "mem ?s2 = mem s"
    by (simp_all add: cli_def)
  have "buffer_apart ?s2 (process_frame ?pid + 0x48000) (inode_length ?s2 k)"
    using ap by (simp add: buffer_apart_def sm(3-5) program_addr_def)
  from load_program_run [OF sm(7) _ _ _ this]
  have "load_program k (of_nat (inode_length ?s2 k)) ?s2
    = Some (load32 ?m (program_addr idx + 24), (map_process ?pid ?s2)\<lparr>mem := ?m\<rparr>)"
    using len(3) ok(3) by (simp add: c2 sm(5,8) Let_def program_addr_def)
  moreover have "28 \<le> length (file_contents s k)" using ok(2) by (simp add: file_contents_def)
  ultimately have "load_program (inode_num e) (of_nat (inode_length s k)) ?s2
      = Some (entry_point (file_contents s k), (map_process ?pid ?s2)\<lparr>mem := ?m\<rparr>)"
    by (simp add: entry_point_loaded sm(5) flip: k)
  from start_process_loaded [OF len(1,2) idx q distinct this, of env] obtain v where
    v: "start_process env e (of_nat (inode_length s k)) q root (s\<lparr>current_process_pid := ?pid, PCB := (PCB s)[idx := p]\<rparr>)
      = do { u \<leftarrow> draw_status_bar v; Some (EnterUser (entry_point (file_contents s k)) 0x08400000, u\<lparr>int_flag := int_flag s\<rparr>) }"
    "mem v = ?m" "\<And>m. started env idx q root p s (v\<lparr>mem := m, int_flag := int_flag s\<rparr>)" by blast
  have "status_ok (v\<lparr>mem := mem v, int_flag := int_flag s\<rparr>)" by (rule started_status [OF v(3) st len(1) idx p])
  then have "status_ok v" by (simp add: status_ok_def)
  from draw_status_bar_run [OF this] obtain m where
    m: "draw_status_bar v = Some (v\<lparr>mem := m\<rparr>)" "\<forall>x. \<not> in_range x 0xB8F00 160 \<longrightarrow> m x = ?m x"
    by (auto simp only: v(2))
  then show ?thesis using v(1) v(3) [of m] by (intro exI [of _ "v\<lparr>mem := m, int_flag := int_flag s\<rparr>"]) simp
qed

section \<open>Executing a command\<close>

text \<open>
  A command that can be executed: its first word names a file with the magic numbers, a full
  header and a size the page has room for; the words fit their buffers and the status bar; the
  kernel's buffer and the page do not overlap the file system's image; \<open>idx\<close> is the first free
  control block, \<open>root\<close> the root shell above the current process.
\<close>

definition can_execute :: "c_env \<Rightarrow> u8 list \<Rightarrow> dentry \<Rightarrow> nat \<Rightarrow> nat \<Rightarrow> 'a kernel_state_scheme \<Rightarrow> bool" where
  "can_execute env cs e idx root s \<longleftrightarrow>
     0 \<notin> set cs \<and> skip_blanks cs \<noteq> [] \<and> length (first_word cs) \<le> 121 \<and> length (other_words cs) \<le> 121
     \<and> length (first_word cs) + length (other_words cs) \<le> 126
     \<and> num_dir_entries s \<le> 63 \<and> entry_for (first_word cs) s = Some e
     \<and> file_ok s (inode_num e) \<and> take 4 (file_contents s (inode_num e)) = elf_magic
     \<and> 28 \<le> inode_length s (inode_num e) \<and> inode_length s (inode_num e) \<le> 0x3B8000
     \<and> buffer_apart s (header_buf env) 4
     \<and> buffer_apart s (program_addr idx) (inode_length s (inode_num e))
     \<and> procs_ok s \<and> first_free s = Some idx
     \<and> root_of (PCB s) (unat (current_process_pid s)) = Some root
     \<and> (3 \<le> idx \<longrightarrow> unat (current_process_pid s) \<noteq> idx \<and> root \<noteq> idx)"

lemma create_process_run:
  assumes len: "procs_ok s" and free: "first_free s = Some idx" and q: "q = unat (current_process_pid s)"
    and root: "root_of (PCB s) q = Some root"
    and distinct: "3 \<le> idx \<longrightarrow> q \<noteq> idx \<and> root \<noteq> idx"
    and w: "0 \<notin> set w" "0 \<notin> set a" "length w \<le> 121" "length a \<le> 121" "length w + length a \<le> 126"
    and ok: "file_ok s k" "28 \<le> inode_length s k" "inode_length s k \<le> 0x3B8000" and k: "k = inode_num e"
    and ap: "buffer_apart s (program_addr idx) (inode_length s k)"
  shows "\<exists>u. create_process env e (of_nat (inode_length s k)) (buffered w) (buffered a) s
      = Some (EnterUser (entry_point (file_contents s k)) 0x08400000, u)
    \<and> started env idx q root (new_PCB idx q w a (PCB s ! idx)) s u
    \<and> (\<forall>x. \<not> in_range x 0xB8F00 160 \<longrightarrow> mem u x = store_bytes (mem s) (program_addr idx) (file_contents s k) x)"
proof -
  have tabs: "length (PCB s) = 6" "length (all_process s) = 6" "length (page_directory s) = 1024" "status_ok s"
    "unat (current_process_pid s) < 6"
    using len by (simp_all add: procs_ok_def word_less_nat_alt)
  have idx: "idx < 6" using first_free_less [OF free] by simp
  then have "PCB s ! idx \<in> set (PCB s)" using tabs(1) by simp
  then have pok: "pcb_ok (PCB s ! idx)" using len by (simp add: procs_ok_def)
  let ?p = "new_PCB idx q w a (PCB s ! idx)"
  have filled: "setup_PCB idx q (buffered w) (buffered a) (PCB s ! idx) = Some ?p"
    by (rule setup_PCB_run [OF pok w(1-4)])
  have pk: "peek (PCB s) idx = Some (PCB s ! idx)" using idx tabs(1) by simp
  have "root < 6" using root_of_less [OF root] tabs(1) by simp
  from start_process_run [OF tabs(1-3) idx new_PCB_label [OF w(1,2,5)] tabs(4) ok k ap _ this distinct, of env idx q "PCB s ! idx"]
    tabs(5) obtain u where u: "start_process env e (of_nat (inode_length s k)) q root
        (s\<lparr>current_process_pid := of_nat idx, PCB := (PCB s)[idx := ?p]\<rparr>)
      = Some (EnterUser (entry_point (file_contents s k)) 0x08400000, u)" "started env idx q root ?p s u"
    "\<forall>x. \<not> in_range x 0xB8F00 160 \<longrightarrow> mem u x = store_bytes (mem s) (program_addr idx) (file_contents s k) x"
    by (auto simp: q)
  have "create_process env e (of_nat (inode_length s k)) (buffered w) (buffered a) s
      = Some (EnterUser (entry_point (file_contents s k)) 0x08400000, u)"
    using u(1) idx tabs(1) filled pk
    by (simp add: create_process_def q [symmetric] root find_pid_run [OF tabs(1)] free set_PCB_def del: peek_Some_iff)
  with u(2,3) show ?thesis by blast
qed

lemma started_mem [simp]: "started env idx q root p (s\<lparr>mem := m\<rparr>) u = started env idx q root p s u"
  by (simp add: started_def)

lemma words_no_zero:
  assumes "0 \<notin> set cs"
  shows "0 \<notin> set (first_word cs)" "0 \<notin> set (other_words cs)"
proof -
  have z: "0 \<notin> set (skip_blanks cs)" using assms by (rule skip_blanks_no_zero)
  then show "0 \<notin> set (first_word cs)" using set_takeWhileD unfolding first_word_def by metis
  have "0 \<notin> set (dropWhile (\<lambda>c. c \<noteq> 32) (skip_blanks cs))" using z set_dropWhileD by metis
  then show "0 \<notin> set (other_words cs)" unfolding other_words_def by (rule skip_blanks_no_zero)
qed

lemma execute_run:
  assumes "can_execute env cs e idx root s"
  shows "\<exists>u. sys_execute env (cs @ 0 # r) s
      = Some (EnterUser (entry_point (file_contents s (inode_num e))) 0x08400000, u)
    \<and> started env idx (unat (current_process_pid s)) root
        (new_PCB idx (unat (current_process_pid s)) (first_word cs) (other_words cs) (PCB s ! idx)) (sti s) u
    \<and> load_bytes (mem u) (program_addr idx) (inode_length s (inode_num e)) = file_contents s (inode_num e)
    \<and> (\<forall>x. \<not> in_range x (program_addr idx) (inode_length s (inode_num e)) \<and> \<not> in_range x 0xB8F00 160
         \<and> \<not> in_range x (header_buf env) 4 \<longrightarrow> mem u x = mem s x)"
proof -
  let ?w = "first_word cs" and ?a = "other_words cs" and ?k = "inode_num e" and ?q = "unat (current_process_pid s)"
  note h = assms [unfolded can_execute_def]
  have zw: "0 \<notin> set ?w" "0 \<notin> set ?a" using h words_no_zero by blast+
  let ?s = "sti s"
  have same: "num_dir_entries ?s = num_dir_entries s" "buffer_apart ?s b n = buffer_apart s b n"
    "entry_for v ?s = entry_for v s" "file_ok ?s j = file_ok s j" "file_contents ?s j = file_contents s j"
    "inode_length ?s j = inode_length s j" "mem ?s = mem s" "fs_boot_block ?s = fs_boot_block s" "PCB ?s = PCB s"
    "current_process_pid ?s = current_process_pid s" for b n v j
    by (simp_all add: sti_def num_dir_entries_def buffer_apart_def image_size_def num_inodes_def num_data_blocks_def
        entry_for_def directory_def file_ok_def inode_length_def file_block_def file_contents_def file_addr_def)
  obtain m where m: "find_executable env (buffered ?w) ?s = Some (Some (e, of_nat (inode_length s ?k)), ?s\<lparr>mem := m\<rparr>)"
    "\<forall>x. \<not> in_range x (header_buf env) 4 \<longrightarrow> m x = mem s x"
    using find_executable_run [of ?w ?s env] h zw by (auto simp: same)
  let ?t = "?s\<lparr>mem := m\<rparr>"
  have img: "same_image s ?t"
    by (rule same_image_gather [of s "header_buf env" 4]) (use h m(2) in \<open>simp_all add: same\<close>)
  have ok: "file_ok s ?k" using h by blast
  note sm = same_image_file [OF img ok]
  have st: "status_ok ?t = status_ok s" "first_free ?t = first_free s" by (simp_all add: status_ok_def first_free_def sti_def)
  have "procs_ok ?t = procs_ok s" unfolding procs_ok_def st by (simp add: sti_def)
  then have pok: "procs_ok ?t" using h by blast
  have ap: "buffer_apart ?t (program_addr idx) (inode_length ?t ?k)"
    using h by (simp add: buffer_apart_def sm(3-5))
  have frame: "current_process_pid ?t = current_process_pid s" "PCB ?t = PCB s" "mem ?t = m" by (simp_all add: same)
  obtain u where u: "create_process env e (of_nat (inode_length s ?k)) (buffered ?w) (buffered ?a) ?t
      = Some (EnterUser (entry_point (file_contents s ?k)) 0x08400000, u)"
    "started env idx ?q root (new_PCB idx ?q ?w ?a (PCB s ! idx)) ?s u"
    "\<forall>x. \<not> in_range x 0xB8F00 160 \<longrightarrow> mem u x = store_bytes m (program_addr idx) (file_contents s ?k) x"
    using create_process_run [where env = env and root = root, OF pok(1) _ _ _ _ zw _ _ _ sm(7) _ _ refl ap] h
    by (auto simp: frame sm(5,8) st(2))
  have c: "peek (cs @ 0 # r) 0 = Some (hd cs)" "hd cs \<noteq> 0" using h by (cases cs; auto simp: skip_blanks_def)+
  have parse: "parse_command (cs @ 0 # r) = Some (Some (buffered ?w, buffered ?a))"
    using parse_command_cases [of cs r] h by simp
  have "sys_execute env (cs @ 0 # r) s = Some (EnterUser (entry_point (file_contents s ?k)) 0x08400000, u)"
    using c parse m(1) u(1) by (simp add: sys_execute_def del: peek_Some_iff)
  moreover have "load_bytes (mem u) (program_addr idx) (inode_length s ?k) = file_contents s ?k"
  proof (rule nth_equalityI)
    fix i assume "i < length (load_bytes (mem u) (program_addr idx) (inode_length s ?k))"
    then have i: "i < inode_length s ?k" by simp
    moreover have "inode_length s ?k \<le> 0x3B8000" "idx < 6" using h first_free_less by auto
    ultimately have "\<not> in_range (program_addr idx + of_nat i) 0xB8F00 160" "unat (of_nat i :: u32) = i"
      using program_not_status [of idx i] by (simp_all add: unat_of_nat_small)
    with u(3) i show "load_bytes (mem u) (program_addr idx) (inode_length s ?k) ! i = file_contents s ?k ! i"
      by (simp add: load_bytes_def store_bytes_def in_range_def file_contents_def)
  qed (simp add: file_contents_def)
  moreover have "mem u x = mem s x" if "\<not> in_range x (program_addr idx) (inode_length s ?k)" "\<not> in_range x 0xB8F00 160"
    "\<not> in_range x (header_buf env) 4" for x
    using u(3) m(2) that by (simp add: store_bytes_def file_contents_def)
  ultimately show ?thesis using u(2) by auto
qed

text \<open>The user's view of the new process: its page holds the file from 0x08048000 on.\<close>

lemma started_page:
  assumes "started env idx q root p s u" "length (page_directory s) = 1024" "i < 0x3B8000"
  shows "translate True u (0x08048000 + of_nat i) = Some (program_addr idx + of_nat i)"
proof -
  have up: "user_page 0x08048000" by (simp add: user_page_def)
  have len: "unat (0x08048000 :: u32) + i < 0x08400000" using assms(3) by simp
  note off = page_offset_add [OF up len]
  have "page_directory u ! 32 = process_frame (of_nat idx) OR 0x87" "length (page_directory u) = 1024"
    using assms(1,2) by (simp_all add: started_def)
  from program_page [OF this off(2), of True] show ?thesis
    unfolding off(1) by (simp add: program_addr_def add.assoc)
qed

lemma c_string_start: "0 \<notin> set w \<Longrightarrow> c_string (w @ 0 # r) = w"
  by (auto simp: c_string_def takeWhile_append)

lemma new_PCB_terminals:
  assumes "pcb_ok p" "fd < 2"
  shows "is_present (file_array (new_PCB idx q w a p) ! fd) \<and> operation_table (file_array (new_PCB idx q w a p) ! fd) = TerminalDriver"
proof -
  have "fd = 0 \<or> fd = 1" using assms(2) by linarith
  then show ?thesis using assms(1)
    by (auto simp: new_PCB_def pcb_ok_def terminal_fd_def is_present_def kernel_consts present_bit nth_list_update)
qed

text \<open>A started program sees its file at its virtual address.\<close>

lemma started_program:
  assumes st: "started env idx q root p s u" and dir: "length (page_directory s) = 1024" and idx: "idx < 6"
    and loaded: "load_bytes (mem u) (program_addr idx) n = bs" and n: "n \<le> 0x3B8000" and i: "i < n"
  shows "translate True u (0x08048000 + of_nat i) = Some (program_addr idx + of_nat i)
    \<and> mem u (program_addr idx + of_nat i) = bs ! i"
proof -
  have "load_bytes (mem u) (program_addr idx) n ! i = mem u (program_addr idx + of_nat i)"
    using i by (simp add: load_bytes_def)
  then show ?thesis using started_page [OF st dir] loaded n i by simp
qed


section \<open>Closing the descriptors\<close>

definition closable :: "file_array_t \<Rightarrow> bool" where
  "closable f \<longleftrightarrow> is_present f \<longrightarrow> operation_table f \<in> {RtcDriver, FileDriver, DirectoryDriver, MouseDriver}"

lemma cleared_bit: "(x AND DISABLE_LAST_BIT_MASK) AND PRESENT_BITMASK = 0"
  unfolding kernel_consts and.assoc by simp

lemma close_one_run:
  assumes "unat (current_process_pid s) = k" "k < length (PCB s)" "i < length (file_array (PCB s ! k))"
    and "closable (file_array (PCB s ! k) ! i)"
  shows "\<exists>f. close_one k i s = Some (s\<lparr>PCB := (PCB s)[k := (PCB s ! k)\<lparr>file_array := (file_array (PCB s ! k))[i := f]\<rparr>]\<rparr>)
    \<and> \<not> is_present f"
proof -
  let ?p = "PCB s ! k" and ?f = "file_array (PCB s ! k) ! i"
  show ?thesis
  proof (cases "is_present ?f")
    case False
    have "s = s\<lparr>PCB := (PCB s)[k := ?p\<lparr>file_array := (file_array ?p)[i := ?f]\<rparr>]\<rparr>"
      by (simp add: list_update_id)
    moreover have "close_one k i s = Some s" using False assms by (simp add: close_one_def is_present_def)
    ultimately show ?thesis using False by metis
  next
    case True
    let ?g = "?f\<lparr>fd_flags := fd_flags ?f AND DISABLE_LAST_BIT_MASK\<rparr>"
    let ?s = "s\<lparr>PCB := (PCB s)[k := ?p\<lparr>file_array := (file_array ?p)[i := ?g]\<rparr>]\<rparr>"
    have np: "\<not> is_present (?g\<lparr>file_position := y\<rparr>)" "\<not> is_present ?g" for y by (simp_all add: is_present_def cleared_bit)
    have close: "close_one k i s = map_option snd (driver_close (operation_table ?f) i ?s)"
      using True assms(2,3) by (simp add: close_one_def is_present_def set_PCB_def split: option.splits)
        (auto simp: map_option_case split: option.splits)
    show ?thesis
    proof (cases "operation_table ?f = RtcDriver")
      case True
      have "upd_fd i (\<lambda>f. f\<lparr>file_position := 0\<rparr>) ?s
          = Some (s\<lparr>PCB := (PCB s)[k := ?p\<lparr>file_array := (file_array ?p)[i := ?g\<lparr>file_position := 0\<rparr>]\<rparr>]\<rparr>)"
        using assms(1-3) by (simp add: upd_fd_def get_fd_def set_fd_def current_PCB_def set_PCB_def)
      then have "close_one k i s
          = Some (s\<lparr>PCB := (PCB s)[k := ?p\<lparr>file_array := (file_array ?p)[i := ?g\<lparr>file_position := 0\<rparr>]\<rparr>]\<rparr>)"
        unfolding close True by (simp add: rtc_close_def)
      then show ?thesis using np by blast
    next
      case False
      then have "driver_close (operation_table ?f) i ?s = Some (0, ?s)"
        using assms(4) \<open>is_present ?f\<close>
        by (auto simp: closable_def file_close_def dir_close_def mouse_close_def)
      then have "close_one k i s = Some ?s" unfolding close by simp
      then show ?thesis using np by blast
    qed
  qed
qed

lemma close_all_run:
  assumes cur: "unat (current_process_pid s) = k" "k < length (PCB s)" "n \<le> length (file_array (PCB s ! k))"
    and cl: "\<forall>i\<in>{2..<n}. closable (file_array (PCB s ! k) ! i)" and "2 \<le> n"
  shows "\<exists>fs. loop_over [2..<n] (close_one k) s = Some (s\<lparr>PCB := (PCB s)[k := (PCB s ! k)\<lparr>file_array := fs\<rparr>]\<rparr>)
    \<and> length fs = length (file_array (PCB s ! k)) \<and> (\<forall>i\<in>{2..<n}. \<not> is_present (fs ! i))
    \<and> (\<forall>i. i \<notin> {2..<n} \<longrightarrow> fs ! i = file_array (PCB s ! k) ! i)"
  using \<open>2 \<le> n\<close> cur(3) cl
proof (induction n rule: dec_induct)
  case base
  have "s = s\<lparr>PCB := (PCB s)[k := (PCB s ! k)\<lparr>file_array := file_array (PCB s ! k)\<rparr>]\<rparr>"
    by (simp add: list_update_id)
  then show ?case by (intro exI [of _ "file_array (PCB s ! k)"]) simp
next
  case (step n)
  let ?fs = "file_array (PCB s ! k)"
  from step obtain fs where fs: "loop_over [2..<n] (close_one k) s = Some (s\<lparr>PCB := (PCB s)[k := (PCB s ! k)\<lparr>file_array := fs\<rparr>]\<rparr>)"
    "length fs = length ?fs" "\<forall>i\<in>{2..<n}. \<not> is_present (fs ! i)" "\<forall>i. i \<notin> {2..<n} \<longrightarrow> fs ! i = ?fs ! i"
    by fastforce
  let ?t = "s\<lparr>PCB := (PCB s)[k := (PCB s ! k)\<lparr>file_array := fs\<rparr>]\<rparr>"
  have t: "PCB ?t ! k = (PCB s ! k)\<lparr>file_array := fs\<rparr>" using cur(2) by simp
  have "closable (fs ! n)" using fs(4) step by simp
  then obtain f where f: "close_one k n ?t = Some (s\<lparr>PCB := (PCB s)[k := (PCB s ! k)\<lparr>file_array := fs[n := f]\<rparr>]\<rparr>)" "\<not> is_present f"
    using close_one_run [of ?t k n] cur(1,2) fs(2) step.prems by (auto simp: t)
  have "loop_over [2..<Suc n] (close_one k) s = Some (s\<lparr>PCB := (PCB s)[k := (PCB s ! k)\<lparr>file_array := fs[n := f]\<rparr>]\<rparr>)"
    using fs(1) f(1) step.hyps by (simp add: loop_over_append)
  moreover have "\<not> is_present (fs[n := f] ! i)" if "i \<in> {2..<Suc n}" for i
    using that fs(2,3) f(2) step.prems by (cases "i = n") auto
  moreover have "fs[n := f] ! i = ?fs ! i" if "i \<notin> {2..<Suc n}" for i
    using that fs(4) step.hyps by (cases "i = n") auto
  ultimately show ?case using fs(2) by (intro exI [of _ "fs[n := f]"]) (simp del: upt_Suc)
qed

section \<open>A kernel with an executable file\<close>

text \<open>
  The file \<open>a\<close> has 28 bytes: the magic numbers, zeros, and the entry point 0x08048000. The three
  root shells are running.
\<close>

definition exec_mem :: mem where
  "exec_mem = tiny_mem(0x11000 := 28, 0x12000 := 0x7F, 0x12001 := 0x45, 0x12002 := 0x4C, 0x12003 := 0x46,
     0x12019 := 0x80, 0x1201A := 0x04, 0x1201B := 0x08)"

definition shell_pcb :: "u8 \<Rightarrow> PCB_BLOCK" where
  "shell_pcb pid = (tiny_pcb 1)\<lparr>pcb_pid := pid\<rparr>"

definition exec_kernel :: "unit kernel_state_scheme" where
  "exec_kernel = tiny_kernel\<lparr>mem := exec_mem,
     PCB := [shell_pcb 0, shell_pcb 1, shell_pcb 2, tiny_pcb 0, tiny_pcb 0, tiny_pcb 0],
     all_process := map (\<lambda>k. \<lparr>process_PCB = Some k, saved_esp = 0, saved_ebp = 0, active_terminal_idx = 0\<rparr>) [0, 1, 2, 3, 4, 5],
     esp := 0x7FFF00, ebp := 0x7FFF40\<rparr>"

lemma shell_label: "label_ok (shell_pcb pid)" "label_ok (tiny_pcb r)"
proof -
  have "label_ok (shell_pcb pid) = label_ok (tiny_pcb 1)"
    by (simp add: label_ok_def process_label_def shell_pcb_def cong: if_cong)
  then show "label_ok (shell_pcb pid)" "label_ok (tiny_pcb r)"
    by (simp_all add: label_ok_def tiny_kernel_label)
qed

lemma exec_image: "image_size exec_kernel = 12288" "fs_boot_block exec_kernel = 0x10000" "num_inodes exec_kernel = 1"
  "num_data_blocks exec_kernel = 1" "num_dir_entries exec_kernel = 1" "inode_length exec_kernel 0 = 28"
  "file_block exec_kernel 0 0 = 0"
  by (simp_all add: image_size_def num_inodes_def num_data_blocks_def num_dir_entries_def inode_length_def
      file_block_def slot_off_def exec_kernel_def tiny_kernel_def exec_mem_def tiny_mem_def load32_def)

lemma exec_entry: "\<exists>e. entry_for [97] exec_kernel = Some e \<and> inode_num e = 0 \<and> file_type e = 2"
proof -
  let ?e = "load_dentry exec_mem (entry_addr 0x10000 0)"
  have d: "directory exec_kernel = [?e]"
    by (simp add: directory_def exec_image) (simp add: exec_kernel_def)
  have "entry_name ?e = [97]"
    by (simp add: exec_mem_def tiny_mem_def entry_name_def load_dentry_def load_bytes_def
      c_string_def entry_addr_def MAX_FILENAME_LENGTH_def upt_rec)
  moreover have "inode_num ?e = 0" "file_type ?e = 2"
    by (simp_all add: exec_mem_def tiny_mem_def load_dentry_def load32_def entry_addr_def)
  ultimately show ?thesis by (simp add: entry_for_def d)
qed

lemma exec_file: "file_ok exec_kernel 0" "take 4 (file_contents exec_kernel 0) = elf_magic"
  "entry_point (file_contents exec_kernel 0) = 0x08048000"
proof -
  have "file_block exec_kernel 0 j < 1" if "4096 * j < 28" for j
  proof -
    have "j = 0" using that by simp
    then show ?thesis by (simp add: exec_image)
  qed
  then show "file_ok exec_kernel 0" by (simp add: file_ok_def exec_image)
  have a: "file_contents exec_kernel 0 ! i = exec_mem (0x12000 + of_nat i)" if "i < 28" for i
    using that by (simp add: file_contents_def exec_image file_addr_def data_off_def)
      (simp add: exec_kernel_def algebra_simps)
  have len: "length (file_contents exec_kernel 0) = 28" by (simp add: file_contents_def exec_image)
  have "take 4 (file_contents exec_kernel 0) = map ((!) (file_contents exec_kernel 0)) [0..<4]"
    by (rule nth_equalityI) (simp_all add: len)
  also have "\<dots> = map (\<lambda>i. exec_mem (0x12000 + of_nat i)) [0..<4]" using a by simp
  also have "\<dots> = elf_magic" by (simp add: upt_rec exec_mem_def tiny_mem_def elf_magic_def)
  finally show "take 4 (file_contents exec_kernel 0) = elf_magic" .
  show "entry_point (file_contents exec_kernel 0) = 0x08048000"
    by (simp add: entry_point_def a exec_mem_def tiny_mem_def)
qed

lemma exec_apart:
  assumes "0x13000 \<le> unat b" "unat b + n \<le> 0x7FFFFFFF"
  shows "buffer_apart exec_kernel b n"
  unfolding buffer_apart_def
proof (intro allI impI)
  fix i assume i: "i < n"
  then have u: "unat (b + of_nat i) = unat b + i" using assms by (simp add: unat_add_small unat_of_nat_small)
  then have "unat (b + of_nat i - 0x10000) = unat b + i - 0x10000"
    using assms by (subst unat_sub_small) auto
  then show "\<not> in_range (b + of_nat i) (fs_boot_block exec_kernel) (image_size exec_kernel)"
    using assms by (simp add: in_range_def exec_image)
qed

lemma exec_procs: "procs_ok exec_kernel" "first_free exec_kernel = Some 3" "root_of (PCB exec_kernel) 0 = Some 0"
proof -
  have "status_ok exec_kernel"
    unfolding status_ok_set by (simp add: exec_kernel_def tiny_kernel_def shell_label)
  moreover have "pcb_ok (tiny_pcb r)" "pcb_ok (shell_pcb pid)" for r pid
    by (simp_all add: pcb_ok_def tiny_pcb_def shell_pcb_def)
  ultimately show "procs_ok exec_kernel"
    by (simp add: procs_ok_def) (simp add: exec_kernel_def tiny_kernel_def)
  show "first_free exec_kernel = Some 3"
    by (simp add: first_free_def upt_rec exec_kernel_def tiny_pcb_def shell_pcb_def)
  show "root_of (PCB exec_kernel) 0 = Some 0"
    by (subst root_of.simps) (simp add: exec_kernel_def tiny_pcb_def shell_pcb_def)
qed

lemma exec_kernel_can_execute:
  "\<exists>e. can_execute tiny_env [97, 32, 98] e 3 0 exec_kernel \<and> inode_num e = 0"
proof -
  obtain e where e: "entry_for [97] exec_kernel = Some e" "inode_num e = 0" using exec_entry by blast
  have w: "first_word [97, 32, 98] = [97]" "other_words [97, 32, 98] = [98]" "skip_blanks [97, 32, 98] = [97, 32, 98]"
    by (simp_all add: first_word_def other_words_def skip_blanks_def)
  have pid: "unat (current_process_pid exec_kernel) = 0" by (simp add: exec_kernel_def tiny_kernel_def)
  have "unat (program_addr 3) = 0x1448000" using program_addr_nat [of 3 0] by simp
  then have "buffer_apart exec_kernel (program_addr 3) 28" "buffer_apart exec_kernel (header_buf tiny_env) 4"
    by (intro exec_apart; simp add: tiny_env_def)+
  then show ?thesis
    using e exec_file(1,2) exec_procs by (intro exI [of _ e]) (simp add: can_execute_def w exec_image pid)
qed


end
