(* ===== verification/Halting.thy ===== *)
theory Halting
  imports Lifecycle
begin

text \<open>
  The end of a process: halting gives the processor back to the parent, executing and then
  halting leaves the caller where it was, and the running processes form three stacks, one for
  each terminal.
\<close>

section \<open>Halting\<close>

text \<open>What \<open>sys_halt\<close> leaves behind when the process \<open>k\<close>, with control block \<open>p\<close>, returns to \<open>q\<close>.\<close>

definition halted :: "nat \<Rightarrow> nat \<Rightarrow> 'a kernel_state_scheme \<Rightarrow> 'a kernel_state_scheme \<Rightarrow> bool" where
  "halted k q s u \<longleftrightarrow>
     (let p = PCB s ! k; back = pcb_pid (PCB s ! q) in
       current_process_pid u = back
       \<and> (\<exists>fs. PCB u = (PCB s)[k := p\<lparr>running := 0, file_array := fs\<rparr>] \<and> length fs = length (file_array p)
            \<and> (\<forall>i\<in>{2..<8}. \<not> is_present (fs ! i)) \<and> (\<forall>i. i \<notin> {2..<8} \<longrightarrow> fs ! i = file_array p ! i))
       \<and> page_directory u = (page_directory s)[32 := process_frame back OR 0x87]
       \<and> tss_esp0 u = kernel_stack_base back
       \<and> multi_process_idx u = (if k \<ge> 3 then replace_first (of_nat k) back (multi_process_idx s) else multi_process_idx s)
       \<and> all_process u = all_process s \<and> error_return_value u = 0
       \<and> esp u = pcb_esp p \<and> ebp u = pcb_ebp p \<and> int_flag u = int_flag s
       \<and> current_term u = current_term s \<and> three_terminals u = three_terminals s \<and> num_multiprocess u = num_multiprocess s
       \<and> current_multiprocess u = current_multiprocess s \<and> on_default_term u = on_default_term s
       \<and> fs_boot_block u = fs_boot_block s)"

text \<open>A process that can be halted to its parent \<open>q\<close>.\<close>

definition can_halt :: "nat \<Rightarrow> nat \<Rightarrow> 'a kernel_state_scheme \<Rightarrow> bool" where
  "can_halt k q s \<longleftrightarrow> procs_ok s \<and> current_process_pid s = of_nat k \<and> k < 6 \<and> q < 6 \<and> q \<noteq> k
     \<and> parent (PCB s ! k) = Some q \<and> (\<forall>i\<in>{2..<8}. closable (file_array (PCB s ! k) ! i))
     \<and> label_ok (PCB s ! q) \<and> unat (pcb_pid (PCB s ! q)) = q"

lemma stop_process_run:
  assumes "unat (current_process_pid s) = k" "k < length (PCB s)" "length (file_array (PCB s ! k)) = 8"
    and "\<forall>i\<in>{2..<8}. closable (file_array (PCB s ! k) ! i)"
  shows "\<exists>fs. stop_process k s = Some (s\<lparr>PCB := (PCB s)[k := (PCB s ! k)\<lparr>running := 0, file_array := fs\<rparr>]\<rparr>)
    \<and> length fs = 8 \<and> (\<forall>i\<in>{2..<8}. \<not> is_present (fs ! i)) \<and> (\<forall>i. i \<notin> {2..<8} \<longrightarrow> fs ! i = file_array (PCB s ! k) ! i)"
proof -
  let ?t = "s\<lparr>PCB := (PCB s)[k := (PCB s ! k)\<lparr>running := 0\<rparr>]\<rparr>"
  have t: "PCB ?t ! k = (PCB s ! k)\<lparr>running := 0\<rparr>" using assms(2) by simp
  obtain fs where fs: "loop_over [2..<8] (close_one k) ?t = Some (?t\<lparr>PCB := (PCB ?t)[k := (PCB ?t ! k)\<lparr>file_array := fs\<rparr>]\<rparr>)"
    "length fs = 8" "\<forall>i\<in>{2..<8}. \<not> is_present (fs ! i)" "\<forall>i. i \<notin> {2..<8} \<longrightarrow> fs ! i = file_array (PCB s ! k) ! i"
    using close_all_run [of ?t k 8] assms unfolding t by auto
  have "?t\<lparr>PCB := (PCB ?t)[k := (PCB ?t ! k)\<lparr>file_array := fs\<rparr>]\<rparr>
      = s\<lparr>PCB := (PCB s)[k := (PCB s ! k)\<lparr>running := 0, file_array := fs\<rparr>]\<rparr>"
    unfolding t by simp
  with fs assms(2) show ?thesis
    by (intro exI [of _ fs]) (simp add: stop_process_def set_PCB_def kernel_consts call_consts del: upt_Suc)
qed

lemma return_to_parent_run:
  assumes st: "status_ok s" and k: "current_process_pid s = of_nat k" "k < 6" "k < length (PCB s)"
    and q: "q < length (PCB s)" "label_ok (PCB s ! q)" "unat (pcb_pid (PCB s ! q)) = q"
  shows "\<exists>u. return_to_parent k q status s
      = Some (ParentReturns (if error_return_value s = 256 then 256 else ucast status), u)
    \<and> PCB u = PCB s \<and> current_process_pid u = pcb_pid (PCB s ! q)
    \<and> page_directory u = (page_directory s)[32 := process_frame (pcb_pid (PCB s ! q)) OR 0x87]
    \<and> tss_esp0 u = kernel_stack_base (pcb_pid (PCB s ! q))
    \<and> multi_process_idx u = (if k \<ge> 3 then replace_first (of_nat k) (pcb_pid (PCB s ! q)) (multi_process_idx s) else multi_process_idx s)
    \<and> all_process u = all_process s \<and> error_return_value u = 0
    \<and> esp u = pcb_esp (PCB s ! k) \<and> ebp u = pcb_ebp (PCB s ! k) \<and> int_flag u = int_flag s
    \<and> current_term u = current_term s \<and> three_terminals u = three_terminals s \<and> num_multiprocess u = num_multiprocess s
       \<and> current_multiprocess u = current_multiprocess s \<and> on_default_term u = on_default_term s
       \<and> fs_boot_block u = fs_boot_block s
    \<and> (\<forall>x. \<not> in_range x 0xB8F00 160 \<longrightarrow> mem u x = mem s x)"
proof -
  let ?b = "pcb_pid (PCB s ! q)"
  have pid: "unat (of_nat k :: u8) = k" using k(2) by (simp add: unat_of_nat)
  let ?s1 = "(map_process ?b (cli s))\<lparr>tss_esp0 := kernel_stack_base ?b\<rparr>"
  let ?l = "if k \<ge> 3 then replace_first (of_nat k) ?b (multi_process_idx s) else multi_process_idx s"
  let ?s2 = "?s1\<lparr>multi_process_idx := ?l\<rparr>"
  have frame: "PCB (map_process p t) = PCB t" "multi_process_idx (map_process p t) = multi_process_idx t"
    "current_process_pid (map_process p t) = current_process_pid t" "mem (map_process p t) = mem t"
    "error_return_value (map_process p t) = error_return_value t"
    "PCB (cli t) = PCB t" "multi_process_idx (cli t) = multi_process_idx t" "mem (cli t) = mem t"
    "current_process_pid (cli t) = current_process_pid t" "error_return_value (cli t) = error_return_value t"
    for p and t :: "'a kernel_state_scheme"
    by (simp_all add: map_process_def Let_def cli_def)
  have "status_ok ?s2"
    unfolding status_ok_set
  proof (intro conjI ballI)
    show "length (multi_process_idx ?s2) = 3" using st by (simp add: status_ok_set)
    fix x assume "x \<in> set (multi_process_idx ?s2)"
    then have "x = ?b \<or> x \<in> set (multi_process_idx s)"
      by (auto split: if_splits dest!: subsetD [OF replace_first_set])
    then show "unat x < length (PCB ?s2)" "label_ok (PCB ?s2 ! unat x)"
      using st q by (auto simp: status_ok_set frame)
  qed
  from draw_status_bar_run [OF this] obtain m where
    m: "draw_status_bar ?s2 = Some (?s2\<lparr>mem := m\<rparr>)" "\<forall>x. \<not> in_range x 0xB8F00 160 \<longrightarrow> m x = mem s x"
    by (auto simp: frame)
  have slot: "(if unat (current_process_pid ?s1) \<ge> MAX_MULTIPROCESS_NUM
      then ?s1\<lparr>multi_process_idx := replace_first (current_process_pid ?s1) ?b (multi_process_idx ?s1)\<rparr> else ?s1) = ?s2"
    by (simp add: frame k(1) pid kernel_consts)
  have pk: "peek (PCB (cli s)) q = Some (PCB s ! q)" using q(1) by (simp add: frame)
  let ?s3 = "?s2\<lparr>mem := m, current_process_pid := ?b\<rparr>"
  have run: "return_to_parent k q status s = do {
      let s' = (if error_return_value ?s3 \<noteq> HALT_EXCEPTION then ?s3\<lparr>error_return_value := ucast status\<rparr> else ?s3);
      p \<leftarrow> peek (PCB s') k;
      Some (ParentReturns (error_return_value s'),
        s'\<lparr>esp := pcb_esp p, ebp := pcb_ebp p, int_flag := int_flag s, error_return_value := 0\<rparr>) }"
    unfolding return_to_parent_def cli_and_save_def prod.case Let_def pk bind.bind_lunit option.sel
    unfolding slot m(1) by simp
  show ?thesis
    using m(2) k(3) unfolding run
    by (cases "error_return_value s = 256")
      (simp_all add: frame HALT_EXCEPTION_def Let_def map_process_dir,
       simp_all add: map_process_def Let_def cli_def)
qed

lemma sys_halt_run:
  assumes h: "can_halt k q s"
  shows "\<exists>u. sys_halt env status s = Some (ParentReturns (if error_return_value s = 256 then 256 else ucast status), u)
    \<and> halted k q s u \<and> (\<forall>x. \<not> in_range x 0xB8F00 160 \<longrightarrow> mem u x = mem s x)"
proof -
  let ?p = "PCB s ! k"
  have tabs: "length (PCB s) = 6" "status_ok s" "current_process_pid s = of_nat k" "k < 6" "q < 6" "q \<noteq> k"
    "parent ?p = Some q" "label_ok (PCB s ! q)" "unat (pcb_pid (PCB s ! q)) = q"
    using h by (simp_all add: can_halt_def procs_ok_def)
  have pid: "unat (current_process_pid s) = k" using tabs(3,4) by (simp add: unat_of_nat)
  have "?p \<in> set (PCB s)" using tabs(1,4) by simp
  then have len: "length (file_array ?p) = 8" using h by (auto simp: can_halt_def procs_ok_def pcb_ok_def)
  obtain fs where fs: "stop_process k s = Some (s\<lparr>PCB := (PCB s)[k := ?p\<lparr>running := 0, file_array := fs\<rparr>]\<rparr>)"
    "length fs = 8" "\<forall>i\<in>{2..<8}. \<not> is_present (fs ! i)" "\<forall>i. i \<notin> {2..<8} \<longrightarrow> fs ! i = file_array ?p ! i"
    using stop_process_run [of s k] pid tabs(1,4) len h by (auto simp: can_halt_def)
  let ?t = "s\<lparr>PCB := (PCB s)[k := ?p\<lparr>running := 0, file_array := fs\<rparr>]\<rparr>"
  have t: "PCB ?t ! q = PCB s ! q" "PCB ?t ! k = ?p\<lparr>running := 0, file_array := fs\<rparr>" using tabs(1,4,6) by simp_all
  have st: "status_ok ?t"
    using tabs(1,2,4) by (auto simp: status_ok_set nth_list_update)
  obtain u where u: "return_to_parent k q status ?t
      = Some (ParentReturns (if error_return_value s = 256 then 256 else ucast status), u)"
    and fields: "PCB u = PCB ?t" "current_process_pid u = pcb_pid (PCB s ! q)"
    "page_directory u = (page_directory s)[32 := process_frame (pcb_pid (PCB s ! q)) OR 0x87]"
    "tss_esp0 u = kernel_stack_base (pcb_pid (PCB s ! q))"
    "multi_process_idx u = (if k \<ge> 3 then replace_first (of_nat k) (pcb_pid (PCB s ! q)) (multi_process_idx s) else multi_process_idx s)"
    "all_process u = all_process s" "error_return_value u = 0"
    "esp u = pcb_esp ?p" "ebp u = pcb_ebp ?p" "int_flag u = int_flag s"
    "current_term u = current_term s" "three_terminals u = three_terminals s" "num_multiprocess u = num_multiprocess s"
    "current_multiprocess u = current_multiprocess s" "on_default_term u = on_default_term s" "fs_boot_block u = fs_boot_block s"
    "\<forall>x. \<not> in_range x 0xB8F00 160 \<longrightarrow> mem u x = mem s x"
    using return_to_parent_run [of ?t k q status, OF st] tabs unfolding t by auto
  have pk: "peek (PCB s) k = Some ?p" using tabs(1,4) by simp
  have "sys_halt env status s = halt_child status k s"
    unfolding sys_halt_def Let_def pid pk bind.bind_lunit using tabs(6,7) by simp
  also have "\<dots> = return_to_parent k q status ?t"
    unfolding halt_child_def pk bind.bind_lunit tabs(7) fs(1) ..
  finally have "sys_halt env status s
      = Some (ParentReturns (if error_return_value s = 256 then 256 else ucast status), u)" using u by simp
  moreover have "halted k q s u"
    using fields fs(2-4) len by (auto simp: halted_def Let_def)
  ultimately show ?thesis using fields by blast
qed

lemma status_byte: "ucast (ucast status AND 0xFF :: u8) = (status AND 0xFF :: u32)"
proof -
  have mask: "(0xFF :: u8) = mask 8" "(0xFF :: u32) = mask 8" by (simp_all add: mask_eq_exp_minus_1)
  show ?thesis unfolding mask by (rule bit_word_eqI) (auto simp: bit_simps)
qed

text \<open>
  A process that halts gives the processor back to its parent: the parent's \<open>sys_execute\<close>
  returns the status byte (256 after an exception), in the frame it was called in, with the
  parent's page and kernel stack; the process no longer runs and none of its descriptors from 2
  on is open; in the scheduler's slot the parent takes its place.
\<close>

theorem halt_returns_to_parent:
  assumes "can_halt k q s" and "error_return_value s = 0" and "user_page va"
  shows "\<exists>u. sys_halt_wrapper env status s
      = Some (ParentReturns (if status = 256 then 256 else status AND 0xFF), u)
    \<and> current_process_pid u = of_nat q \<and> tss_esp0 u = kernel_stack_base (of_nat q)
    \<and> esp u = pcb_esp (PCB s ! k) \<and> ebp u = pcb_ebp (PCB s ! k)
    \<and> translate True u va = Some (process_frame (of_nat q) + (va AND 0x003FFFFF))
    \<and> running (PCB u ! k) = 0 \<and> (\<forall>i\<in>{2..<8}. \<not> is_present (file_array (PCB u ! k) ! i))
    \<and> (\<forall>j<6. j \<noteq> k \<longrightarrow> PCB u ! j = PCB s ! j)
    \<and> (3 \<le> k \<longrightarrow> multi_process_idx u = replace_first (of_nat k) (of_nat q) (multi_process_idx s))
    \<and> error_return_value u = 0"
proof -
  let ?s = "if status = 256 then s\<lparr>error_return_value := 256\<rparr> else s"
  have st: "status_ok ?s = status_ok s" by (simp add: status_ok_def)
  have "procs_ok ?s = procs_ok s" unfolding procs_ok_def st by simp
  then have h: "can_halt k q ?s"
    using assms(1) by (simp add: can_halt_def)
  have same: "PCB ?s = PCB s" "multi_process_idx ?s = multi_process_idx s" "page_directory ?s = page_directory s"
    by simp_all
  have tabs: "k < 6" "length (PCB s) = 6" "length (page_directory s) = 1024" "pcb_pid (PCB s ! q) = of_nat q"
    "length (file_array (PCB s ! k)) = 8"
  proof -
    show "k < 6" "length (PCB s) = 6" "length (page_directory s) = 1024"
      using assms(1) by (simp_all add: can_halt_def procs_ok_def)
    then have "PCB s ! k \<in> set (PCB s)" by simp
    then show "length (file_array (PCB s ! k)) = 8" using assms(1) by (auto simp: can_halt_def procs_ok_def pcb_ok_def)
    have "unat (pcb_pid (PCB s ! q)) = q" using assms(1) by (simp add: can_halt_def)
    then show "pcb_pid (PCB s ! q) = of_nat q" by (metis of_nat_unat ucast_id)
  qed
  obtain u where u: "sys_halt env (ucast status AND 0xFF) ?s
      = Some (ParentReturns (if error_return_value ?s = 256 then 256 else ucast (ucast status AND 0xFF :: u8)), u)" "halted k q ?s u"
    using sys_halt_run [OF h] by blast
  have zero: "ucast (256 :: u32) AND 0xFF = (0 :: u8)" by simp
  have "sys_halt_wrapper env status s = Some (ParentReturns (if status = 256 then 256 else status AND 0xFF), u)"
    using u(1) assms(2) by (cases "status = 256") (simp_all add: sys_halt_wrapper_def HALT_EXCEPTION_def status_byte)
  moreover have "translate True u va = Some (process_frame (of_nat q) + (va AND 0x003FFFFF))"
    using u(2) tabs(3,4) by (intro program_page [OF _ _ assms(3)]) (simp_all add: halted_def Let_def same)
  moreover obtain fs where "PCB u = (PCB s)[k := (PCB s ! k)\<lparr>running := 0, file_array := fs\<rparr>]"
    "\<forall>i\<in>{2..<8}. \<not> is_present (fs ! i)"
    using u(2) unfolding halted_def Let_def same by blast
  ultimately show ?thesis
    using u(2) tabs by (auto simp: halted_def Let_def same)
qed

section \<open>The running processes are three stacks\<close>

text \<open>A stack of processes, from the one that runs down to its root shell.\<close>

fun chain :: "PCB_BLOCK list \<Rightarrow> nat list \<Rightarrow> bool" where
  "chain pcbs [] \<longleftrightarrow> False"
| "chain pcbs (k # ks) \<longleftrightarrow> k < length pcbs \<and> running (pcbs ! k) \<noteq> 0 \<and> pcb_pid (pcbs ! k) = of_nat k
     \<and> label_ok (pcbs ! k)
     \<and> (if ks = [] then parent (pcbs ! k) = None else parent (pcbs ! k) = Some (hd ks) \<and> chain pcbs ks)"

text \<open>
  One stack for each of the scheduler's slots: its top is the slot's process, the stacks hold
  exactly the processes that run, and the scheduler knows their control blocks.
\<close>

definition process_stacks :: "nat list list \<Rightarrow> 'a kernel_state_scheme \<Rightarrow> bool" where
  "process_stacks st s \<longleftrightarrow> length st = 3 \<and> (\<forall>c\<in>set st. chain (PCB s) c) \<and> distinct (concat st)
     \<and> multi_process_idx s = map (\<lambda>c. of_nat (hd c)) st
     \<and> (\<forall>j<6. running (PCB s ! j) \<noteq> 0 \<longleftrightarrow> j \<in> set (concat st))
     \<and> (\<forall>j\<in>set (concat st). process_PCB (all_process s ! j) = Some j)"

lemma chain_less: "chain pcbs c \<Longrightarrow> k \<in> set c \<Longrightarrow> k < length pcbs"
  by (induction c) (auto split: if_splits)

lemma chain_hd: "chain pcbs c \<Longrightarrow> c \<noteq> []"
  by (cases c) auto

lemma chain_update: "k \<notin> set c \<Longrightarrow> chain (pcbs[k := p]) c = chain pcbs c"
  by (induction c) (auto simp: nth_list_update)

lemma chain_root: "chain pcbs (k # ks) \<Longrightarrow> root_of pcbs k = Some (last (k # ks))"
proof (induction ks arbitrary: k)
  case Nil
  then show ?case by (subst root_of.simps) simp
next
  case (Cons q ks)
  then show ?case by (subst root_of.simps) simp
qed

lemma concat_disjoint:
  "distinct (concat xs) \<Longrightarrow> i < length xs \<Longrightarrow> j < length xs \<Longrightarrow> i \<noteq> j \<Longrightarrow> set (xs ! i) \<inter> set (xs ! j) = {}"
proof (induction xs arbitrary: i j)
  case (Cons x xs)
  have "set x \<inter> set (xs ! k) = {}" if "k < length xs" for k
    using Cons.prems(1) that nth_mem [OF that] by fastforce
  with Cons show ?case by (cases i; cases j) auto
qed simp

lemma replace_first_nth:
  "distinct zs \<Longrightarrow> i < length zs \<Longrightarrow> zs ! i = x \<Longrightarrow> replace_first x y zs = zs[i := y]"
proof (induction zs arbitrary: i)
  case (Cons z zs)
  then show ?case by (cases i) (auto simp: nth_mem)
qed simp

lemma stack_tops:
  assumes "process_stacks st s" "length (PCB s) = 6"
  shows "distinct (multi_process_idx s)" "i < 3 \<Longrightarrow> multi_process_idx s ! i = of_nat (hd (st ! i))"
    "i < 3 \<Longrightarrow> k \<in> set (st ! i) \<Longrightarrow> k < 6"
proof -
  have st: "length st = 3" "\<forall>c\<in>set st. chain (PCB s) c" "distinct (concat st)"
    "multi_process_idx s = map (\<lambda>c. of_nat (hd c)) st"
    using assms(1) by (simp_all add: process_stacks_def)
  show less: "i < 3 \<Longrightarrow> k \<in> set (st ! i) \<Longrightarrow> k < 6" for i k
    using st(1,2) assms(2) chain_less [of "PCB s" "st ! i" k] by auto
  show top: "i < 3 \<Longrightarrow> multi_process_idx s ! i = of_nat (hd (st ! i))" for i using st by simp
  have "multi_process_idx s ! i \<noteq> multi_process_idx s ! j" if "i < 3" "j < 3" "i \<noteq> j" for i j
  proof -
    have mem: "hd (st ! i) \<in> set (st ! i)" "hd (st ! j) \<in> set (st ! j)"
      using st that chain_hd [of "PCB s" "st ! i"] chain_hd [of "PCB s" "st ! j"] by simp_all
    then have "hd (st ! i) \<noteq> hd (st ! j)"
      using st that concat_disjoint [of st i j] by auto
    moreover have "hd (st ! i) < 6" "hd (st ! j) < 6" using mem less that by blast+
    ultimately show ?thesis using top that by (simp add: word_unat_eq_iff unat_of_nat)
  qed
  then show "distinct (multi_process_idx s)" using st by (auto simp: distinct_conv_nth)
qed

lemma three_lists: "length xs = 3 \<Longrightarrow> \<exists>a b c. xs = [a, b, c]"
  by (auto simp: numeral_3_eq_3 length_Suc_conv)

lemma stack_update:
  assumes "length st = 3" "i < 3"
  shows "set (concat (st[i := x # c])) = insert x (set (concat (st[i := c])))"
    "distinct (concat (st[i := x # c])) \<longleftrightarrow> x \<notin> set (concat (st[i := c])) \<and> distinct (concat (st[i := c]))"
proof -
  obtain a b d where st: "st = [a, b, d]" using three_lists [OF assms(1)] by blast
  have "i = 0 \<or> i = 1 \<or> i = 2" using assms(2) by linarith
  then show "set (concat (st[i := x # c])) = insert x (set (concat (st[i := c])))"
    "distinct (concat (st[i := x # c])) \<longleftrightarrow> x \<notin> set (concat (st[i := c])) \<and> distinct (concat (st[i := c]))"
    by (auto simp: st)
qed

lemma stacks_push:
  assumes st: "process_stacks st s" and len: "length (PCB s) = 6" "length (all_process s) = 6"
    and i: "i < 3" and idx: "idx < 6" "running (PCB s ! idx) = 0"
    and p: "PCB u = (PCB s)[idx := p]" "running p \<noteq> 0" "pcb_pid p = of_nat idx" "label_ok p" "parent p = Some (hd (st ! i))"
    and m: "multi_process_idx u = (multi_process_idx s)[i := of_nat idx]"
    and a: "all_process u = (all_process s)[idx := r]" "process_PCB r = Some idx"
  shows "process_stacks (st[i := idx # st ! i]) u"
proof -
  note d = st [unfolded process_stacks_def]
  have new: "idx \<notin> set (concat st)" using d idx by blast
  have same: "st[i := st ! i] = st" by (rule list_update_id)
  note up = stack_update [of st i idx "st ! i", unfolded same]
  have top: "chain (PCB s) (st ! i)" "idx \<notin> set (st ! i)" using d i new by (auto simp: nth_mem)
  have "chain (PCB u) (idx # st ! i)"
    using top p idx len chain_hd [OF top(1)] by (simp add: chain_update)
  moreover have "chain (PCB u) c" if "c \<in> set st" for c
    using that d new p(1) by (auto simp: chain_update)
  ultimately have "\<forall>c\<in>set (st[i := idx # st ! i]). chain (PCB u) c"
    using set_update_subset_insert [of st i "idx # st ! i"] by auto
  moreover have "multi_process_idx u = map (\<lambda>c. of_nat (hd c)) (st[i := idx # st ! i])"
    using d m by (simp add: map_update)
  moreover have "\<forall>j<6. running (PCB u ! j) \<noteq> 0 \<longleftrightarrow> j \<in> set (concat (st[i := idx # st ! i]))"
    using d p idx len up(1) i by (auto simp: nth_list_update simp del: set_concat)
  moreover have "\<forall>j\<in>set (concat (st[i := idx # st ! i])). process_PCB (all_process u ! j) = Some j"
    using d a idx len up(1) i by (auto simp: nth_list_update simp del: set_concat)
  moreover have "distinct (concat (st[i := idx # st ! i]))" using d up(2) new i by blast
  ultimately show ?thesis using d unfolding process_stacks_def by (simp del: set_concat)
qed

lemma stacks_pop:
  assumes st: "process_stacks st s" and len: "length (PCB s) = 6"
    and i: "i < 3" and c: "st ! i = k # q # r"
    and p: "PCB u = (PCB s)[k := p]" "running p = 0"
    and m: "multi_process_idx u = (multi_process_idx s)[i := of_nat q]" and a: "all_process u = all_process s"
  shows "process_stacks (st[i := q # r]) u"
proof -
  note d = st [unfolded process_stacks_def]
  have same: "st[i := k # q # r] = st" using c by (metis list_update_id)
  note up = stack_update [of st i k "q # r", unfolded same]
  have k: "k \<notin> set (concat (st[i := q # r]))" "set (concat st) = insert k (set (concat (st[i := q # r])))"
    "distinct (concat (st[i := q # r]))" "k < 6"
    using d up i stack_tops(3) [OF st len i] c by auto
  have "chain (PCB s) (k # q # r)" using d i c nth_mem [of i st] by metis
  then have "chain (PCB s) (q # r)" by simp
  then have "\<forall>c\<in>set (st[i := q # r]). chain (PCB s) c"
    using d set_update_subset_insert [of st i "q # r"] by auto
  then have "\<forall>c\<in>set (st[i := q # r]). chain (PCB u) c"
    using k(1) p(1) by (auto simp: chain_update)
  moreover have "multi_process_idx u = map (\<lambda>c. of_nat (hd c)) (st[i := q # r])"
    using d m by (simp add: map_update)
  moreover have "\<forall>j<6. running (PCB u ! j) \<noteq> 0 \<longleftrightarrow> j \<in> set (concat (st[i := q # r]))"
    using d p k len by (auto simp: nth_list_update simp del: set_concat)
  moreover have "\<forall>j\<in>set (concat (st[i := q # r])). process_PCB (all_process u ! j) = Some j"
    using d a k(2) by (simp del: set_concat)
  ultimately show ?thesis using d k(3) unfolding process_stacks_def by (simp del: set_concat)
qed

lemma set_update_all: "\<forall>x\<in>set xs. P x \<Longrightarrow> P y \<Longrightarrow> \<forall>x\<in>set (xs[k := y]). P x"
  using set_update_subset_insert [of xs k y] by blast

lemma started_procs:
  assumes "procs_ok s" "started env idx q root p s u" "idx < 6" "pcb_ok p" "label_ok p"
  shows "procs_ok u"
proof -
  have pid: "(of_nat idx :: u8) < 6"
    using assms(3) by (simp add: unat_of_nat word_less_nat_alt)
  have s: "length (PCB s) = 6" "\<forall>p\<in>set (PCB s). pcb_ok p" "length (all_process s) = 6"
    "length (page_directory s) = 1024" "status_ok s"
    using assms(1) by (simp_all add: procs_ok_def)
  have ok: "pcb_ok (p\<lparr>pcb_esp := x, pcb_ebp := y\<rparr>)" for x y using assms(4) by (simp add: pcb_ok_def)
  have "status_ok u" by (rule started_status [OF assms(2) s(5,1) assms(3,5)])
  moreover have "\<forall>p\<in>set (PCB u). pcb_ok p"
    using assms(2) set_update_all [OF s(2) ok] by (simp add: started_def)
  ultimately show ?thesis
    using assms(2) s pid by (simp add: procs_ok_def started_def)
qed

text \<open>The slot of a started process, which is on top of its parent's stack.\<close>

lemma started_slot:
  assumes st: "process_stacks st s" and procs: "procs_ok s" and i: "i < 3" and idx: "3 \<le> idx"
    and start: "started env idx (hd (st ! i)) root p s u"
  shows "multi_process_idx u = (multi_process_idx s)[i := of_nat idx]"
proof -
  have len: "length (PCB s) = 6" "length (multi_process_idx s) = 3" using procs st by (simp_all add: procs_ok_def process_stacks_def)
  note tops = stack_tops [OF st len(1)]
  have c: "chain (PCB s) (st ! i)" using st i by (simp add: process_stacks_def)
  then have "pcb_pid (PCB s ! hd (st ! i)) = of_nat (hd (st ! i))" by (cases "st ! i") auto
  then show ?thesis
    using start idx replace_first_nth [OF tops(1), of i "of_nat (hd (st ! i))" "of_nat idx"] tops(2) [OF i] len(2) i
    by (simp add: started_def)
qed

lemma started_pushes:
  assumes st: "process_stacks st s" and procs: "procs_ok s" and i: "i < 3" and idx: "3 \<le> idx" "idx < 6" "running (PCB s ! idx) = 0"
    and start: "started env idx (hd (st ! i)) root p s u"
    and p: "running p \<noteq> 0" "pcb_pid p = of_nat idx" "parent p = Some (hd (st ! i))" "pcb_ok p" "label_ok p"
  shows "process_stacks (st[i := idx # st ! i]) u" "procs_ok u" "multi_process_idx u = (multi_process_idx s)[i := of_nat idx]"
proof -
  have len: "length (PCB s) = 6" "length (all_process s) = 6"
    using procs by (simp_all add: procs_ok_def)
  show multi: "multi_process_idx u = (multi_process_idx s)[i := of_nat idx]" by (rule started_slot [OF st procs i idx(1) start])
  show "procs_ok u" by (rule started_procs [OF procs start idx(2) p(4,5)])
  show "process_stacks (st[i := idx # st ! i]) u"
    by (rule stacks_push [OF st len(1,2) i idx(2,3), of u "p\<lparr>pcb_esp := esp s, pcb_ebp := ebp s\<rparr>"
      "(junk_process env)\<lparr>process_PCB := Some idx, active_terminal_idx := pcb_pid (PCB s ! root)\<rparr>"])
      (use start multi p idx(1) in \<open>simp_all add: started_def\<close>)
qed

text \<open>A process that stopped is off its stack, and its parent on top of it.\<close>

lemma popped:
  assumes st: "process_stacks st s" and procs: "procs_ok s" and i: "i < 3" and c: "st ! i = k # q # r" and child: "3 \<le> k"
    and u: "PCB u = (PCB s)[k := (PCB s ! k)\<lparr>running := 0, file_array := fs\<rparr>]" "length fs = 8"
    and cur: "current_process_pid u = pcb_pid (PCB s ! q)"
    and multi: "multi_process_idx u = replace_first (of_nat k) (pcb_pid (PCB s ! q)) (multi_process_idx s)"
    and same: "all_process u = all_process s" "length (page_directory u) = length (page_directory s)"
  shows "process_stacks (st[i := q # r]) u" "procs_ok u" "current_process_pid u = of_nat q"
    "multi_process_idx u = (multi_process_idx s)[i := of_nat q]"
proof -
  have s: "length (PCB s) = 6" "\<forall>p\<in>set (PCB s). pcb_ok p" "status_ok s" "length (multi_process_idx s) = 3"
    using procs st by (simp_all add: procs_ok_def process_stacks_def)
  note tops = stack_tops [OF st s(1)]
  have less: "k < 6" "q < 6" using tops(3) [OF i] c by simp_all
  have "chain (PCB s) (k # q # r)" using st i c nth_mem [of i st] by (metis process_stacks_def)
  then have q: "pcb_pid (PCB s ! q) = of_nat q" "label_ok (PCB s ! q)" by (simp_all split: if_splits)
  show m: "multi_process_idx u = (multi_process_idx s)[i := of_nat q]"
    using multi replace_first_nth [OF tops(1), of i "of_nat k" "of_nat q"] tops(2) [OF i] s(4) i c by (simp add: q(1))
  show "process_stacks (st[i := q # r]) u" by (rule stacks_pop [OF st s(1) i c u(1) _ m same(1)]) simp
  show pid_q: "current_process_pid u = of_nat q" using cur q(1) by simp
  have pid: "unat (of_nat q :: u8) = q" using less(2) by (simp add: unat_of_nat)
  have "PCB s ! k \<in> set (PCB s)" using s(1) less(1) by simp
  then have ok: "pcb_ok ((PCB s ! k)\<lparr>running := 0, file_array := fs\<rparr>)" using s(2) u(2) by (simp add: pcb_ok_def)
  have "status_ok u"
    unfolding status_ok_set
  proof (intro conjI ballI)
    show "length (multi_process_idx u) = 3" using m s(4) by simp
    fix x assume "x \<in> set (multi_process_idx u)"
    then have "x = of_nat q \<or> x \<in> set (multi_process_idx s)"
      using m set_update_subset_insert [of "multi_process_idx s" i "of_nat q"] by auto
    then show "unat x < length (PCB u)" "label_ok (PCB u ! unat x)"
      using s q(2) pid less by (auto simp: u(1) status_ok_set nth_list_update)
  qed
  moreover have "\<forall>p\<in>set (PCB u). pcb_ok p" unfolding u(1) by (rule set_update_all [OF s(2) ok])
  moreover have "current_process_pid u < 6" using pid less(2) by (simp add: pid_q word_less_nat_alt)
  ultimately show "procs_ok u" using procs same u(1) by (simp add: procs_ok_def)
qed

text \<open>Executing pushes the new process on the stack of the slot, halting pops it.\<close>

lemma execute_pushes_run:
  assumes st: "process_stacks st s" and i: "i < 3" and cur: "current_process_pid s = multi_process_idx s ! i"
    and ex: "can_execute env cs e idx (last (st ! i)) s" and child: "3 \<le> idx"
  shows "\<exists>u. sys_execute env (cs @ 0 # r) s
      = Some (EnterUser (entry_point (file_contents s (inode_num e))) 0x08400000, u)
    \<and> started env idx (hd (st ! i)) (last (st ! i))
        (new_PCB idx (hd (st ! i)) (first_word cs) (other_words cs) (PCB s ! idx)) (sti s) u
    \<and> process_stacks (st[i := idx # st ! i]) u \<and> procs_ok u \<and> multi_process_idx u = (multi_process_idx s)[i := of_nat idx]"
proof -
  note h = ex [unfolded can_execute_def]
  have procs: "procs_ok s" and free: "first_free s = Some idx" using h by blast+
  have len: "length (PCB s) = 6" using procs by (simp add: procs_ok_def)
  have idx: "idx < 6" "running (PCB s ! idx) = 0" using first_free_less [OF free] by simp_all
  note tops = stack_tops [OF st len]
  have c: "chain (PCB s) (st ! i)" using st i by (simp add: process_stacks_def)
  let ?q = "hd (st ! i)"
  have "?q < 6" using tops(3) [OF i] chain_hd [OF c] by simp
  then have q: "unat (current_process_pid s) = ?q" using tops(2) [OF i] cur by (simp add: unat_of_nat)
  let ?p = "new_PCB idx ?q (first_word cs) (other_words cs) (PCB s ! idx)"
  obtain u where u: "sys_execute env (cs @ 0 # r) s
      = Some (EnterUser (entry_point (file_contents s (inode_num e))) 0x08400000, u)"
    "started env idx ?q (last (st ! i)) ?p (sti s) u"
    using execute_run [OF ex, of r] by (auto simp: q)
  have words: "0 \<notin> set (first_word cs)" "0 \<notin> set (other_words cs)" using h words_no_zero by blast+
  have "PCB s ! idx \<in> set (PCB s)" using idx len by simp
  then have pok: "pcb_ok ?p" using procs h by (intro new_PCB_ok) (auto simp: procs_ok_def)
  have lab: "label_ok ?p" using words h by (intro new_PCB_label) simp_all
  have st': "status_ok (sti s) = status_ok s" by (simp add: status_ok_def sti_def)
  have "process_stacks st (sti s)" "procs_ok (sti s)"
    using st procs unfolding procs_ok_def st' by (simp_all add: process_stacks_def sti_def)
  from started_pushes [OF this i child idx(1) _ u(2) _ _ _ pok lab] idx(2) child
  show ?thesis using u by (simp add: new_PCB_def sti_def)
qed

lemma stacks_can_halt:
  assumes st: "process_stacks st s" and procs: "procs_ok s" and i: "i < 3" and c: "st ! i = k # q # r"
    and cur: "current_process_pid s = multi_process_idx s ! i"
    and cl: "\<forall>j\<in>{2..<8}. closable (file_array (PCB s ! k) ! j)"
  shows "can_halt k q s" "pcb_pid (PCB s ! q) = of_nat q"
proof -
  have len: "length (PCB s) = 6" using procs by (simp add: procs_ok_def)
  note tops = stack_tops [OF st len]
  have ch: "chain (PCB s) (k # q # r)" using st i c nth_mem [of i st] by (metis process_stacks_def)
  have less: "k < 6" "q < 6" using tops(3) [OF i] c by simp_all
  have "distinct (st ! i)" using st i by (auto simp: process_stacks_def distinct_concat_iff)
  then have "q \<noteq> k" using c by auto
  moreover show pid: "pcb_pid (PCB s ! q) = of_nat q" using ch by (simp split: if_splits)
  ultimately show "can_halt k q s"
    using ch less procs cl cur tops(2) [OF i] c by (simp add: can_halt_def unat_of_nat split: if_splits)
qed

lemma halt_pops_run:
  assumes st: "process_stacks st s" and procs: "procs_ok s" and i: "i < 3" and c: "st ! i = k # q # r"
    and cur: "current_process_pid s = multi_process_idx s ! i" and child: "3 \<le> k"
    and cl: "\<forall>j\<in>{2..<8}. closable (file_array (PCB s ! k) ! j)"
  shows "\<exists>u. sys_halt env status s = Some (ParentReturns (if error_return_value s = 256 then 256 else ucast status), u)
    \<and> halted k q s u \<and> process_stacks (st[i := q # r]) u \<and> procs_ok u
    \<and> current_process_pid u = of_nat q \<and> multi_process_idx u = (multi_process_idx s)[i := of_nat q]"
proof -
  note h = stacks_can_halt [OF st procs i c cur cl]
  obtain u where u: "sys_halt env status s = Some (ParentReturns (if error_return_value s = 256 then 256 else ucast status), u)"
    "halted k q s u" using sys_halt_run [OF h(1)] by blast
  have "k < 6" "length (PCB s) = 6" using h(1) by (simp_all add: can_halt_def procs_ok_def)
  then have "PCB s ! k \<in> set (PCB s)" by simp
  then have f8: "length (file_array (PCB s ! k)) = 8" using procs by (simp add: procs_ok_def pcb_ok_def)
  obtain fs where fs: "PCB u = (PCB s)[k := (PCB s ! k)\<lparr>running := 0, file_array := fs\<rparr>]" "length fs = 8"
    using u(2) f8 unfolding halted_def Let_def by auto
  have "current_process_pid u = pcb_pid (PCB s ! q)" "all_process u = all_process s"
    "multi_process_idx u = replace_first (of_nat k) (pcb_pid (PCB s ! q)) (multi_process_idx s)"
    "length (page_directory u) = length (page_directory s)"
    using u(2) child by (simp_all add: halted_def Let_def)
  from popped [OF st procs i c child fs this(1,3,2,4)] u show ?thesis by blast
qed

text \<open>
  Executing a program pushes the new process on the stack of its terminal, halting it pops
  it: the running processes always form three disjoint stacks, of which the scheduler's slots
  have the tops, and the tables stay well-formed.
\<close>

theorem execute_pushes:
  assumes "process_stacks st s" and "i < 3" and "current_process_pid s = multi_process_idx s ! i"
    and "can_execute env cs e idx (last (st ! i)) s" and "3 \<le> idx"
  shows "\<exists>u entry. sys_execute env (cs @ 0 # r) s = Some (EnterUser entry 0x08400000, u)
    \<and> process_stacks (st[i := idx # st ! i]) u \<and> procs_ok u
    \<and> current_process_pid u = multi_process_idx u ! i"
proof -
  obtain u where u: "sys_execute env (cs @ 0 # r) s
      = Some (EnterUser (entry_point (file_contents s (inode_num e))) 0x08400000, u)"
    "process_stacks (st[i := idx # st ! i]) u" "procs_ok u" "multi_process_idx u = (multi_process_idx s)[i := of_nat idx]"
    "current_process_pid u = of_nat idx"
    using execute_pushes_run [OF assms, of r] by (auto simp: started_def)
  moreover have "length (multi_process_idx s) = 3" using assms(1) by (simp add: process_stacks_def)
  ultimately show ?thesis using assms(2) by (intro exI [of _ u] exI) (rule conjI, assumption, simp)
qed

text \<open>
  Halting a process that is not a root shell pops it from the stack of its terminal: its
  parent becomes the top and runs again with the halted process's status, the other stacks are
  untouched, and the tables stay well-formed.
\<close>

theorem halt_pops:
  assumes "process_stacks st s" and "procs_ok s" and "i < 3" and "st ! i = k # q # r"
    and "current_process_pid s = multi_process_idx s ! i" and "3 \<le> k"
    and "\<forall>j\<in>{2..<8}. closable (file_array (PCB s ! k) ! j)"
  shows "\<exists>u. sys_halt env status s = Some (ParentReturns (if error_return_value s = 256 then 256 else ucast status), u)
    \<and> process_stacks (st[i := q # r]) u \<and> procs_ok u
    \<and> current_process_pid u = multi_process_idx u ! i"
proof -
  have "length (multi_process_idx s) = 3" using assms(1) by (simp add: process_stacks_def)
  then show ?thesis using halt_pops_run [OF assms, of env status] assms(3) by auto
qed

section \<open>Executing, then halting\<close>

text \<open>What a program does to its own descriptors does not matter for the stacks.\<close>

lemma chain_cong:
  assumes "length b = length a" "\<And>j. running (b ! j) = running (a ! j) \<and> pcb_pid (b ! j) = pcb_pid (a ! j)
    \<and> label_ok (b ! j) = label_ok (a ! j) \<and> parent (b ! j) = parent (a ! j)"
  shows "chain b c = chain a c"
  by (induction c) (simp_all add: assms)

definition only_fds_changed :: "nat \<Rightarrow> file_array_t list \<Rightarrow> 'a kernel_state_scheme \<Rightarrow> 'a kernel_state_scheme \<Rightarrow> bool" where
  "only_fds_changed k fs s t \<longleftrightarrow> PCB t = (PCB s)[k := (PCB s ! k)\<lparr>file_array := fs\<rparr>]
     \<and> multi_process_idx t = multi_process_idx s \<and> all_process t = all_process s
     \<and> page_directory t = page_directory s \<and> current_process_pid t = current_process_pid s"

lemma only_fds_changed_stacks:
  assumes ch: "only_fds_changed k fs s t" and "process_stacks st s" "procs_ok s" "length fs = 8" "k < 6"
  shows "process_stacks st t" "procs_ok t" "\<And>j. parent (PCB t ! j) = parent (PCB s ! j)"
    "\<And>j. pcb_esp (PCB t ! j) = pcb_esp (PCB s ! j)" "\<And>j. pcb_ebp (PCB t ! j) = pcb_ebp (PCB s ! j)"
    "file_array (PCB t ! k) = fs"
proof -
  note c = ch [unfolded only_fds_changed_def]
  have len: "length (PCB s) = 6" using assms(3) by (simp add: procs_ok_def)
  have same: "running (PCB t ! j) = running (PCB s ! j) \<and> pcb_pid (PCB t ! j) = pcb_pid (PCB s ! j)
    \<and> label_ok (PCB t ! j) = label_ok (PCB s ! j) \<and> parent (PCB t ! j) = parent (PCB s ! j)
    \<and> pcb_esp (PCB t ! j) = pcb_esp (PCB s ! j) \<and> pcb_ebp (PCB t ! j) = pcb_ebp (PCB s ! j)" for j
    using c len assms(5) by (cases "j = k") simp_all
  have "chain (PCB t) d = chain (PCB s) d" for d
    using same c by (intro chain_cong) simp_all
  then show "process_stacks st t"
    using assms(2) same c by (simp add: process_stacks_def)
  have "PCB s ! k \<in> set (PCB s)" using len assms(5) by simp
  then have "pcb_ok (PCB s ! k)" using assms(3) by (simp add: procs_ok_def)
  then have new: "pcb_ok ((PCB s ! k)\<lparr>file_array := fs\<rparr>)" using assms(4) by (simp add: pcb_ok_def)
  have all: "\<forall>p\<in>set (PCB s). pcb_ok p" using assms(3) by (simp add: procs_ok_def)
  have "\<forall>p\<in>set (PCB t). pcb_ok p"
    unfolding c [THEN conjunct1] by (rule set_update_all [OF all new])
  moreover have "status_ok t"
  proof -
    have "length (PCB t) = length (PCB s)" "multi_process_idx t = multi_process_idx s" using c by simp_all
    moreover have "status_ok s" using assms(3) by (simp add: procs_ok_def)
    ultimately show ?thesis using same unfolding status_ok_set by metis
  qed
  ultimately show "procs_ok t" using assms(3) c by (simp add: procs_ok_def)
  show "file_array (PCB t ! k) = fs" using c len assms(5) by simp
  show "parent (PCB t ! j) = parent (PCB s ! j)" "pcb_esp (PCB t ! j) = pcb_esp (PCB s ! j)"
    "pcb_ebp (PCB t ! j) = pcb_ebp (PCB s ! j)" for j using same by simp_all
qed

lemma halt_after_execute:
  assumes st: "process_stacks st s" and i: "i < 3" and cur: "current_process_pid s = multi_process_idx s ! i"
    and ex: "can_execute env cs e idx (last (st ! i)) s" and child: "3 \<le> idx"
    and start: "started env idx (hd (st ! i)) (last (st ! i))
        (new_PCB idx (hd (st ! i)) (first_word cs) (other_words cs) (PCB s ! idx)) (sti s) u"
    and up: "process_stacks (st[i := idx # st ! i]) u" "procs_ok u"
    and w: "only_fds_changed idx fs u w" and fs: "length fs = 8" "\<forall>f\<in>set fs. closable f"
  shows "\<exists>v. sys_halt env status w = Some (ParentReturns (if error_return_value w = 256 then 256 else ucast status), v)
    \<and> esp v = esp s \<and> ebp v = ebp s \<and> current_process_pid v = current_process_pid s
    \<and> page_directory v = (page_directory s)[32 := process_frame (current_process_pid s) OR 0x87]
    \<and> tss_esp0 v = kernel_stack_base (current_process_pid s)
    \<and> multi_process_idx v = multi_process_idx s
    \<and> (\<forall>j<6. j \<noteq> idx \<longrightarrow> PCB v ! j = PCB s ! j) \<and> running (PCB v ! idx) = 0
    \<and> process_stacks st v"
proof -
  have procs: "procs_ok s" and free: "first_free s = Some idx" using ex by (simp_all add: can_execute_def)
  have idx: "idx < 6" using first_free_less [OF free] by simp
  have len: "length (PCB s) = 6" "length (multi_process_idx s) = 3" "length st = 3"
    using procs st by (simp_all add: procs_ok_def process_stacks_def)
  note tops = stack_tops [OF st len(1)]
  have "chain (PCB s) (st ! i)" using st i by (simp add: process_stacks_def)
  then obtain q r where qr: "st ! i = q # r" by (cases "st ! i") auto
  have q: "current_process_pid s = of_nat q" using tops(2) [OF i] cur qr by simp
  let ?st = "st[i := idx # q # r]"
  note c = w [unfolded only_fds_changed_def]
  note wst = only_fds_changed_stacks [OF w up fs(1) idx, unfolded qr]
  have top: "?st ! i = idx # q # r" using i len(3) by simp
  have pcb: "PCB u = (PCB s)[idx := (new_PCB idx q (first_word cs) (other_words cs) (PCB s ! idx))\<lparr>pcb_esp := esp s, pcb_ebp := ebp s\<rparr>]"
    and fields: "current_process_pid u = of_nat idx" "page_directory u = (page_directory s)[32 := process_frame (of_nat idx) OR 0x87]"
    and multi: "multi_process_idx u = replace_first (pcb_pid (PCB s ! q)) (of_nat idx) (multi_process_idx s)"
    using start child by (simp_all add: started_def sti_def qr)
  have multi_w: "multi_process_idx w = map (\<lambda>c. of_nat (hd c)) ?st" using wst(1) by (simp add: process_stacks_def)
  have cur_w: "current_process_pid w = multi_process_idx w ! i"
    using multi_w c fields i len(3) by (simp add: map_update)
  have cl: "\<forall>j\<in>{2..<8}. closable (file_array (PCB w ! idx) ! j)"
    using fs wst(6) by (simp add: all_set_conv_all_nth)
  obtain v where v: "sys_halt env status w = Some (ParentReturns (if error_return_value w = 256 then 256 else ucast status), v)"
    "halted idx q w v" "process_stacks (?st[i := q # r]) v" "current_process_pid v = of_nat q"
    "multi_process_idx v = (multi_process_idx w)[i := of_nat q]"
    using halt_pops_run [OF wst(1,2) i top cur_w child cl, of env status] by blast
  have restored: "?st[i := q # r] = st" using qr by (metis list_update_id list_update_overwrite)
  have pid: "pcb_pid (PCB w ! q) = of_nat q" using stacks_can_halt(2) [OF wst(1,2) i top cur_w cl] .
  have saved: "pcb_esp (PCB w ! idx) = esp s" "pcb_ebp (PCB w ! idx) = ebp s"
    using wst(4,5) pcb idx len by simp_all
  obtain fs' where fs': "PCB v = (PCB w)[idx := (PCB w ! idx)\<lparr>running := 0, file_array := fs'\<rparr>]"
    using v(2) unfolding halted_def Let_def by blast
  have "multi_process_idx v = multi_process_idx s"
    using v(3) st unfolding restored by (simp add: process_stacks_def)
  moreover have "PCB v ! j = PCB s ! j" if "j < 6" "j \<noteq> idx" for j
    using that fs' c pcb len by simp
  moreover have "running (PCB v ! idx) = 0" using fs' c pcb len idx by simp
  moreover have "page_directory v = (page_directory s)[32 := process_frame (of_nat q) OR 0x87]"
    "tss_esp0 v = kernel_stack_base (of_nat q)" "esp v = esp s" "ebp v = ebp s"
    using v(2) pid saved c fields by (simp_all add: halted_def Let_def)
  ultimately show ?thesis using v(1,3,4) q restored by auto
qed

text \<open>
  C6. A program that is executed and, after whatever it does to memory, the registers and its own
  descriptors, halts with a status, leaves its caller where it was: \<open>sys_execute\<close> returns the
  status with the caller's registers, process, page, kernel stack and slot; every other control
  block is as before and the program's own is free again.
\<close>

theorem execute_then_halt:
  assumes "process_stacks st s" and "i < 3" and "current_process_pid s = multi_process_idx s ! i"
    and "can_execute env cs e idx (last (st ! i)) s" and "3 \<le> idx"
    and "error_return_value s = 0" and "length fs = 8" and "\<forall>f\<in>set fs. closable f"
  shows "\<exists>u v entry. sys_execute env (cs @ 0 # r) s = Some (EnterUser entry 0x08400000, u)
    \<and> sys_halt_wrapper env status (u\<lparr>mem := m, esp := x, ebp := y,
          PCB := (PCB u)[idx := (PCB u ! idx)\<lparr>file_array := fs\<rparr>]\<rparr>)
        = Some (ParentReturns (if status = 256 then 256 else status AND 0xFF), v)
    \<and> esp v = esp s \<and> ebp v = ebp s \<and> current_process_pid v = current_process_pid s
    \<and> page_directory v = (page_directory s)[32 := process_frame (current_process_pid s) OR 0x87]
    \<and> tss_esp0 v = kernel_stack_base (current_process_pid s)
    \<and> multi_process_idx v = multi_process_idx s
    \<and> (\<forall>j<6. j \<noteq> idx \<longrightarrow> PCB v ! j = PCB s ! j) \<and> running (PCB v ! idx) = 0
    \<and> process_stacks st v"
proof -
  obtain u where u: "sys_execute env (cs @ 0 # r) s
      = Some (EnterUser (entry_point (file_contents s (inode_num e))) 0x08400000, u)"
    and start: "started env idx (hd (st ! i)) (last (st ! i))
      (new_PCB idx (hd (st ! i)) (first_word cs) (other_words cs) (PCB s ! idx)) (sti s) u"
    and up: "process_stacks (st[i := idx # st ! i]) u" "procs_ok u"
    using execute_pushes_run [OF assms(1-5), of r] by blast
  have err: "error_return_value u = 0" using start assms(6) by (simp add: started_def sti_def)
  let ?w = "u\<lparr>mem := m, esp := x, ebp := y, PCB := (PCB u)[idx := (PCB u ! idx)\<lparr>file_array := fs\<rparr>]\<rparr>"
  have w: "only_fds_changed idx fs u ?w" "only_fds_changed idx fs u (?w\<lparr>error_return_value := 256\<rparr>)"
    by (simp_all add: only_fds_changed_def)
  note run = halt_after_execute [OF assms(1-5) start up _ assms(7,8)]
  show ?thesis
  proof (cases "status = 256")
    case True
    then have "sys_halt_wrapper env status ?w = sys_halt env 0 (?w\<lparr>error_return_value := 256\<rparr>)"
      by (simp add: sys_halt_wrapper_def HALT_EXCEPTION_def)
    with run [OF w(2), of 0] u True show ?thesis by auto
  next
    case False
    then have "sys_halt_wrapper env status ?w = sys_halt env (ucast status AND 0xFF) ?w"
      by (simp add: sys_halt_wrapper_def HALT_EXCEPTION_def)
    with run [OF w(1), of "ucast status AND 0xFF"] u False err show ?thesis
      by (auto simp: status_byte)
  qed
qed

section \<open>Witnesses\<close>

lemma exec_stacks: "process_stacks [[0], [1], [2]] exec_kernel"
  unfolding process_stacks_def
  by (auto simp: less_Suc_eq exec_kernel_def tiny_kernel_def shell_label)
    (auto simp: shell_pcb_def tiny_pcb_def numeral_eq_Suc less_Suc_eq)

text \<open>The same kernel with process 3 above the first shell.\<close>

definition child_pcb :: PCB_BLOCK where
  "child_pcb = (tiny_pcb 1)\<lparr>pcb_pid := 3, parent := Some 0, pcb_esp := 0x7FFF00, pcb_ebp := 0x7FFF40\<rparr>"

definition child_kernel :: "unit kernel_state_scheme" where
  "child_kernel = exec_kernel\<lparr>PCB := (PCB exec_kernel)[3 := child_pcb], current_process_pid := 3, multi_process_idx := [3, 1, 2]\<rparr>"

lemma child_pcb_ok: "pcb_ok child_pcb" "label_ok child_pcb" "pcb_ok (shell_pcb pid)" "pcb_ok (tiny_pcb r)"
proof -
  have "label_ok child_pcb = label_ok (tiny_pcb 1)"
    by (simp add: label_ok_def process_label_def child_pcb_def cong: if_cong)
  then show "label_ok child_pcb" by (simp add: shell_label)
qed (simp_all add: pcb_ok_def child_pcb_def shell_pcb_def tiny_pcb_def)

lemma child_tables: "PCB child_kernel = [shell_pcb 0, shell_pcb 1, shell_pcb 2, child_pcb, tiny_pcb 0, tiny_pcb 0]"
  "current_process_pid child_kernel = 3" "multi_process_idx child_kernel = [3, 1, 2]"
  "length (all_process child_kernel) = 6" "length (page_directory child_kernel) = 1024" "error_return_value child_kernel = 0"
  by (simp_all add: child_kernel_def exec_kernel_def tiny_kernel_def)

lemma child_stacks: "process_stacks [[3, 0], [1], [2]] child_kernel"
  unfolding process_stacks_def
  by (auto simp: less_Suc_eq child_tables shell_label child_pcb_ok)
    (auto simp: child_kernel_def exec_kernel_def child_pcb_def shell_pcb_def tiny_pcb_def numeral_eq_Suc less_Suc_eq)

lemma child_procs: "procs_ok child_kernel"
  by (simp add: procs_ok_def status_ok_set child_tables child_pcb_ok shell_label)

lemma child_closable: "\<forall>j\<in>{2..<8}. closable (file_array (PCB child_kernel ! 3) ! j)"
proof
  fix j :: nat assume "j \<in> {2..<8}"
  then have "j = 2 \<or> j = 3 \<or> j = 4 \<or> j = 5 \<or> j = 6 \<or> j = 7" by auto
  then show "closable (file_array (PCB child_kernel ! 3) ! j)"
    by (auto simp: child_tables child_pcb_def tiny_pcb_def closable_def fd_of_def is_present_def kernel_consts)
qed

theorem halt_returns_to_parent_witness:
  "\<exists>u. sys_halt_wrapper tiny_env 0x105 child_kernel = Some (ParentReturns 5, u) \<and> current_process_pid u = 0
    \<and> esp u = 0x7FFF00 \<and> running (PCB u ! 3) = 0"
proof -
  have "can_halt 3 0 child_kernel"
    by (rule stacks_can_halt(1) [OF child_stacks child_procs, of 0 3 0 "[]"])
      (use child_closable in \<open>simp_all add: child_tables\<close>)
  from halt_returns_to_parent [OF this child_tables(6), of "0x08048000" tiny_env "0x105"] show ?thesis
    by (auto simp: user_page_def child_tables child_pcb_def)
qed

theorem halt_pops_witness:
  "\<exists>u. sys_halt tiny_env 7 child_kernel = Some (ParentReturns 7, u) \<and> process_stacks [[0], [1], [2]] u"
  using halt_pops [OF child_stacks child_procs, of 0 3 0 "[]" tiny_env 7] child_closable
  by (auto simp: child_tables)

lemma exec_cur: "current_process_pid exec_kernel = multi_process_idx exec_kernel ! 0" "error_return_value exec_kernel = 0"
  "current_process_pid exec_kernel = 0" "esp exec_kernel = 0x7FFF00"
  by (simp_all add: exec_kernel_def tiny_kernel_def)

theorem execute_pushes_witness:
  "\<exists>u entry. sys_execute tiny_env [97, 32, 98, 0] exec_kernel = Some (EnterUser entry 0x08400000, u)
    \<and> process_stacks [[3, 0], [1], [2]] u"
proof -
  obtain e where "can_execute tiny_env [97, 32, 98] e 3 0 exec_kernel" using exec_kernel_can_execute by blast
  then show ?thesis
    using execute_pushes [OF exec_stacks _ exec_cur(1), of tiny_env "[97, 32, 98]" e 3 "[]"] by auto
qed

theorem execute_then_halt_witness:
  "\<exists>u v entry. sys_execute tiny_env [97, 32, 98, 0] exec_kernel = Some (EnterUser entry 0x08400000, u)
    \<and> sys_halt_wrapper tiny_env 256 (u\<lparr>mem := \<lambda>_. 0, esp := 1, ebp := 2,
          PCB := (PCB u)[3 := (PCB u ! 3)\<lparr>file_array := replicate 8 (fd_of FileDriver 1)\<rparr>]\<rparr>) = Some (ParentReturns 256, v)
    \<and> esp v = 0x7FFF00 \<and> current_process_pid v = 0"
proof -
  obtain e where e: "can_execute tiny_env [97, 32, 98] e 3 0 exec_kernel" using exec_kernel_can_execute by blast
  have "closable (fd_of FileDriver 1)" by (simp add: closable_def fd_of_def)
  then show ?thesis
    using execute_then_halt [OF exec_stacks _ exec_cur(1), where env = tiny_env and cs = "[97, 32, 98]" and e = e and idx = 3
        and fs = "replicate 8 (fd_of FileDriver 1)" and r = "[]" and status = 256 and m = "\<lambda>_. 0" and x = 1 and y = 2]
      e exec_cur by auto
qed

end
