(* ===== verification/Scheduler.thy ===== *)
theory Scheduler
  imports Halting
begin

text \<open>
  The scheduler: \<open>src/scheduler/scheduler.c\<close> (its context switch is in \<open>Switching\<close>) and the timer
  interrupt's handler of \<open>src/devices/pit.c\<close>. The first three ticks start a shell each, one on
  every terminal; from then on every tick runs the next slot in turn.
\<close>

section \<open>One tick\<close>

definition scheduler_init :: "'a kernel_state_scheme \<Rightarrow> 'a kernel_state_scheme" where
  "scheduler_init s = s\<lparr>num_multiprocess := 0, current_multiprocess := 2, on_default_term := 0, keyboard_disabled := 0\<rparr>"

text \<open>Starting the shell of the next slot; the registers of the last one are saved first.\<close>

definition start_slot :: "c_env \<Rightarrow> 'a kernel_state_scheme \<Rightarrow> (control \<times> 'a kernel_state_scheme) option" where
  "start_slot env s = do {
     let n = num_multiprocess s;
     s \<leftarrow> (if n > 0 then save_context (n - 1) s else Some s);
     let process = (junk_process env)\<lparr>process_PCB := Some (unat n), active_terminal_idx := n\<rparr>;
     let s = s\<lparr>current_process_pid := n\<rparr>;
     l \<leftarrow> poke (multi_process_idx s) (unat n) n;
     ps \<leftarrow> poke (all_process s) (unat n) process;
     s \<leftarrow> terminal_switch (uint n) 0 (s\<lparr>multi_process_idx := l, all_process := ps\<rparr>);
     let s = s\<lparr>num_multiprocess := n + 1\<rparr>;
     sys_execute env shell_name (send_eoi PIT_IRQ s)
   }"

definition round_robin :: "'a kernel_state_scheme \<Rightarrow> 'a kernel_state_scheme option" where
  "round_robin s = do {
     let old_process = current_multiprocess s;
     let new_process = word_of_int ((uint old_process + 1) mod uint (num_multiprocess s));
     process_context_switch old_process new_process (s\<lparr>current_multiprocess := new_process\<rparr>)
   }"

definition default_term_shown :: "'a kernel_state_scheme \<Rightarrow> 'a kernel_state_scheme option" where
  "default_term_shown s = do {
     s \<leftarrow> draw_status_bar (s\<lparr>on_default_term := 1\<rparr>);
     round_robin s
   }"

text \<open>
  A tick either enters the new shell (\<open>Some\<close> control) or goes on in the frame whose registers were
  restored (\<open>None\<close>). When \<open>terminal_switch\<close> switches processes, the rest of the step,
  \<open>default_term_shown\<close>, belongs to the frame that was saved and runs when its slot does.
\<close>

definition scheduler_step :: "c_env \<Rightarrow> 'a kernel_state_scheme \<Rightarrow> (control option \<times> 'a kernel_state_scheme) option" where
  "scheduler_step env s =
     (if num_multiprocess s \<noteq> of_nat MAX_MULTIPROCESS_NUM then map_option (map_prod Some id) (start_slot env s)
      else map_option (\<lambda>s. (None, s))
        (if on_default_term s = 0
         then if current_term s = 0 then default_term_shown s else terminal_switch 0 1 s
         else round_robin s))"

definition pit_handler :: "c_env \<Rightarrow> 'a kernel_state_scheme \<Rightarrow> (control option \<times> 'a kernel_state_scheme) option" where
  "pit_handler env s = scheduler_step env s"

section \<open>Every slot in turn\<close>

text \<open>Between two ticks the running process leaves any registers and memory.\<close>

fun run_ticks :: "c_env \<Rightarrow> (u32 \<times> u32 \<times> mem) list \<Rightarrow> 'a kernel_state_scheme \<Rightarrow> 'a kernel_state_scheme option" where
  "run_ticks env [] s = Some s"
| "run_ticks env ((x, y, m) # ps) s = do {
     (c, s) \<leftarrow> pit_handler env (s\<lparr>esp := x, ebp := y, mem := m\<rparr>);
     run_ticks env ps s
   }"

definition slot_runs :: "nat \<Rightarrow> 'a kernel_state_scheme \<Rightarrow> bool" where
  "slot_runs i s \<longleftrightarrow> sched_ok s \<and> num_multiprocess s = 3 \<and> on_default_term s \<noteq> 0 \<and> i < 3
     \<and> current_multiprocess s = of_nat i \<and> length (page_directory s) = 1024"

definition next_slot :: "nat \<Rightarrow> nat" where "next_slot i = (i + 1) mod 3"

lemma next_slot: "i < 3 \<Longrightarrow> next_slot i < 3 \<and> next_slot i \<noteq> i" "i < 3 \<Longrightarrow> next_slot (next_slot (next_slot i)) = i"
  "i < 3 \<Longrightarrow> next_slot (next_slot i) \<noteq> i"
  unfolding next_slot_def by presburger+

lemma next_slot_word: "i < 3 \<Longrightarrow> (word_of_int ((uint (of_nat i :: u8) + 1) mod 3) :: u8) = of_nat (next_slot i)"
  by (auto simp: next_slot_def dest!: less_3_cases)

lemma tick_run:
  assumes "slot_runs i s"
  shows "\<exists>u. pit_handler env (s\<lparr>esp := x, ebp := y, mem := m\<rparr>) = Some (None, u) \<and> slot_runs (next_slot i) u
    \<and> all_process u = saved_in (s\<lparr>esp := x, ebp := y\<rparr>) i
    \<and> multi_process_idx u = multi_process_idx s \<and> PCB u = PCB s \<and> mem u = m
    \<and> current_process_pid u = multi_process_idx s ! next_slot i
    \<and> esp u = saved_esp (slot_entry s (next_slot i)) \<and> ebp u = saved_ebp (slot_entry s (next_slot i))
    \<and> tss_esp0 u = kernel_stack_base (slot_pid s (next_slot i))
    \<and> page_directory u ! 32 = process_frame (slot_pid s (next_slot i)) OR 0x87"
proof -
  let ?j = "next_slot i"
  let ?s = "s\<lparr>esp := x, ebp := y, mem := m, current_multiprocess := of_nat ?j\<rparr>"
  note h = assms [unfolded slot_runs_def]
  have i: "i < 3" and j: "?j < 3" "i \<noteq> ?j" using h next_slot(1) [of i] by auto
  have ok: "sched_ok ?s" using h by (simp add: sched_ok_def)
  have same: "slot_entry ?s k = slot_entry s k" "slot_pid ?s k = slot_pid s k"
    "saved_in ?s i = saved_in (s\<lparr>esp := x, ebp := y\<rparr>) i" for k
    by (simp_all add: slot_entry_def slot_pid_def saved_in_def)
  obtain u where u: "process_context_switch (of_nat i) (of_nat ?j) ?s = Some u"
    and f: "all_process u = saved_in ?s i" "multi_process_idx u = multi_process_idx s" "PCB u = PCB s"
    "current_process_pid u = multi_process_idx s ! ?j"
    "esp u = saved_esp (slot_entry ?s ?j)" "ebp u = saved_ebp (slot_entry ?s ?j)"
    "page_directory u = page_directory (map_process (slot_pid ?s ?j) (map_video (slot_page ?s ?j) ?s))"
    "tss_esp0 u = kernel_stack_base (slot_pid ?s ?j)" "mem u = m"
    "current_multiprocess u = of_nat ?j" "num_multiprocess u = num_multiprocess s" "on_default_term u = on_default_term s"
    using context_switch_run [OF ok i j] by auto
  have "pit_handler env (s\<lparr>esp := x, ebp := y, mem := m\<rparr>) = Some (None, u)"
    using h u next_slot_word [OF i]
    by (simp add: pit_handler_def scheduler_step_def round_robin_def Let_def kernel_consts)
  moreover have "slot_runs ?j u"
    using h j f sched_ok_saved [OF ok i]
    by (simp add: slot_runs_def sched_ok_def map_process_dir map_video_def)
  moreover have "page_directory u ! 32 = process_frame (slot_pid s ?j) OR 0x87"
    using h by (simp add: f(7) same map_process_dir map_video_def)
  ultimately show ?thesis using f by (simp add: same)
qed

lemma turns_run:
  "slot_runs i s \<Longrightarrow> \<exists>u. run_ticks env ps s = Some u \<and> slot_runs ((i + length ps) mod 3) u
    \<and> (ps \<noteq> [] \<longrightarrow> current_process_pid u = multi_process_idx s ! ((i + length ps) mod 3))
    \<and> multi_process_idx u = multi_process_idx s \<and> PCB u = PCB s"
proof (induction ps arbitrary: i s)
  case Nil
  then have "i < 3" by (simp add: slot_runs_def)
  with Nil show ?case by simp
next
  case (Cons a ps)
  obtain x y m where a: "a = (x, y, m)" by (metis prod_cases3)
  obtain u where u: "pit_handler env (s\<lparr>esp := x, ebp := y, mem := m\<rparr>) = Some (None, u)" "slot_runs (next_slot i) u"
    "multi_process_idx u = multi_process_idx s" "PCB u = PCB s" "current_process_pid u = multi_process_idx s ! next_slot i"
    using tick_run [OF Cons.prems, where env = env and x = x and y = y and m = m] by blast
  have eq: "(next_slot i + length ps) mod 3 = (i + length (a # ps)) mod 3"
    by (simp add: next_slot_def mod_simps)
  obtain v where v: "run_ticks env ps u = Some v" "slot_runs ((i + length (a # ps)) mod 3) v"
    "ps \<noteq> [] \<longrightarrow> current_process_pid v = multi_process_idx u ! ((i + length (a # ps)) mod 3)"
    "multi_process_idx v = multi_process_idx u" "PCB v = PCB u"
    using Cons.IH [OF u(2)] unfolding eq by blast
  have "run_ticks env (a # ps) s = Some v" by (simp add: a u(1) v(1))
  moreover have "current_process_pid v = multi_process_idx s ! ((i + length (a # ps)) mod 3)"
  proof (cases "ps = []")
    case True
    then have "v = u" "(i + length (a # ps)) mod 3 = next_slot i" using v(1) by (simp_all add: next_slot_def)
    then show ?thesis using u(5) by (simp only:)
  qed (use v(3) u(3) in simp)
  ultimately show ?case using v u by (metis (no_types))
qed

lemma entry_kept:
  assumes "sched_ok s" "i < 3" "j < 3" "i \<noteq> j" "all_process u = saved_in (s\<lparr>esp := x, ebp := y\<rparr>) j" "multi_process_idx u = multi_process_idx s"
  shows "slot_entry u i = slot_entry s i"
  using distinct_slots [OF assms(1,3,2)] assms(4-6) by (simp add: slot_entry_def saved_in_def)

lemma entry_saved:
  assumes "sched_ok s" "i < 3" "all_process u = saved_in (s\<lparr>esp := x, ebp := y\<rparr>) i" "multi_process_idx u = multi_process_idx s"
  shows "slot_entry u i = slot_entry s i\<lparr>saved_esp := x, saved_ebp := y\<rparr>"
  using assms by (simp add: slot_entry_def saved_in_def sched_ok_def)


lemma tiny_slot_runs: "slot_runs 0 tiny_kernel"
  using tiny_kernel_sched by (simp add: slot_runs_def) (simp add: tiny_kernel_def)


end
