(* ===== verification/Booting.thy ===== *)
theory Booting
  imports Scheduler
begin

text \<open>
  The first three ticks: each starts a shell on the next terminal, and the kernel is then in the
  state from which the scheduler's rounds and the stacks of processes go on.
\<close>

section \<open>The shell's file\<close>

definition shell_word :: "u8 list" where "shell_word = [115, 104, 101, 108, 108]"

lemma shell_words: "shell_name = shell_word @ [0]" "first_word shell_word = shell_word" "other_words shell_word = []"
  "skip_blanks shell_word \<noteq> []" "0 \<notin> set shell_word" "length shell_word = 5"
  by (simp_all add: shell_name_def shell_word_def first_word_def other_words_def skip_blanks_def)

text \<open>
  The image holds an executable file \<open>shell\<close> and does not overlap the kernel's buffer, the three
  program pages and the four video pages.
\<close>

definition shell_file :: "c_env \<Rightarrow> dentry \<Rightarrow> 'a kernel_state_scheme \<Rightarrow> bool" where
  "shell_file env e s \<longleftrightarrow> num_dir_entries s \<le> 63 \<and> entry_for shell_word s = Some e
     \<and> file_ok s (inode_num e) \<and> take 4 (file_contents s (inode_num e)) = elf_magic
     \<and> 28 \<le> inode_length s (inode_num e) \<and> inode_length s (inode_num e) \<le> 0x3B8000
     \<and> buffer_apart s (header_buf env) 4 \<and> buffer_apart s 0xB8000 0x4000
     \<and> (\<forall>i<3. buffer_apart s (program_addr i) (inode_length s (inode_num e)))"

lemma same_image_directory:
  assumes sm: "same_image s t" and ok: "file_ok s k" and n: "num_dir_entries s \<le> 63"
  shows "num_dir_entries t = num_dir_entries s" "entry_for w t = entry_for w s" "directory t = directory s"
proof -
  have base: "fs_boot_block t = fs_boot_block s" using sm by (simp add: same_image_def)
  have size: "image_size s \<le> 4294967296" "4096 \<le> image_size s" using file_ok_bounds(2) [OF ok] by (simp_all add: image_size_def)
  show num: "num_dir_entries t = num_dir_entries s"
    using same_image_load [OF sm size(1), of 0] size(2) by (simp add: num_dir_entries_def base)
  have "load_dentry (mem t) (entry_addr (fs_boot_block s) i) = load_dentry (mem s) (entry_addr (fs_boot_block s) i)"
    if "i < unat (num_dir_entries s)" for i
    unfolding entry_addr_off
  proof (rule load_dentry_cong_off)
    fix j :: nat assume j: "j < 64"
    have "i < 63" using that n by (simp add: word_le_nat_alt)
    then have "in_range (fs_boot_block s + of_nat (64 + 64 * i + j)) (fs_boot_block s) (image_size s)"
      using j size by (intro in_range_offset) auto
    with sm show "mem t (fs_boot_block s + of_nat (64 + 64 * i + j)) = mem s (fs_boot_block s + of_nat (64 + 64 * i + j))"
      by (simp add: same_image_def)
  qed
  then show "directory t = directory s" by (simp add: directory_def num base)
  then show "entry_for w t = entry_for w s" by (simp add: entry_for_def)
qed

lemma shell_file_same:
  assumes "shell_file env e s" "same_image s t"
  shows "shell_file env e t" "file_contents t (inode_num e) = file_contents s (inode_num e)"
proof -
  have ok: "file_ok s (inode_num e)" and n: "num_dir_entries s \<le> 63" using assms(1) by (simp_all add: shell_file_def)
  note sm = same_image_file [OF assms(2) ok] and dir = same_image_directory [OF assms(2) ok n]
  have "buffer_apart t b n = buffer_apart s b n" for b n by (simp add: buffer_apart_def sm(3,4))
  with assms(1) sm(5,7,8) dir show "shell_file env e t" by (simp add: shell_file_def)
  show "file_contents t (inode_num e) = file_contents s (inode_num e)" by (rule sm(8))
qed

text \<open>Memory that changes only in the video pages leaves the image as it is.\<close>

lemma apart_outside: "buffer_apart s b n \<Longrightarrow> in_range x (fs_boot_block s) (image_size s) \<Longrightarrow> \<not> in_range x b n"
  unfolding buffer_apart_def by (metis in_rangeE)

section \<open>The state before each shell\<close>

definition booting :: "nat \<Rightarrow> 'a kernel_state_scheme \<Rightarrow> bool" where
  "booting n s \<longleftrightarrow> n \<le> 3 \<and> num_multiprocess s = of_nat n \<and> current_term s = int (n - 1)
     \<and> length (PCB s) = 6 \<and> length (all_process s) = 6 \<and> length (multi_process_idx s) = 3
     \<and> length (page_directory s) = 1024 \<and> length (three_terminals s) = 3
     \<and> (\<forall>p\<in>set (PCB s). pcb_ok p \<and> label_ok p \<and> parent p = None)
     \<and> (\<forall>j<6. running (PCB s ! j) \<noteq> 0 \<longleftrightarrow> j < n)
     \<and> (\<forall>j<n. pcb_pid (PCB s ! j) = of_nat j \<and> process_PCB (all_process s ! j) = Some j)
     \<and> multi_process_idx s = map of_nat [0..<n] @ replicate (3 - n) 0
     \<and> (0 < n \<longrightarrow> current_process_pid s = of_nat (n - 1))
     \<and> current_multiprocess s = 2 \<and> on_default_term s = 0"

lemma booting_status:
  assumes "length l = 3" "\<forall>x\<in>set l. unat x < 6" "length (PCB s) = 6" "\<forall>p\<in>set (PCB s). label_ok p" "multi_process_idx s = l"
  shows "status_ok s"
  using assms by (simp add: status_ok_set)

lemma slots_after: "n < 3 \<Longrightarrow> (map of_nat [0..<n] @ replicate (3 - n) 0)[n := of_nat n] = (map of_nat [0..<Suc n] @ replicate (3 - Suc n) (0 :: u8))"
proof -
  assume "n < 3"
  then have "3 - n = Suc (3 - Suc n)" by simp
  then show ?thesis by (simp add: list_update_append)
qed

lemma slots_less: "n \<le> 3 \<Longrightarrow> x \<in> set (map of_nat [0..<n] @ replicate (3 - n) (0 :: u8)) \<Longrightarrow> unat x < 6"
  by (auto simp: unat_of_nat)

text \<open>The step up to the switch of terminals: registers saved, tables filled in.\<close>

lemma start_slot_tables:
  assumes b: "booting n s" and n: "n < 3"
  shows "\<exists>ps. (do {
     s \<leftarrow> (if num_multiprocess s > 0 then save_context (num_multiprocess s - 1) s else Some s);
     l \<leftarrow> poke (multi_process_idx s) n (of_nat n);
     ps \<leftarrow> poke (all_process s) n ((junk_process env)\<lparr>process_PCB := Some n, active_terminal_idx := of_nat n\<rparr>);
     Some (s\<lparr>current_process_pid := of_nat n, multi_process_idx := l, all_process := ps\<rparr>) })
    = Some (s\<lparr>current_process_pid := of_nat n, multi_process_idx := map of_nat [0..<Suc n] @ replicate (3 - Suc n) 0, all_process := ps\<rparr>)
    \<and> length ps = 6 \<and> (\<forall>j\<le>n. process_PCB (ps ! j) = Some j)"
proof -
  let ?p = "(junk_process env)\<lparr>process_PCB := Some n, active_terminal_idx := of_nat n\<rparr>"
  note h = b [unfolded booting_def]
  show ?thesis
  proof (cases n)
    case 0
    then show ?thesis using h slots_after [OF n]
      by (intro exI [of _ "(all_process s)[n := ?p]"]) (simp add: nth_list_update)
  next
    case (Suc k)
    have "unat (of_nat n :: u8) = n" using n by (simp add: unat_of_nat)
    then have "(of_nat n :: u8) > 0" using Suc by (metis nat.simps(3) unat_0 word_gt_0)
    moreover have "(of_nat n - 1 :: u8) = of_nat k" "unat (of_nat k :: u8) = k"
      using n Suc by (simp_all add: unat_of_nat)
    ultimately have w: "(of_nat n :: u8) > 0" "(of_nat n - 1 :: u8) = of_nat k" "unat (of_nat k :: u8) = k"
      by simp_all
    have "save_context (of_nat k) s = Some (s\<lparr>all_process := saved_in s k\<rparr>)"
    proof -
      have "k < 3" "multi_process_idx s ! k = of_nat k" "k < length (multi_process_idx s)"
        using h n Suc by (simp_all add: nth_append)
      then show ?thesis using h n Suc w(3)
        by (simp add: save_context_def slot_process_def saved_in_def slot_entry_def)
    qed
    moreover have "unat (multi_process_idx s ! k) = k" "length (saved_in s k) = 6"
      using h n Suc w(3) by (simp_all add: nth_append saved_in_def)
    moreover have "process_PCB ((saved_in s k)[n := ?p] ! j) = Some j" if "j \<le> n" for j
      using that h n Suc calculation(2) by (auto simp: saved_in_def slot_entry_def nth_list_update)
    ultimately show ?thesis
      using h w n slots_after [OF n] Suc
      by (intro exI [of _ "(saved_in s k)[n := ?p]"]) simp
  qed
qed

section \<open>Showing the terminal\<close>

lemma video_pages:
  "in_range a 0xB8000 4096 \<Longrightarrow> in_range a 0xB8000 0x4000"
  "i < 3 \<Longrightarrow> in_range a (backing_page i) 4096 \<Longrightarrow> in_range a 0xB8000 0x4000"
proof -
  show "in_range a 0xB8000 4096 \<Longrightarrow> in_range a 0xB8000 0x4000" by (simp add: in_range_def)
  assume i: "i < 3" and "in_range a (backing_page i) 4096"
  then obtain k where k: "k < 4096" "a = backing_page i + of_nat k" by (elim in_rangeE)
  then have "a = 0xB8000 + of_nat (4096 * (i + 1) + k)" by (simp add: backing_page_def algebra_simps)
  moreover have "4096 * (i + 1) + k < 0x4000" using i k(1) by auto
  ultimately show "in_range a 0xB8000 0x4000" by (simp only: in_range_offset)
qed

lemma show_terminal:
  assumes "status_ok t" "length (three_terminals t) = 3" "current_term t = int (n - 1)" "n < 3"
  shows "\<exists>m log ts. terminal_switch (int n) 0 t = Some (t\<lparr>mem := m, io_log := log, three_terminals := ts, current_term := int n\<rparr>)
    \<and> length ts = 3 \<and> (\<forall>a. \<not> in_range a 0xB8000 0x4000 \<longrightarrow> m a = mem t a)"
proof (cases n)
  case 0
  have "t = t\<lparr>mem := mem t, io_log := io_log t, three_terminals := three_terminals t, current_term := current_term t\<rparr>" by simp
  moreover have "terminal_switch (int n) 0 t = Some t" using assms(3) 0 by (simp add: terminal_switch_def)
  ultimately show ?thesis using assms(2,3) 0 by (metis diff_0_eq_0)
next
  case (Suc k)
  have k: "k < 3" "k \<noteq> n" "current_term t = int k" using assms(3,4) Suc by simp_all
  obtain m log ts where m: "\<forall>a. \<not> in_range a 0xB8F00 160 \<longrightarrow> m a = swapped k n (mem t) a" "length ts = length (three_terminals t)"
    and run: "terminal_switch (int n) 0 t = Some (t\<lparr>mem := m, io_log := log, three_terminals := ts, current_term := int n\<rparr>)"
    using terminal_switch_run [OF assms(1,2) k(3,1) assms(4) k(2), of 0] by (auto simp: Let_def)
  have "m a = mem t a" if a: "\<not> in_range a 0xB8000 0x4000" for a
  proof -
    have "\<not> in_range a 0xB8000 4096" "\<not> in_range a (backing_page k) 4096"
      using a video_pages k(1) by blast+
    then show ?thesis using m(1) swapped_mem(3) [OF k(1) assms(4) k(2)] in_status_row by metis
  qed
  then show ?thesis using run m(2) assms(2) by auto
qed

section \<open>One shell\<close>

lemma booting_can_execute:
  assumes b: "booting n s" and n: "n < 3" and f: "shell_file env e t"
    and t: "PCB t = PCB s" "current_process_pid t = of_nat n" "length (all_process t) = 6" "page_directory t = page_directory s"
    "multi_process_idx t = map of_nat [0..<Suc n] @ replicate (3 - Suc n) 0"
  shows "can_execute env shell_word e n n t"
proof -
  note h = b [unfolded booting_def]
  have pid: "unat (of_nat n :: u8) = n" using n by (simp add: unat_of_nat)
  have "status_ok t"
    unfolding status_ok_set
  proof (intro conjI ballI)
    show "length (multi_process_idx t) = 3" using n by (simp add: t(5))
    fix x assume "x \<in> set (multi_process_idx t)"
    then have "unat x < 6" using slots_less [of "Suc n" x] n unfolding t(5) by simp
    then show "unat x < length (PCB t)" "label_ok (PCB t ! unat x)" using h by (simp_all add: t(1))
  qed
  then have "procs_ok t"
    using h t n pid by (simp add: procs_ok_def word_less_nat_alt)
  moreover have "first_free t = Some n"
  proof -
    have r: "running (PCB s ! j) \<noteq> 0 \<longleftrightarrow> j < n" if "j < 6" for j using h that by blast
    have "n < 6" using n by simp
    from r [OF this] have "running (PCB s ! n) = 0" by blast
    moreover have "\<forall>j<n. running (PCB s ! j) \<noteq> 0"
    proof (intro allI impI)
      fix j assume "j < n"
      then show "running (PCB s ! j) \<noteq> 0" using r [of j] n by linarith
    qed
    ultimately show ?thesis using n by (simp add: first_free_def find_Some_iff t(1)) (rule exI [of _ n], simp)
  qed
  moreover have "root_of (PCB t) n = Some n"
    using h n by (subst root_of.simps) (simp add: t(1))
  ultimately show ?thesis
    using f n pid by (simp add: can_execute_def shell_file_def shell_words t(2))
qed

lemma shell_starts:
  assumes b: "booting n s" and n: "n < 3" and f: "shell_file env e s"
  shows "\<exists>u. pit_handler env s = Some (Some (EnterUser (entry_point (file_contents s (inode_num e))) 0x08400000), u)
    \<and> booting (Suc n) u \<and> shell_file env e u \<and> file_contents u (inode_num e) = file_contents s (inode_num e)"
proof -
  note h = b [unfolded booting_def]
  have num: "num_multiprocess s = of_nat n" "unat (of_nat n :: u8) = n" "uint (of_nat n :: u8) = int n"
    "(of_nat n :: u8) \<noteq> 3" "of_nat n + 1 = (of_nat (Suc n) :: u8)"
    using h n by (auto simp: unat_of_nat uint_nat dest!: less_3_cases)
  obtain ps where ps: "(do {
     s \<leftarrow> (if num_multiprocess s > 0 then save_context (num_multiprocess s - 1) s else Some s);
     l \<leftarrow> poke (multi_process_idx s) n (of_nat n);
     ps \<leftarrow> poke (all_process s) n ((junk_process env)\<lparr>process_PCB := Some n, active_terminal_idx := of_nat n\<rparr>);
     Some (s\<lparr>current_process_pid := of_nat n, multi_process_idx := l, all_process := ps\<rparr>) })
    = Some (s\<lparr>current_process_pid := of_nat n, multi_process_idx := map of_nat [0..<Suc n] @ replicate (3 - Suc n) 0, all_process := ps\<rparr>)"
    "length ps = 6" "\<forall>j\<le>n. process_PCB (ps ! j) = Some j"
    using start_slot_tables [OF b n, of env] by blast
  let ?l = "map of_nat [0..<Suc n] @ replicate (3 - Suc n) (0 :: u8)"
  let ?t = "s\<lparr>current_process_pid := of_nat n, multi_process_idx := ?l, all_process := ps\<rparr>"
  have start: "start_slot env s = do {
      s \<leftarrow> terminal_switch (int n) 0 ?t;
      sys_execute env shell_name (send_eoi PIT_IRQ (s\<lparr>num_multiprocess := of_nat (Suc n)\<rparr>)) }"
  proof -
    obtain s1 l' ps' where s1: "(if num_multiprocess s > 0 then save_context (num_multiprocess s - 1) s else Some s) = Some s1"
      "poke (multi_process_idx s1) n (of_nat n) = Some l'"
      "poke (all_process s1) n ((junk_process env)\<lparr>process_PCB := Some n, active_terminal_idx := of_nat n\<rparr>) = Some ps'"
      "s1\<lparr>current_process_pid := of_nat n, multi_process_idx := l', all_process := ps'\<rparr> = ?t"
      using ps(1) by (auto simp only: bind_eq_Some_conv option.sel option.inject)
    show ?thesis
      unfolding start_slot_def Let_def s1(1) bind.bind_lunit
      using s1(2-4) num by (simp add: add.commute [of 1])
  qed
  have st: "status_ok ?t"
    by (rule booting_status [of ?l]) (use h n slots_less [of "Suc n"] in auto)
  obtain m log ts where show_term: "terminal_switch (int n) 0 ?t = Some (?t\<lparr>mem := m, io_log := log, three_terminals := ts, current_term := int n\<rparr>)"
    and ts: "length ts = 3" and m: "\<forall>a. \<not> in_range a 0xB8000 0x4000 \<longrightarrow> m a = mem s a"
    using show_terminal [OF st, of n] h n by auto
  let ?v = "?t\<lparr>mem := m, io_log := log, three_terminals := ts, current_term := int n, num_multiprocess := of_nat (Suc n)\<rparr>"
  obtain log' where eoi: "send_eoi PIT_IRQ ?v = ?v\<lparr>io_log := log'\<rparr>" using send_eoi_log by blast
  let ?w = "?v\<lparr>io_log := log'\<rparr>"
  let ?k = "inode_num e"
  have "same_image s ?w"
    using apart_outside [of s "0xB8000" "0x4000"] m f by (auto simp: same_image_def shell_file_def)
  note fw = shell_file_same [OF f this]
  have ex: "can_execute env shell_word e n n ?w"
    by (rule booting_can_execute [OF b n fw(1)]) (simp_all add: ps(2))
  obtain u where u: "sys_execute env (shell_word @ 0 # []) ?w
      = Some (EnterUser (entry_point (file_contents ?w ?k)) 0x08400000, u)"
    and started: "started env n n n (new_PCB n n shell_word [] (PCB s ! n)) (sti ?w) u"
    and mem: "\<forall>x. \<not> in_range x (program_addr n) (inode_length ?w ?k) \<and> \<not> in_range x 0xB8F00 160
         \<and> \<not> in_range x (header_buf env) 4 \<longrightarrow> mem u x = mem ?w x"
    using execute_run [OF ex, of "[]"] num(2) by (auto simp: shell_words)
  have "same_image ?w u"
  proof -
    have "\<not> in_range x (program_addr n) (inode_length ?w ?k)" "\<not> in_range x 0xB8F00 160" "\<not> in_range x (header_buf env) 4"
      if "in_range x (fs_boot_block ?w) (image_size ?w)" for x
      using that fw(1) n apart_outside [OF _ that] in_status_row video_pages(1) unfolding shell_file_def by blast+
    moreover have "fs_boot_block u = fs_boot_block ?w" using started by (simp add: started_def sti_def)
    ultimately show ?thesis using mem unfolding same_image_def by blast
  qed
  note fu = shell_file_same [OF fw(1) this]
  have "pit_handler env s = Some (Some (EnterUser (entry_point (file_contents s ?k)) 0x08400000), u)"
  proof -
    have "start_slot env s = sys_execute env shell_name ?w"
      unfolding start show_term bind.bind_lunit eoi ..
    then have "start_slot env s = Some (EnterUser (entry_point (file_contents s ?k)) 0x08400000, u)"
      using u unfolding shell_words(1) fw(2) by simp
    then show ?thesis using num by (simp add: pit_handler_def scheduler_step_def kernel_consts)
  qed
  moreover have "booting (Suc n) u"
  proof -
    let ?p = "(new_PCB n n shell_word [] (PCB s ! n))\<lparr>pcb_esp := esp s, pcb_ebp := ebp s\<rparr>"
    have p: "PCB u = (PCB s)[n := ?p]" "page_directory u = (page_directory s)[32 := process_frame (of_nat n) OR 0x87]"
      "multi_process_idx u = ?l" "all_process u = ps" "current_term u = int n" "three_terminals u = ts"
      "num_multiprocess u = of_nat (Suc n)" "current_process_pid u = of_nat n"
      "current_multiprocess u = current_multiprocess s" "on_default_term u = on_default_term s"
      using started n by (simp_all add: started_def sti_def)
    have "PCB s ! n \<in> set (PCB s)" using h n by simp
    then have "pcb_ok (new_PCB n n shell_word [] (PCB s ! n))" "label_ok (new_PCB n n shell_word [] (PCB s ! n))"
      using h by (auto intro!: new_PCB_ok new_PCB_label simp: shell_words)
    then have "pcb_ok ?p" "label_ok ?p" "parent ?p = None"
      using n by (simp_all add: pcb_ok_def new_PCB_def)
    then have "\<forall>p\<in>set (PCB u). pcb_ok p \<and> label_ok p \<and> parent p = None"
      unfolding p(1) using h by (intro set_update_all) simp_all
    moreover have "running ?p \<noteq> 0" "pcb_pid ?p = of_nat n" by (simp_all add: new_PCB_def)
    moreover have "running (PCB u ! j) \<noteq> 0 \<longleftrightarrow> j < Suc n" if "j < 6" for j
      using h that n calculation(2) by (cases "j = n") (auto simp: p(1))
    moreover have "pcb_pid (PCB u ! j) = of_nat j" if "j < Suc n" for j
      using h that n calculation(3) by (cases "j = n") (auto simp: p(1))
    moreover have "process_PCB (all_process u ! j) = Some j" if "j < Suc n" for j
      using ps(3) that by (simp add: p(4))
    ultimately show ?thesis
      using h n p ps(2) ts unfolding booting_def by simp
  qed
  ultimately show ?thesis using fu fw(2) by auto
qed

section \<open>Three shells\<close>

lemma registers_kept:
  "booting n (s\<lparr>esp := x, ebp := y\<rparr>) = booting n s" "shell_file env e (s\<lparr>esp := x, ebp := y\<rparr>) = shell_file env e s"
  "file_contents (s\<lparr>esp := x, ebp := y\<rparr>) k = file_contents s k"
proof -
  show "booting n (s\<lparr>esp := x, ebp := y\<rparr>) = booting n s" by (simp add: booting_def)
  show c: "file_contents (s\<lparr>esp := x, ebp := y\<rparr>) k = file_contents s k" for k
    by (simp add: file_contents_def file_addr_def file_block_def inode_length_def num_inodes_def)
  have "image_size (s\<lparr>esp := x, ebp := y\<rparr>) = image_size s" "inode_length (s\<lparr>esp := x, ebp := y\<rparr>) k = inode_length s k"
    "file_block (s\<lparr>esp := x, ebp := y\<rparr>) k j = file_block s k j" for k j
    by (simp_all add: image_size_def num_inodes_def num_data_blocks_def inode_length_def file_block_def)
  then have "file_ok (s\<lparr>esp := x, ebp := y\<rparr>) k = file_ok s k"
    "buffer_apart (s\<lparr>esp := x, ebp := y\<rparr>) b n = buffer_apart s b n" for k b n
    by (simp_all add: file_ok_def buffer_apart_def num_inodes_def num_data_blocks_def)
  moreover have "entry_for w (s\<lparr>esp := x, ebp := y\<rparr>) = entry_for w s" "num_dir_entries (s\<lparr>esp := x, ebp := y\<rparr>) = num_dir_entries s" for w
    by (simp_all add: entry_for_def directory_def num_dir_entries_def)
  moreover have "inode_length (s\<lparr>esp := x, ebp := y\<rparr>) k = inode_length s k" for k by (simp add: inode_length_def)
  ultimately show "shell_file env e (s\<lparr>esp := x, ebp := y\<rparr>) = shell_file env e s"
    by (simp add: shell_file_def c)
qed

lemma booting_done:
  assumes "booting 3 s"
  shows "process_stacks [[0], [1], [2]] s" "procs_ok s" "sched_ok s"
proof -
  note h = assms [unfolded booting_def]
  have multi: "multi_process_idx s = [0, 1, 2]" using h by (simp add: numeral_3_eq_3)
  have shells: "running (PCB s ! j) \<noteq> 0" "pcb_pid (PCB s ! j) = of_nat j" "process_PCB (all_process s ! j) = Some j"
    "parent (PCB s ! j) = None" "label_ok (PCB s ! j)" "j < 6" if "j < 3" for j
    using h that by simp_all
  from shells [of 0] shells [of 1] shells [of 2] h multi
  show "process_stacks [[0], [1], [2]] s"
    by (auto simp: process_stacks_def)
  have "length (PCB s) = 6" using h by blast
  then have "status_ok s" unfolding status_ok_set multi using shells [of 0] shells [of 1] shells [of 2] by simp
  then show "procs_ok s" using h by (simp add: procs_ok_def)
  show "sched_ok s"
    using h multi shells by (auto simp: sched_ok_def dest!: less_3_cases)
qed

text \<open>The kernel's data when \<open>init_PCBs\<close> and \<open>scheduler_init\<close> are called.\<close>

definition fresh_kernel :: "'a kernel_state_scheme \<Rightarrow> bool" where
  "fresh_kernel s \<longleftrightarrow> length (PCB s) = 6 \<and> length (all_process s) = 6 \<and> multi_process_idx s = [0, 0, 0]
     \<and> length (page_directory s) = 1024 \<and> length (three_terminals s) = 3 \<and> current_term s = 0
     \<and> (\<forall>p\<in>set (PCB s). pcb_ok p \<and> label_ok p \<and> parent p = None)"

lemma init_PCBs_run:
  assumes "length (PCB s) = 6"
  shows "init_PCBs s = Some (s\<lparr>PCB := map (\<lambda>p. p\<lparr>running := 0\<rparr>) (PCB s)\<rparr>)"
proof -
  have "n \<le> 6 \<Longrightarrow> loop_over [0..<n] (\<lambda>idx s. do { p \<leftarrow> peek (PCB s) idx; set_PCB idx (p\<lparr>running := 0\<rparr>) s }) s
      = Some (s\<lparr>PCB := map (\<lambda>p. p\<lparr>running := 0\<rparr>) (take n (PCB s)) @ drop n (PCB s)\<rparr>)" for n
  proof (induction n)
    case (Suc n)
    then have n: "n < length (PCB s)" using assms by simp
    then have "(map (\<lambda>p. p\<lparr>running := 0\<rparr>) (take n (PCB s)) @ drop n (PCB s))[n := (PCB s ! n)\<lparr>running := 0\<rparr>]
        = map (\<lambda>p. p\<lparr>running := 0\<rparr>) (take (Suc n) (PCB s)) @ drop (Suc n) (PCB s)"
      by (simp add: list_update_append take_Suc_conv_app_nth Cons_nth_drop_Suc [symmetric])
    with Suc n show ?case by (simp add: loop_over_append set_PCB_def nth_append)
  qed simp
  from this [of 6] show ?thesis using assms by (simp add: init_PCBs_def MAX_PROCESSES_def del: upt_Suc)
qed

lemma fresh_booting:
  assumes "fresh_kernel s"
  shows "\<exists>t. init_PCBs s = Some t \<and> booting 0 (scheduler_init t) \<and> (\<forall>env e. shell_file env e s \<longrightarrow> shell_file env e (scheduler_init t))
    \<and> (\<forall>k. file_contents (scheduler_init t) k = file_contents s k)"
proof -
  note h = assms [unfolded fresh_kernel_def]
  let ?t = "s\<lparr>PCB := map (\<lambda>p. p\<lparr>running := 0\<rparr>) (PCB s)\<rparr>"
  have "init_PCBs s = Some ?t" using init_PCBs_run h by blast
  moreover have "booting 0 (scheduler_init ?t)"
    using h by (auto simp: booting_def scheduler_init_def pcb_ok_def numeral_3_eq_3)
  moreover have "same_image s (scheduler_init ?t)" by (simp add: same_image_def scheduler_init_def)
  moreover have "file_contents (scheduler_init ?t) k = file_contents s k" for k
    by (simp add: scheduler_init_def file_contents_def file_addr_def file_block_def inode_length_def num_inodes_def)
  ultimately show ?thesis using shell_file_same(1) by blast
qed

lemma ticks_start_shells:
  assumes "booting 0 s" and "shell_file env e s"
    and "ctl = Some (EnterUser (entry_point (file_contents s (inode_num e))) 0x08400000)"
  shows "\<exists>u1 u2 u3. pit_handler env s = Some (ctl, u1)
    \<and> pit_handler env (u1\<lparr>esp := x1, ebp := y1\<rparr>) = Some (ctl, u2)
    \<and> pit_handler env (u2\<lparr>esp := x2, ebp := y2\<rparr>) = Some (ctl, u3)
    \<and> process_stacks [[0], [1], [2]] u3 \<and> procs_ok u3 \<and> sched_ok u3
    \<and> num_multiprocess u3 = 3 \<and> current_term u3 = 2 \<and> current_process_pid u3 = 2
    \<and> current_multiprocess u3 = 2 \<and> length (three_terminals u3) = 3"
proof -
  let ?k = "inode_num e"
  obtain u1 where u1: "pit_handler env s = Some (ctl, u1)" "booting 1 u1" "shell_file env e u1"
    "file_contents u1 ?k = file_contents s ?k"
    using shell_starts [OF assms(1) _ assms(2)] assms(3) by auto
  obtain u2 where u2: "pit_handler env (u1\<lparr>esp := x1, ebp := y1\<rparr>) = Some (ctl, u2)" "booting 2 u2" "shell_file env e u2"
    "file_contents u2 ?k = file_contents s ?k"
    using shell_starts [of 1 "u1\<lparr>esp := x1, ebp := y1\<rparr>" env e] u1 assms(3)
    by (auto simp: registers_kept numeral_2_eq_2)
  obtain u3 where u3: "pit_handler env (u2\<lparr>esp := x2, ebp := y2\<rparr>) = Some (ctl, u3)" "booting 3 u3"
    using shell_starts [of 2 "u2\<lparr>esp := x2, ebp := y2\<rparr>" env e] u2 assms(3)
    by (auto simp: registers_kept numeral_3_eq_3 numeral_2_eq_2)
  have "num_multiprocess u3 = 3" "current_term u3 = 2" "current_process_pid u3 = 2" "current_multiprocess u3 = 2"
    "length (three_terminals u3) = 3"
    using u3(2) by (simp_all add: booting_def)
  with u1(1) u2(1) u3 booting_done [OF u3(2)] show ?thesis by blast
qed

text \<open>
  The kernel comes up: after \<open>init_PCBs\<close> and \<open>scheduler_init\<close> the first three timer interrupts
  each enter a shell at its entry point. Then three shells run, one at the bottom of each
  terminal's stack; the third terminal is displayed; and the tables are those the scheduler's
  rounds, \<open>sys_execute\<close> and \<open>sys_halt\<close> need.
\<close>

theorem three_ticks_start_shells:
  assumes "fresh_kernel s" and "shell_file env e s"
    and "ctl = Some (EnterUser (entry_point (file_contents s (inode_num e))) 0x08400000)"
  shows "\<exists>t u1 u2 u3. init_PCBs s = Some t \<and> pit_handler env (scheduler_init t) = Some (ctl, u1)
    \<and> pit_handler env (u1\<lparr>esp := x1, ebp := y1\<rparr>) = Some (ctl, u2)
    \<and> pit_handler env (u2\<lparr>esp := x2, ebp := y2\<rparr>) = Some (ctl, u3)
    \<and> process_stacks [[0], [1], [2]] u3 \<and> procs_ok u3 \<and> sched_ok u3
    \<and> num_multiprocess u3 = 3 \<and> current_term u3 = 2 \<and> current_process_pid u3 = 2"
proof -
  obtain t where t: "init_PCBs s = Some t" "booting 0 (scheduler_init t)" "shell_file env e (scheduler_init t)"
    "file_contents (scheduler_init t) (inode_num e) = file_contents s (inode_num e)"
    using fresh_booting [OF assms(1)] assms(2) by blast
  from ticks_start_shells [OF t(2,3), of ctl y1 x1 y2 x2] t(1,4) assms(3) show ?thesis by auto
qed

section \<open>Witness\<close>

text \<open>The image of \<open>exec_kernel\<close> with its file renamed to \<open>shell\<close>, before any process.\<close>

definition shell_kernel :: "unit kernel_state_scheme" where
  "shell_kernel = exec_kernel\<lparr>mem := exec_mem(0x10040 := 115, 0x10041 := 104, 0x10042 := 101, 0x10043 := 108, 0x10044 := 108),
     PCB := replicate 6 (tiny_pcb 0), multi_process_idx := [0, 0, 0]\<rparr>"

lemma shell_image: "image_size shell_kernel = 12288" "fs_boot_block shell_kernel = 0x10000" "num_inodes shell_kernel = 1"
  "num_data_blocks shell_kernel = 1" "num_dir_entries shell_kernel = 1" "inode_length shell_kernel 0 = 28"
  "file_block shell_kernel 0 0 = 0"
  by (simp_all add: image_size_def num_inodes_def num_data_blocks_def num_dir_entries_def inode_length_def
      file_block_def slot_off_def shell_kernel_def exec_kernel_def tiny_kernel_def exec_mem_def tiny_mem_def load32_def)

lemma shell_entry: "\<exists>e. entry_for shell_word shell_kernel = Some e \<and> inode_num e = 0"
proof -
  let ?e = "load_dentry (mem shell_kernel) (entry_addr 0x10000 0)"
  have d: "directory shell_kernel = [?e]"
    by (simp add: directory_def shell_image)
  have "entry_name ?e = shell_word"
    by (simp add: shell_kernel_def exec_mem_def tiny_mem_def entry_name_def load_dentry_def load_bytes_def
      c_string_def entry_addr_def MAX_FILENAME_LENGTH_def upt_rec shell_word_def)
  moreover have "inode_num ?e = 0"
    by (simp add: shell_kernel_def exec_mem_def tiny_mem_def load_dentry_def load32_def entry_addr_def)
  ultimately show ?thesis by (simp add: entry_for_def d)
qed

lemma shell_contents: "file_contents shell_kernel 0 = file_contents exec_kernel 0"
proof (rule nth_equalityI)
  fix i assume "i < length (file_contents shell_kernel 0)"
  then have i: "i < 28" by (simp add: file_contents_def shell_image)
  have far: "0x12000 + of_nat i \<noteq> (0x10040 + of_nat j :: u32)" if "j < 5" for j
  proof
    assume "0x12000 + of_nat i = (0x10040 + of_nat j :: u32)"
    moreover have "unat (0x12000 + of_nat i :: u32) = 0x12000 + i" "unat (0x10040 + of_nat j :: u32) = 0x10040 + j"
      using i that by (simp_all add: unat_add_small unat_of_nat_small)
    ultimately have "0x12000 + i = 0x10040 + j" by argo
    then show False using that by simp
  qed
  have "mem shell_kernel (0x12000 + of_nat i) = mem exec_kernel (0x12000 + of_nat i)"
    using far [of 0] far [of 1] far [of 2] far [of 3] far [of 4] by (simp add: shell_kernel_def) (simp add: exec_kernel_def)
  then show "file_contents shell_kernel 0 ! i = file_contents exec_kernel 0 ! i"
    using i by (simp add: file_contents_def shell_image exec_image file_addr_def data_off_def algebra_simps)
qed (simp add: file_contents_def shell_image exec_image)

lemma shell_kernel_file: "\<exists>e. shell_file tiny_env e shell_kernel \<and> inode_num e = 0"
proof -
  obtain e where e: "entry_for shell_word shell_kernel = Some e" "inode_num e = 0" using shell_entry by blast
  have ap: "buffer_apart shell_kernel b n = buffer_apart exec_kernel b n" for b n
    by (simp add: buffer_apart_def shell_image exec_image)
  have "buffer_apart exec_kernel (program_addr i) 28" if "i < 3" for i
    using that program_addr_nat [of i 0] by (intro exec_apart) auto
  moreover have "buffer_apart exec_kernel (header_buf tiny_env) 4" "buffer_apart exec_kernel 0xB8000 0x4000"
    by (intro exec_apart; simp add: tiny_env_def)+
  moreover have "file_ok shell_kernel 0"
  proof -
    have "file_block shell_kernel 0 j < 1" if "4096 * j < 28" for j
    proof -
      have "j = 0" using that by simp
      then show ?thesis by (simp add: shell_image)
    qed
    then show ?thesis by (simp add: file_ok_def shell_image)
  qed
  ultimately show ?thesis
    using e exec_file(2) by (intro exI [of _ e]) (simp add: shell_file_def shell_image shell_contents ap)
qed

lemma shell_kernel_fresh: "fresh_kernel shell_kernel"
proof -
  have "pcb_ok (tiny_pcb 0)" "label_ok (tiny_pcb 0)" "parent (tiny_pcb 0) = None"
    by (rule child_pcb_ok, rule shell_label) (simp add: tiny_pcb_def)
  moreover have "PCB shell_kernel = replicate 6 (tiny_pcb 0)" by (simp add: shell_kernel_def)
  ultimately show ?thesis
    by (simp add: fresh_kernel_def) (simp add: shell_kernel_def exec_kernel_def tiny_kernel_def)
qed

theorem three_ticks_start_shells_witness:
  "\<exists>t u1. init_PCBs shell_kernel = Some t
    \<and> pit_handler tiny_env (scheduler_init t) = Some (Some (EnterUser 0x08048000 0x08400000), u1)"
proof -
  obtain e where e: "shell_file tiny_env e shell_kernel" "inode_num e = 0" using shell_kernel_file by blast
  then show ?thesis
    using three_ticks_start_shells [OF shell_kernel_fresh e(1) refl, where ?x1.0 = 0 and ?y1.0 = 0 and ?x2.0 = 0 and ?y2.0 = 0]
    by (auto simp: shell_contents exec_file(3))
qed

end
