(* ===== verification/Exceptions.thy ===== *)
theory Exceptions
  imports Booting
begin

text \<open>
  The interrupt descriptor table and the exception handlers: \<open>src/interrupts/idt.c\<close>,
  \<open>src/interrupts/idt.h\<close>, and the descriptor of \<open>src/x86_desc.h\<close>.

  A handler looks at the instruction pointer that was saved: inside the kernel's page the kernel
  prints a message and stops for ever, elsewhere the program is told and halted with status 256.
  The saved pointer (\<open>get_saved_eip_addr\<close> reads it from the stack frame), the faulting address
  (\<open>get_page_fault_addr\<close> reads CR2) and the address of the message's literal are arguments.
\<close>

section \<open>Exception handlers\<close>

definition KERNEL_MEM_START :: u32 where "KERNEL_MEM_START = 0x400000"
definition KERNEL_MEM_END :: u32 where "KERNEL_MEM_END = 0x800000"

text \<open>How a handler ends: in \<open>while(1)\<close>, or as \<open>sys_halt\<close> does.\<close>

datatype fault_end = Stuck | Left control

definition kernel_address :: "u32 \<Rightarrow> bool" where
  "kernel_address eip \<longleftrightarrow> eip \<ge> KERNEL_MEM_START \<and> eip \<le> KERNEL_MEM_END"

definition kernel_fault :: "u8 list \<Rightarrow> 'a kernel_state_scheme \<Rightarrow> (fault_end \<times> 'a kernel_state_scheme) option" where
  "kernel_fault text_shown s = do { (n, s) \<leftarrow> printf text_shown [] (cli s); Some (Stuck, s) }"

definition user_fault :: "c_env \<Rightarrow> u32 \<Rightarrow> i32 \<Rightarrow> 'a kernel_state_scheme \<Rightarrow> (fault_end \<times> 'a kernel_state_scheme) option" where
  "user_fault env msg len s = do {
     (n, s) \<leftarrow> sys_write 1 msg len s;
     (c, s) \<leftarrow> sys_halt_wrapper env HALT_EXCEPTION s;
     Some (Left c, s)
   }"

text \<open>The literals of the messages: a line, and a text without its end.\<close>

definition line :: "string \<Rightarrow> u8 list" where
  "line s = chars s @ [10, 0]"

definition divide_error :: "c_env \<Rightarrow> u32 \<Rightarrow> u32 \<Rightarrow> 'a kernel_state_scheme \<Rightarrow> (fault_end \<times> 'a kernel_state_scheme) option" where
  "divide_error env msg eip s =
     (if kernel_address eip then kernel_fault (line ''0: Divide By Zero Error'') s
      else user_fault env msg 24 s)"

definition debug_error :: "c_env \<Rightarrow> u32 \<Rightarrow> u32 \<Rightarrow> 'a kernel_state_scheme \<Rightarrow> (fault_end \<times> 'a kernel_state_scheme) option" where
  "debug_error env msg eip s =
     (if kernel_address eip then kernel_fault (line ''1: Debug Error'') s
      else user_fault env msg 15 s)"

definition nmi_interrupt_error :: "c_env \<Rightarrow> u32 \<Rightarrow> u32 \<Rightarrow> 'a kernel_state_scheme \<Rightarrow> (fault_end \<times> 'a kernel_state_scheme) option" where
  "nmi_interrupt_error env msg eip s =
     (if kernel_address eip then kernel_fault (line ''2: Non-maskable Interrupt Error'') s
      else user_fault env msg 32 s)"

definition breakpoint_error :: "c_env \<Rightarrow> u32 \<Rightarrow> u32 \<Rightarrow> 'a kernel_state_scheme \<Rightarrow> (fault_end \<times> 'a kernel_state_scheme) option" where
  "breakpoint_error env msg eip s =
     (if kernel_address eip then kernel_fault (line ''3: Breakpoint Error'') s
      else user_fault env msg 20 s)"

definition overflow_error :: "c_env \<Rightarrow> u32 \<Rightarrow> u32 \<Rightarrow> 'a kernel_state_scheme \<Rightarrow> (fault_end \<times> 'a kernel_state_scheme) option" where
  "overflow_error env msg eip s =
     (if kernel_address eip then kernel_fault (line ''4: Overflow Error'') s
      else user_fault env msg 18 s)"

definition bound_range_exceeded_error :: "c_env \<Rightarrow> u32 \<Rightarrow> u32 \<Rightarrow> 'a kernel_state_scheme \<Rightarrow> (fault_end \<times> 'a kernel_state_scheme) option" where
  "bound_range_exceeded_error env msg eip s =
     (if kernel_address eip then kernel_fault (line ''5: Bound Range Exceeded Error'') s
      else user_fault env msg 30 s)"

definition invalid_opcode_error :: "c_env \<Rightarrow> u32 \<Rightarrow> u32 \<Rightarrow> 'a kernel_state_scheme \<Rightarrow> (fault_end \<times> 'a kernel_state_scheme) option" where
  "invalid_opcode_error env msg eip s =
     (if kernel_address eip then kernel_fault (line ''6: Invalid Opcode Error'') s
      else user_fault env msg 24 s)"

definition device_not_available_error :: "c_env \<Rightarrow> u32 \<Rightarrow> u32 \<Rightarrow> 'a kernel_state_scheme \<Rightarrow> (fault_end \<times> 'a kernel_state_scheme) option" where
  "device_not_available_error env msg eip s =
     (if kernel_address eip then kernel_fault (cstr ''7: Device Not Available Error'') s
      else user_fault env msg 28 s)"

definition dbl_fault_error :: "c_env \<Rightarrow> u32 \<Rightarrow> u32 \<Rightarrow> 'a kernel_state_scheme \<Rightarrow> (fault_end \<times> 'a kernel_state_scheme) option" where
  "dbl_fault_error env msg eip s =
     (if kernel_address eip then kernel_fault (line ''8: Double Fault Error'') s
      else user_fault env msg 22 s)"

definition coprocess_segment_overrun_error :: "c_env \<Rightarrow> u32 \<Rightarrow> u32 \<Rightarrow> 'a kernel_state_scheme \<Rightarrow> (fault_end \<times> 'a kernel_state_scheme) option" where
  "coprocess_segment_overrun_error env msg eip s =
     (if kernel_address eip then kernel_fault (line ''2: Non-maskable Interrupt Error'') s
      else user_fault env msg 38 s)"

definition invalid_tss_error :: "c_env \<Rightarrow> u32 \<Rightarrow> u32 \<Rightarrow> 'a kernel_state_scheme \<Rightarrow> (fault_end \<times> 'a kernel_state_scheme) option" where
  "invalid_tss_error env msg eip s =
     (if kernel_address eip then kernel_fault (line ''10: Invalid TSS Error'') s
      else user_fault env msg 22 s)"

definition segment_not_present_error :: "c_env \<Rightarrow> u32 \<Rightarrow> u32 \<Rightarrow> 'a kernel_state_scheme \<Rightarrow> (fault_end \<times> 'a kernel_state_scheme) option" where
  "segment_not_present_error env msg eip s =
     (if kernel_address eip then Some (Stuck, cli s)
      else user_fault env msg 30 s)"

definition stack_segment_fault_error :: "c_env \<Rightarrow> u32 \<Rightarrow> u32 \<Rightarrow> 'a kernel_state_scheme \<Rightarrow> (fault_end \<times> 'a kernel_state_scheme) option" where
  "stack_segment_fault_error env msg eip s =
     (if kernel_address eip then kernel_fault (line ''12: Stack Segment Fault Error'') s
      else user_fault env msg 30 s)"

definition gen_protection_error :: "c_env \<Rightarrow> u32 \<Rightarrow> u32 \<Rightarrow> 'a kernel_state_scheme \<Rightarrow> (fault_end \<times> 'a kernel_state_scheme) option" where
  "gen_protection_error env msg eip s =
     (if kernel_address eip then kernel_fault (line ''13: General Protection Error'') s
      else user_fault env msg 29 s)"

definition page_fault_error :: "u32 \<Rightarrow> c_env \<Rightarrow> u32 \<Rightarrow> u32 \<Rightarrow> 'a kernel_state_scheme \<Rightarrow> (fault_end \<times> 'a kernel_state_scheme) option" where
  "page_fault_error cr2 env msg eip s =
     (if kernel_address eip then do {
          (n, s) \<leftarrow> printf (line ''14: Page Fault Error'') [] (cli s);
          (n, s) \<leftarrow> printf (cstr ''at address: %x'') [PNum cr2] s;
          Some (Stuck, s)
        }
      else user_fault env msg 21 s)"

definition float_point_error :: "c_env \<Rightarrow> u32 \<Rightarrow> u32 \<Rightarrow> 'a kernel_state_scheme \<Rightarrow> (fault_end \<times> 'a kernel_state_scheme) option" where
  "float_point_error env msg eip s =
     (if kernel_address eip then kernel_fault (line ''16: Floating Point Error'') s
      else user_fault env msg 25 s)"

definition align_check_error :: "c_env \<Rightarrow> u32 \<Rightarrow> u32 \<Rightarrow> 'a kernel_state_scheme \<Rightarrow> (fault_end \<times> 'a kernel_state_scheme) option" where
  "align_check_error env msg eip s =
     (if kernel_address eip then kernel_fault (line ''17: Align Check Error'') s
      else user_fault env msg 22 s)"

definition machine_check_error :: "c_env \<Rightarrow> u32 \<Rightarrow> u32 \<Rightarrow> 'a kernel_state_scheme \<Rightarrow> (fault_end \<times> 'a kernel_state_scheme) option" where
  "machine_check_error env msg eip s =
     (if kernel_address eip then kernel_fault (line ''18: Machine Check Error'') s
      else user_fault env msg 26 s)"

definition simd_floating_point_error :: "c_env \<Rightarrow> u32 \<Rightarrow> u32 \<Rightarrow> 'a kernel_state_scheme \<Rightarrow> (fault_end \<times> 'a kernel_state_scheme) option" where
  "simd_floating_point_error env msg eip s =
     (if kernel_address eip then kernel_fault (line ''19: Simd Floating Point Error'') s
      else user_fault env msg 30 s)"

section \<open>The descriptor table\<close>

text \<open>A gate; the fields of one bit are truth values.\<close>

record idt_desc_t =
  offset_15_00 :: u16
  seg_selector :: u16
  reserved4 :: u8
  reserved3 :: bool
  reserved2 :: bool
  reserved1 :: bool
  gate_size :: bool
  reserved0 :: bool
  dpl :: "2 word"
  present :: bool
  offset_31_16 :: u16

text \<open>The operand of \<open>lidt\<close>, and the table with the register that finds it.\<close>

record x86_desc_t =
  desc_size :: u16
  desc_addr :: u32

record interrupt_tables =
  idt :: "idt_desc_t list"
  idt_desc_ptr :: x86_desc_t
  idtr :: "x86_desc_t option"

text \<open>The routines a vector can lead to: the wrappers of \<open>idt_exception_linkage.S\<close>, \<open>idt_device.S\<close>
  and \<open>syscalls_linkage.S\<close>. Their addresses are the linker's.\<close>

datatype handler_t =
    Divide_error_wrapper
  | Debug_error_wrapper
  | Nmi_interrupt_error_wrapper
  | Breakpoint_error_wrapper
  | Overflow_error_wrapper
  | Bound_range_exceeded_error_wrapper
  | Invalid_opcode_error_wrapper
  | Device_not_available_error_wrapper
  | Dbl_fault_error_wrapper
  | Coprocess_segment_overrun_error_wrapper
  | Invalid_tss_error_wrapper
  | Segment_not_present_error_wrapper
  | Stack_segment_fault_error_wrapper
  | Gen_protection_error_wrapper
  | Page_fault_error_wrapper
  | Float_point_error_wrapper
  | Align_check_error_wrapper
  | Machine_check_error_wrapper
  | Simd_floating_point_error_wrapper
  | Irq_pit
  | Irq_keyboard
  | Irq_rtc
  | Irq_mouse
  | Irq_syscall

definition SYSCALL :: nat where "SYSCALL = 0x80"
definition RTC :: nat where "RTC = 0x28"
definition KEYBOARD :: nat where "KEYBOARD = 0x21"
definition PIT_DEVICE :: nat where "PIT_DEVICE = 0x20"
definition MOUSE :: nat where "MOUSE = 0x2C"
definition DIVIDE_ZERO :: nat where "DIVIDE_ZERO = 0"
definition DEBUG :: nat where "DEBUG = 1"
definition NMI :: nat where "NMI = 2"
definition BREAK :: nat where "BREAK = 3"
definition OVER :: nat where "OVER = 4"
definition BOUNDRANGE :: nat where "BOUNDRANGE = 5"
definition INVALID_OP :: nat where "INVALID_OP = 6"
definition DEVICE :: nat where "DEVICE = 7"
definition DBL_FAULT :: nat where "DBL_FAULT = 8"
definition CO_SEGMENT :: nat where "CO_SEGMENT = 9"
definition INVALID_TSS :: nat where "INVALID_TSS = 10"
definition SEGMENT :: nat where "SEGMENT = 11"
definition STACK :: nat where "STACK = 12"
definition GEN_PROT :: nat where "GEN_PROT = 13"
definition PAGE_FAULT :: nat where "PAGE_FAULT = 14"
definition FLOAT_POINT :: nat where "FLOAT_POINT = 16"
definition ALIGN :: nat where "ALIGN = 17"
definition MACHINE :: nat where "MACHINE = 18"
definition SIMD_FLOAT :: nat where "SIMD_FLOAT = 19"
definition PIC_INTERRUPT_START :: nat where "PIC_INTERRUPT_START = 0x20"
definition PIC_INTERRUPT_END :: nat where "PIC_INTERRUPT_END = 0x2F"
definition NUM_VEC :: nat where "NUM_VEC = 256"
definition KERNEL_CS :: u16 where "KERNEL_CS = 0x10"

lemmas idt_consts = SYSCALL_def RTC_def KEYBOARD_def PIT_DEVICE_def MOUSE_def DIVIDE_ZERO_def
  DEBUG_def NMI_def BREAK_def OVER_def BOUNDRANGE_def INVALID_OP_def
  DEVICE_def DBL_FAULT_def CO_SEGMENT_def INVALID_TSS_def SEGMENT_def STACK_def
  GEN_PROT_def PAGE_FAULT_def FLOAT_POINT_def ALIGN_def MACHINE_def SIMD_FLOAT_def
  PIC_INTERRUPT_START_def PIC_INTERRUPT_END_def NUM_VEC_def KERNEL_CS_def

definition init_gate :: "nat \<Rightarrow> idt_desc_t \<Rightarrow> idt_desc_t" where
  "init_gate idx g =
     (let g = g\<lparr>reserved0 := False, reserved1 := True, reserved2 := True\<rparr>;
          g = (if idx \<ge> PIC_INTERRUPT_START \<and> idx \<le> PIC_INTERRUPT_END then g\<lparr>reserved3 := False\<rparr>
               else g\<lparr>reserved3 := True\<rparr>);
          g = (if idx = SYSCALL then g\<lparr>reserved3 := True\<rparr> else g);
          g = g\<lparr>reserved4 := 0, gate_size := True, present := True\<rparr>;
          g = (if idx = SYSCALL then g\<lparr>dpl := 3\<rparr> else g\<lparr>dpl := 0\<rparr>)
      in g\<lparr>seg_selector := KERNEL_CS\<rparr>)"

definition SET_IDT_ENTRY :: "u32 \<Rightarrow> idt_desc_t \<Rightarrow> idt_desc_t" where
  "SET_IDT_ENTRY handler g =
     g\<lparr>offset_31_16 := ucast (drop_bit 16 (handler AND 0xFFFF0000)), offset_15_00 := ucast (handler AND 0xFFFF)\<rparr>"

definition vector_table :: "(nat \<times> handler_t) list" where
  "vector_table =
    [(DIVIDE_ZERO, Divide_error_wrapper), (DEBUG, Debug_error_wrapper),
     (NMI, Nmi_interrupt_error_wrapper), (BREAK, Breakpoint_error_wrapper),
     (OVER, Overflow_error_wrapper), (BOUNDRANGE, Bound_range_exceeded_error_wrapper),
     (INVALID_OP, Invalid_opcode_error_wrapper), (DEVICE, Device_not_available_error_wrapper),
     (DBL_FAULT, Dbl_fault_error_wrapper), (CO_SEGMENT, Coprocess_segment_overrun_error_wrapper),
     (INVALID_TSS, Invalid_tss_error_wrapper), (SEGMENT, Segment_not_present_error_wrapper),
     (STACK, Stack_segment_fault_error_wrapper), (GEN_PROT, Gen_protection_error_wrapper),
     (PAGE_FAULT, Page_fault_error_wrapper), (FLOAT_POINT, Float_point_error_wrapper),
     (ALIGN, Align_check_error_wrapper), (MACHINE, Machine_check_error_wrapper),
     (SIMD_FLOAT, Simd_floating_point_error_wrapper), (PIT_DEVICE, Irq_pit),
     (KEYBOARD, Irq_keyboard), (RTC, Irq_rtc),
     (MOUSE, Irq_mouse), (SYSCALL, Irq_syscall)]"

definition lidt :: "x86_desc_t \<Rightarrow> 'a interrupt_tables_scheme \<Rightarrow> 'a interrupt_tables_scheme" where [simp]:
  "lidt desc c = c\<lparr>idtr := Some desc\<rparr>"

definition init_idt :: "(handler_t \<Rightarrow> u32) \<Rightarrow> 'a interrupt_tables_scheme \<Rightarrow> 'a interrupt_tables_scheme option" where
  "init_idt address c = do {
     t \<leftarrow> loop_over [0..<NUM_VEC] (\<lambda>idx t. do { g \<leftarrow> peek t idx; poke t idx (init_gate idx g) }) (idt c);
     t \<leftarrow> loop_over vector_table (\<lambda>(idx, h) t. do { g \<leftarrow> peek t idx; poke t idx (SET_IDT_ENTRY (address h) g) }) t;
     Some (lidt (idt_desc_ptr c) (c\<lparr>idt := t\<rparr>))
   }"

text \<open>The wrappers of the exceptions: each saves the registers and calls its handler. The processor
  reaches them through the table.\<close>

fun exception_wrapper :: "handler_t \<Rightarrow> u32 \<Rightarrow> c_env \<Rightarrow> u32 \<Rightarrow> u32 \<Rightarrow> 'a kernel_state_scheme \<Rightarrow> (fault_end \<times> 'a kernel_state_scheme) option" where
  "exception_wrapper Divide_error_wrapper cr2 env msg eip s = divide_error env msg eip s"
| "exception_wrapper Debug_error_wrapper cr2 env msg eip s = debug_error env msg eip s"
| "exception_wrapper Nmi_interrupt_error_wrapper cr2 env msg eip s = nmi_interrupt_error env msg eip s"
| "exception_wrapper Breakpoint_error_wrapper cr2 env msg eip s = breakpoint_error env msg eip s"
| "exception_wrapper Overflow_error_wrapper cr2 env msg eip s = overflow_error env msg eip s"
| "exception_wrapper Bound_range_exceeded_error_wrapper cr2 env msg eip s = bound_range_exceeded_error env msg eip s"
| "exception_wrapper Invalid_opcode_error_wrapper cr2 env msg eip s = invalid_opcode_error env msg eip s"
| "exception_wrapper Device_not_available_error_wrapper cr2 env msg eip s = device_not_available_error env msg eip s"
| "exception_wrapper Dbl_fault_error_wrapper cr2 env msg eip s = dbl_fault_error env msg eip s"
| "exception_wrapper Coprocess_segment_overrun_error_wrapper cr2 env msg eip s = coprocess_segment_overrun_error env msg eip s"
| "exception_wrapper Invalid_tss_error_wrapper cr2 env msg eip s = invalid_tss_error env msg eip s"
| "exception_wrapper Segment_not_present_error_wrapper cr2 env msg eip s = segment_not_present_error env msg eip s"
| "exception_wrapper Stack_segment_fault_error_wrapper cr2 env msg eip s = stack_segment_fault_error env msg eip s"
| "exception_wrapper Gen_protection_error_wrapper cr2 env msg eip s = gen_protection_error env msg eip s"
| "exception_wrapper Page_fault_error_wrapper cr2 env msg eip s = page_fault_error cr2 env msg eip s"
| "exception_wrapper Float_point_error_wrapper cr2 env msg eip s = float_point_error env msg eip s"
| "exception_wrapper Align_check_error_wrapper cr2 env msg eip s = align_check_error env msg eip s"
| "exception_wrapper Machine_check_error_wrapper cr2 env msg eip s = machine_check_error env msg eip s"
| "exception_wrapper Simd_floating_point_error_wrapper cr2 env msg eip s = simd_floating_point_error env msg eip s"
| "exception_wrapper Irq_pit cr2 env msg eip s = None"
| "exception_wrapper Irq_keyboard cr2 env msg eip s = None"
| "exception_wrapper Irq_rtc cr2 env msg eip s = None"
| "exception_wrapper Irq_mouse cr2 env msg eip s = None"
| "exception_wrapper Irq_syscall cr2 env msg eip s = None"

definition take_exception :: "nat \<Rightarrow> u32 \<Rightarrow> c_env \<Rightarrow> u32 \<Rightarrow> u32 \<Rightarrow> 'a kernel_state_scheme \<Rightarrow> (fault_end \<times> 'a kernel_state_scheme) option" where
  "take_exception v cr2 env msg eip s =
     do { h \<leftarrow> map_of vector_table v; exception_wrapper h cr2 env msg eip s }"

lemmas handler_defs = divide_error_def
  debug_error_def
  nmi_interrupt_error_def
  breakpoint_error_def
  overflow_error_def
  bound_range_exceeded_error_def
  invalid_opcode_error_def
  device_not_available_error_def
  dbl_fault_error_def
  coprocess_segment_overrun_error_def
  invalid_tss_error_def
  segment_not_present_error_def
  stack_segment_fault_error_def
  gen_protection_error_def
  page_fault_error_def
  float_point_error_def
  align_check_error_def
  machine_check_error_def
  simd_floating_point_error_def

section \<open>The table after its initialisation\<close>

lemma map_loop:
  assumes "n \<le> length t"
  shows "loop_over [0..<n] (\<lambda>i t. do { g \<leftarrow> peek t i; poke t i (f i g) }) t
    = Some (map (\<lambda>i. f i (t ! i)) [0..<n] @ drop n t)"
  using assms
proof (induction n)
  case (Suc n)
  let ?l = "map (\<lambda>i. f i (t ! i)) [0..<n] @ drop n t"
  have n: "n < length t" "?l ! n = t ! n" using Suc.prems by (simp_all add: nth_append)
  have "?l[n := f n (t ! n)] = map (\<lambda>i. f i (t ! i)) [0..<Suc n] @ drop (Suc n) t"
    using n(1) by (simp add: list_update_append Cons_nth_drop_Suc [symmetric])
  with Suc n show ?case by (simp add: loop_over_append)
qed simp

lemma table_loop:
  assumes "distinct (map fst tbl)" "\<forall>(i, h)\<in>set tbl. i < length t"
  shows "\<exists>u. loop_over tbl (\<lambda>(i, h) t. do { g \<leftarrow> peek t i; poke t i (f h g) }) t = Some u
    \<and> length u = length t
    \<and> (\<forall>v<length t. u ! v = (case map_of tbl v of Some h \<Rightarrow> f h (t ! v) | None \<Rightarrow> t ! v))"
  using assms
proof (induction tbl arbitrary: t)
  case (Cons p tbl)
  obtain i h where p: "p = (i, h)" by (cases p)
  have i: "i < length t" and new: "map_of tbl i = None"
    using Cons.prems p by (auto simp: map_of_eq_None_iff)
  obtain u where "loop_over tbl (\<lambda>(i, h) t. do { g \<leftarrow> peek t i; poke t i (f h g) }) (t[i := f h (t ! i)]) = Some u"
    "length u = length t"
    "\<forall>v<length t. u ! v = (case map_of tbl v of Some h' \<Rightarrow> f h' (t[i := f h (t ! i)] ! v) | None \<Rightarrow> t[i := f h (t ! i)] ! v)"
    using Cons.IH [of "t[i := f h (t ! i)]"] Cons.prems by auto
  moreover from this(3) new i have "\<forall>v<length t. u ! v = (case map_of (p # tbl) v of Some h' \<Rightarrow> f h' (t ! v) | None \<Rightarrow> t ! v)"
    using p by (auto simp: nth_list_update split: option.splits)
  ultimately show ?case using i p by auto
qed simp

definition gate_target :: "idt_desc_t \<Rightarrow> u32" where
  "gate_target g = push_bit 16 (ucast (offset_31_16 g)) OR ucast (offset_15_00 g)"

lemma gate_target_entry [simp]: "gate_target (SET_IDT_ENTRY a g) = a"
proof -
  have m: "(0xFFFF0000 :: u32) = push_bit 16 (mask 16)" "(0xFFFF :: u32) = mask 16"
    by (simp_all add: mask_eq_exp_minus_1)
  show ?thesis
    unfolding gate_target_def SET_IDT_ENTRY_def m
    by (rule bit_word_eqI) (auto simp: bit_simps)
qed

lemma init_gate_fields:
  "present (init_gate v g)" "gate_size (init_gate v g)" "seg_selector (init_gate v g) = 0x10"
  "reserved4 (init_gate v g) = 0" "reserved2 (init_gate v g)" "reserved1 (init_gate v g)" "\<not> reserved0 (init_gate v g)"
  "reserved3 (init_gate v g) = (v \<notin> {0x20..0x2F})" "dpl (init_gate v g) = (if v = 0x80 then 3 else 0)"
  "gate_target (init_gate v g) = gate_target g"
  by (simp_all add: init_gate_def Let_def idt_consts gate_target_def)

lemma set_entry_fields [simp]:
  "present (SET_IDT_ENTRY a g) = present g" "gate_size (SET_IDT_ENTRY a g) = gate_size g"
  "seg_selector (SET_IDT_ENTRY a g) = seg_selector g" "reserved4 (SET_IDT_ENTRY a g) = reserved4 g"
  "reserved3 (SET_IDT_ENTRY a g) = reserved3 g" "reserved2 (SET_IDT_ENTRY a g) = reserved2 g"
  "reserved1 (SET_IDT_ENTRY a g) = reserved1 g" "reserved0 (SET_IDT_ENTRY a g) = reserved0 g"
  "dpl (SET_IDT_ENTRY a g) = dpl g"
  by (simp_all add: SET_IDT_ENTRY_def)

lemma init_idt_run:
  assumes "length (idt c) = 256"
  shows "\<exists>t. init_idt address c = Some (c\<lparr>idt := t, idtr := Some (idt_desc_ptr c)\<rparr>) \<and> length t = 256
    \<and> (\<forall>v<256. t ! v = (case map_of vector_table v of Some h \<Rightarrow> SET_IDT_ENTRY (address h) (init_gate v (idt c ! v))
        | None \<Rightarrow> init_gate v (idt c ! v)))"
proof -
  let ?g = "map (\<lambda>i. init_gate i (idt c ! i)) [0..<256]"
  have "loop_over [0..<NUM_VEC] (\<lambda>i t. do { g \<leftarrow> peek t i; poke t i (init_gate i g) }) (idt c) = Some ?g"
    using map_loop [of NUM_VEC "idt c" init_gate] assms by (simp add: NUM_VEC_def del: upt_Suc)
  moreover have "distinct (map fst vector_table)" "\<forall>(i, h)\<in>set vector_table. i < length ?g"
    by (simp_all add: vector_table_def idt_consts del: upt_Suc)
  from table_loop [OF this, of "\<lambda>h. SET_IDT_ENTRY (address h)"] obtain t where
    "loop_over vector_table (\<lambda>(i, h) t. do { g \<leftarrow> peek t i; poke t i (SET_IDT_ENTRY (address h) g) }) ?g = Some t"
    "length t = 256"
    "\<forall>v<256. t ! v = (case map_of vector_table v of Some h \<Rightarrow> SET_IDT_ENTRY (address h) (?g ! v) | None \<Rightarrow> ?g ! v)"
    by (auto simp del: upt_Suc)
  ultimately show ?thesis by (intro exI [of _ t]) (simp add: init_idt_def cong: option.case_cong del: upt_Suc)
qed

text \<open>
  C17. \<open>init_idt\<close> prepares every gate of a table of 256 and loads the table: all gates are present, in
  the kernel's code segment and of 32 bits; the vectors 0x20 to 0x2F of the interrupt controllers are
  interrupt gates and the others trap gates; only the system call's gate can be reached from user mode.
  Each of the 24 vectors with a handler leads to its handler, the other targets are left as they were.
\<close>

theorem init_idt_gates:
  assumes "length (idt c) = 256"
  shows "\<exists>t. init_idt address c = Some (c\<lparr>idt := t, idtr := Some (idt_desc_ptr c)\<rparr>) \<and> length t = 256
    \<and> (\<forall>v<256. present (t ! v) \<and> gate_size (t ! v) \<and> seg_selector (t ! v) = 0x10 \<and> reserved4 (t ! v) = 0
         \<and> reserved2 (t ! v) \<and> reserved1 (t ! v) \<and> \<not> reserved0 (t ! v)
         \<and> reserved3 (t ! v) = (v \<notin> {0x20..0x2F})
         \<and> dpl (t ! v) = (if v = 0x80 then 3 else 0)
         \<and> gate_target (t ! v) = (case map_of vector_table v of Some h \<Rightarrow> address h | None \<Rightarrow> gate_target (idt c ! v)))"
proof -
  obtain t where "init_idt address c = Some (c\<lparr>idt := t, idtr := Some (idt_desc_ptr c)\<rparr>)" "length t = 256"
    "\<forall>v<256. t ! v = (case map_of vector_table v of Some h \<Rightarrow> SET_IDT_ENTRY (address h) (init_gate v (idt c ! v))
        | None \<Rightarrow> init_gate v (idt c ! v))"
    using init_idt_run [OF assms] by blast
  then show ?thesis
    by (intro exI [of _ t]) (simp add: init_gate_fields split: option.splits)
qed

definition zero_gate :: idt_desc_t where
  "zero_gate = idt_desc_t.make 0 0 0 False False False False False 0 False 0"

definition zero_tables :: interrupt_tables where
  "zero_tables = interrupt_tables.make (replicate 256 zero_gate) (x86_desc_t.make 0x7FF 0x409000) None"

theorem init_idt_gates_witness:
  "\<exists>c. init_idt (\<lambda>h. if h = Page_fault_error_wrapper then 0x00401234 else 0x00405678) zero_tables = Some c
     \<and> gate_target (idt c ! 14) = 0x00401234 \<and> reserved3 (idt c ! 14) \<and> dpl (idt c ! 14) = 0
     \<and> gate_target (idt c ! 0x80) = 0x00405678 \<and> dpl (idt c ! 0x80) = 3 \<and> \<not> reserved3 (idt c ! 0x21)
     \<and> gate_target (idt c ! 15) = 0"
proof -
  let ?a = "\<lambda>h. if h = Page_fault_error_wrapper then 0x00401234 else 0x00405678 :: u32"
  have z: "idt zero_tables = replicate 256 zero_gate" by (simp add: zero_tables_def interrupt_tables.make_def)
  obtain t where t: "init_idt ?a zero_tables = Some (zero_tables\<lparr>idt := t, idtr := Some (idt_desc_ptr zero_tables)\<rparr>)"
    "\<forall>v<256. reserved3 (t ! v) = (v \<notin> {0x20..0x2F}) \<and> dpl (t ! v) = (if v = 0x80 then 3 else 0)
      \<and> gate_target (t ! v) = (case map_of vector_table v of Some h \<Rightarrow> ?a h | None \<Rightarrow> gate_target (replicate 256 zero_gate ! v))"
    using init_idt_gates [of zero_tables ?a] unfolding z by auto
  note v = t(2) [rule_format]
  have "map_of vector_table 14 = Some Page_fault_error_wrapper" "map_of vector_table 0x80 = Some Irq_syscall"
    "map_of vector_table 15 = None"
    by (simp_all add: vector_table_def idt_consts)
  with t(1) v [of 14] v [of "0x80"] v [of "0x21"] v [of 15] show ?thesis
    by (simp add: gate_target_def zero_gate_def idt_desc_t.make_def)
qed

section \<open>Exceptions\<close>

lemma kernel_fault_run:
  "render_text shown [] = Some (n, bs) \<Longrightarrow> kernel_fault shown s = Some (Stuck, fold putc bs (cli s))"
  by (simp add: kernel_fault_def printf_def printf_text_render)

lemma render_plain:
  "0 \<notin> set bs \<Longrightarrow> 37 \<notin> set bs \<Longrightarrow> render_text (bs @ [0]) [] = Some (int (length bs), bs)"
  by (induction bs) auto

lemma vector_numbers:
  assumes "v < 20" "v \<noteq> 15"
  obtains "v = 0" | "v = 1" | "v = 2" | "v = 3" | "v = 4" | "v = 5" | "v = 6" | "v = 7" | "v = 8" | "v = 9"
    | "v = 10" | "v = 11" | "v = 12" | "v = 13" | "v = 14" | "v = 16" | "v = 17" | "v = 18" | "v = (19::nat)"
  using assms by (auto simp: less_Suc_eq numeral_eq_Suc)

lemma numeral_of_low: "numeral_of 10 0 = [48]" "numeral_of 10 1 = [49]" "numeral_of 10 2 = [50]"
  "numeral_of 10 3 = [51]" "numeral_of 10 4 = [52]" "numeral_of 10 5 = [53]" "numeral_of 10 6 = [54]"
  "numeral_of 10 7 = [55]" "numeral_of 10 8 = [56]" "numeral_of 10 10 = [49, 48]" "numeral_of 10 12 = [49, 50]"
  "numeral_of 10 13 = [49, 51]" "numeral_of 10 14 = [49, 52]" "numeral_of 10 16 = [49, 54]"
  "numeral_of 10 17 = [49, 55]" "numeral_of 10 18 = [49, 56]" "numeral_of 10 19 = [49, 57]"
  by (simp_all add: numeral_of_def radix_digits.simps digit_char_def itoa_lookup_eval)

lemma exception_in_user:
  assumes "v < 20" "v \<noteq> 15" "\<not> kernel_address eip"
  shows "\<exists>len. 0 \<le> sint len \<and> take_exception v cr2 env msg eip s = user_fault env msg len s"
  using assms(1,2)
  by (cases rule: vector_numbers)
    (simp_all add: take_exception_def vector_table_def idt_consts handler_defs assms(3),
     (rule exI, rule conjI [rotated], rule refl, simp)+)

definition faults :: "nat \<Rightarrow> (fault_end \<times> 'a kernel_state_scheme) option \<Rightarrow> 'a kernel_state_scheme \<Rightarrow> bool" where
  "faults v r s \<longleftrightarrow> (\<exists>bs. r = Some (Stuck, fold putc bs (cli s))
     \<and> (v \<noteq> 9 \<and> v \<noteq> 11 \<longrightarrow> (\<exists>rest. bs = numeral_of 10 v @ 58 # rest)))"

lemma faults_line:
  assumes "0 \<notin> set (chars m)" "37 \<notin> set (chars m)" "v = 9 \<or> (\<exists>rest. chars m = numeral_of 10 v @ 58 # rest)"
  shows "faults v (kernel_fault (line m) s) s" "faults v (kernel_fault (cstr m) s) s"
proof -
  have eq: "line m = (chars m @ [10]) @ [0]" "cstr m = chars m @ [0]"
    by (simp_all add: line_def cstr_def)
  show "faults v (kernel_fault (cstr m) s) s"
    using kernel_fault_run [OF render_plain [OF assms(1,2)], of s] assms(3) by (auto simp: faults_def eq)
  have "render_text (line m) [] = Some (int (length (chars m @ [10])), chars m @ [10])"
    unfolding eq by (rule render_plain) (use assms(1,2) in simp_all)
  from kernel_fault_run [OF this, of s] show "faults v (kernel_fault (line m) s) s"
    using assms(3) unfolding faults_def by (intro exI [of _ "chars m @ [10]"]) auto
qed

lemma page_fault_run:
  assumes "kernel_address eip"
  shows "faults 14 (page_fault_error cr2 env msg eip s) s"
proof -
  let ?a = "chars ''14: Page Fault Error'' @ [10]" and ?b = "chars ''at address: '' @ numeral_of 16 (unat cr2)"
  have "\<exists>n. render_text (line ''14: Page Fault Error'') [] = Some (n, ?a)"
    "\<exists>n. render_text (cstr ''at address: %x'') [PNum cr2] = Some (n, ?b)"
    by (simp_all add: line_def cstr_def chars_def)
  then have "page_fault_error cr2 env msg eip s = Some (Stuck, fold putc (?a @ ?b) (cli s))"
    using assms by (auto simp: page_fault_error_def printf_def printf_text_render(1))
  moreover have "?a @ ?b = numeral_of 10 14 @ 58 # drop 3 (?a @ ?b)"
    by (simp add: chars_def numeral_of_low)
  ultimately show ?thesis unfolding faults_def by blast
qed

lemma exception_in_kernel:
  assumes "v < 20" "v \<noteq> 15" "kernel_address eip"
  shows "faults v (take_exception v cr2 env msg eip s) s"
  using assms(1,2)
proof (cases rule: vector_numbers)
  case 12
  then show ?thesis
    by (auto simp: take_exception_def vector_table_def idt_consts handler_defs assms(3) faults_def intro: exI [of _ "[]"])
next
  case 15
  then show ?thesis
    by (simp add: take_exception_def vector_table_def idt_consts page_fault_run [OF assms(3)])
qed (simp_all add: take_exception_def vector_table_def idt_consts handler_defs assms(3) del: One_nat_def,
    (rule faults_line, simp_all add: chars_def numeral_of_low del: One_nat_def)+)

lemma fold_putc_kernel [simp]:
  "console_state.more (fold putc bs s) = console_state.more s"
  by (induction bs arbitrary: s) simp_all


lemma user_fault_run:
  assumes st: "process_stacks st s" and procs: "procs_ok s" and i: "i < 3" and c: "st ! i = k # q # r"
    and cur: "current_process_pid s = multi_process_idx s ! i" and child: "3 \<le> k"
    and cl: "\<forall>j\<in>{2..<8}. closable (file_array (PCB s ! k) ! j)"
    and out: "is_present (file_array (PCB s ! k) ! 1)" "operation_table (file_array (PCB s ! k) ! 1) = TerminalDriver"
    and scr: "active_screen s = Some (addr, j)" "j < length (three_terminals s)" "term_ok (three_terminals s ! j)"
    and args: "msg \<noteq> 0" "0 \<le> sint len"
  shows "\<exists>u. user_fault env msg len s = Some (Left (ParentReturns 256), u)
    \<and> process_stacks (st[i := q # r]) u \<and> procs_ok u \<and> current_process_pid u = multi_process_idx u ! i
    \<and> error_return_value u = 0
    \<and> (\<forall>a. \<not> in_range a addr 3840 \<and> \<not> in_range a 0xB8F00 160 \<longrightarrow> mem u a = mem s a)
    \<and> num_multiprocess u = num_multiprocess s \<and> current_multiprocess u = current_multiprocess s
    \<and> length (three_terminals u) = length (three_terminals s) \<and> current_term u = current_term s"
proof -
  have len: "length (PCB s) = 6" "length (multi_process_idx s) = 3"
    using procs st by (simp_all add: procs_ok_def process_stacks_def)
  have k: "k < 6" "current_process_pid s = of_nat k"
    using stacks_can_halt(1) [OF st procs i c cur cl] by (simp_all add: can_halt_def)
  have "pcb_ok (PCB s ! k)" using procs k(1) len(1) nth_mem [of k "PCB s"] by (simp add: procs_ok_def)
  then have f8: "length (file_array (PCB s ! k)) = 8" by (simp add: pcb_ok_def)
  obtain t m log where w: "terminal_write 1 msg len s
      = Some (len, with_term (s\<lparr>io_log := log, int_flag := True\<rparr>) j (t, m))"
    "\<forall>a. \<not> in_range a addr 3840 \<longrightarrow> m a = mem s a"
    using terminal_write_run [OF scr args, of 1] by blast
  let ?w = "(with_term (s\<lparr>io_log := log, int_flag := True\<rparr>) j (t, m))\<lparr>error_return_value := 256\<rparr>"
  have out1: "get_fd 1 s = Some (file_array (PCB s ! k) ! 1)"
    using k len f8 by (simp add: get_fd_def current_PCB_def unat_of_nat)
  have "sys_write 1 msg len s = terminal_write 1 msg len s"
    using out out1 by (simp add: sys_write_def kernel_consts STDIN_FD_def is_present_def)
  then have run: "user_fault env msg len s = sys_halt env 0 ?w \<bind> (\<lambda>(c, s). Some (Left c, s))"
    using w(1) by (simp add: user_fault_def sys_halt_wrapper_def HALT_EXCEPTION_def)
  have same: "only_fds_changed k (file_array (PCB s ! k)) s ?w"
    using k len by (simp add: only_fds_changed_def with_term_def)
  note ws = only_fds_changed_stacks [OF same st procs f8 k(1)]
  have cur_w: "current_process_pid ?w = multi_process_idx ?w ! i" using cur by (simp add: with_term_def)
  have cl_w: "\<forall>j\<in>{2..<8}. closable (file_array (PCB ?w ! k) ! j)" using cl ws(6) by simp
  obtain u where u: "sys_halt env 0 ?w = Some (ParentReturns 256, u)" "halted k q ?w u"
    "process_stacks (st[i := q # r]) u" "procs_ok u" "current_process_pid u = of_nat q"
    "multi_process_idx u = (multi_process_idx ?w)[i := of_nat q]"
    using halt_pops_run [OF ws(1,2) i c cur_w child cl_w, of env 0] by auto
  obtain u' where "sys_halt env 0 ?w = Some (ParentReturns 256, u')" "\<forall>x. \<not> in_range x 0xB8F00 160 \<longrightarrow> mem u' x = mem ?w x"
    using sys_halt_run [OF stacks_can_halt(1) [OF ws(1,2) i c cur_w cl_w], of env 0] by auto
  then have "\<forall>x. \<not> in_range x 0xB8F00 160 \<longrightarrow> mem u x = m x" using u(1) by (simp add: with_term_def)
  moreover have "error_return_value u = 0" "num_multiprocess u = num_multiprocess s" "current_multiprocess u = current_multiprocess s"
    "length (three_terminals u) = length (three_terminals s)" "current_term u = current_term s"
    using u(2) by (simp_all add: halted_def Let_def with_term_def)
  ultimately show ?thesis
    using u run w(2) i len(2) by (simp add: with_term_def)
qed

text \<open>
  C9. An exception in a program ends only that program: whatever the vector, the process is popped from
  the stack of its terminal, its parent becomes current again and receives 256 from \<open>sys_execute\<close>,
  the other stacks stay, and the message and the new status bar are the only changes of memory.
\<close>

theorem user_exception_halts:
  assumes "v < 20" and "v \<noteq> 15" and "\<not> (0x400000 \<le> eip \<and> eip \<le> 0x800000)" and "msg \<noteq> 0"
    and "process_stacks st s" and "procs_ok s" and "i < 3" and "st ! i = k # q # r"
    and "current_process_pid s = multi_process_idx s ! i" and "3 \<le> k"
    and "\<forall>j\<in>{2..<8}. closable (file_array (PCB s ! k) ! j)"
    and "is_present (file_array (PCB s ! k) ! 1)" and "operation_table (file_array (PCB s ! k) ! 1) = TerminalDriver"
    and "active_screen s = Some (addr, j)" and "j < length (three_terminals s)" and "term_ok (three_terminals s ! j)"
  shows "\<exists>u. take_exception v cr2 env msg eip s = Some (Left (ParentReturns 256), u)
    \<and> process_stacks (st[i := q # r]) u \<and> procs_ok u \<and> current_process_pid u = multi_process_idx u ! i
    \<and> error_return_value u = 0
    \<and> (\<forall>a. \<not> in_range a addr 3840 \<and> \<not> in_range a 0xB8F00 160 \<longrightarrow> mem u a = mem s a)"
proof -
  have "\<not> kernel_address eip"
    using assms(3) by (simp add: kernel_address_def KERNEL_MEM_START_def KERNEL_MEM_END_def)
  from exception_in_user [OF assms(1,2) this] obtain len where
    "0 \<le> sint len" "take_exception v cr2 env msg eip s = user_fault env msg len s" by blast
  with user_fault_run [OF assms(5-16,4), of len env] show ?thesis by (simp only:) blast
qed

section \<open>Witnesses\<close>


theorem user_exception_halts_witness:
  "\<exists>u. take_exception 0 0 tiny_env 0x40A000 0x08048010 child_kernel = Some (Left (ParentReturns 256), u)
    \<and> process_stacks [[0], [1], [2]] u"
proof -
  have fd: "is_present (file_array (PCB child_kernel ! 3) ! 1)" "operation_table (file_array (PCB child_kernel ! 3) ! 1) = TerminalDriver"
    by (simp_all add: child_tables child_pcb_def tiny_pcb_def is_present_def fd_of_def kernel_consts)
  have t: "three_terminals child_kernel = replicate 3 blank_term"
    by (simp add: child_kernel_def exec_kernel_def tiny_kernel_def)
  then have scr: "active_screen child_kernel = Some (0xB8000, 0)" "0 < length (three_terminals child_kernel)"
    "term_ok (three_terminals child_kernel ! 0)"
    by (simp_all add: active_screen_def child_kernel_def exec_kernel_def tiny_kernel_def VISUAL_VIRTUAL_ADDR_def blank_term_ok)
  show ?thesis
    using user_exception_halts [of 0 "0x08048010" "0x40A000", OF _ _ _ _ child_stacks child_procs, of 0 3 0 "[]", OF _ _ _ _ _ _ _ _ child_closable fd scr,
        of 0 tiny_env]
    by (simp add: child_tables) blast
qed

end
