(* ===== verification/Mounting.thy ===== *)
theory Mounting
  imports FileOps
begin

text \<open>
  What \<open>fs_init\<close> of \<open>src/fs/fs.c\<close> does to the bitmaps: its walk over the directory of an image.
\<close>

section \<open>The blocks of one inode\<close>

declare mark_blocks.simps [simp del]

lemma mark_blocks_cong:
  assumes "\<And>q. q < 4096 \<Longrightarrow> m' (inode + of_nat q) = m (inode + of_nat q)"
  shows "mark_blocks inode j m' b = mark_blocks inode j m b"
proof (induction "1023 - j" arbitrary: j b rule: less_induct)
  case less
  show ?case
  proof (cases "j < 1023")
    case True
    have "load32 m' (inode + of_nat (4 + 4 * j)) = load32 m (inode + of_nat (4 + 4 * j))"
    proof (rule load32_cong_off)
      fix i :: nat assume "i < 4"
      then have "4 + 4 * j + i < 4096" using True by simp
      then show "m' (inode + of_nat (4 + 4 * j + i)) = m (inode + of_nat (4 + 4 * j + i))" by (rule assms)
    qed
    then have "data_blocks_idx inode (of_nat j) m' = data_blocks_idx inode (of_nat j) m"
      by (simp add: data_blocks_idx_def data_block_slot_def algebra_simps)
    moreover have "mark_blocks inode (j + 1) m' = mark_blocks inode (j + 1) m"
      using less [of "j + 1"] True by (intro ext) simp
    ultimately show ?thesis by (simp only: mark_blocks.simps [of inode j])
  qed (simp add: MAX_BLOCKS_IN_INODE_def mark_blocks.simps)
qed

lemma mark_blocks_length:
  "mark_blocks inode j m b = Some r \<Longrightarrow> length b' = length b \<Longrightarrow>
    \<exists>r'. mark_blocks inode j m b' = Some r' \<and> length r' = length b'"
proof (induction "1023 - j" arbitrary: j b b' rule: less_induct)
  case less
  show ?case
  proof (cases "j < 1023")
    case True
    obtain k where k: "data_blocks_idx inode (of_nat j) m = Some k"
      using True by (simp add: data_blocks_idx_def data_block_slot_def MAX_BLOCKS_IN_INODE_def unat_of_nat)
    show ?thesis
    proof (cases "k = 0")
      case False
      then have "unat k < length b" and "mark_blocks inode (j + 1) m (b[unat k := 1]) = Some r"
        using less.prems(1) True k by (auto simp: mark_blocks.simps [of inode j] MAX_BLOCKS_IN_INODE_def bind_eq_Some_conv poke_def split: if_splits)
      with less.hyps [of "j + 1" "b[unat k := 1]" "b'[unat k := 1]"] True False k less.prems(2) show ?thesis
        by (auto simp: mark_blocks.simps [of inode j] MAX_BLOCKS_IN_INODE_def)
    qed (use True k in \<open>simp add: mark_blocks.simps [of inode j] MAX_BLOCKS_IN_INODE_def\<close>)
  qed (simp add: MAX_BLOCKS_IN_INODE_def mark_blocks.simps)
qed

section \<open>The walk\<close>

text \<open>
  An image whose directory can be walked: a named entry with an inode number has one of the 64 of
  the bitmap, and the words \<open>get_inode_by_idx\<close> takes for its block indices lie in the other bitmap.
\<close>

definition entry_inode :: "'a fs_state_scheme \<Rightarrow> nat \<Rightarrow> u32" where
  "entry_inode s i = load32 (mem s) (entry_addr (fs_boot_block s) i + 0x24)"

definition entry_used :: "'a fs_state_scheme \<Rightarrow> nat \<Rightarrow> bool" where
  "entry_used s i \<longleftrightarrow> mem s (entry_addr (fs_boot_block s) i) \<noteq> 0 \<and> entry_inode s i \<noteq> 0"

definition can_walk :: "'a fs_state_scheme \<Rightarrow> bool" where
  "can_walk s \<longleftrightarrow> num_dir_entries s \<le> 63 \<and> 12288 \<le> image_size s \<and> image_size s \<le> 4294967296
     \<and> (\<forall>i < unat (num_dir_entries s). entry_used s i \<longrightarrow>
          entry_inode s i < 64 \<and> fs_boot_block s + entry_inode s i + 0x1000 \<noteq> 0
          \<and> mark_blocks (fs_boot_block s + entry_inode s i + 0x1000) 0 (mem s) (replicate 59 0) \<noteq> None)"

text \<open>The state after some entries: the bitmaps and the 64 bytes of \<open>dir_entry\<close> may differ.\<close>

definition walked :: "u32 \<Rightarrow> nat set \<Rightarrow> 'a fs_state_scheme \<Rightarrow> 'a fs_state_scheme \<Rightarrow> bool" where
  "walked p marked s t \<longleftrightarrow> (\<exists>m db ib. t = s\<lparr>mem := m, data_block_bitmap := db, inode_bitmap := ib\<rparr>
     \<and> length db = 59 \<and> length ib = 64 \<and> (\<forall>x. \<not> in_range x p 64 \<longrightarrow> m x = mem s x)
     \<and> (\<forall>k<64. ib ! k = (if k \<in> marked then 1 else inode_bitmap s ! k)))"

lemma entry_addr_of: "entry_addr base i + of_nat q = base + of_nat (64 + 64 * i + q)"
  by (simp add: entry_addr_def algebra_simps)

lemma walked_image:
  assumes w: "walked p marked s t" and ap: "buffer_apart s p 64" and c: "can_walk s"
  shows "same_image s t" "num_dir_entries t = num_dir_entries s" "fs_boot_block t = fs_boot_block s"
    "image_size t = image_size s"
proof -
  show sm: "same_image s t"
    using w ap by (intro same_image_gather [of s p 64]) (auto simp: walked_def)
  then show base: "fs_boot_block t = fs_boot_block s" by (simp add: same_image_def)
  have sz: "image_size s \<le> 4294967296" "12288 \<le> image_size s" using c by (simp_all add: can_walk_def)
  show "num_dir_entries t = num_dir_entries s"
    using same_image_load [OF sm sz(1), of 0] sz(2) by (simp add: num_dir_entries_def base)
  show "image_size t = image_size s"
    using same_image_load [OF sm sz(1), of 4] same_image_load [OF sm sz(1), of 8] sz(2)
    by (simp add: image_size_def num_inodes_def num_data_blocks_def base)
qed

text \<open>The entry is copied to \<open>dir_entry\<close> and found there.\<close>

lemma copied_entry:
  assumes w: "walked p marked s t" and ap: "buffer_apart s p 64" and c: "can_walk s" and i: "i < unat (num_dir_entries s)"
  defines "u \<equiv> t\<lparr>mem := memcpy p (entry_addr (fs_boot_block s) i) 64 (mem t)\<rparr>"
  shows "walked p marked s u" "mem u p = mem s (entry_addr (fs_boot_block s) i)"
    "load32 (mem u) (p + 0x24) = entry_inode s i"
proof -
  let ?e = "entry_addr (fs_boot_block s) i"
  note im = walked_image [OF w ap c]
  have sz: "image_size s \<le> 4294967296" "12288 \<le> image_size s" "i < 63"
    using c i by (auto simp: can_walk_def word_le_nat_alt)
  have inside: "in_range (?e + of_nat q) (fs_boot_block s) (image_size s)" if "q < 64" for q
    unfolding entry_addr_of using that sz by (intro in_range_offset) auto
  have "\<not> unat (p - ?e) < 64"
  proof
    assume "unat (p - ?e) < 64"
    from inside [OF this] have "in_range p (fs_boot_block s) (image_size s)" by simp
    moreover have "\<not> in_range (p + of_nat 0) (fs_boot_block s) (image_size s)"
      using ap unfolding buffer_apart_def by (metis zero_less_numeral)
    ultimately show False by simp
  qed
  then have ok: "copy_ok p ?e (unat (64 :: u32))" by (simp add: copy_ok_def)
  have cp: "mem u = copy_block (mem t) p ?e 64"
    using memcpy_copy [OF ok, of "mem t"] by (simp add: u_def)
  have out: "\<forall>x. \<not> in_range x p 64 \<longrightarrow> mem u x = mem t x" by (simp add: cp copy_block_def)
  obtain m db ib where t: "t = s\<lparr>mem := m, data_block_bitmap := db, inode_bitmap := ib\<rparr>"
    "length db = 59" "length ib = 64" "\<forall>x. \<not> in_range x p 64 \<longrightarrow> m x = mem s x"
    "\<forall>k<64. ib ! k = (if k \<in> marked then 1 else inode_bitmap s ! k)"
    using w unfolding walked_def by blast
  have "u = s\<lparr>mem := mem u, data_block_bitmap := db, inode_bitmap := ib\<rparr>" by (simp add: u_def t(1))
  moreover have "\<forall>x. \<not> in_range x p 64 \<longrightarrow> mem u x = mem s x" using out t(1,4) by simp
  ultimately show "walked p marked s u" unfolding walked_def using t(2,3,5) by blast
  have byte: "mem u (p + of_nat q) = mem s (?e + of_nat q)" if "q < 64" for q
  proof -
    have "in_range (p + of_nat q) p 64" using that by (intro in_range_offset) auto
    then have "mem u (p + of_nat q) = mem t (?e + of_nat q)" by (simp add: cp copy_block_def)
    also have "\<dots> = mem s (?e + of_nat q)" using im(1) inside [OF that] by (simp add: same_image_def)
    finally show ?thesis .
  qed
  from byte [of 0] show "mem u p = mem s ?e" by simp
  have "load32 (mem u) (p + 0x24) = load32 (mem s) (?e + 0x24)"
    using byte [of "0x24"] byte [of "0x25"] byte [of "0x26"] byte [of "0x27"] by (simp add: load32_def add.assoc)
  then show "load32 (mem u) (p + 0x24) = entry_inode s i" by (simp add: entry_inode_def)
qed

lemma init_entry_run:
  assumes w: "walked p marked s t" and ap: "buffer_apart s p 64" and c: "can_walk s" and i: "i < unat (num_dir_entries s)"
  shows "\<exists>u. init_entry p i t = Some u
    \<and> walked p (if entry_used s i then insert (unat (entry_inode s i)) marked else marked) s u"
proof -
  let ?e = "entry_addr (fs_boot_block s) i" and ?k = "entry_inode s i"
  let ?u = "t\<lparr>mem := memcpy p ?e 64 (mem t)\<rparr>"
  note im = walked_image [OF w ap c] and cp = copied_entry [OF w ap c i]
  have n: "i < 63" "unat (num_dir_entries s) \<le> 63" using c i by (auto simp: can_walk_def word_le_nat_alt)
  have "unat (num_dir_entries s - 1) = unat (num_dir_entries s) - 1"
    using i by (intro unat_minus_one) auto
  then have "\<not> of_nat i > num_dir_entries t - 1"
    using i n by (simp add: im(2) word_less_nat_alt unat_of_nat_small)
  then have copy: "(if of_nat i > num_dir_entries t - 1 then Some t
      else directory_entry (fs_boot_block t) i \<bind> (\<lambda>entry. Some (t\<lparr>mem := memcpy p entry 64 (mem t)\<rparr>))) = Some ?u"
    using n im(3) by (simp add: directory_entry_def NUM_DENTRIES_def entry_addr_def)
  show ?thesis
  proof (cases "entry_used s i")
    case False
    then have "init_entry p i t = Some ?u"
      unfolding init_entry_def copy bind.bind_lunit Let_def using cp(2,3) by (auto simp: entry_used_def)
    then show ?thesis using False cp(1) by auto
  next
    case True
    obtain m db ib where u: "?u = s\<lparr>mem := m, data_block_bitmap := db, inode_bitmap := ib\<rparr>"
      "length db = 59" "length ib = 64" "\<forall>x. \<not> in_range x p 64 \<longrightarrow> m x = mem s x"
      "\<forall>k<64. ib ! k = (if k \<in> marked then 1 else inode_bitmap s ! k)"
      using cp(1) unfolding walked_def by blast
    have fu: "mem ?u = m" "inode_bitmap ?u = ib" "data_block_bitmap ?u = db" "fs_boot_block ?u = fs_boot_block s"
      unfolding u(1) by simp_all
    have k: "unat ?k < 64" "fs_boot_block s + ?k + 0x1000 \<noteq> 0" "\<not> ?k > of_nat MAX_INODES - 1"
      "mark_blocks (fs_boot_block s + ?k + 0x1000) 0 (mem s) (replicate 59 0) \<noteq> None"
      using c i True by (auto simp: can_walk_def word_less_nat_alt MAX_INODES_def)
    let ?a = "fs_boot_block s + ?k + 0x1000"
    have same: "m (?a + of_nat q) = mem s (?a + of_nat q)" if "q < 4096" for q
    proof -
      have a: "?a + of_nat q = fs_boot_block s + of_nat (unat ?k + 4096 + q)" by (simp add: algebra_simps)
      have "in_range (?a + of_nat q) (fs_boot_block s) (image_size s)"
        unfolding a using k(1) that c by (intro in_range_offset) (auto simp: can_walk_def)
      then show ?thesis using walked_image(1) [OF cp(1) ap c] fu(1) by (simp add: same_image_def)
    qed
    have at_p: "m p = mem s ?e" "load32 m (p + 36) = ?k" using cp(2,3) unfolding fu by simp_all
    obtain db' where db': "mark_blocks ?a 0 m db = Some db'" "length db' = 59"
      using mark_blocks_length [of ?a 0 "mem s" "replicate 59 0" _ db] k(4) u(2) mark_blocks_cong [of m ?a "mem s", OF same]
      by fastforce
    let ?v = "s\<lparr>mem := m, data_block_bitmap := db', inode_bitmap := ib[unat ?k := 1]\<rparr>"
    have "init_entry p i t = Some ?v"
      unfolding init_entry_def copy bind.bind_lunit Let_def cp(2,3)
      using True k u(3) db' at_p unfolding u(1) by (simp add: entry_used_def get_inode_by_idx_def)
    moreover have "walked p (insert (unat ?k) marked) s ?v"
      unfolding walked_def
      by (rule exI [of _ m], rule exI [of _ db'], rule exI [of _ "ib[unat ?k := 1]"])
        (use u(3-5) k(1) db'(2) in \<open>auto simp: nth_list_update\<close>)
    ultimately show ?thesis using True by simp
  qed
qed

text \<open>The inode numbers of the used entries in a part of the directory.\<close>

definition used_inodes :: "'a fs_state_scheme \<Rightarrow> nat \<Rightarrow> nat \<Rightarrow> nat set" where
  "used_inodes s i n = (\<lambda>j. unat (entry_inode s j)) ` {j. i \<le> j \<and> j < n \<and> entry_used s j}"

lemma used_inodes_step:
  assumes "i < n"
  shows "used_inodes s i n = (if entry_used s i then insert (unat (entry_inode s i)) (used_inodes s (i + 1) n) else used_inodes s (i + 1) n)"
proof -
  have "{j. i \<le> j \<and> j < n \<and> entry_used s j}
    = (if entry_used s i then insert i {j. i + 1 \<le> j \<and> j < n \<and> entry_used s j} else {j. i + 1 \<le> j \<and> j < n \<and> entry_used s j})"
    using assms by (auto simp: Suc_le_eq le_less)
  then show ?thesis by (simp add: used_inodes_def)
qed

lemma used_inodes_none [simp]: "used_inodes s i i = {}"
  by (auto simp: used_inodes_def)

lemma init_entries_run:
  assumes "walked p marked s t" "buffer_apart s p 64" "can_walk s" "i + n = unat (num_dir_entries s)" "n \<le> rounds"
  shows "\<exists>u. init_entries p i rounds t = Some u \<and> walked p (marked \<union> used_inodes s i (i + n)) s u"
  using assms(1,4,5)
proof (induction n arbitrary: i t marked rounds)
  case 0
  then show ?case
    using walked_image(2) [OF 0(1) assms(2,3)] by (cases rounds) simp_all
next
  case (Suc n)
  note n = walked_image(2) [OF Suc.prems(1) assms(2,3)]
  obtain r where r: "rounds = Suc r" using Suc.prems(3) by (cases rounds) auto
  have i: "i < unat (num_dir_entries s)" using Suc.prems(2) by simp
  let ?m = "if entry_used s i then insert (unat (entry_inode s i)) marked else marked"
  obtain u where u: "init_entry p i t = Some u" "walked p ?m s u"
    using init_entry_run [OF Suc.prems(1) assms(2,3) i] by blast
  obtain v where v: "init_entries p (i + 1) r u = Some v" "walked p (?m \<union> used_inodes s (i + 1) (i + 1 + n)) s v"
    using Suc.IH [OF u(2), of "i + 1" r] Suc.prems r by auto
  have "?m \<union> used_inodes s (i + 1) (i + 1 + n) = marked \<union> used_inodes s i (i + Suc n)"
    using used_inodes_step [of i "i + Suc n" s] by simp
  with v u r n i show ?case by simp
qed

lemma fs_init_run:
  assumes "can_walk (s\<lparr>fs_boot_block := addr\<rparr>)" "buffer_apart (s\<lparr>fs_boot_block := addr\<rparr>) p 64"
    and "length (data_block_bitmap s) = 59" "length (inode_bitmap s) = 64"
  defines "s0 \<equiv> s\<lparr>fs_boot_block := addr\<rparr>"
  shows "\<exists>u. fs_init p addr s = Some u \<and> walked p (insert 0 (used_inodes s0 0 (unat (num_dir_entries s0)))) s0 u"
proof -
  let ?t = "s0\<lparr>data_block_bitmap := (data_block_bitmap s)[0 := 1], inode_bitmap := (inode_bitmap s)[0 := 1]\<rparr>"
  have t: "walked p {0} s0 ?t"
    unfolding walked_def
    by (rule exI [of _ "mem s"], rule exI [of _ "(data_block_bitmap s)[0 := 1]"], rule exI [of _ "(inode_bitmap s)[0 := 1]"])
      (use assms(3,4) in \<open>auto simp: s0_def nth_list_update\<close>)
  have n: "unat (num_dir_entries s0) \<le> NUM_DENTRIES"
    using assms(1) by (simp add: can_walk_def s0_def NUM_DENTRIES_def word_le_nat_alt)
  have "fs_init p addr s = init_entries p 0 NUM_DENTRIES ?t"
    using assms(3,4) by (simp add: fs_init_def s0_def)
  then show ?thesis
    using init_entries_run [OF t assms(2) [folded s0_def] assms(1) [folded s0_def], of 0 "unat (num_dir_entries s0)" NUM_DENTRIES] n
    by simp
qed

text \<open>
  C29. \<open>fs_init\<close> on an image that can be walked returns, with the inode bitmap set exactly for inode 0
  and the inodes of the named directory entries, and changes no memory but the 64 bytes of its
  (uninitialised) \<open>dir_entry\<close>; the image stays as it is.
\<close>

theorem fs_init_marks_inodes:
  assumes "can_walk (s\<lparr>fs_boot_block := addr\<rparr>)" and "buffer_apart (s\<lparr>fs_boot_block := addr\<rparr>) p 64"
    and "length (data_block_bitmap s) = 59" and "length (inode_bitmap s) = 64"
  shows "\<exists>u. fs_init p addr s = Some u \<and> same_image (s\<lparr>fs_boot_block := addr\<rparr>) u
    \<and> (\<forall>k<64. inode_bitmap u ! k
          = (if k \<in> insert 0 (used_inodes (s\<lparr>fs_boot_block := addr\<rparr>) 0 (unat (num_dir_entries (s\<lparr>fs_boot_block := addr\<rparr>))))
             then 1 else inode_bitmap s ! k))
    \<and> (\<forall>x. \<not> in_range x p 64 \<longrightarrow> mem u x = mem s x)"
proof -
  obtain u where u: "fs_init p addr s = Some u"
    "walked p (insert 0 (used_inodes (s\<lparr>fs_boot_block := addr\<rparr>) 0 (unat (num_dir_entries (s\<lparr>fs_boot_block := addr\<rparr>)))))
      (s\<lparr>fs_boot_block := addr\<rparr>) u"
    using fs_init_run [OF assms] by blast
  then show ?thesis using walked_image(1) [OF u(2) assms(2,1)] unfolding walked_def by auto
qed

text \<open>An image with one file, of inode 1.\<close>

definition walk_fs :: "unit fs_state_scheme" where
  "walk_fs = tiny_fs\<lparr>mem := tiny_mem(0x10064 := 1)\<rparr>"

theorem fs_init_marks_inodes_witness:
  "\<exists>u. fs_init 0x20000 0x10000 walk_fs = Some u \<and> inode_bitmap u ! 0 = 1 \<and> inode_bitmap u ! 1 = 1 \<and> inode_bitmap u ! 2 = 0"
proof -
  let ?s = "walk_fs\<lparr>fs_boot_block := 0x10000\<rparr>"
  have img: "num_dir_entries ?s = 1" "image_size ?s = 12288" "entry_inode ?s 0 = 1" "entry_used ?s 0"
    by (simp_all add: walk_fs_def tiny_fs_def tiny_mem_def num_dir_entries_def image_size_def num_inodes_def
        num_data_blocks_def entry_inode_def entry_used_def entry_addr_def load32_def)
  have "mark_blocks 0x11001 0 (mem ?s) (replicate 59 0) = Some (replicate 59 0)"
    by (subst mark_blocks.simps) (simp add: data_blocks_idx_def data_block_slot_def MAX_BLOCKS_IN_INODE_def
        walk_fs_def tiny_fs_def tiny_mem_def load32_def)
  moreover have "fs_boot_block ?s = 0x10000" by simp
  ultimately have "can_walk ?s" by (simp only: can_walk_def img) (simp add: img)
  moreover have "buffer_apart ?s 0x20000 64"
    unfolding buffer_apart_def img(2)
  proof (intro allI impI notI)
    fix i :: nat assume i: "i < 64" and "in_range (0x20000 + of_nat i) (fs_boot_block ?s) 12288"
    moreover have "0x20000 + of_nat i - 0x10000 = (of_nat (0x10000 + i) :: u32)" by simp
    ultimately show False by (simp add: in_range_def unat_of_nat_small del: of_nat_add)
  qed
  moreover have "used_inodes ?s 0 1 = {1}"
    using img(3,4) used_inodes_step [of 0 1 ?s] by simp
  moreover have "length (data_block_bitmap walk_fs) = 59" "length (inode_bitmap walk_fs) = 64" "inode_bitmap walk_fs ! 2 = 0"
    by (simp_all add: walk_fs_def tiny_fs_def)
  ultimately show ?thesis
    using fs_init_marks_inodes [where s = walk_fs and addr = "0x10000" and p = "0x20000"] img(1) by auto
qed

end
