(* ===== verification/Boot.thy ===== *)
theory Boot
  imports Exceptions Mounting
begin

text \<open>
  The start of the kernel: \<open>src/kernel.c\<close> with \<open>src/multiboot.h\<close> and the segment descriptors of
  \<open>src/x86_desc.h\<close>.

  \<open>entry\<close> prints what the boot loader says, describes the two system segments to the processor, and
  initialises the components in the order of the code; it ends in the idle loop, or returns to
  \<open>boot.S\<close>, which halts. The boot loader's structures are read from memory. The addresses the linker
  chooses and the values of variables that are used before they are set are in \<open>boot_env\<close>.
\<close>

section \<open>Segment descriptors\<close>

definition KERNEL_DS :: u16 where "KERNEL_DS = 0x18"
definition KERNEL_TSS :: u16 where "KERNEL_TSS = 0x30"
definition KERNEL_LDT :: u16 where "KERNEL_LDT = 0x38"
definition TSS_SIZE :: u32 where "TSS_SIZE = 104"

record seg_desc_t =
  seg_lim_15_00 :: u16
  base_15_00 :: u16
  base_23_16 :: u8
  seg_type :: "4 word"
  seg_sys :: bool
  seg_dpl :: "2 word"
  seg_present :: bool
  seg_lim_19_16 :: "4 word"
  seg_avail :: bool
  seg_reserved :: bool
  opsize :: bool
  granularity :: bool
  base_31_24 :: u8

text \<open>Of the task state segment the kernel uses these fields; \<open>tss.esp0\<close> is \<open>tss_esp0\<close> of the state.\<close>

record boot_tables = interrupt_tables +
  ldt_size :: u32
  tss_size :: u32
  ldt_desc_ptr :: seg_desc_t
  tss_desc_ptr :: seg_desc_t
  tss_ldt_segment_selector :: u16
  tss_ss0 :: u16
  ldtr :: u16
  task_register :: u16

definition SET_LDT_PARAMS :: "u32 \<Rightarrow> u32 \<Rightarrow> seg_desc_t \<Rightarrow> seg_desc_t" where
  "SET_LDT_PARAMS addr lim d = d\<lparr>
     base_31_24 := ucast (drop_bit 24 (addr AND 0xFF000000)),
     base_23_16 := ucast (drop_bit 16 (addr AND 0x00FF0000)),
     base_15_00 := ucast (addr AND 0x0000FFFF),
     seg_lim_19_16 := ucast (drop_bit 16 (lim AND 0x000F0000)),
     seg_lim_15_00 := ucast (lim AND 0x0000FFFF)\<rparr>"

definition SET_TSS_PARAMS :: "u32 \<Rightarrow> u32 \<Rightarrow> seg_desc_t \<Rightarrow> seg_desc_t" where
  "SET_TSS_PARAMS addr lim d = d\<lparr>
     base_31_24 := ucast (drop_bit 24 (addr AND 0xFF000000)),
     base_23_16 := ucast (drop_bit 16 (addr AND 0x00FF0000)),
     base_15_00 := ucast (addr AND 0x0000FFFF),
     seg_lim_19_16 := ucast (drop_bit 16 (lim AND 0x000F0000)),
     seg_lim_15_00 := ucast (lim AND 0x0000FFFF)\<rparr>"

text \<open>
  The linker's and the compiler's choices: the routines behind the vectors, the two segments, the
  value of \<open>boot_block_addr\<close> and of the pointer of \<open>fs_init\<close> while they are not initialised, and the
  bytes of the two local descriptors.
\<close>

record boot_env =
  handler_at :: "handler_t \<Rightarrow> u32"
  ldt_at :: u32
  tss_at :: u32
  junk_boot_block :: u32
  junk_dir_entry :: u32
  junk_desc :: seg_desc_t

text \<open>The selectors the processor finds the two descriptors by.\<close>

definition lldt :: "u16 \<Rightarrow> 'a boot_tables_scheme \<Rightarrow> 'a boot_tables_scheme" where [simp]:
  "lldt desc c = c\<lparr>ldtr := desc\<rparr>"

definition ltr :: "u16 \<Rightarrow> 'a boot_tables_scheme \<Rightarrow> 'a boot_tables_scheme" where [simp]:
  "ltr desc c = c\<lparr>task_register := desc\<rparr>"

definition ldt_entry :: "boot_env \<Rightarrow> 'a boot_tables_scheme \<Rightarrow> 'a boot_tables_scheme" where
  "ldt_entry env c =
     (let the_ldt_desc = (junk_desc env)\<lparr>granularity := False, opsize := True, seg_reserved := False,
            seg_avail := False, seg_present := True, seg_dpl := 0, seg_sys := False, seg_type := 2\<rparr>;
          the_ldt_desc = SET_LDT_PARAMS (ldt_at env) (ldt_size c) the_ldt_desc
      in lldt KERNEL_LDT (c\<lparr>ldt_desc_ptr := the_ldt_desc\<rparr>))"

definition tss_entry :: "boot_env \<Rightarrow> 'a boot_tables_scheme \<times> 'b page_state_scheme \<Rightarrow> 'a boot_tables_scheme \<times> 'b page_state_scheme" where
  "tss_entry env = (\<lambda>(c, s).
     (let the_tss_desc = (junk_desc env)\<lparr>granularity := False, opsize := False, seg_reserved := False,
            seg_avail := False, seg_lim_19_16 := ucast (TSS_SIZE AND 0x000F0000), seg_present := True,
            seg_dpl := 0, seg_sys := False, seg_type := 9, seg_lim_15_00 := ucast (TSS_SIZE AND 0x0000FFFF)\<rparr>;
          the_tss_desc = SET_TSS_PARAMS (tss_at env) (tss_size c) the_tss_desc
      in (ltr KERNEL_TSS (c\<lparr>tss_desc_ptr := the_tss_desc, tss_ldt_segment_selector := KERNEL_LDT, tss_ss0 := KERNEL_DS\<rparr>),
          s\<lparr>tss_esp0 := 0x800000\<rparr>)))"

section \<open>What the boot loader says\<close>

definition MULTIBOOT_BOOTLOADER_MAGIC :: u32 where "MULTIBOOT_BOOTLOADER_MAGIC = 0x2BADB002"

definition CHECK_FLAG :: "u32 \<Rightarrow> nat \<Rightarrow> bool" where
  "CHECK_FLAG flags n \<longleftrightarrow> flags AND push_bit n 1 \<noteq> 0"

text \<open>The information the boot loader passes.\<close>

record multiboot_info_t =
  mbi_flags :: u32
  mem_lower :: u32
  mem_upper :: u32
  boot_device :: u32
  cmdline :: u32
  mods_count :: u32
  mods_addr :: u32
  elf_num :: u32
  elf_size :: u32
  elf_addr :: u32
  elf_shndx :: u32
  mmap_length :: u32
  mmap_addr :: u32

definition load_mbi :: "mem \<Rightarrow> u32 \<Rightarrow> multiboot_info_t" where
  "load_mbi m a = \<lparr>mbi_flags = load32 m a, mem_lower = load32 m (a + 4), mem_upper = load32 m (a + 8),
     boot_device = load32 m (a + 12), cmdline = load32 m (a + 16), mods_count = load32 m (a + 20),
     mods_addr = load32 m (a + 24), elf_num = load32 m (a + 28), elf_size = load32 m (a + 32),
     elf_addr = load32 m (a + 36), elf_shndx = load32 m (a + 40), mmap_length = load32 m (a + 44),
     mmap_addr = load32 m (a + 48)\<rparr>"

record module_t =
  mod_start :: u32
  mod_end :: u32
  mod_string :: u32
  mod_reserved :: u32

definition load_module :: "mem \<Rightarrow> u32 \<Rightarrow> module_t" where
  "load_module m a = \<lparr>mod_start = load32 m a, mod_end = load32 m (a + 4), mod_string = load32 m (a + 8),
     mod_reserved = load32 m (a + 12)\<rparr>"

record memory_map_t =
  map_size :: u32
  base_addr_low :: u32
  base_addr_high :: u32
  length_low :: u32
  length_high :: u32
  map_type :: u32

definition load_memory_map :: "mem \<Rightarrow> u32 \<Rightarrow> memory_map_t" where
  "load_memory_map m a = \<lparr>map_size = load32 m a, base_addr_low = load32 m (a + 4), base_addr_high = load32 m (a + 8),
     length_low = load32 m (a + 12), length_high = load32 m (a + 16), map_type = load32 m (a + 20)\<rparr>"

text \<open>\<open>printf\<close> with its result dropped.\<close>

definition say :: "u8 list \<Rightarrow> printf_arg list \<Rightarrow> 'a console_state_scheme \<Rightarrow> 'a console_state_scheme option" where
  "say format vs s = map_option snd (printf format vs s)"

text \<open>The string at an address, up to its terminator; none when memory has no zero byte from there on.\<close>

partial_function (option) string_at :: "mem \<Rightarrow> u32 \<Rightarrow> u8 list option" where
  "string_at m a = (if m a = 0 then Some [0] else do { bs \<leftarrow> string_at m (a + 1); Some (m a # bs) })"

definition show_module :: "u32 \<Rightarrow> u32 \<Rightarrow> 'a console_state_scheme \<Rightarrow> 'a console_state_scheme option" where
  "show_module mod_count md s = do {
     s \<leftarrow> say (line ''Module %d loaded at address: 0x%#x'') [PNum mod_count, PNum (mod_start (load_module (mem s) md))] s;
     s \<leftarrow> say (line ''Module %d ends at address: 0x%#x'') [PNum mod_count, PNum (mod_end (load_module (mem s) md))] s;
     s \<leftarrow> say (line ''First few bytes of module:'') [] s;
     s \<leftarrow> loop_over [0..<16] (\<lambda>i s. say (cstr ''0x%x '')
            [PNum (scast (mem s (mod_start (load_module (mem s) md) + of_nat i)))] s) s;
     say (line []) [] s
   }"

text \<open>\<open>while (mod_count < mbi->mods_count)\<close>: the comparison is unsigned, the bound is read in every round.\<close>

partial_function (option) show_modules :: "u32 \<Rightarrow> u32 \<Rightarrow> u32 \<Rightarrow> 'a console_state_scheme \<Rightarrow> 'a console_state_scheme option" where
  "show_modules mbi mod_count md s =
     (if mod_count < mods_count (load_mbi (mem s) mbi) then do {
        s \<leftarrow> show_module mod_count md s;
        show_modules mbi (mod_count + 1) (md + 16) s
      } else Some s)"

definition show_region :: "u32 \<Rightarrow> 'a console_state_scheme \<Rightarrow> 'a console_state_scheme option" where
  "show_region mmap s =
     (let r = load_memory_map (mem s) mmap
      in say (chars ''    size = 0x%x, base_addr = 0x%#x%#x'' @ 10 # line ''    type = 0x%x,  length    = 0x%#x%#x'')
           [PNum (map_size r), PNum (base_addr_high r), PNum (base_addr_low r), PNum (map_type r),
            PNum (length_high r), PNum (length_low r)] s)"

partial_function (option) show_regions :: "u32 \<Rightarrow> u32 \<Rightarrow> 'a console_state_scheme \<Rightarrow> 'a console_state_scheme option" where
  "show_regions mbi mmap s =
     (let i = load_mbi (mem s) mbi
      in if mmap < mmap_addr i + mmap_length i then do {
           s \<leftarrow> show_region mmap s;
           show_regions mbi (mmap + map_size (load_memory_map (mem s) mmap) + 4) s
         } else Some s)"

text \<open>A part that is printed when a flag is set.\<close>

definition when_flag :: "nat \<Rightarrow> u32 \<Rightarrow> (multiboot_info_t \<Rightarrow> 'a console_state_scheme \<Rightarrow> 'a console_state_scheme option)
    \<Rightarrow> 'a console_state_scheme \<Rightarrow> 'a console_state_scheme option" where
  "when_flag n mbi body s =
     (let i = load_mbi (mem s) mbi in if CHECK_FLAG (mbi_flags i) n then body i s else Some s)"

text \<open>The lines up to the command line; the section headers and the memory map.\<close>

definition show_memory :: "u32 \<Rightarrow> 'a console_state_scheme \<Rightarrow> 'a console_state_scheme option" where
  "show_memory mbi s = do {
     s \<leftarrow> say (line ''flags = 0x%#x'') [PNum (mbi_flags (load_mbi (mem s) mbi))] s;
     s \<leftarrow> when_flag 0 mbi (\<lambda>i. say (line ''mem_lower = %uKB, mem_upper = %uKB'') [PNum (mem_lower i), PNum (mem_upper i)]) s;
     s \<leftarrow> when_flag 1 mbi (\<lambda>i. say (line ''boot_device = 0x%#x'') [PNum (boot_device i)]) s;
     when_flag 2 mbi (\<lambda>i s. do { str \<leftarrow> string_at (mem s) (cmdline i); say (line ''cmdline = %s'') [PStr str] s }) s
   }"

definition show_sections :: "u32 \<Rightarrow> 'a console_state_scheme \<Rightarrow> 'a console_state_scheme option" where
  "show_sections mbi s = do {
     s \<leftarrow> when_flag 5 mbi (\<lambda>i. say (line ''elf_sec: num = %u, size = 0x%#x, addr = 0x%#x, shndx = 0x%#x'')
            [PNum (elf_num i), PNum (elf_size i), PNum (elf_addr i), PNum (elf_shndx i)]) s;
     when_flag 6 mbi (\<lambda>i s. do {
       s \<leftarrow> say (line ''mmap_addr = 0x%#x, mmap_length = 0x%x'') [PNum (mmap_addr i), PNum (mmap_length i)] s;
       show_regions mbi (mmap_addr (load_mbi (mem s) mbi)) s
     }) s
   }"

text \<open>
  Up to the segment descriptors: the address of the file system's image, or \<open>None\<close> for the early
  return. The module's start is read before the modules are printed.
\<close>

definition show_boot_info :: "boot_env \<Rightarrow> u32 \<Rightarrow> 'a console_state_scheme \<Rightarrow> (u32 option \<times> 'a console_state_scheme) option" where
  "show_boot_info env mbi s = do {
     s \<leftarrow> show_memory mbi s;
     let i = load_mbi (mem s) mbi;
     let boot_block_addr = (if CHECK_FLAG (mbi_flags i) 3 then mod_start (load_module (mem s) (mods_addr i))
                            else junk_boot_block env);
     s \<leftarrow> when_flag 3 mbi (\<lambda>i. show_modules mbi 0 (mods_addr i)) s;
     let flags = mbi_flags (load_mbi (mem s) mbi);
     if CHECK_FLAG flags 4 \<and> CHECK_FLAG flags 5 then do {
       s \<leftarrow> say (line ''Both bits 4 and 5 are set.'') [] s;
       Some (None, s)
     } else do {
       s \<leftarrow> show_sections mbi s;
       Some (Some boot_block_addr, s)
     }
   }"

section \<open>The entry\<close>

text \<open>The components, in the order of \<open>entry\<close>.\<close>

definition start_components :: "boot_env \<Rightarrow> u32 \<Rightarrow> 'a kernel_state_scheme \<Rightarrow> 'a kernel_state_scheme option" where
  "start_components env boot_block_addr s = do {
     s \<leftarrow> keyboard_init (i8259_init s);
     let s = mouse_init (rtc_init (cmos_init s));
     let s = init_page_structs s;
     let s = paging_init (page_directory_at s) s;
     s \<leftarrow> init_PCBs s;
     s \<leftarrow> fs_init (junk_dir_entry env) boot_block_addr s;
     s \<leftarrow> three_term_init (clear s);
     Some (sti (pit_init (scheduler_init s)))
   }"

text \<open>\<open>entry\<close> ends in its idle loop, or returns to \<open>boot.S\<close>, which halts.\<close>

datatype boot_end = Idle | Returned

definition entry :: "boot_env \<Rightarrow> u32 \<Rightarrow> u32 \<Rightarrow> 'a boot_tables_scheme \<times> 'b kernel_state_scheme
    \<Rightarrow> (boot_end \<times> 'a boot_tables_scheme \<times> 'b kernel_state_scheme) option" where
  "entry env magic addr = (\<lambda>(c, s). do {
     let s = clear s;
     if magic \<noteq> MULTIBOOT_BOOTLOADER_MAGIC then do {
       s \<leftarrow> say (line ''Invalid magic number: 0x%#x'') [PNum magic] s;
       Some (Returned, c, s)
     } else do {
       (image, s) \<leftarrow> show_boot_info env addr s;
       case image of
         None \<Rightarrow> Some (Returned, c, s)
       | Some boot_block_addr \<Rightarrow> do {
           let (c, s) = tss_entry env (ldt_entry env c, s);
           c \<leftarrow> init_idt (handler_at env) c;
           s \<leftarrow> start_components env boot_block_addr s;
           Some (Idle, c, s)
         }
     }
   })"

section \<open>Descriptors\<close>

text \<open>What the processor reads from a segment descriptor.\<close>

definition seg_base :: "seg_desc_t \<Rightarrow> u32" where
  "seg_base d = push_bit 24 (ucast (base_31_24 d)) OR push_bit 16 (ucast (base_23_16 d)) OR ucast (base_15_00 d)"

definition seg_limit :: "seg_desc_t \<Rightarrow> u32" where
  "seg_limit d = push_bit 16 (ucast (seg_lim_19_16 d)) OR ucast (seg_lim_15_00 d)"

lemma segment_masks: "(0xFF000000 :: u32) = push_bit 24 (mask 8)" "(0x00FF0000 :: u32) = push_bit 16 (mask 8)"
  "(0x0000FFFF :: u32) = mask 16" "(0x000F0000 :: u32) = push_bit 16 (mask 4)"
  by (simp_all add: mask_eq_exp_minus_1)

lemma base_parts:
  "push_bit 24 (ucast (ucast (drop_bit 24 (a AND push_bit 24 (mask 8))) :: u8))
     OR push_bit 16 (ucast (ucast (drop_bit 16 (a AND push_bit 16 (mask 8))) :: u8))
     OR ucast (ucast (a AND mask 16) :: u16) = (a :: u32)" (is "?l = a")
proof (rule bit_word_eqI)
  fix n assume n: "n < LENGTH(32)"
  consider "n < 16" | "16 \<le> n" "n < 24" | "24 \<le> n" by linarith
  then show "bit ?l n = bit a n" using n by cases (auto simp: bit_simps)
qed

lemma limit_parts:
  "push_bit 16 (ucast (ucast (drop_bit 16 (l AND push_bit 16 (mask 4))) :: 4 word))
     OR ucast (ucast (l AND mask 16) :: u16) = take_bit 20 (l :: u32)" (is "?l = ?r")
proof (rule bit_word_eqI)
  fix n assume n: "n < LENGTH(32)"
  consider "n < 16" | "16 \<le> n" "n < 20" | "20 \<le> n" by linarith
  then show "bit ?l n = bit ?r n" using n by cases (auto simp: bit_simps)
qed

lemma segment_params [simp]:
  "seg_base (SET_LDT_PARAMS a l d) = a" "seg_base (SET_TSS_PARAMS a l d) = a"
  "seg_limit (SET_LDT_PARAMS a l d) = take_bit 20 l" "seg_limit (SET_TSS_PARAMS a l d) = take_bit 20 l"
  unfolding seg_base_def seg_limit_def SET_LDT_PARAMS_def SET_TSS_PARAMS_def segment_masks
  using base_parts [of a] limit_parts [of l] by simp_all

section \<open>Printing\<close>

text \<open>\<open>t\<close> is \<open>s\<close> after some text.\<close>

definition prints :: "'a console_state_scheme \<Rightarrow> 'a console_state_scheme \<Rightarrow> bool" where
  "prints s t \<longleftrightarrow> (\<exists>bs. t = fold putc bs s)"

lemma prints_refl [simp, intro]: "prints s s"
  unfolding prints_def by (intro exI [of _ "[]"]) simp

lemma prints_trans [trans]: "prints s t \<Longrightarrow> prints t u \<Longrightarrow> prints s u"
  unfolding prints_def by (metis fold_append comp_apply)

definition off_screen :: "u32 \<Rightarrow> nat \<Rightarrow> bool" where
  "off_screen a n \<longleftrightarrow> (\<forall>i<n. \<not> in_range (a + of_nat i) VIDEO 3840)"

definition same_off_screen :: "mem \<Rightarrow> mem \<Rightarrow> bool" where
  "same_off_screen m m' \<longleftrightarrow> (\<forall>a. \<not> in_range a VIDEO 3840 \<longrightarrow> m' a = m a)"

lemma prints_frame:
  assumes "prints s t" "on_screen (console_pos s)"
  shows "on_screen (console_pos t)" "same_off_screen (mem s) (mem t)" "console_state.more t = console_state.more s"
    "io_log t = io_log s" "io_dev t = io_dev s" "master_mask t = master_mask s" "slave_mask t = slave_mask s"
proof -
  obtain bs where t: "t = fold putc bs s" using assms(1) by (auto simp: prints_def)
  show "on_screen (console_pos t)" "same_off_screen (mem s) (mem t)"
    using con.puts_safe [OF assms(2), of bs] unfolding t same_off_screen_def by blast+
  show "console_state.more t = console_state.more s"
    "io_log t = io_log s" "io_dev t = io_dev s" "master_mask t = master_mask s" "slave_mask t = slave_mask s"
    unfolding t by (induction bs arbitrary: s) simp_all
qed

lemma same_off_screen_trans: "same_off_screen m m' \<Longrightarrow> same_off_screen m' m'' \<Longrightarrow> same_off_screen m m''"
  by (simp add: same_off_screen_def)

lemma same_load32:
  assumes "same_off_screen m m'" "off_screen a n" "k + 4 \<le> n"
  shows "load32 m' (a + of_nat k) = load32 m (a + of_nat k)"
proof -
  have "m' (a + of_nat (k + i)) = m (a + of_nat (k + i))" if "i < 4" for i
    using assms that by (simp add: same_off_screen_def off_screen_def del: of_nat_add)
  from this [of 0] this [of 1] this [of 2] this [of 3] show ?thesis
    by (simp add: load32_def ac_simps)
qed

lemma same_mbi: "same_off_screen m m' \<Longrightarrow> off_screen a 52 \<Longrightarrow> load_mbi m' a = load_mbi m a"
  using same_load32 [of m m' a 52 0] same_load32 [of m m' a 52 4] same_load32 [of m m' a 52 8] same_load32 [of m m' a 52 12]
    same_load32 [of m m' a 52 16] same_load32 [of m m' a 52 20] same_load32 [of m m' a 52 24] same_load32 [of m m' a 52 28]
    same_load32 [of m m' a 52 32] same_load32 [of m m' a 52 36] same_load32 [of m m' a 52 40] same_load32 [of m m' a 52 44]
    same_load32 [of m m' a 52 48]
  by (simp add: load_mbi_def)

lemma same_module: "same_off_screen m m' \<Longrightarrow> off_screen a 16 \<Longrightarrow> load_module m' a = load_module m a"
  using same_load32 [of m m' a 16 0] same_load32 [of m m' a 16 4] same_load32 [of m m' a 16 8] same_load32 [of m m' a 16 12]
  by (simp add: load_module_def)

lemma same_region_size: "same_off_screen m m' \<Longrightarrow> off_screen a 24 \<Longrightarrow> map_size (load_memory_map m' a) = map_size (load_memory_map m a)"
  using same_load32 [of m m' a 24 0] by (simp add: load_memory_map_def)

lemma say_run: "render_text f vs \<noteq> None \<Longrightarrow> \<exists>t. say f vs s = Some t \<and> prints s t"
  by (auto simp: say_def printf_def printf_text_render(1) prints_def)

text \<open>The formats of \<open>entry\<close> have the arguments they need.\<close>

lemma rendered:
  "render_text (line ''Module %d loaded at address: 0x%#x'') [PNum a, PNum b] \<noteq> None"
  "render_text (line ''Module %d ends at address: 0x%#x'') [PNum a, PNum b] \<noteq> None"
  "render_text (line ''First few bytes of module:'') [] \<noteq> None"
  "render_text (cstr ''0x%x '') [PNum a] \<noteq> None"
  "render_text (line []) [] \<noteq> None"
  "render_text (chars ''    size = 0x%x, base_addr = 0x%#x%#x'' @ 10 # line ''    type = 0x%x,  length    = 0x%#x%#x'')
     [PNum a, PNum b, PNum c, PNum d, PNum e, PNum g] \<noteq> None"
  "render_text (line ''Invalid magic number: 0x%#x'') [PNum a] \<noteq> None"
  "render_text (line ''flags = 0x%#x'') [PNum a] \<noteq> None"
  "render_text (line ''mem_lower = %uKB, mem_upper = %uKB'') [PNum a, PNum b] \<noteq> None"
  "render_text (line ''boot_device = 0x%#x'') [PNum a] \<noteq> None"
  "0 \<in> set str \<Longrightarrow> render_text (line ''cmdline = %s'') [PStr str] \<noteq> None"
  "render_text (line ''Both bits 4 and 5 are set.'') [] \<noteq> None"
  "render_text (line ''elf_sec: num = %u, size = 0x%#x, addr = 0x%#x, shndx = 0x%#x'') [PNum a, PNum b, PNum c, PNum d] \<noteq> None"
  "render_text (line ''mmap_addr = 0x%#x, mmap_length = 0x%x'') [PNum a, PNum b] \<noteq> None"
  by (simp_all add: line_def cstr_def chars_def)


lemma loop_prints:
  assumes "\<And>x s. x \<in> set xs \<Longrightarrow> \<exists>t. body x s = Some t \<and> prints s t"
  shows "\<exists>t. loop_over xs body s = Some t \<and> prints s t"
  using assms
proof (induction xs arbitrary: s)
  case (Cons x xs)
  obtain t where t: "body x s = Some t" "prints s t" using Cons.prems by (meson list.set_intros(1))
  obtain u where "loop_over xs body t = Some u" "prints t u" using Cons.IH Cons.prems by (meson list.set_intros(2))
  then show ?case using t by (auto intro: prints_trans)
qed auto

lemma then_prints:
  assumes "\<exists>t. f s = Some t \<and> prints s t" "\<And>t. prints s t \<Longrightarrow> \<exists>u. g t = Some u \<and> prints t u"
  shows "\<exists>u. f s \<bind> g = Some u \<and> prints s u"
  using assms by (metis bind.bind_lunit prints_trans)

lemma show_module_run: "\<exists>t. show_module n md s = Some t \<and> prints s t"
  unfolding show_module_def
  by (intro then_prints say_run rendered loop_prints)

lemma show_modules_run:
  assumes "load_mbi (mem s) mbi = i" "on_screen (console_pos s)" "off_screen mbi 52"
  shows "\<exists>t. show_modules mbi n md s = Some t \<and> prints s t"
  using assms(1,2)
proof (induction "unat (mods_count i) - unat n" arbitrary: n md s rule: less_induct)
  case less
  show ?case
  proof (cases "n < mods_count i")
    case False
    then show ?thesis using less.prems by (subst show_modules.simps) auto
  next
    case True
    obtain t where t: "show_module n md s = Some t" "prints s t" using show_module_run by blast
    note fr = prints_frame [OF t(2) less.prems(2)]
    have "unat n < unat (mods_count i)" using True by (simp add: word_less_nat_alt)
    moreover have "unat (n + 1) = unat n + 1"
      using True unat_lt_32 [of "mods_count i"] by (simp add: word_less_nat_alt unat_word_ariths)
    ultimately have "unat (mods_count i) - unat (n + 1) < unat (mods_count i) - unat n" by simp
    moreover have "load_mbi (mem t) mbi = i" using same_mbi [OF fr(2) assms(3)] less.prems by simp
    ultimately obtain u where "show_modules mbi (n + 1) (md + 16) t = Some u" "prints t u" using less.hyps fr(1) by blast
    then show ?thesis using True t less.prems by (subst show_modules.simps) (auto intro: prints_trans)
  qed
qed

text \<open>A memory map that ends: its regions, one after the other, up to its length.\<close>

fun regions_end :: "mem \<Rightarrow> u32 \<Rightarrow> u32 \<Rightarrow> u32 list \<Rightarrow> bool" where
  "regions_end m a e [] \<longleftrightarrow> e \<le> a"
| "regions_end m a e (z # zs) \<longleftrightarrow> a < e \<and> off_screen a 24 \<and> map_size (load_memory_map m a) = z \<and> regions_end m (a + z + 4) e zs"

lemma show_regions_run:
  assumes "off_screen mbi 52" "load_mbi (mem s) mbi = i" "on_screen (console_pos s)" "same_off_screen m (mem s)"
    "regions_end m a (mmap_addr i + mmap_length i) zs"
  shows "\<exists>t. show_regions mbi a s = Some t \<and> prints s t"
  using assms(2-5)
proof (induction zs arbitrary: a s)
  case Nil
  then show ?case by (subst show_regions.simps) (auto simp: Let_def not_less)
next
  case (Cons z zs)
  obtain t where t: "show_region a s = Some t" "prints s t"
    unfolding show_region_def Let_def using say_run [OF rendered(6)] by blast
  note fr = prints_frame [OF t(2) Cons.prems(2)]
  have same: "same_off_screen m (mem t)" using same_off_screen_trans [OF Cons.prems(3) fr(2)] .
  have z: "map_size (load_memory_map (mem t) a) = z"
    using same_region_size [OF same] Cons.prems(4) by simp
  have "load_mbi (mem t) mbi = i" using same_mbi [OF fr(2) assms(1)] Cons.prems(1) by simp
  with Cons.IH [OF _ fr(1) same, of "a + z + 4"] Cons.prems(4) obtain u where
    "show_regions mbi (a + z + 4) t = Some u" "prints t u" by auto
  then show ?case
    using t z Cons.prems(1,4) by (subst show_regions.simps) (auto simp: Let_def intro: prints_trans)
qed

lemma string_at_run:
  assumes "m (a + of_nat n) = 0"
  shows "\<exists>bs. string_at m a = Some bs \<and> 0 \<in> set bs"
  using assms
proof (induction n arbitrary: a)
  case 0
  then show ?case by (subst string_at.simps) simp
next
  case (Suc n)
  from Suc.IH [of "a + 1"] Suc.prems obtain bs where "string_at m (a + 1) = Some bs" "0 \<in> set bs"
    by (auto simp: ac_simps)
  then show ?case by (subst string_at.simps) auto
qed

text \<open>What the boot loader's information has to be for \<open>entry\<close> to get through its printing.\<close>

definition info_ok :: "mem \<Rightarrow> u32 \<Rightarrow> bool" where
  "info_ok m mbi \<longleftrightarrow> off_screen mbi 52
     \<and> (let i = load_mbi m mbi; flags = mbi_flags i in
         (CHECK_FLAG flags 2 \<longrightarrow> (\<exists>n. m (cmdline i + of_nat n) = 0 \<and> off_screen (cmdline i + of_nat n) 1))
         \<and> (CHECK_FLAG flags 3 \<longrightarrow> off_screen (mods_addr i) 16)
         \<and> (CHECK_FLAG flags 6 \<longrightarrow> (\<exists>zs. regions_end m (mmap_addr i) (mmap_addr i + mmap_length i) zs)))"

text \<open>Where \<open>entry\<close> looks for the file system's image.\<close>

definition image_start :: "boot_env \<Rightarrow> mem \<Rightarrow> u32 \<Rightarrow> u32" where
  "image_start env m mbi = (let i = load_mbi m mbi in
     if CHECK_FLAG (mbi_flags i) 3 then mod_start (load_module m (mods_addr i)) else junk_boot_block env)"

text \<open>
  The state while printing: a screen on which text can go on, memory \<open>m\<close> outside of it, and the boot
  loader's information in place. \<open>talks\<close>: a part of the program that prints and returns.
\<close>

definition printing :: "mem \<Rightarrow> u32 \<Rightarrow> 'a console_state_scheme \<Rightarrow> bool" where
  "printing m mbi s \<longleftrightarrow> on_screen (console_pos s) \<and> same_off_screen m (mem s) \<and> load_mbi (mem s) mbi = load_mbi m mbi"

definition talks :: "mem \<Rightarrow> u32 \<Rightarrow> ('a console_state_scheme \<Rightarrow> 'a console_state_scheme option) \<Rightarrow> bool" where
  "talks m mbi f \<longleftrightarrow> (\<forall>s. printing m mbi s \<longrightarrow> (\<exists>t. f s = Some t \<and> prints s t \<and> printing m mbi t))"

lemma printing_step:
  assumes "printing m mbi s" "prints s t" "off_screen mbi 52"
  shows "printing m mbi t"
proof -
  have s: "on_screen (console_pos s)" "same_off_screen m (mem s)" using assms(1) by (simp_all add: printing_def)
  note fr = prints_frame [OF assms(2) s(1)]
  have "same_off_screen m (mem t)" using same_off_screen_trans [OF s(2) fr(2)] .
  with fr(1) same_mbi [OF this assms(3)] show ?thesis by (simp add: printing_def)
qed

lemma talksI:
  "off_screen mbi 52 \<Longrightarrow> (\<And>s. printing m mbi s \<Longrightarrow> \<exists>t. f s = Some t \<and> prints s t) \<Longrightarrow> talks m mbi f"
  unfolding talks_def using printing_step by blast

lemma talks_bind:
  assumes "talks m mbi f" "talks m mbi g"
  shows "talks m mbi (\<lambda>s. f s \<bind> g)"
  unfolding talks_def
proof (intro allI impI)
  fix s :: "'a console_state_scheme" assume "printing m mbi s"
  then obtain t where t: "f s = Some t" "prints s t" "printing m mbi t" using assms(1) by (auto simp: talks_def)
  then obtain u where "g t = Some u" "prints t u" "printing m mbi u" using assms(2) by (auto simp: talks_def)
  with t show "\<exists>t. f s \<bind> g = Some t \<and> prints s t \<and> printing m mbi t" by (auto intro: prints_trans)
qed

lemma talks_say: "off_screen mbi 52 \<Longrightarrow> (\<And>s. render_text f (vs s) \<noteq> None) \<Longrightarrow> talks m mbi (\<lambda>s. say f (vs s) s)"
  by (rule talksI, assumption) (rule say_run, simp)

lemma talks_when:
  assumes "CHECK_FLAG (mbi_flags (load_mbi m mbi)) n \<Longrightarrow> talks m mbi (body (load_mbi m mbi))"
  shows "talks m mbi (when_flag n mbi body)"
  using assms unfolding talks_def by (auto simp: when_flag_def printing_def Let_def)

lemma cmdline_talks:
  assumes "info_ok m mbi" "CHECK_FLAG (mbi_flags (load_mbi m mbi)) 2"
  shows "talks m mbi (\<lambda>s. do { str \<leftarrow> string_at (mem s) (cmdline (load_mbi m mbi)); say (line ''cmdline = %s'') [PStr str] s })"
proof (rule talksI)
  let ?a = "cmdline (load_mbi m mbi)"
  show "off_screen mbi 52" using assms(1) by (simp add: info_ok_def)
  fix s :: "'a console_state_scheme" assume s: "printing m mbi s"
  obtain n where "m (?a + of_nat n) = 0" "off_screen (?a + of_nat n) 1"
    using assms by (auto simp: info_ok_def Let_def)
  then have "mem s (?a + of_nat n) = 0"
    using s by (simp add: printing_def off_screen_def same_off_screen_def)
  then obtain bs where "string_at (mem s) ?a = Some bs" "0 \<in> set bs" using string_at_run by blast
  then show "\<exists>t. string_at (mem s) ?a \<bind> (\<lambda>str. say (line ''cmdline = %s'') [PStr str] s) = Some t \<and> prints s t"
    using say_run [OF rendered(11)] by simp
qed

lemma show_memory_talks:
  assumes "info_ok m mbi"
  shows "talks m mbi (show_memory mbi)"
  unfolding show_memory_def
  using assms by (intro talks_bind talks_say talks_when cmdline_talks rendered) (simp_all add: info_ok_def)

lemma show_modules_talks: "off_screen mbi 52 \<Longrightarrow> talks m mbi (show_modules mbi n md)"
  by (rule talksI) (auto simp: printing_def intro: show_modules_run)

lemma show_sections_talks:
  assumes "info_ok m mbi"
  shows "talks m mbi (show_sections mbi :: 'a console_state_scheme \<Rightarrow> _)"
proof -
  let ?i = "load_mbi m mbi"
  have off: "off_screen mbi 52" using assms by (simp add: info_ok_def)
  have "talks m mbi (\<lambda>s :: 'a console_state_scheme. show_regions mbi (mmap_addr (load_mbi (mem s) mbi)) s)" if flag: "CHECK_FLAG (mbi_flags ?i) 6"
  proof (rule talksI [OF off])
    fix s :: "'a console_state_scheme" assume s: "printing m mbi s"
    obtain zs where "regions_end m (mmap_addr ?i) (mmap_addr ?i + mmap_length ?i) zs"
      using assms flag by (auto simp: info_ok_def Let_def)
    with show_regions_run [OF off, of s ?i m "mmap_addr ?i" zs] s
    show "\<exists>t. show_regions mbi (mmap_addr (load_mbi (mem s) mbi)) s = Some t \<and> prints s t"
      by (simp add: printing_def)
  qed
  then show ?thesis
    unfolding show_sections_def using off by (intro talks_bind talks_say talks_when rendered)
qed

lemma show_boot_info_run:
  assumes ok: "info_ok m mbi" and p: "printing m mbi s"
  shows "\<exists>t. show_boot_info env mbi s
      = Some (if CHECK_FLAG (mbi_flags (load_mbi m mbi)) 4 \<and> CHECK_FLAG (mbi_flags (load_mbi m mbi)) 5 then None
              else Some (image_start env m mbi), t) \<and> prints s t"
proof -
  let ?i = "load_mbi m mbi"
  have off: "off_screen mbi 52" using ok by (simp add: info_ok_def)
  have info: "load_mbi (mem t) mbi = ?i" if "printing m mbi t" for t :: "'a console_state_scheme"
    using that by (simp add: printing_def)
  obtain s1 where s1: "show_memory mbi s = Some s1" "prints s s1" "printing m mbi s1"
    using show_memory_talks [OF ok] p by (auto simp: talks_def)
  have "talks m mbi (when_flag 3 mbi (\<lambda>i. show_modules mbi 0 (mods_addr i)))"
    by (intro talks_when show_modules_talks off)
  with s1 obtain s2 where s2: "when_flag 3 mbi (\<lambda>i. show_modules mbi 0 (mods_addr i)) s1 = Some s2" "prints s1 s2" "printing m mbi s2"
    by (auto simp: talks_def)
  have image: "(if CHECK_FLAG (mbi_flags ?i) 3 then mod_start (load_module (mem s1) (mods_addr ?i)) else junk_boot_block env) = image_start env m mbi"
    using same_module [of m "mem s1"] s1(3) ok by (auto simp: image_start_def Let_def info_ok_def printing_def)
  obtain s3 where s3: "say (line ''Both bits 4 and 5 are set.'') [] s2 = Some s3" "prints s2 s3"
    using say_run [OF rendered(12)] by blast
  obtain s4 where s4: "show_sections mbi s2 = Some s4" "prints s2 s4"
    using show_sections_talks [OF ok] s2(3) by (auto simp: talks_def)
  have "prints s s2" using prints_trans [OF s1(2) s2(2)] .
  then show ?thesis
    using s1(1) s2(1) s3 s4 image info [OF s1(3)] info [OF s2(3)]
    by (auto simp: show_boot_info_def Let_def intro: prints_trans)
qed

end
