(* ===== verification/Layout.thy ===== *)
theory Layout
  imports FileOps Boot
begin

text \<open>
  The layout of the structures the kernel shares with the file system image, the boot loader and the
  processor: \<open>src/fs/fs.h\<close>, \<open>src/multiboot.h\<close>, \<open>src/x86_desc.h\<close>. A structure is the list of its fields with
  their sizes. The compiler puts them one behind the other, since each starts at a multiple of its
  alignment; the theorems show that, the sizes the code counts on, and that the loads of the model read
  each field at its place.
\<close>

section \<open>Structures\<close>

type_synonym layout = "(string \<times> nat \<times> nat) list"

text \<open>A field has a name, the number of its elements and the size of one.\<close>

definition field_bytes :: "string \<times> nat \<times> nat \<Rightarrow> nat" where
  "field_bytes = (\<lambda>(name, count, each). count * each)"

definition size_of :: "layout \<Rightarrow> nat" where
  "size_of fs = sum_list (map field_bytes fs)"

fun offset_of :: "layout \<Rightarrow> string \<Rightarrow> nat option" where
  "offset_of [] name = None"
| "offset_of (f # fs) name = (if fst f = name then Some 0 else map_option (\<lambda>n. field_bytes f + n) (offset_of fs name))"

text \<open>No padding: each field starts at a multiple of \<open>align\<close>, at most 4, of its elements.\<close>

definition unpadded :: "layout \<Rightarrow> bool" where
  "unpadded fs \<longleftrightarrow> list_all (\<lambda>(name, count, each). (case offset_of fs name of None \<Rightarrow> False | Some n \<Rightarrow> min 4 each dvd n)) fs
     \<and> 4 dvd size_of fs"

definition words :: "string list \<Rightarrow> layout" where
  "words names = map (\<lambda>name. (name, 1, 4)) names"

definition inode_t :: layout where
  "inode_t = [(''file_length'', 1, 4), (''data_blocks_idx'', MAX_BLOCKS_IN_INODE, 4)]"

definition DENTRY_RESERVED_SIZE :: nat where "DENTRY_RESERVED_SIZE = 6"
definition FS_BOOT_BLOCK_RESERVED_SIZE :: nat where "FS_BOOT_BLOCK_RESERVED_SIZE = 13"

definition dentry_t :: layout where
  "dentry_t = [(''file_name'', MAX_FILENAME_LENGTH, 1), (''file_type'', 1, 4), (''inode_num'', 1, 4),
     (''reserved'', DENTRY_RESERVED_SIZE, 4)]"

definition boot_block_t :: layout where
  "boot_block_t = words [''num_dir_entries'', ''num_inodes'', ''num_data_blocks'']
     @ [(''reserved'', FS_BOOT_BLOCK_RESERVED_SIZE, 4), (''directory_entries'', NUM_DENTRIES, size_of dentry_t)]"

definition multiboot_header_t :: layout where
  "multiboot_header_t = words [''magic'', ''flags'', ''checksum'', ''header_addr'', ''load_addr'', ''load_end_addr'',
     ''bss_end_addr'', ''entry_addr'']"

definition elf_section_header_table_t :: layout where
  "elf_section_header_table_t = words [''num'', ''size'', ''addr'', ''shndx'']"

definition mbi_t :: layout where
  "mbi_t = words [''flags'', ''mem_lower'', ''mem_upper'', ''boot_device'', ''cmdline'', ''mods_count'', ''mods_addr'']
     @ (''elf_sec'', 1, size_of elf_section_header_table_t) # words [''mmap_length'', ''mmap_addr'']"

text \<open>The task state segment is packed; \<open>debug_trap\<close> and \<open>io_pad\<close> are bits of one half word.\<close>

definition tss_t :: layout where
  "tss_t = [(''prev_task_link'', 1, 2), (''prev_task_link_pad'', 1, 2),
     (''esp0'', 1, 4), (''ss0'', 1, 2), (''ss0_pad'', 1, 2),
     (''esp1'', 1, 4), (''ss1'', 1, 2), (''ss1_pad'', 1, 2),
     (''esp2'', 1, 4), (''ss2'', 1, 2), (''ss2_pad'', 1, 2),
     (''cr3'', 1, 4), (''eip'', 1, 4), (''eflags'', 1, 4),
     (''eax'', 1, 4), (''ecx'', 1, 4), (''edx'', 1, 4), (''ebx'', 1, 4),
     (''esp'', 1, 4), (''ebp'', 1, 4), (''esi'', 1, 4), (''edi'', 1, 4),
     (''es'', 1, 2), (''es_pad'', 1, 2), (''cs'', 1, 2), (''cs_pad'', 1, 2), (''ss'', 1, 2), (''ss_pad'', 1, 2),
     (''ds'', 1, 2), (''ds_pad'', 1, 2), (''fs'', 1, 2), (''fs_pad'', 1, 2), (''gs'', 1, 2), (''gs_pad'', 1, 2),
     (''ldt_segment_selector'', 1, 2), (''ldt_pad'', 1, 2),
     (''debug_trap_io_pad'', 1, 2), (''io_base_addr'', 1, 2)]"

lemmas layouts = inode_t_def dentry_t_def boot_block_t_def multiboot_header_t_def elf_section_header_table_t_def mbi_t_def
  tss_t_def words_def size_of_def field_bytes_def DENTRY_RESERVED_SIZE_def FS_BOOT_BLOCK_RESERVED_SIZE_def
  MAX_BLOCKS_IN_INODE_def MAX_FILENAME_LENGTH_def NUM_DENTRIES_def

section \<open>What the layouts show\<close>

text \<open>An inode and the boot block each fill a block, an entry 64 bytes: the arithmetic on pointers counts in blocks.\<close>

theorem block_sizes:
  "size_of inode_t = unat FS_BLK_SIZE" "size_of boot_block_t = unat FS_BLK_SIZE" "size_of dentry_t = 64"
  by (simp_all add: layouts FS_BLK_SIZE_def)

text \<open>The segment has the 104 bytes of its limit, and the fields the processor reads are where it looks for them.\<close>

theorem tss_layout:
  "size_of tss_t = unat TSS_SIZE" "offset_of tss_t ''esp0'' = Some 4" "offset_of tss_t ''ss0'' = Some 8"
  "offset_of tss_t ''cr3'' = Some 28" "offset_of tss_t ''ldt_segment_selector'' = Some 96" "offset_of tss_t ''io_base_addr'' = Some 102"
  by (simp_all add: layouts TSS_SIZE_def)

theorem unpadded_layouts:
  "unpadded inode_t" "unpadded dentry_t" "unpadded boot_block_t" "unpadded multiboot_header_t" "unpadded mbi_t" "unpadded tss_t"
  by (simp_all add: unpadded_def layouts)

section \<open>Where the model reads\<close>

definition field_at :: "layout \<Rightarrow> string \<Rightarrow> u32 \<Rightarrow> u32" where
  "field_at fs name a = (case offset_of fs name of Some n \<Rightarrow> a + of_nat n | None \<Rightarrow> a)"

theorem inode_fields:
  "file_length a m = load32 m (field_at inode_t ''file_length'' a)"
  "data_block_slot a j = (if unat j < MAX_BLOCKS_IN_INODE then Some (field_at inode_t ''data_blocks_idx'' a + 4 * j) else None)"
  by (simp_all add: file_length_def data_block_slot_def field_at_def layouts)

theorem boot_block_fields:
  "num_dir_entries s = load32 (mem s) (field_at boot_block_t ''num_dir_entries'' (fs_boot_block s))"
  "num_inodes s = load32 (mem s) (field_at boot_block_t ''num_inodes'' (fs_boot_block s))"
  "num_data_blocks s = load32 (mem s) (field_at boot_block_t ''num_data_blocks'' (fs_boot_block s))"
  "entry_addr a i = field_at boot_block_t ''directory_entries'' a + of_nat (size_of dentry_t * i)"
  by (simp_all add: num_dir_entries_def num_inodes_def num_data_blocks_def entry_addr_def field_at_def layouts)

theorem dentry_fields:
  "load_dentry m a = \<lparr>file_name = load_bytes m (field_at dentry_t ''file_name'' a) MAX_FILENAME_LENGTH,
     file_type = load32 m (field_at dentry_t ''file_type'' a), inode_num = load32 m (field_at dentry_t ''inode_num'' a),
     reserved = load_bytes m (field_at dentry_t ''reserved'' a) (4 * DENTRY_RESERVED_SIZE)\<rparr>"
  by (simp add: load_dentry_def field_at_def layouts)

theorem multiboot_fields:
  "mbi_flags (load_mbi m a) = load32 m (field_at mbi_t ''flags'' a)"
  "cmdline (load_mbi m a) = load32 m (field_at mbi_t ''cmdline'' a)"
  "mods_count (load_mbi m a) = load32 m (field_at mbi_t ''mods_count'' a)"
  "mods_addr (load_mbi m a) = load32 m (field_at mbi_t ''mods_addr'' a)"
  "elf_shndx (load_mbi m a) = load32 m (field_at elf_section_header_table_t ''shndx'' (field_at mbi_t ''elf_sec'' a))"
  "mmap_length (load_mbi m a) = load32 m (field_at mbi_t ''mmap_length'' a)"
  "mmap_addr (load_mbi m a) = load32 m (field_at mbi_t ''mmap_addr'' a)"
  "size_of mbi_t = 52"
  by (simp_all add: load_mbi_def field_at_def layouts ac_simps)

section \<open>The header for the boot loader\<close>

definition MULTIBOOT_HEADER_FLAGS :: u32 where "MULTIBOOT_HEADER_FLAGS = 3"
definition MULTIBOOT_HEADER_MAGIC :: u32 where "MULTIBOOT_HEADER_MAGIC = 0x1BADB002"

text \<open>The words \<open>src/boot.S\<close> begins with. The address fields of the structure are left out, as bit 16 of the flags says.\<close>

definition boot_header :: "u32 list" where
  "boot_header = [MULTIBOOT_HEADER_MAGIC, MULTIBOOT_HEADER_FLAGS, - (MULTIBOOT_HEADER_MAGIC + MULTIBOOT_HEADER_FLAGS)]"

theorem boot_header_checks:
  "sum_list boot_header = 0" "\<not> bit (boot_header ! 1) 16" "offset_of multiboot_header_t ''checksum'' = Some 8"
  by (simp_all add: boot_header_def MULTIBOOT_HEADER_FLAGS_def MULTIBOOT_HEADER_MAGIC_def layouts)

end
