(* ===== verification/Startup.thy ===== *)
theory Startup
  imports Boot
begin

text \<open>
  \<open>entry\<close> as a whole: the components start one after the other, each on the tables the one before
  has left, and with the first three timer interrupts three shells run.
\<close>

section \<open>What the initialisations leave alone\<close>

text \<open>A change of memory, ports, interrupt masks and cursor only.\<close>

definition touched :: "'a console_state_scheme \<Rightarrow> 'a console_state_scheme \<Rightarrow> bool" where
  "touched s t \<longleftrightarrow> t = s\<lparr>mem := mem t, io_log := io_log t, master_mask := master_mask t, slave_mask := slave_mask t,
     screen_x := screen_x t, screen_y := screen_y t\<rparr>"

lemma touched_refl [simp, intro]: "touched s s"
  by (simp add: touched_def)

lemma touched_trans [trans]:
  assumes "touched s t" "touched t u"
  shows "touched s u"
proof -
  have "t\<lparr>mem := m, io_log := l, master_mask := a, slave_mask := b, screen_x := x, screen_y := y\<rparr>
    = s\<lparr>mem := m, io_log := l, master_mask := a, slave_mask := b, screen_x := x, screen_y := y\<rparr>" for m l a b x y
    by (subst assms(1) [unfolded touched_def]) simp
  then show ?thesis using assms(2) by (simp add: touched_def)
qed

lemma touched_io:
  "touched s t \<Longrightarrow> touched s (outb v p t)" "touched s t \<Longrightarrow> touched s (snd (inb p t))"
  "touched s t \<Longrightarrow> touched s (enable_irq n t)" "touched s t \<Longrightarrow> touched s (putc c t)"
  "touched s t \<Longrightarrow> touched s (clear t)"
  by (erule touched_trans, simp add: touched_def outb_def inb_def enable_irq_def putc_def clear_def set_screen_position_def Let_def)+

lemma touched_prints: "prints s t \<Longrightarrow> touched s t"
proof -
  have "touched s (fold putc bs t)" if "touched s t" for bs and t :: "'a console_state_scheme"
    using that by (induction bs arbitrary: t) (simp_all add: touched_io)
  then show "prints s t \<Longrightarrow> touched s t" by (auto simp: prints_def)
qed

lemma mouse_poll_io: "touched s t \<Longrightarrow> touched s (mouse_poll n f t)"
  by (induction n arbitrary: t) (simp_all add: case_prod_unfold Let_def touched_io)

lemma mouse_io:
  "touched s t \<Longrightarrow> touched s (mouse_wait f t)" "touched s t \<Longrightarrow> touched s (mouse_write_data v t)"
  "touched s t \<Longrightarrow> touched s (snd (mouse_read_data t))" "touched s t \<Longrightarrow> touched s (mouse_init t)"
  by (simp_all add: mouse_wait_def mouse_write_data_def mouse_read_data_def mouse_init_def mouse_poll_io touched_io
      case_prod_unfold Let_def)

lemma io_mem [simp]: "mem (outb v p t) = mem t" "mem (snd (inb p t)) = mem t" "mem (enable_irq n u) = mem u"
  by (simp_all add: outb_def inb_def enable_irq_def Let_def)

lemma mouse_poll_mem [simp]: "mem (mouse_poll n f t) = mem t"
  by (induction n arbitrary: t) (simp_all add: case_prod_unfold Let_def)

lemma mouse_mem [simp]:
  "mem (mouse_wait f t) = mem t" "mem (mouse_write_data v t) = mem t" "mem (snd (mouse_read_data t)) = mem t"
  "mem (mouse_init u) = mem u"
  by (simp_all add: mouse_wait_def mouse_write_data_def mouse_read_data_def mouse_init_def case_prod_unfold Let_def)

lemma device_inits:
  "touched s (i8259_init s)" "mem (i8259_init s) = mem s"
  "touched s (cmos_init s)" "mem (cmos_init s) = mem s"
  "touched s (pit_init s)" "mem (pit_init s) = mem s"
  by (simp_all add: i8259_init_def cmos_init_def pit_init_def NMI_enable_def NMI_disable_def
      case_prod_unfold Let_def touched_io)

section \<open>The components\<close>

text \<open>What later components and the first timer interrupts rely on.\<close>

definition kept :: "'a kernel_state_scheme \<Rightarrow> 'a kernel_state_scheme \<Rightarrow> bool" where
  "kept s t \<longleftrightarrow> PCB t = PCB s \<and> all_process t = all_process s \<and> multi_process_idx t = multi_process_idx s
     \<and> current_term t = current_term s \<and> fs_boot_block t = fs_boot_block s
     \<and> length (data_block_bitmap t) = length (data_block_bitmap s) \<and> length (inode_bitmap t) = length (inode_bitmap s)
     \<and> length (page_directory t) = length (page_directory s) \<and> length (three_terminals t) = length (three_terminals s)"

lemma kept_refl [simp, intro]: "kept s s" by (simp add: kept_def)

lemma kept_trans [trans]: "kept s t \<Longrightarrow> kept t u \<Longrightarrow> kept s u" by (simp add: kept_def)

lemma touched_kept: "touched s t \<Longrightarrow> kept s t"
  unfolding touched_def kept_def
  by (intro conjI; (erule ssubst [where P = "\<lambda>t. _ t = _"], simp)?)

lemma cursor_kept:
  assumes "0 \<le> current_term s" "nat (current_term s) < length (three_terminals s)"
  shows "\<exists>t. enable_cursor s = Some t \<and> kept s t \<and> mem t = mem s"
  using assms
  by (simp add: enable_cursor_def move_cursor_def cur_term_def set_cur_def peek_int_def poke_int_def kept_def
      outb_def inb_def Let_def)

lemma keyboard_init_run:
  assumes "0 \<le> current_term s" "nat (current_term s) < length (three_terminals s)"
  shows "\<exists>t. keyboard_init s = Some t \<and> kept s t \<and> mem t = mem s"
proof -
  let ?s = "enable_irq KEYBOARD_IRQ s"
  have k: "kept s ?s" by (rule touched_kept) (simp add: touched_io)
  have "0 \<le> current_term ?s" "nat (current_term ?s) < length (three_terminals ?s)"
    using assms k by (simp_all add: kept_def)
  from cursor_kept [OF this] obtain t where "enable_cursor ?s = Some t" "kept ?s t" "mem t = mem s" by auto
  then show ?thesis using k by (simp add: keyboard_init_def kept_def)
qed

lemma rtc_init_kept: "kept s (rtc_init s)" "mem (rtc_init s) = mem s"
  by (simp_all add: rtc_init_def NMI_enable_def NMI_disable_def kept_def outb_def inb_def enable_irq_def Let_def)

lemma length_fold_set [simp]: "length (fold (\<lambda>i d. d[f i := g i]) is xs) = length xs"
  by (induction "is" arbitrary: xs) simp_all

lemma paging_kept:
  "kept s (init_page_structs s)" "mem (init_page_structs s) = mem s"
  "kept s (paging_init a s)" "mem (paging_init a s) = mem s"
  by (simp_all add: init_page_structs_def paging_init_def kept_def Let_def del: upt_Suc)

text \<open>Clearing a page.\<close>

lemma clear_cells_frame: "\<not> in_range a base 3840 \<Longrightarrow> clear_cells base m a = m a"
proof -
  assume a: "\<not> in_range a base 3840"
  have "fold (\<lambda>i. put_cell base (int i) 32 ATTRIB) xs m a = m a" if "\<forall>i\<in>set xs. i < 1920" for xs m
    using that a by (induction xs arbitrary: m) (simp_all add: put_cell_frame)
  then show ?thesis by (simp add: clear_cells_def screen_consts del: upt_Suc)
qed

definition video_pages_only :: "'a kernel_state_scheme \<Rightarrow> 'a kernel_state_scheme \<Rightarrow> bool" where
  "video_pages_only s t \<longleftrightarrow> (\<forall>a. \<not> in_range a 0xB8000 0x4000 \<longrightarrow> mem t a = mem s a)"

lemma clear_run: "kept s (clear s)" "video_pages_only s (clear s)"
proof -
  show "kept s (clear s)" by (rule touched_kept) (simp add: touched_io)
  have "in_range a 0xB8000 3840 \<Longrightarrow> in_range a 0xB8000 0x4000" for a by (simp add: in_range_def)
  then show "video_pages_only s (clear s)"
    using clear_cells_frame by (auto simp: video_pages_only_def clear_def set_screen_position_def screen_consts)
qed

lemma terminal_init_run:
  assumes "current_term s = int i" "i < 3" "length (three_terminals s) = 3"
  shows "\<exists>t. terminal_init s = Some t \<and> kept s t \<and> video_pages_only s t"
proof -
  have addr: "peek_int virtual_terminal_addresses (int i) = Some (backing_page i)" using virtual_page assms(2) .
  have "in_range a (backing_page i) 3840 \<Longrightarrow> in_range a 0xB8000 0x4000" for a
    using video_pages(2) [OF assms(2)] by (simp add: in_range_def)
  then have frame: "\<not> in_range a 0xB8000 0x4000 \<Longrightarrow> clear_cells (backing_page i) m a = m a" for a m
    using clear_cells_frame by blast
  show ?thesis
    using assms addr frame
    by (simp add: terminal_init_def cur_term_def set_cur_def clear_multi_def get_term_def set_term_def peek_int_def [of "three_terminals s"]
        poke_int_def kept_def video_pages_only_def Let_def)
qed

lemma three_term_init_run:
  assumes "length (three_terminals s) = 3" "current_term s = 0"
  shows "\<exists>t. three_term_init s = Some t \<and> kept s t \<and> video_pages_only s t"
proof -
  let ?I = "\<lambda>t. kept s (t\<lparr>current_term := 0\<rparr>) \<and> video_pages_only s t"
  have "\<exists>t. loop_over [0..<3] (\<lambda>term s. terminal_init (s\<lparr>current_term := int term\<rparr>)) s = Some t \<and> ?I t"
  proof (rule loop_over_invariant)
    show "?I s" using assms(2) by (simp add: kept_def video_pages_only_def)
    fix i t assume "i \<in> set [0..<3]" and I: "?I t"
    then have i: "i < 3" by simp
    have "length (three_terminals (t\<lparr>current_term := int i\<rparr>)) = 3" using I assms(1) by (simp add: kept_def)
    from terminal_init_run [OF _ i this] obtain u where
      u: "terminal_init (t\<lparr>current_term := int i\<rparr>) = Some u" "kept (t\<lparr>current_term := int i\<rparr>) u" "video_pages_only t u"
      by (auto simp: video_pages_only_def)
    have "?I u" using I u(2,3) by (simp add: kept_def video_pages_only_def)
    then show "\<exists>u. terminal_init (t\<lparr>current_term := int i\<rparr>) = Some u \<and> ?I u" using u(1) by blast
  qed
  then show ?thesis by (auto simp: three_term_init_def video_pages_only_def)
qed

section \<open>Walking the image after printing\<close>

lemma can_walk_same:
  assumes c: "can_walk s" and sm: "same_image s t"
  shows "can_walk t" "num_dir_entries t = num_dir_entries s" "image_size t = image_size s"
proof -
  have base: "fs_boot_block t = fs_boot_block s" using sm by (simp add: same_image_def)
  have sz: "image_size s \<le> 4294967296" "12288 \<le> image_size s" using c by (simp_all add: can_walk_def)
  show n: "num_dir_entries t = num_dir_entries s"
    using same_image_load [OF sm sz(1), of 0] sz(2) by (simp add: num_dir_entries_def base)
  show size: "image_size t = image_size s"
    using same_image_load [OF sm sz(1), of 4] same_image_load [OF sm sz(1), of 8] sz(2)
    by (simp add: image_size_def num_inodes_def num_data_blocks_def base)
  have same: "mem t (fs_boot_block s + of_nat q) = mem s (fs_boot_block s + of_nat q)" if "q < 12288" for q
    using in_range_offset [of q "image_size s" "fs_boot_block s"] sm sz that by (simp add: same_image_def)
  have "entry_inode t i = entry_inode s i \<and> entry_used t i = entry_used s i" if i: "i < unat (num_dir_entries s)" for i
  proof -
    have "i < 63" using i c by (auto simp: can_walk_def word_le_nat_alt)
    then have "mem t (entry_addr (fs_boot_block s) i + of_nat q) = mem s (entry_addr (fs_boot_block s) i + of_nat q)" if "q < 64" for q
      unfolding entry_addr_of using that by (intro same) simp
    from this [of 0] this [of 36] this [of 37] this [of 38] this [of 39] show ?thesis
      by (simp add: entry_used_def entry_inode_def load32_def base add.assoc)
  qed
  moreover have "mark_blocks (fs_boot_block s + k + 0x1000) 0 (mem t) b = mark_blocks (fs_boot_block s + k + 0x1000) 0 (mem s) b"
    if "k < 64" for k b
  proof (rule mark_blocks_cong)
    fix q :: nat assume "q < 4096"
    then have "unat k + 4096 + q < 12288" using that by (simp add: word_less_nat_alt)
    from same [OF this] show "mem t (fs_boot_block s + k + 0x1000 + of_nat q) = mem s (fs_boot_block s + k + 0x1000 + of_nat q)"
      by (simp add: algebra_simps)
  qed
  ultimately show "can_walk t"
    using c by (simp add: can_walk_def n size base)
qed

section \<open>All components\<close>

text \<open>
  The data of the program as it is loaded: the tables have their sizes and no terminal but the first is
  displayed; the image at \<open>blk\<close> can be walked, and lies apart from the video pages and from where
  \<open>fs_init\<close> copies the entries to.
\<close>

definition loaded :: "u32 \<Rightarrow> u32 \<Rightarrow> 'a kernel_state_scheme \<Rightarrow> bool" where
  "loaded p blk s \<longleftrightarrow> fresh_kernel s \<and> length (data_block_bitmap s) = 59 \<and> length (inode_bitmap s) = 64
     \<and> can_walk (s\<lparr>fs_boot_block := blk\<rparr>) \<and> buffer_apart (s\<lparr>fs_boot_block := blk\<rparr>) p 64
     \<and> buffer_apart (s\<lparr>fs_boot_block := blk\<rparr>) 0xB8000 0x4000"

lemma video_same_image:
  assumes "buffer_apart (s\<lparr>fs_boot_block := blk\<rparr>) 0xB8000 0x4000" "video_pages_only s t"
  shows "same_image (s\<lparr>fs_boot_block := blk\<rparr>) (t\<lparr>fs_boot_block := blk\<rparr>)"
  using apart_outside [OF assms(1)] assms(2) by (auto simp: same_image_def video_pages_only_def)

lemma loaded_kept:
  assumes l: "loaded p blk s" and k: "kept s t" and v: "video_pages_only s t"
  shows "loaded p blk t"
proof -
  have ap: "buffer_apart (s\<lparr>fs_boot_block := blk\<rparr>) 0xB8000 0x4000" "can_walk (s\<lparr>fs_boot_block := blk\<rparr>)"
    using l by (simp_all add: loaded_def)
  note c = can_walk_same [OF ap(2) video_same_image [OF ap(1) v]]
  have "buffer_apart (t\<lparr>fs_boot_block := blk\<rparr>) b n = buffer_apart (s\<lparr>fs_boot_block := blk\<rparr>) b n" for b n
    by (simp add: buffer_apart_def c(3))
  with l k c(1) show ?thesis by (simp add: loaded_def kept_def fresh_kernel_def)
qed

lemma components_up_to_fs:
  assumes l: "loaded p blk s"
  shows "\<exists>t. (do { s \<leftarrow> keyboard_init (i8259_init s);
      let s = mouse_init (rtc_init (cmos_init s));
      let s = init_page_structs s;
      Some (paging_init (page_directory_at s) s) }) = Some t \<and> kept s t \<and> mem t = mem s"
proof -
  have k0: "kept s (i8259_init s)" by (rule touched_kept [OF device_inits(1)])
  have "0 \<le> current_term (i8259_init s)" "nat (current_term (i8259_init s)) < length (three_terminals (i8259_init s))"
    using k0 l by (simp_all add: kept_def loaded_def fresh_kernel_def)
  from keyboard_init_run [OF this] obtain s1 where s1: "keyboard_init (i8259_init s) = Some s1"
    "kept (i8259_init s) s1" "mem s1 = mem s" by (auto simp: device_inits)
  let ?s2 = "mouse_init (rtc_init (cmos_init s1))"
  have "kept s1 (cmos_init s1)" by (rule touched_kept [OF device_inits(3)])
  moreover have "kept (rtc_init (cmos_init s1)) ?s2" by (rule touched_kept [OF mouse_io(4) [OF touched_refl]])
  ultimately have k: "kept s ?s2" using k0 s1(2) rtc_init_kept(1) kept_trans by metis
  have m: "mem ?s2 = mem s" using s1(3) by (simp add: device_inits rtc_init_kept)
  let ?s3 = "paging_init (page_directory_at (init_page_structs ?s2)) (init_page_structs ?s2)"
  have "kept s ?s3" by (rule kept_trans [OF kept_trans [OF k paging_kept(1)] paging_kept(3)])
  moreover have "mem ?s3 = mem s" unfolding paging_kept(2,4) by (rule m)
  ultimately show ?thesis using s1(1) by (simp add: Let_def)
qed

lemma start_components_run:
  assumes l: "loaded (junk_dir_entry env) blk s"
  shows "\<exists>u. start_components env blk s = Some u \<and> booting 0 u \<and> int_flag u
    \<and> same_image (s\<lparr>fs_boot_block := blk\<rparr>) u
    \<and> (\<forall>x. \<not> in_range x (junk_dir_entry env) 64 \<and> \<not> in_range x 0xB8000 0x4000 \<longrightarrow> mem u x = mem s x)"
proof -
  let ?p = "junk_dir_entry env"
  obtain s1 where s1: "(do { s \<leftarrow> keyboard_init (i8259_init s);
      let s = mouse_init (rtc_init (cmos_init s));
      let s = init_page_structs s;
      Some (paging_init (page_directory_at s) s) }) = Some s1" "kept s s1" "mem s1 = mem s"
    using components_up_to_fs [OF l] by blast
  have "video_pages_only s s1" by (simp add: video_pages_only_def s1(3))
  note l1 = loaded_kept [OF l s1(2) this, unfolded loaded_def]
  have fresh: "fresh_kernel s1" using l1 by blast
  let ?s2 = "s1\<lparr>PCB := map (\<lambda>p. p\<lparr>running := 0\<rparr>) (PCB s1)\<rparr>"
  have s2: "init_PCBs s1 = Some ?s2" using fresh by (intro init_PCBs_run) (simp add: fresh_kernel_def)
  have img: "can_walk (?s2\<lparr>fs_boot_block := blk\<rparr>)" "buffer_apart (?s2\<lparr>fs_boot_block := blk\<rparr>) ?p 64"
    "length (data_block_bitmap ?s2) = 59" "length (inode_bitmap ?s2) = 64"
    using l1 by (simp_all add: can_walk_def buffer_apart_def image_size_def num_dir_entries_def num_inodes_def
        num_data_blocks_def entry_used_def entry_inode_def)
  obtain s3 marked where s3: "fs_init ?p blk ?s2 = Some s3" "walked ?p marked (?s2\<lparr>fs_boot_block := blk\<rparr>) s3"
    using fs_init_run [OF img] by blast
  obtain m db ib where w: "s3 = ?s2\<lparr>fs_boot_block := blk, mem := m, data_block_bitmap := db, inode_bitmap := ib\<rparr>"
    "\<forall>x. \<not> in_range x ?p 64 \<longrightarrow> m x = mem s x"
    using s3(2) s1(3) unfolding walked_def by auto
  have t3: "length (three_terminals (clear s3)) = 3" "current_term (clear s3) = 0"
    using fresh by (simp_all add: w(1) fresh_kernel_def clear_def set_screen_position_def)
  obtain s4 where s4: "three_term_init (clear s3) = Some s4" "kept (clear s3) s4" "video_pages_only (clear s3) s4"
    using three_term_init_run [OF t3] by blast
  have k4: "kept s3 s4" by (rule kept_trans [OF clear_run(1) s4(2)])
  have v4: "\<forall>a. \<not> in_range a 0xB8000 0x4000 \<longrightarrow> mem s4 a = m a"
    using clear_run(2) [of s3] s4(3) by (simp add: video_pages_only_def w(1))
  let ?u = "sti (pit_init (scheduler_init s4))"
  have touch: "touched (scheduler_init s4) (pit_init (scheduler_init s4))" by (rule device_inits(5))
  have num: "num_multiprocess (pit_init (scheduler_init s4)) = 0" "current_multiprocess (pit_init (scheduler_init s4)) = 2"
    "on_default_term (pit_init (scheduler_init s4)) = 0"
    by (subst touch [unfolded touched_def], simp add: scheduler_init_def)+
  have u_mem: "mem ?u = mem s4" by (simp add: sti_def device_inits(6)) (simp add: scheduler_init_def)
  have u: "PCB ?u = PCB ?s2" "all_process ?u = all_process s1" "multi_process_idx ?u = multi_process_idx s1"
    "length (page_directory ?u) = length (page_directory s1)" "length (three_terminals ?u) = 3" "current_term ?u = 0"
    "fs_boot_block ?u = blk" "num_multiprocess ?u = 0" "int_flag ?u" "current_multiprocess ?u = 2" "on_default_term ?u = 0"
    using k4 touched_kept [OF touch] t3 w(1) num
    by (simp_all add: kept_def scheduler_init_def sti_def clear_def set_screen_position_def)
  have run: "start_components env blk s = Some ?u"
    using s1(1) s2 s3(1) s4(1) by (auto simp: start_components_def Let_def bind_eq_Some_conv)
  have "booting 0 ?u"
    using fresh u by (auto simp: booting_def fresh_kernel_def pcb_ok_def numeral_3_eq_3)
  moreover have frame: "\<forall>x. \<not> in_range x ?p 64 \<and> \<not> in_range x 0xB8000 0x4000 \<longrightarrow> mem ?u x = mem s x"
    using u_mem v4 w(2) by simp
  moreover have "same_image (s\<lparr>fs_boot_block := blk\<rparr>) ?u"
    using apart_outside [of "s\<lparr>fs_boot_block := blk\<rparr>"] l frame u(7) by (auto simp: same_image_def loaded_def)
  ultimately show ?thesis using run u(9) by blast
qed

section \<open>The entry\<close>

lemma cleared_printing: "off_screen mbi 52 \<Longrightarrow> printing (mem s) mbi (clear s)"
proof -
  assume off: "off_screen mbi 52"
  have "same_off_screen (mem s) (mem (clear s))"
    using clear_cells_frame by (simp add: same_off_screen_def clear_def set_screen_position_def)
  then show ?thesis
    using same_mbi [OF _ off] by (simp add: printing_def console_pos_def on_screen_def clear_def set_screen_position_def)
qed

lemma printed_video:
  assumes "prints (clear s) t"
  shows "kept s t" "video_pages_only s t"
proof -
  show "kept s t" by (rule kept_trans [OF clear_run(1) touched_kept [OF touched_prints [OF assms]]])
  have "on_screen (console_pos (clear s))" by (simp add: console_pos_def on_screen_def clear_def set_screen_position_def)
  from prints_frame(2) [OF assms this] have "same_off_screen (mem (clear s)) (mem t)" .
  moreover have "in_range a VIDEO 3840 \<Longrightarrow> in_range a 0xB8000 0x4000" for a by (simp add: in_range_def screen_consts)
  ultimately show "video_pages_only s t"
    using clear_run(2) [of s] unfolding video_pages_only_def same_off_screen_def by metis
qed

lemma entry_starts:
  assumes magic: "magic = 0x2BADB002" and ok: "info_ok (mem s) addr"
    and bits: "\<not> (CHECK_FLAG (mbi_flags (load_mbi (mem s) addr)) 4 \<and> CHECK_FLAG (mbi_flags (load_mbi (mem s) addr)) 5)"
    and l: "loaded (junk_dir_entry env) blk s" and blk: "blk = image_start env (mem s) addr" and idt: "length (idt c) = 256"
  shows "\<exists>c' u. entry env magic addr (c, s) = Some (Idle, c', u) \<and> booting 0 u \<and> int_flag u
    \<and> same_image (s\<lparr>fs_boot_block := blk\<rparr>) u"
proof -
  have off: "off_screen addr 52" using ok by (simp add: info_ok_def)
  obtain t where t: "show_boot_info env addr (clear s) = Some (Some blk, t)" "prints (clear s) t"
    using show_boot_info_run [OF ok cleared_printing [OF off], of env] bits blk by auto
  note pv = printed_video [OF t(2)]
  let ?t = "t\<lparr>tss_esp0 := 0x800000\<rparr>"
  have lt: "loaded (junk_dir_entry env) blk ?t"
    by (rule loaded_kept [OF l]) (use pv in \<open>simp_all add: kept_def video_pages_only_def\<close>)
  obtain c1 where c1: "tss_entry env (ldt_entry env c, t) = (c1, ?t)" "length (idt c1) = 256"
    using idt by (simp add: tss_entry_def ldt_entry_def Let_def)
  obtain c2 where c2: "init_idt (handler_at env) c1 = Some c2"
    using init_idt_run [OF c1(2)] by blast
  obtain u where u: "start_components env blk ?t = Some u" "booting 0 u" "int_flag u" "same_image (?t\<lparr>fs_boot_block := blk\<rparr>) u"
    using start_components_run [OF lt] by blast
  have "entry env magic addr (c, s) = Some (Idle, c2, u)"
    using t(1) c1(1) c2 u(1) magic by (simp add: entry_def MULTIBOOT_BOOTLOADER_MAGIC_def Let_def)
  moreover have "same_image (s\<lparr>fs_boot_block := blk\<rparr>) u"
  proof -
    have ap: "buffer_apart (s\<lparr>fs_boot_block := blk\<rparr>) 0xB8000 0x4000" "can_walk (s\<lparr>fs_boot_block := blk\<rparr>)"
      using l by (simp_all add: loaded_def)
    have v: "video_pages_only s ?t" using pv(2) by (simp add: video_pages_only_def)
    note sm = video_same_image [OF ap(1) v]
    show ?thesis using sm u(4) can_walk_same(3) [OF ap(2) sm] by (simp add: same_image_def)
  qed
  ultimately show ?thesis using u(2,3) by blast
qed

text \<open>
  C1. The kernel boots: called by a boot loader whose information can be printed and whose first module
  is an image with a shell, \<open>entry\<close> reaches its idle loop with interrupts on, and the first three
  timer interrupts each enter a shell at its entry point. Then three shells run, one at the bottom
  of each terminal's stack, and the tables are those the scheduler's rounds, \<open>sys_execute\<close> and
  \<open>sys_halt\<close> need.
\<close>

theorem boot_starts_shells:
  assumes "magic = 0x2BADB002" and "info_ok (mem s) addr"
    and "\<not> (CHECK_FLAG (mbi_flags (load_mbi (mem s) addr)) 4 \<and> CHECK_FLAG (mbi_flags (load_mbi (mem s) addr)) 5)"
    and "blk = image_start env (mem s) addr" and "loaded (junk_dir_entry env) blk s" and "length (idt c) = 256"
    and "shell_file cenv e (s\<lparr>fs_boot_block := blk\<rparr>)"
    and "ctl = Some (EnterUser (entry_point (file_contents (s\<lparr>fs_boot_block := blk\<rparr>) (inode_num e))) 0x08400000)"
  shows "\<exists>c' u0 u1 u2 u3. entry env magic addr (c, s) = Some (Idle, c', u0) \<and> int_flag u0
    \<and> pit_handler cenv u0 = Some (ctl, u1)
    \<and> pit_handler cenv (u1\<lparr>esp := x1, ebp := y1\<rparr>) = Some (ctl, u2)
    \<and> pit_handler cenv (u2\<lparr>esp := x2, ebp := y2\<rparr>) = Some (ctl, u3)
    \<and> process_stacks [[0], [1], [2]] u3 \<and> procs_ok u3 \<and> sched_ok u3
    \<and> num_multiprocess u3 = 3 \<and> current_term u3 = 2 \<and> current_process_pid u3 = 2"
proof -
  obtain c' u0 where u0: "entry env magic addr (c, s) = Some (Idle, c', u0)" "booting 0 u0" "int_flag u0"
    "same_image (s\<lparr>fs_boot_block := blk\<rparr>) u0"
    using entry_starts [OF assms(1,2,3,5,4,6)] by blast
  note sh = shell_file_same [OF assms(7) u0(4)]
  from ticks_start_shells [OF u0(2) sh(1), of ctl y1 x1 y2 x2] sh(2) assms(8) u0(1,3) show ?thesis by auto
qed

text \<open>
  C32. \<open>entry\<close> gives up cleanly: called without the boot loader's magic number, or with both symbol-table
  bits set, it returns to \<open>boot.S\<close>, having done nothing but print: no descriptor, no port, no
  interrupt mask, no table of the kernel and no memory outside the text rows has changed.
\<close>

theorem entry_gives_up:
  assumes "magic \<noteq> 0x2BADB002 \<or> info_ok (mem s) addr
      \<and> CHECK_FLAG (mbi_flags (load_mbi (mem s) addr)) 4 \<and> CHECK_FLAG (mbi_flags (load_mbi (mem s) addr)) 5"
  shows "\<exists>u. entry env magic addr (c, s) = Some (Returned, c, u)
    \<and> console_state.more u = console_state.more s \<and> io_log u = io_log s
    \<and> master_mask u = master_mask s \<and> slave_mask u = slave_mask s
    \<and> (\<forall>a. \<not> in_range a VIDEO 3840 \<longrightarrow> mem u a = mem s a)"
proof -
  obtain u where u: "entry env magic addr (c, s) = Some (Returned, c, u)" "prints (clear s) u"
  proof (cases "magic = 0x2BADB002")
    case False
    obtain u where "say (line ''Invalid magic number: 0x%#x'') [PNum magic] (clear s) = Some u" "prints (clear s) u"
      using say_run [OF rendered(7)] by blast
    with False that show thesis by (simp add: entry_def MULTIBOOT_BOOTLOADER_MAGIC_def Let_def)
  next
    case True
    then have ok: "info_ok (mem s) addr" and bits: "CHECK_FLAG (mbi_flags (load_mbi (mem s) addr)) 4"
      "CHECK_FLAG (mbi_flags (load_mbi (mem s) addr)) 5" using assms by auto
    have "off_screen addr 52" using ok by (simp add: info_ok_def)
    from show_boot_info_run [OF ok cleared_printing [OF this], of env] bits obtain u where
      "show_boot_info env addr (clear s) = Some (None, u)" "prints (clear s) u" by auto
    with True that show thesis by (simp add: entry_def MULTIBOOT_BOOTLOADER_MAGIC_def Let_def)
  qed
  have scr: "on_screen (console_pos (clear s))" by (simp add: console_pos_def on_screen_def clear_def set_screen_position_def)
  note fr = prints_frame [OF u(2) scr]
  have "\<forall>a. \<not> in_range a VIDEO 3840 \<longrightarrow> mem u a = mem s a"
    using fr(2) clear_cells_frame by (simp add: same_off_screen_def clear_def set_screen_position_def)
  then show ?thesis using u(1) fr(3-7) by (simp add: clear_def set_screen_position_def)
qed

text \<open>
  \<open>entry\<close> tells the processor where the two system segments are: the LDT's descriptor has its base
  and its limit, the TSS's likewise, of the types of a local table and of an available 32-bit task
  segment, both present and for the kernel; their selectors are loaded, and the task segment holds
  the kernel's stack for the first process. The interrupt table is not touched.
\<close>

theorem segments_described:
  "\<exists>c' s'. tss_entry env (ldt_entry env c, s) = (c', s')
    \<and> seg_base (ldt_desc_ptr c') = ldt_at env \<and> seg_limit (ldt_desc_ptr c') = take_bit 20 (ldt_size c)
    \<and> seg_type (ldt_desc_ptr c') = 2 \<and> seg_present (ldt_desc_ptr c') \<and> seg_dpl (ldt_desc_ptr c') = 0
    \<and> \<not> seg_sys (ldt_desc_ptr c') \<and> \<not> granularity (ldt_desc_ptr c')
    \<and> seg_base (tss_desc_ptr c') = tss_at env \<and> seg_limit (tss_desc_ptr c') = take_bit 20 (tss_size c)
    \<and> seg_type (tss_desc_ptr c') = 9 \<and> seg_present (tss_desc_ptr c') \<and> seg_dpl (tss_desc_ptr c') = 0
    \<and> \<not> seg_sys (tss_desc_ptr c') \<and> \<not> granularity (tss_desc_ptr c')
    \<and> ldtr c' = 0x38 \<and> task_register c' = 0x30 \<and> tss_ss0 c' = 0x18 \<and> tss_ldt_segment_selector c' = 0x38
    \<and> s' = s\<lparr>tss_esp0 := 0x800000\<rparr> \<and> idt c' = idt c \<and> idtr c' = idtr c"
  by (simp add: tss_entry_def ldt_entry_def Let_def KERNEL_LDT_def KERNEL_DS_def KERNEL_TSS_def)
    (simp add: SET_LDT_PARAMS_def SET_TSS_PARAMS_def)

section \<open>Witnesses\<close>

text \<open>The memory of \<open>shell_kernel\<close> with a boot loader's information: one module, the image.\<close>

definition loaded_kernel :: "unit kernel_state_scheme" where
  "loaded_kernel = shell_kernel\<lparr>mem := (mem shell_kernel)
     (0x30000 := 8, 0x30014 := 1, 0x30019 := 1, 0x3001A := 3, 0x30102 := 1, 0x30106 := 2)\<rparr>"

definition linked :: boot_env where
  "linked = boot_env.make (\<lambda>_. 0x401000) 0x408000 0x409000 0 0x7FF000
     (seg_desc_t.make 0 0 0 0 False 0 False 0 False False False False 0)"

definition linked_tables :: boot_tables where
  "linked_tables = boot_tables.make (replicate 256 zero_gate) (x86_desc_t.make 0x7FF 0x40A000) None 31 103
     (junk_desc linked) (junk_desc linked) 0 0 0 0"

lemma loaded_info: "load_mbi (mem loaded_kernel) 0x30000 = multiboot_info_t.make 8 0 0 0 0 1 0x30100 0 0 0 0 0 0"
  "mod_start (load_module (mem loaded_kernel) 0x30100) = 0x10000"
  by (simp_all add: load_mbi_def load_module_def load32_def loaded_kernel_def shell_kernel_def exec_mem_def tiny_mem_def
      multiboot_info_t.make_def)

lemma loaded_flags: "mbi_flags (load_mbi (mem loaded_kernel) 0x30000) = 8" "mods_addr (load_mbi (mem loaded_kernel) 0x30000) = 0x30100"
  "CHECK_FLAG 8 3" "\<not> CHECK_FLAG 8 2" "\<not> CHECK_FLAG 8 4" "\<not> CHECK_FLAG 8 6"
  by (simp_all add: loaded_info multiboot_info_t.make_def CHECK_FLAG_def)

lemma low_off_screen: "unat a + n \<le> 0xB8000 \<Longrightarrow> off_screen a n"
  unfolding off_screen_def
proof (intro allI impI notI)
  fix i assume a: "unat a + n \<le> 0xB8000" and i: "i < n" and r: "in_range (a + of_nat i) VIDEO 3840"
  have u: "unat (a + of_nat i) = unat a + i" using a i by (simp add: unat_add_small unat_of_nat_small)
  from r obtain k where k: "k < 3840" "a + of_nat i = VIDEO + of_nat k" by (elim in_rangeE)
  have "unat (VIDEO + of_nat k) = 0xB8000 + k"
    using k(1) by (simp add: screen_consts unat_add_small unat_of_nat_small)
  then show False using u k(2) a i by simp
qed

lemma loaded_image: "same_image shell_kernel loaded_kernel" "fs_boot_block loaded_kernel = 0x10000"
proof -
  show "fs_boot_block loaded_kernel = 0x10000" by (simp add: loaded_kernel_def shell_image)
  have "\<not> in_range x 0x10000 12288" if "x \<in> {0x30000, 0x30014, 0x30019, 0x3001A, 0x30102, 0x30106}" for x :: u32
    using that by (auto simp: in_range_def)
  then show "same_image shell_kernel loaded_kernel"
    by (auto simp: same_image_def shell_image loaded_kernel_def)
qed

lemma loaded_self: "loaded_kernel\<lparr>fs_boot_block := 0x10000\<rparr> = loaded_kernel"
proof -
  have "loaded_kernel\<lparr>fs_boot_block := fs_boot_block loaded_kernel\<rparr> = loaded_kernel" by simp
  then show ?thesis unfolding loaded_image(2) .
qed

lemma shell_can_walk: "can_walk shell_kernel"
proof -
  have "entry_inode shell_kernel 0 = 0"
    by (simp add: entry_inode_def entry_addr_def shell_kernel_def exec_kernel_def tiny_kernel_def exec_mem_def tiny_mem_def load32_def)
  then show ?thesis by (simp add: can_walk_def shell_image entry_used_def)
qed

lemma loaded_kernel_loaded: "loaded 0x7FF000 0x10000 loaded_kernel"
proof -
  note same = loaded_self
  have size: "image_size loaded_kernel = 12288" using can_walk_same(3) [OF shell_can_walk loaded_image(1)] by (simp add: shell_image)
  have ap: "buffer_apart loaded_kernel b n = buffer_apart exec_kernel b n" for b n
    by (simp add: buffer_apart_def size loaded_image(2) exec_image)
  have "buffer_apart exec_kernel 0x7FF000 64" "buffer_apart exec_kernel 0xB8000 0x4000"
    by (intro exec_apart; simp)+
  moreover have "fresh_kernel loaded_kernel" using shell_kernel_fresh by (simp add: fresh_kernel_def loaded_kernel_def)
  moreover have "length (data_block_bitmap loaded_kernel) = 59" "length (inode_bitmap loaded_kernel) = 64"
    by (simp_all add: loaded_kernel_def shell_kernel_def exec_kernel_def tiny_kernel_def)
  ultimately show ?thesis
    using can_walk_same(1) [OF shell_can_walk loaded_image(1)] by (simp add: loaded_def same ap)
qed

theorem boot_starts_shells_witness:
  "\<exists>c' u0 u1. entry linked 0x2BADB002 0x30000 (linked_tables, loaded_kernel) = Some (Idle, c', u0) \<and> int_flag u0
    \<and> pit_handler tiny_env u0 = Some (Some (EnterUser 0x08048000 0x08400000), u1)"
proof -
  obtain e where e: "shell_file tiny_env e shell_kernel" "inode_num e = 0" using shell_kernel_file by blast
  note f = shell_file_same [OF e(1) loaded_image(1)]
  have blk: "0x10000 = image_start linked (mem loaded_kernel) 0x30000"
    using loaded_info(2) by (simp add: image_start_def loaded_flags Let_def)
  have ok: "info_ok (mem loaded_kernel) 0x30000"
    by (simp add: info_ok_def loaded_flags Let_def low_off_screen)
  have same: "loaded_kernel\<lparr>fs_boot_block := 0x10000\<rparr> = loaded_kernel" by (rule loaded_self)
  have p: "junk_dir_entry linked = 0x7FF000" by (simp add: linked_def boot_env.make_def)
  have n: "length (idt linked_tables) = 256" by (simp add: linked_tables_def boot_tables.make_def)
  have "entry_point (file_contents loaded_kernel 0) = 0x08048000"
    using f(2) e(2) exec_file(3) by (simp add: shell_contents)
  with boot_starts_shells [OF refl ok _ blk, of linked_tables tiny_env e, OF _ _ n _ refl] f(1) e(2) loaded_kernel_loaded
  show ?thesis by (simp add: loaded_flags same p) blast
qed

theorem entry_gives_up_witness:
  "\<exists>u. entry linked 0x1BADB002 0 (linked_tables, loaded_kernel) = Some (Returned, linked_tables, u) \<and> io_log u = []"
  using entry_gives_up [of "0x1BADB002" loaded_kernel 0 linked linked_tables]
  by (auto simp: loaded_kernel_def shell_kernel_def exec_kernel_def tiny_kernel_def)

end
