(* ===== verification/Keeping.thy ===== *)
theory Keeping
  imports Keyboard
begin

text \<open>
  What the operations on the terminals leave alone. Whatever they do to a terminal, its page, the ports
  and the keyboard's flags, whichever early return they take, the process tables stay as they are.
\<close>

section \<open>The rules\<close>

definition same_tables :: "'a kernel_state_scheme \<Rightarrow> 'a kernel_state_scheme \<Rightarrow> bool" where
  "same_tables s t \<longleftrightarrow> PCB t = PCB s \<and> all_process t = all_process s \<and> multi_process_idx t = multi_process_idx s
     \<and> current_process_pid t = current_process_pid s \<and> num_multiprocess t = num_multiprocess s
     \<and> current_multiprocess t = current_multiprocess s \<and> current_term t = current_term s
     \<and> page_directory t = page_directory s \<and> length (three_terminals t) = length (three_terminals s)"

text \<open>Every result of an operation has the tables of \<open>s\<close>.\<close>

definition keeps :: "'a kernel_state_scheme \<Rightarrow> 'a kernel_state_scheme option \<Rightarrow> bool" where
  "keeps s r \<longleftrightarrow> (\<forall>t. r = Some t \<longrightarrow> same_tables s t)"

definition keeps_with :: "'a kernel_state_scheme \<Rightarrow> ('b \<times> 'a kernel_state_scheme) option \<Rightarrow> bool" where
  "keeps_with s r \<longleftrightarrow> (\<forall>v t. r = Some (v, t) \<longrightarrow> same_tables s t)"

named_theorems keeping

lemma same_tables_refl [simp, intro]: "same_tables s s" by (simp add: same_tables_def)

lemma same_tables_update [keeping]:
  assumes "same_tables s u"
  shows "same_tables s (u\<lparr>mem := m\<rparr>)" "same_tables s (u\<lparr>io_log := l\<rparr>)" "same_tables s (u\<lparr>int_flag := b\<rparr>)"
    "same_tables s (u\<lparr>g_bytes_read := i\<rparr>)" "same_tables s (u\<lparr>g_bytes_written := i\<rparr>)" "same_tables s (u\<lparr>g_bytes_read_store := i\<rparr>)"
    "same_tables s (u\<lparr>parse_buffer := p\<rparr>)" "same_tables s (u\<lparr>shift_pressed := x\<rparr>)" "same_tables s (u\<lparr>ctrl_pressed := x\<rparr>)"
    "same_tables s (u\<lparr>caps_pressed := x\<rparr>)" "same_tables s (u\<lparr>key_pressed := x\<rparr>)" "same_tables s (u\<lparr>alt_pressed := x\<rparr>)"
    "same_tables s (u\<lparr>enter_pressed := x\<rparr>)" "same_tables s (u\<lparr>spam_enters_received := x\<rparr>)" "same_tables s (u\<lparr>io_dev := d\<rparr>)"
    "same_tables s (outb v port u)" "same_tables s (snd (inb port u))" "same_tables s (send_eoi n u)"
    "same_tables s (cli u)" "same_tables s (sti u)"
  using assms by (simp_all add: same_tables_def outb_def inb_def send_eoi_def cli_def sti_def)

lemma same_tables_trans: "same_tables s t \<Longrightarrow> same_tables t u \<Longrightarrow> same_tables s u"
  by (simp add: same_tables_def)

text \<open>A value that is read, or computed from values, takes no part.\<close>

lemma keeps_value [keeping]:
  "(\<And>v :: terminal_t. keeps s (f v)) \<Longrightarrow> keeps s (rt \<bind> f)"
  "(\<And>v :: u8. keeps s (g v)) \<Longrightarrow> keeps s (rc \<bind> g)"
  "(\<And>v :: u8 list. keeps s (h v)) \<Longrightarrow> keeps s (rl \<bind> h)"
  "(\<And>v :: u8 list list. keeps s (k v)) \<Longrightarrow> keeps s (rh \<bind> k)"
  "(\<And>a (b :: mem). keeps s (p (a, b))) \<Longrightarrow> keeps s (rp \<bind> p)"
  "(\<And>a (b :: nat). keeps s (q (a, b))) \<Longrightarrow> keeps s (rq \<bind> q)"
  by (auto simp: keeps_def bind_eq_Some_conv)

lemma keeps_with_value [keeping]:
  "(\<And>v :: terminal_t. keeps_with s (f v)) \<Longrightarrow> keeps_with s (rt \<bind> f)"
  "(\<And>v :: u8 list. keeps_with s (h v)) \<Longrightarrow> keeps_with s (rl \<bind> h)"
  "(\<And>v :: u8. keeps_with s (w v)) \<Longrightarrow> keeps_with s (rw \<bind> w)"
  "(\<And>v :: process_t. keeps_with s (g v)) \<Longrightarrow> keeps_with s (rg \<bind> g)"
  "(\<And>a b (c :: mem). keeps_with s (p (a, b, c))) \<Longrightarrow> keeps_with s (rp \<bind> p)"
  by (auto simp: keeps_with_def bind_eq_Some_conv)

lemma keeps_control [keeping]:
  "same_tables s u \<Longrightarrow> keeps s (Some u)"
  "keeps s r \<Longrightarrow> (\<And>t. same_tables s t \<Longrightarrow> keeps s (f t)) \<Longrightarrow> keeps s (r \<bind> f)"
  "\<lbrakk>b \<Longrightarrow> keeps s x; \<not> b \<Longrightarrow> keeps s y\<rbrakk> \<Longrightarrow> keeps s (if b then x else y)"
  "same_tables s u \<Longrightarrow> keeps_with s (Some (val, u))"
  "keeps s r \<Longrightarrow> (\<And>t. same_tables s t \<Longrightarrow> keeps_with s (g t)) \<Longrightarrow> keeps_with s (r \<bind> g)"
  "\<lbrakk>b \<Longrightarrow> keeps_with s z; \<not> b \<Longrightarrow> keeps_with s w\<rbrakk> \<Longrightarrow> keeps_with s (if b then z else w)"
  "\<lbrakk>b \<Longrightarrow> same_tables s u; \<not> b \<Longrightarrow> same_tables s v\<rbrakk> \<Longrightarrow> same_tables s (if b then u else v)"
  "keeps s r \<Longrightarrow> keeps_with s (map_option (Pair val) r)"
  by (auto simp: keeps_def keeps_with_def bind_eq_Some_conv)

lemma keeps_loop [keeping]:
  assumes "\<And>x t. same_tables s t \<Longrightarrow> keeps s (body x t)" and "same_tables s u"
  shows "keeps s (loop_over xs body u)"
  using assms(2) by (induction xs arbitrary: u) (auto simp: keeps_def bind_eq_Some_conv dest: assms(1) [unfolded keeps_def, rule_format])

lemma peek_length: "poke xs i x = Some ys \<Longrightarrow> length ys = length xs" "poke_int xs j x = Some ys \<Longrightarrow> length ys = length xs"
  by (auto simp: poke_int_def poke_def split: if_splits)

section \<open>The operations on the terminals\<close>

lemma keeps_terms [keeping]:
  assumes "same_tables s u"
  shows "keeps s (set_cur t u)" "keeps s (set_term i t u)"
  using assms by (auto simp: keeps_def set_cur_def set_term_def same_tables_def dest: peek_length)

lemma keeps_screen [keeping]:
  assumes "same_tables s u"
  shows "keeps s (putc_multi c base i u)" "keeps s (clear_multi base i u)" "keeps s (move_cursor loc u)"
    "keeps s (terminal_scroll u)" "keeps s (command_buffer_scroll i u)"
  unfolding putc_multi_def clear_multi_def move_cursor_def terminal_scroll_def command_buffer_scroll_def Let_def case_prod_unfold
  by (rule keeping assms | assumption)+

section \<open>Editing the line\<close>

lemma keeps_moves [keeping]:
  assumes "same_tables s u"
  shows "keeps s (cursor_left u)" "keeps s (cursor_right u)" "keeps s (advance_cursor n u)" "keeps s (backspace u)"
  unfolding cursor_left_def cursor_right_def advance_cursor_def backspace_def Let_def case_prod_unfold
  by (rule keeping assms | assumption)+

lemma keeps_insert [keeping]: "same_tables s u \<Longrightarrow> keeps s (insert_char c u)"
  unfolding insert_char_def Let_def case_prod_unfold
  by (rule keeping | assumption)+

lemma keeps_output [keeping]:
  assumes "same_tables s u"
  shows "keeps s (output_char c u)" "keeps s (tab c u)" "keeps s (erase_line u)" "keeps s (put_aside u)"
  unfolding output_char_def tab_def erase_line_def put_aside_def Let_def
  by (rule keeping assms | assumption)+

lemma keeps_retype [keeping]: "same_tables s u \<Longrightarrow> keeps s (retype n idx view_row from_temp u)"
proof (induction n arbitrary: idx u)
  case 0
  then show ?case by (simp add: keeps_control)
next
  case (Suc n)
  show ?case unfolding retype.simps Let_def by (rule keeping Suc | assumption)+
qed

lemma keeps_lines [keeping]:
  assumes "same_tables s u"
  shows "keeps s (new_line u)" "keeps s (buffer_clear u)" "keeps s (prev_command u)" "keeps s (next_command u)"
  unfolding new_line_def buffer_clear_def prev_command_def next_command_def reprint_char_def Let_def
  by (rule keeping assms | assumption)+

lemma keeps_parse [keeping]:
  assumes "same_tables s u"
  shows "keeps s (parse_key c ctrl bsp tb u)" "keeps s (enter_key u)"
  unfolding parse_key_def read_parser_def enter_key_def Let_def
  by (rule keeping assms | assumption)+

section \<open>The handlers\<close>

lemma keeps_keycode [keeping]: "same_tables s u \<Longrightarrow> keeps_with s (handle_keycode keycode u)"
  unfolding handle_keycode_def key_char_def Let_def
  by (rule keeping | assumption)+

text \<open>A typed character edits the line or displays one of the three terminals.\<close>

lemma handle_char_outcome:
  assumes "handle_char c s = Some t"
  shows "same_tables s t \<or> (\<exists>j<3. terminal_switch (int j) 1 s = Some t)"
proof -
  have "keeps s (parse_key c x y z s)" for x y z by (rule keeping same_tables_refl)+
  with assms show ?thesis
    by (auto simp: handle_char_def keeps_def split: if_splits intro: exI [of _ 0] exI [of _ 1] exI [of _ 2])
qed

lemma keyboard_outcome:
  assumes "keyboard_handler s = Some t"
  shows "\<exists>u v. same_tables s u \<and> same_tables v t \<and> (same_tables u v \<or> (\<exists>j<3. terminal_switch (int j) 1 u = Some v))"
proof -
  let ?s = "snd (inb KEYBOARD_STATUS_PORT s)"
  have s: "same_tables s ?s" by (rule keeping same_tables_refl)+
  show ?thesis
  proof (cases "fst (inb KEYBOARD_STATUS_PORT s) AND 1 \<noteq> 0")
    case False
    then have "t = send_eoi KEYBOARD_IRQ ?s" using assms by (simp add: keyboard_handler_def case_prod_unfold Let_def)
    then have "same_tables ?s t" by (simp add: same_tables_update)
    then show ?thesis using s by blast
  next
    case True
    then obtain c u v where u: "handle_keycode (fst (inb KEYBOARD_DATA_PORT ?s)) (snd (inb KEYBOARD_DATA_PORT ?s)) = Some (c, u)"
      and v: "handle_char c u = Some v" and t: "t = send_eoi KEYBOARD_IRQ v"
      using assms by (auto simp: keyboard_handler_def case_prod_unfold Let_def bind_eq_Some_conv)
    have "keeps_with s (handle_keycode (fst (inb KEYBOARD_DATA_PORT ?s)) (snd (inb KEYBOARD_DATA_PORT ?s)))"
      by (rule keeping s)+
    then have "same_tables s u" using u by (simp add: keeps_with_def)
    moreover have "same_tables v t" unfolding t by (rule keeping same_tables_refl)+
    ultimately show ?thesis using handle_char_outcome [OF v] by blast
  qed
qed

lemma keeps_driver:
  assumes "same_tables s u"
  shows "keeps_with s (terminal_write fd ptr n u)" "keeps s (begin_read i u)" "keeps_with s (finish_read i ptr w u)"
  unfolding terminal_write_def write_char_def write_parser_def begin_read_def finish_read_def Let_def case_prod_unfold
  by (rule keeping assms | assumption)+

end
