(* ===== verification/Staying.thy ===== *)
theory Staying
  imports Keeping Calls Halting
begin

text \<open>
  What the operations on descriptors can change: besides memory, the devices and the terminals only
  the descriptors of the process that runs. The rules walk over the definitions as those of
  \<open>Keeping\<close> do; an operation that does not return is not constrained.
\<close>

section \<open>The rules\<close>

definition same_processes :: "'a kernel_state_scheme \<Rightarrow> 'a kernel_state_scheme \<Rightarrow> bool" where
  "same_processes s t \<longleftrightarrow> (let k = unat (current_process_pid s) in
     (\<exists>fs. length fs = length (file_array (PCB s ! k)) \<and> PCB t = (PCB s)[k := (PCB s ! k)\<lparr>file_array := fs\<rparr>])
     \<and> length (page_directory t) = length (page_directory s)
     \<and> same_tables s (t\<lparr>PCB := PCB s, page_directory := page_directory s\<rparr>))"

definition stays :: "'a kernel_state_scheme \<Rightarrow> 'a kernel_state_scheme option \<Rightarrow> bool" where
  "stays s r \<longleftrightarrow> (\<forall>t. r = Some t \<longrightarrow> same_processes s t)"

definition stays_with :: "'a kernel_state_scheme \<Rightarrow> ('b \<times> 'a kernel_state_scheme) option \<Rightarrow> bool" where
  "stays_with s r \<longleftrightarrow> (\<forall>v t. r = Some (v, t) \<longrightarrow> same_processes s t)"

named_theorems staying

lemma same_processes_tables: "same_tables s t \<Longrightarrow> same_processes s t"
  by (auto simp: same_processes_def same_tables_def Let_def intro!: exI [of _ "file_array (PCB s ! unat (current_process_pid s))"])

lemma same_processes_refl [simp, intro]: "same_processes s s"
  by (rule same_processes_tables) simp

lemma same_processes_trans [trans]:
  assumes "same_processes s t" "same_processes t u"
  shows "same_processes s u"
proof -
  let ?k = "unat (current_process_pid s)"
  obtain fs where fs: "length fs = length (file_array (PCB s ! ?k))" "PCB t = (PCB s)[?k := (PCB s ! ?k)\<lparr>file_array := fs\<rparr>]"
    using assms(1) by (auto simp: same_processes_def Let_def)
  have cur: "current_process_pid t = current_process_pid s" using assms(1) by (simp add: same_processes_def same_tables_def Let_def)
  obtain gs where gs: "length gs = length (file_array (PCB t ! ?k))" "PCB u = (PCB t)[?k := (PCB t ! ?k)\<lparr>file_array := gs\<rparr>]"
    using assms(2) cur by (auto simp: same_processes_def Let_def)
  have "\<exists>hs. length hs = length (file_array (PCB s ! ?k)) \<and> PCB u = (PCB s)[?k := (PCB s ! ?k)\<lparr>file_array := hs\<rparr>]"
  proof (cases "?k < length (PCB s)")
    case True
    with fs gs show ?thesis by (intro exI [of _ gs]) simp
  next
    case False
    with fs gs show ?thesis by (intro exI [of _ fs]) (simp add: list_update_beyond)
  qed
  then show ?thesis using assms by (simp add: same_processes_def same_tables_def Let_def)
qed

lemma same_processes_update [staying]:
  assumes "same_processes s u"
  shows "same_processes s (u\<lparr>mem := m\<rparr>)" "same_processes s (u\<lparr>global_count := c\<rparr>)"
    "same_processes s (u\<lparr>inode_bitmap := b\<rparr>)" "same_processes s (u\<lparr>data_block_bitmap := b\<rparr>)"
    "same_processes s (u\<lparr>x_pos := x, y_pos := y, fake_mouse_pos_x := fx, fake_mouse_pos_y := fy\<rparr>)"
    "same_processes s (u\<lparr>x_pos := x, y_pos := y\<rparr>)" "same_processes s (sti u)"
    "same_processes s (outb v port u)" "same_processes s (snd (inb port u))" "same_processes s (send_eoi n u)"
    "same_processes s (map_video phys u)" "same_processes s (map_process pid u)"
  using assms
  by (auto simp: same_processes_def same_tables_def outb_def inb_def send_eoi_def sti_def map_video_def map_process_def Let_def)

text \<open>States first, then any value.\<close>

lemma stays_control [staying]:
  "same_processes s u \<Longrightarrow> stays s (Some u)"
  "stays s r \<Longrightarrow> (\<And>t. same_processes s t \<Longrightarrow> stays s (f t)) \<Longrightarrow> stays s (r \<bind> f)"
  "stays_with s rp \<Longrightarrow> (\<And>p. same_processes s (snd p) \<Longrightarrow> stays s (fp p)) \<Longrightarrow> stays s (rp \<bind> fp)"
  "(\<And>val. stays s (h val)) \<Longrightarrow> stays s (rv \<bind> h)"
  "\<lbrakk>b \<Longrightarrow> stays s x; \<not> b \<Longrightarrow> stays s y\<rbrakk> \<Longrightarrow> stays s (if b then x else y)"
  by (auto simp: stays_def stays_with_def bind_eq_Some_conv)

lemma stays_with_control [staying]:
  "same_processes s u \<Longrightarrow> stays_with s (Some (val, u))"
  "stays s r \<Longrightarrow> (\<And>t. same_processes s t \<Longrightarrow> stays_with s (f t)) \<Longrightarrow> stays_with s (r \<bind> f)"
  "stays_with s rp \<Longrightarrow> (\<And>p. same_processes s (snd p) \<Longrightarrow> stays_with s (fp p)) \<Longrightarrow> stays_with s (rp \<bind> fp)"
  "(\<And>val. stays_with s (h val)) \<Longrightarrow> stays_with s (rv \<bind> h)"
  "\<lbrakk>b \<Longrightarrow> stays_with s x; \<not> b \<Longrightarrow> stays_with s y\<rbrakk> \<Longrightarrow> stays_with s (if b then x else y)"
  "\<lbrakk>ov = None \<Longrightarrow> stays_with s x; \<And>a. ov = Some a \<Longrightarrow> stays_with s (g a)\<rbrakk> \<Longrightarrow> stays_with s (case_option x g ov)"
  by (auto simp: stays_def stays_with_def bind_eq_Some_conv split: option.splits)

lemma stays_loop [staying]:
  assumes "\<And>x t. same_processes s t \<Longrightarrow> stays s (body x t)" and "same_processes s u"
  shows "stays s (loop_over xs body u)"
  using assms(2)
  by (induction xs arbitrary: u) (auto simp: stays_def bind_eq_Some_conv dest: assms(1) [unfolded stays_def, rule_format])

text \<open>What keeps the tables of a state keeps the processes.\<close>

lemma stays_keeps:
  "keeps u r \<Longrightarrow> same_processes s u \<Longrightarrow> stays s r" "keeps_with u q \<Longrightarrow> same_processes s u \<Longrightarrow> stays_with s q"
  unfolding keeps_def keeps_with_def stays_def stays_with_def
  using same_processes_tables same_processes_trans by blast+

text \<open>An operation that only writes to memory and the file system's maps.\<close>

lemma stays_only:
  "(\<And>t. r = Some t \<Longrightarrow> \<exists>m. t = u\<lparr>mem := m\<rparr>) \<Longrightarrow> same_processes s u \<Longrightarrow> stays s r"
  "(\<And>v t. q = Some (v, t) \<Longrightarrow> \<exists>m. t = u\<lparr>mem := m\<rparr>) \<Longrightarrow> same_processes s u \<Longrightarrow> stays_with s q"
  by (fastforce simp: stays_def stays_with_def intro: same_processes_update(1))+

section \<open>Descriptors\<close>

lemma same_processes_fds:
  assumes "k = unat (current_process_pid s)" "length fs = length (file_array (PCB s ! k))"
  shows "same_processes s (s\<lparr>PCB := (PCB s)[k := (PCB s ! k)\<lparr>file_array := fs\<rparr>]\<rparr>)"
  using assms by (auto simp: same_processes_def same_tables_def Let_def)

lemma stays_set_fd [staying]: "same_processes s u \<Longrightarrow> stays s (set_fd fd f u)"
proof -
  assume u: "same_processes s u"
  have "same_processes u t" if "set_fd fd f u = Some t" for t
    using that by (auto simp: set_fd_def current_PCB_def set_PCB_def bind_eq_Some_conv poke_Some_iff intro!: same_processes_fds)
  then show ?thesis unfolding stays_def using same_processes_trans [OF u] by blast
qed

lemma stays_upd_fd [staying]: "same_processes s u \<Longrightarrow> stays s (upd_fd fd f u)"
  unfolding upd_fd_def by (rule staying | assumption)+

section \<open>Files\<close>

lemma stays_data [staying]:
  assumes "same_processes s u"
  shows "stays_with s (read_data inode offset buf n u)" "stays_with s (claim_free_data_block u)"
    "stays_with s (claim_free_inode_block u)" "stays_with s (write_blocks inode_ptr inode_count offset buf n u)"
  unfolding read_data_def claim_free_data_block_def claim_free_inode_block_def write_blocks_def Let_def case_prod_unfold
  by (rule staying assms | assumption)+

lemma stays_claim_blocks [staying]:
  "same_processes s u \<Longrightarrow> stays_with s (claim_blocks inode_ptr claimed new count u)"
proof (induction count arbitrary: new u)
  case 0
  then show ?case by (simp add: stays_with_control)
next
  case (Suc count)
  show ?case unfolding claim_blocks.simps case_prod_unfold by (rule staying Suc | assumption)+
qed

lemma stays_write_data [staying]:
  assumes "same_processes s u"
  shows "stays_with s (extend_file inode_ptr offset n u)" "stays_with s (write_data inode offset buf n u)"
    "stays_with s (create_new_file name u)"
proof -
  have ext: "stays_with s (extend_file inode_ptr offset n u)" if "same_processes s u" for inode_ptr n u
    unfolding extend_file_def Let_def case_prod_unfold by (rule staying that | assumption)+
  show "stays_with s (extend_file inode_ptr offset n u)" using ext assms .
  show "stays_with s (write_data inode offset buf n u)"
    unfolding write_data_def Let_def case_prod_unfold by (rule staying ext assms | assumption)+
  show "stays_with s (create_new_file name u)"
    unfolding create_new_file_def Let_def case_prod_unfold by (rule staying assms | assumption)+
qed

section \<open>Drivers\<close>

text \<open>A process that reads the clock waits for its interrupts.\<close>

lemma stays_clock [staying]: "same_processes s u \<Longrightarrow> stays s (cmos_handler u)" "same_processes s u \<Longrightarrow> stays s (rtc_handler u)"
proof -
  show cmos: "stays s (cmos_handler u)" if "same_processes s u" for u
    unfolding cmos_handler_def update_status_bar_time_def Let_def case_prod_unfold by (rule staying that | assumption)+
  show "same_processes s u \<Longrightarrow> stays s (rtc_handler u)"
    unfolding rtc_handler_def Let_def case_prod_unfold by (rule staying cmos | assumption)+
qed

lemma stays_rtc_wait [staying]:
  assumes "same_processes s u"
  shows "stays s (rtc_wait target u)"
proof -
  have tick: "same_processes u t" if "rtc_handler u = Some t" for u t :: "'a kernel_state_scheme"
    using stays_clock(2) [OF same_processes_refl, of u] that by (simp add: stays_def)
  have "same_processes u t" if "rtc_wait target u = Some t" for t
    using that
  proof (induction rule: rtc_wait.raw_induct [rotated 1, consumes 1])
    case (1 rtc_wait target u t)
    then show ?case
      by (auto simp: bind_eq_Some_conv split: if_splits intro: same_processes_trans [OF tick])
  qed
  then show ?thesis unfolding stays_def using same_processes_trans [OF assms] by blast
qed

lemma stays_rtc [staying]:
  assumes "same_processes s u"
  shows "stays_with s (rtc_read fd buf n u)" "stays_with s (rtc_write fd buf n u)" "stays_with s (rtc_open name u)" "stays_with s (rtc_close fd u)"
  unfolding rtc_read_def rtc_write_def rtc_open_def rtc_close_def Let_def
  by (rule staying assms | assumption)+

lemma stays_mouse [staying]:
  assumes "same_processes s u"
  shows "stays_with s (mouse_read fd buf n u)" "stays_with s (mouse_write fd buf n u)" "stays_with s (mouse_open name u)" "stays_with s (mouse_close fd u)"
  unfolding mouse_read_def mouse_write_def mouse_open_def mouse_close_def Let_def
  by (rule staying assms | assumption)+

lemma stays_file [staying]:
  assumes "same_processes s u"
  shows "stays_with s (file_read fd buf n u)" "stays_with s (file_write fd buf n u)" "stays_with s (file_open junk name u)" "stays_with s (file_close fd u)"
  unfolding file_read_def file_write_def file_open_def file_close_def case_prod_unfold
  by (rule staying assms | assumption)+

lemma stays_dir [staying]:
  assumes "same_processes s u"
  shows "stays_with s (dir_read junk fd buf n u)" "stays_with s (dir_write fd buf n u)" "stays_with s (dir_open junk name u)" "stays_with s (dir_close fd u)"
  unfolding dir_read_def dir_write_def dir_open_def dir_close_def Let_def case_prod_unfold
  by (rule staying assms | assumption)+

text \<open>Reading the terminal waits for the keyboard, which may display another terminal.\<close>

lemma stays_driver [staying]:
  assumes "same_processes s u"
  shows "d \<noteq> TerminalDriver \<Longrightarrow> stays_with s (driver_read d junk fd buf n u)" "stays_with s (driver_write d fd buf n u)"
    "stays_with s (driver_open d junk name u)" "stays_with s (driver_close d fd u)"
proof -
  have no: "stays_with s None" by (simp add: stays_with_def)
  note terminal = stays_keeps(2) [OF keeps_driver(1) [OF same_tables_refl] assms]
  show "d \<noteq> TerminalDriver \<Longrightarrow> stays_with s (driver_read d junk fd buf n u)" "stays_with s (driver_write d fd buf n u)"
    "stays_with s (driver_open d junk name u)" "stays_with s (driver_close d fd u)"
    by (cases d; simp add: staying assms no terminal)+
qed

section \<open>System calls\<close>

lemma stays_calls [staying]:
  assumes "same_processes s u"
  shows "stays_with s (sys_write fd buf n u)" "stays_with s (open_slot env mouse entry name u)" "stays_with s (find_or_create name junk u)"
    "stays_with s (sys_close fd u)" "stays_with s (sys_getargs buf n u)" "stays_with s (sys_set_handler signum addr u)"
    "stays_with s (sys_sigreturn u)" "stays s (store32_virtual va val u)"
  unfolding sys_write_def open_slot_def find_or_create_def sys_close_def sys_getargs_def sys_set_handler_def sys_sigreturn_def
    store32_virtual_def Let_def case_prod_unfold
  by (rule staying assms | assumption)+

lemma stays_open [staying]:
  assumes "same_processes s u"
  shows "stays_with s (sys_open env name u)" "stays_with s (sys_vidmap addr u)"
  unfolding sys_open_def sys_vidmap_def Let_def case_prod_unfold
  by (rule staying assms | assumption)+

text \<open>The two parts of \<open>sys_execute\<close> that come before a process is created.\<close>

lemma stays_find_executable [staying]: "same_processes s u \<Longrightarrow> stays_with s (find_executable env name u)"
  unfolding find_executable_def Let_def case_prod_unfold
  by (rule staying | assumption)+

text \<open>A process that halts closes its files.\<close>

lemma stays_close_one [staying]:
  assumes "same_processes s u" and "k = unat (current_process_pid s)"
  shows "stays s (close_one k i u)"
proof -
  have "same_processes u t" if p: "peek (PCB u) k = Some p" "poke (file_array p) i f = Some fs"
    and t: "set_PCB k (p\<lparr>file_array := fs\<rparr>) u = Some t" for p fs f t
  proof -
    have "current_process_pid u = current_process_pid s" using assms(1) by (simp add: same_processes_def same_tables_def Let_def)
    then show ?thesis
      using that assms(2) by (auto simp: set_PCB_def poke_Some_iff intro!: same_processes_fds)
  qed
  then have set: "same_processes s t" if "peek (PCB u) k = Some p" "poke (file_array p) i f = Some fs"
    "set_PCB k (p\<lparr>file_array := fs\<rparr>) u = Some t" for p fs f t
    using that same_processes_trans [OF assms(1)] by blast
  show ?thesis
    using stays_driver(4) [OF set] assms(1) unfolding close_one_def
    by (fastforce simp: stays_def stays_with_def bind_eq_Some_conv split: if_splits)
qed

end
