(* ===== verification/Restart.thy ===== *)
theory Restart
  imports Exceptions Keeping
begin

text \<open>
  The other branch of \<open>sys_halt\<close>, in \<open>src/interrupts/syscalls.c\<close>: a root shell that halts is replaced by
  a new shell in its own control block and its own slot.
\<close>

section \<open>The running process in the stacks\<close>

text \<open>Where the running process is in the stacks.\<close>

lemma stack_root:
  assumes st: "process_stacks st s" and roots: "map last st = [0, 1, 2]" and i: "i < 3"
  shows "last (st ! i) = i" "i \<in> set (st ! i)"
proof -
  have len: "length st = 3" using st by (simp add: process_stacks_def)
  have "last (st ! i) = map last st ! i" using i len by simp
  also have "\<dots> = i" unfolding roots using i by (auto dest!: less_3_cases)
  finally show l: "last (st ! i) = i" .
  have "chain (PCB s) (st ! i)" using st i by (simp add: process_stacks_def)
  then have "st ! i \<noteq> []" by (rule chain_hd)
  then show "i \<in> set (st ! i)" using l last_in_set [of "st ! i"] by simp
qed

lemma stacks_distinct:
  assumes "process_stacks st s" "i < 3" "j < 3" "k \<in> set (st ! i)" "k \<in> set (st ! j)"
  shows "i = j"
proof (rule ccontr)
  assume "i \<noteq> j"
  moreover have "distinct (concat st)" "length st = 3" using assms(1) unfolding process_stacks_def by blast+
  ultimately have "set (st ! i) \<inter> set (st ! j) = {}" using concat_disjoint [of st i j] assms(2,3) by simp
  then show False using assms(4,5) by blast
qed

lemma current_stack:
  assumes st: "process_stacks st s" and roots: "map last st = [0, 1, 2]" and procs: "procs_ok s"
    and i: "i < 3" and cur: "current_process_pid s = multi_process_idx s ! i" and k: "unat (current_process_pid s) = k"
  shows "\<exists>c. st ! i = k # c" "parent (PCB s ! k) \<noteq> None \<Longrightarrow> \<exists>q r. st ! i = k # q # r \<and> 3 \<le> k"
    "root_of (PCB s) k = Some (last (st ! i))"
proof -
  have len: "length (PCB s) = 6" "length st = 3" using procs st by (simp_all add: procs_ok_def process_stacks_def)
  note tops = stack_tops [OF st len(1)]
  have ch: "chain (PCB s) (st ! i)" using st i by (simp add: process_stacks_def)
  have "hd (st ! i) < 6" using tops(3) [OF i] chain_hd [OF ch] by simp
  then have "hd (st ! i) = k" using tops(2) [OF i] cur k by (simp add: unat_of_nat)
  then obtain c where c: "st ! i = k # c" using chain_hd [OF ch] by (cases "st ! i") auto
  then show "\<exists>c. st ! i = k # c" by blast
  show "root_of (PCB s) k = Some (last (st ! i))" using chain_root ch c by metis
  assume "parent (PCB s ! k) \<noteq> None"
  then obtain q r where qr: "c = q # r" using ch c by (cases c) auto
  have "3 \<le> k"
  proof (rule ccontr)
    assume "\<not> 3 \<le> k"
    then have k3: "k < 3" by simp
    have "k \<in> set (st ! i)" using c by simp
    then have "k = i" using stacks_distinct [OF st k3 i stack_root(2) [OF st roots k3]] by simp
    then have "k \<in> set (q # r)" using stack_root(1) [OF st roots i] c qr last_in_set [of "q # r"] by simp
    moreover have "distinct (st ! i)" using st i len(2) unfolding process_stacks_def distinct_concat_iff by auto
    ultimately show False using c qr by simp
  qed
  then show "\<exists>q r. st ! i = k # q # r \<and> 3 \<le> k" using c qr by simp
qed

section \<open>The screen of the running process\<close>

lemma active_screen_video:
  assumes "active_screen s = Some (addr, j)" and a: "in_range a addr 3840"
  shows "in_range a 0xB8000 0x4000"
proof -
  have wide: "in_range a addr 4096" using a by (rule in_range_mono) simp
  have "addr = 0xB8000 \<or> (\<exists>i. peek virtual_terminal_addresses i = Some addr)"
    using assms(1) by (auto simp: active_screen_def bind_eq_Some_conv VISUAL_VIRTUAL_ADDR_def Let_def split: if_splits)
  moreover have "\<exists>i<3. addr = backing_page i" if p: "peek virtual_terminal_addresses i = Some addr" for i
  proof -
    have "i < 3" using p by (simp add: virtual_terminal_addresses_def)
    with virtual_page [of i] p show ?thesis by (auto simp: peek_int_def)
  qed
  ultimately show ?thesis using wide video_pages by blast
qed

section \<open>Restarting a root shell\<close>

lemma chain_bottom: "chain pcbs c \<Longrightarrow> parent (pcbs ! last c) = None"
  by (induction c) (auto split: if_splits)

lemma chain_parts: "chain pcbs c \<Longrightarrow> k \<in> set c \<Longrightarrow> running (pcbs ! k) \<noteq> 0 \<and> pcb_pid (pcbs ! k) = of_nat k \<and> label_ok (pcbs ! k)"
  by (induction c) (auto split: if_splits)

text \<open>The state in which the new shell is executed: the old one's control block is the first free one.\<close>

lemma restart_free:
  assumes st: "process_stacks st s" and roots: "map last st = [0, 1, 2]" and procs: "procs_ok s" and k: "k < 3"
    and p: "PCB t = (PCB s)[k := (PCB s ! k)\<lparr>running := 0, file_array := fs\<rparr>]" "length fs = 8"
    and same: "multi_process_idx t = multi_process_idx s" "all_process t = all_process s" "length (page_directory t) = length (page_directory s)"
    and cur: "current_process_pid t = 0" and own: "parent (PCB s ! k) = None"
  shows "first_free t = Some k" "root_of (PCB t) 0 = Some 0" "procs_ok t"
proof -
  have len: "length (PCB s) = 6" "length st = 3" using procs st by (simp_all add: procs_ok_def process_stacks_def)
  have root: "running (PCB s ! j) \<noteq> 0 \<and> parent (PCB s ! j) = None" if j: "j < 3" for j
  proof -
    have c: "chain (PCB s) (st ! j)" using st j by (simp add: process_stacks_def)
    show ?thesis using chain_bottom [OF c] chain_parts [OF c stack_root(2) [OF st roots j]] stack_root(1) [OF st roots j] by simp
  qed
  show "first_free t = Some k"
    using k len root by (simp add: first_free_def find_Some_iff p(1)) (rule exI [of _ k], simp)
  show "root_of (PCB t) 0 = Some 0"
    using root [of 0] len k own by (subst root_of.simps) (cases "k = 0"; simp add: p(1))
  have "PCB s ! k \<in> set (PCB s)" using k len by simp
  then have "pcb_ok ((PCB s ! k)\<lparr>running := 0, file_array := fs\<rparr>)" using procs p(2) by (simp add: procs_ok_def pcb_ok_def)
  then have "\<forall>q\<in>set (PCB t). pcb_ok q" using procs unfolding p(1) procs_ok_def by (intro set_update_all) blast+
  moreover have "status_ok t"
  proof -
    have "label_ok (PCB t ! j) = label_ok (PCB s ! j)" for j
      using p(1) len k by (cases "j = k") simp_all
    moreover have "length (PCB t) = length (PCB s)" using p(1) by simp
    moreover have "status_ok s" using procs by (simp add: procs_ok_def)
    ultimately show ?thesis unfolding status_ok_set same(1) by simp
  qed
  ultimately show "procs_ok t" using procs same p(1) cur by (simp add: procs_ok_def)
qed

lemma restart_can_execute:
  assumes st: "process_stacks st s" and roots: "map last st = [0, 1, 2]" and procs: "procs_ok s" and k: "k < 3"
    and p: "PCB t = (PCB s)[k := (PCB s ! k)\<lparr>running := 0, file_array := fs\<rparr>]" "length fs = 8"
    and same: "multi_process_idx t = multi_process_idx s" "all_process t = all_process s" "page_directory t = page_directory s"
    and cur: "current_process_pid t = 0" and f: "shell_file env e t" and own: "parent (PCB s ! k) = None"
  shows "can_execute env shell_word e k 0 t" "procs_ok t"
proof -
  have "length (page_directory t) = length (page_directory s)" using same(3) by simp
  note free = restart_free [OF st roots procs k p same(1,2) this cur own]
  show "procs_ok t" by (rule free(3))
  show "can_execute env shell_word e k 0 t"
    using free f k cur by (simp add: can_execute_def shell_file_def shell_words)
qed

text \<open>The new shell takes the place of the old one in the stacks.\<close>

lemma stacks_restart:
  assumes st: "process_stacks st s" and len: "length (PCB s) = 6" and i: "i < 3" "st ! i = [k]"
    and p: "PCB u = (PCB s)[k := p]" "running p \<noteq> 0" "pcb_pid p = of_nat k" "label_ok p" "parent p = None"
    and same: "multi_process_idx u = multi_process_idx s" "all_process u = all_process s"
  shows "process_stacks st u"
proof -
  have n: "length st = 3" using st by (simp add: process_stacks_def)
  have c: "chain (PCB s) [k]" using st i n nth_mem [of i st] by (metis process_stacks_def)
  then have k: "k < 6" using len by simp
  have "chain (PCB u) d" if d: "d \<in> set st" for d
  proof (cases "k \<in> set d")
    case True
    obtain j where j: "j < 3" "d = st ! j" using d n by (auto simp: in_set_conv_nth)
    then have "j = i" using stacks_distinct [OF st j(1) i(1), of k] True i(2) by simp
    then show ?thesis using j(2) i(2) p k len by simp
  next
    case False
    then show ?thesis using st d p(1) by (simp add: process_stacks_def chain_update)
  qed
  moreover have "\<forall>j<6. running (PCB u ! j) \<noteq> 0 \<longleftrightarrow> j \<in> set (concat st)"
  proof (intro allI impI)
    fix j :: nat assume j: "j < 6"
    have "\<forall>j<6. running (PCB s ! j) \<noteq> 0 \<longleftrightarrow> j \<in> set (concat st)" using st unfolding process_stacks_def by blast
    moreover have "running (PCB s ! k) \<noteq> 0" using c by simp
    ultimately show "running (PCB u ! j) \<noteq> 0 \<longleftrightarrow> j \<in> set (concat st)"
      using j k len p(1,2) by (cases "j = k") (simp_all del: set_concat)
  qed
  ultimately show ?thesis using st unfolding process_stacks_def same by blast
qed

text \<open>The control block of the new shell.\<close>

lemma restarted_PCB:
  assumes procs: "procs_ok v" and v: "PCB v = (PCB s)[k := q]" and len: "length (PCB s) = 6" "k < 6"
    and started: "started env k 0 0 (new_PCB k 0 shell_word [] (PCB v ! k)) (sti v) u" and k3: "k < 3"
  shows "running ((new_PCB k 0 shell_word [] (PCB v ! k))\<lparr>pcb_esp := x, pcb_ebp := y\<rparr>) \<noteq> 0"
    "pcb_pid ((new_PCB k 0 shell_word [] (PCB v ! k))\<lparr>pcb_esp := x, pcb_ebp := y\<rparr>) = of_nat k"
    "label_ok ((new_PCB k 0 shell_word [] (PCB v ! k))\<lparr>pcb_esp := x, pcb_ebp := y\<rparr>)"
    "parent ((new_PCB k 0 shell_word [] (PCB v ! k))\<lparr>pcb_esp := x, pcb_ebp := y\<rparr>) = None"
    "c_string (cmd_name (new_PCB k 0 shell_word [] (PCB v ! k))) = shell_word" "procs_ok u"
proof -
  have z: "0 \<notin> set shell_word" "0 \<notin> set ([] :: u8 list)" "length shell_word + length ([] :: u8 list) \<le> 126"
    "length shell_word \<le> 121" "length ([] :: u8 list) \<le> 121" by (simp_all add: shell_words)
  have "PCB v ! k \<in> set (PCB v)" by (rule nth_mem) (use v len in simp)
  then have old: "pcb_ok (PCB v ! k)" using procs by (simp add: procs_ok_def)
  have new: "pcb_ok (new_PCB k 0 shell_word [] (PCB v ! k))" "label_ok (new_PCB k 0 shell_word [] (PCB v ! k))"
    using new_PCB_ok [OF old z(4,5)] new_PCB_label [OF z(1-3)] by blast+
  from new(2) show "running ((new_PCB k 0 shell_word [] (PCB v ! k))\<lparr>pcb_esp := x, pcb_ebp := y\<rparr>) \<noteq> 0"
    "pcb_pid ((new_PCB k 0 shell_word [] (PCB v ! k))\<lparr>pcb_esp := x, pcb_ebp := y\<rparr>) = of_nat k"
    "label_ok ((new_PCB k 0 shell_word [] (PCB v ! k))\<lparr>pcb_esp := x, pcb_ebp := y\<rparr>)"
    "parent ((new_PCB k 0 shell_word [] (PCB v ! k))\<lparr>pcb_esp := x, pcb_ebp := y\<rparr>) = None"
    "c_string (cmd_name (new_PCB k 0 shell_word [] (PCB v ! k))) = shell_word"
    using k3 by (simp_all add: new_PCB_def c_string_start shell_words)
  show "procs_ok u"
  proof (rule started_procs [OF _ started len(2) new])
    have "status_ok (sti v) = status_ok v" by (simp add: status_ok_def sti_def)
    then show "procs_ok (sti v)" using procs by (simp add: procs_ok_def sti_def)
  qed
qed

text \<open>The halting shell says so on its terminal; its files are closed and its control block is free.\<close>

lemma root_stops:
  assumes st: "process_stacks st s" and procs: "procs_ok s" and k: "unat (current_process_pid s) = k" "k < 6"
    and cl: "\<forall>j\<in>{2..<8}. closable (file_array (PCB s ! k) ! j)"
    and out: "is_present (file_array (PCB s ! k) ! 1)" "operation_table (file_array (PCB s ! k) ! 1) = TerminalDriver"
    and scr: "active_screen s = Some (addr, j)" "j < length (three_terminals s)" "term_ok (three_terminals s ! j)"
    and msg: "root_msg env \<noteq> 0" and f: "shell_file env e s"
  shows "\<exists>t fs. (do { (n, s) \<leftarrow> sys_write 1 (root_msg env) 31 s; stop_process k s }) = Some t
    \<and> PCB t = (PCB s)[k := (PCB s ! k)\<lparr>running := 0, file_array := fs\<rparr>] \<and> length fs = 8
    \<and> same_tables s (t\<lparr>PCB := PCB s\<rparr>) \<and> same_image s t \<and> esp t = esp s \<and> ebp t = ebp s"
proof -
  have len: "length (PCB s) = 6" "k < length (PCB s)" using procs k by (simp_all add: procs_ok_def)
  have "PCB s ! k \<in> set (PCB s)" using len by simp
  then have "pcb_ok (PCB s ! k)" using procs by (simp add: procs_ok_def)
  then have f8: "length (file_array (PCB s ! k)) = 8" by (simp add: pcb_ok_def)
  obtain t m log where w: "terminal_write 1 (root_msg env) 31 s
      = Some (31, with_term (s\<lparr>io_log := log, int_flag := True\<rparr>) j (t, m))"
    "\<forall>a. \<not> in_range a addr 3840 \<longrightarrow> m a = mem s a"
    using terminal_write_run [OF scr msg, of 31 1] by auto
  let ?w = "with_term (s\<lparr>io_log := log, int_flag := True\<rparr>) j (t, m)"
  have wf: "PCB ?w = PCB s" "current_process_pid ?w = current_process_pid s" by (simp_all add: with_term_def)
  have "get_fd 1 s = Some (file_array (PCB s ! k) ! 1)"
    using k len f8 by (simp add: get_fd_def current_PCB_def)
  then have wr: "sys_write 1 (root_msg env) 31 s = Some (31, ?w)"
    using out w(1) by (simp add: sys_write_def kernel_consts STDIN_FD_def is_present_def)
  obtain fs where fs: "stop_process k ?w = Some (?w\<lparr>PCB := (PCB s)[k := (PCB s ! k)\<lparr>running := 0, file_array := fs\<rparr>]\<rparr>)" "length fs = 8"
    using stop_process_run [of ?w k, unfolded wf, OF k(1) len(2) f8 cl] by blast
  let ?v = "?w\<lparr>PCB := (PCB s)[k := (PCB s ! k)\<lparr>running := 0, file_array := fs\<rparr>]\<rparr>"
  have "same_image s ?v"
    using f w(2) active_screen_video [OF scr(1)] apart_outside [of s "0xB8000" "0x4000"]
    by (auto simp: same_image_def shell_file_def with_term_def)
  moreover have "same_tables s (?v\<lparr>PCB := PCB s\<rparr>)" by (simp add: same_tables_def with_term_def)
  ultimately show ?thesis
    using wr fs by (intro exI [of _ ?v] exI [of _ fs]) (simp add: with_term_def)
qed

lemma root_halt_run:
  assumes st: "process_stacks st s" and roots: "map last st = [0, 1, 2]" and procs: "procs_ok s" and i: "i < 3"
    and cur: "current_process_pid s = multi_process_idx s ! i" and k: "unat (current_process_pid s) = k"
    and own: "parent (PCB s ! k) = None"
    and cl: "\<forall>j\<in>{2..<8}. closable (file_array (PCB s ! k) ! j)"
    and out: "is_present (file_array (PCB s ! k) ! 1)" "operation_table (file_array (PCB s ! k) ! 1) = TerminalDriver"
    and scr: "active_screen s = Some (addr, j)" "j < length (three_terminals s)" "term_ok (three_terminals s ! j)"
    and msg: "root_msg env \<noteq> 0" and f: "shell_file env e s"
  shows "\<exists>u. sys_halt env status s = Some (EnterUser (entry_point (file_contents s (inode_num e))) 0x08400000, u)
    \<and> process_stacks st u \<and> procs_ok u \<and> current_process_pid u = current_process_pid s
    \<and> multi_process_idx u = multi_process_idx s \<and> error_return_value u = ucast status
    \<and> parent (PCB u ! k) = None \<and> c_string (cmd_name (PCB u ! k)) = shell_word \<and> (\<forall>j<6. j \<noteq> k \<longrightarrow> PCB u ! j = PCB s ! j)
    \<and> num_multiprocess u = num_multiprocess s \<and> current_multiprocess u = current_multiprocess s
    \<and> length (three_terminals u) = length (three_terminals s) \<and> current_term u = current_term s"
proof -
  have len: "length (PCB s) = 6" "k < 6" using procs k by (auto simp: procs_ok_def word_less_nat_alt)
  have c: "chain (PCB s) (st ! i)" using st i by (simp add: process_stacks_def)
  obtain c' where c': "st ! i = k # c'" using current_stack(1) [OF st roots procs i cur k] by blast
  then have top: "st ! i = [k]" using c own by (cases c') auto
  then have k3: "k < 3" using stack_root(1) [OF st roots i] i by simp
  obtain t fs where t: "(do { (n, s) \<leftarrow> sys_write 1 (root_msg env) 31 s; stop_process k s }) = Some t"
    "PCB t = (PCB s)[k := (PCB s ! k)\<lparr>running := 0, file_array := fs\<rparr>]" "length fs = 8"
    "same_tables s (t\<lparr>PCB := PCB s\<rparr>)" "same_image s t" "esp t = esp s" "ebp t = ebp s"
    using root_stops [OF st procs k len(2) cl out scr msg f] by blast
  let ?v = "t\<lparr>current_process_pid := 0, error_return_value := ucast status\<rparr>"
  have v: "PCB ?v = (PCB s)[k := (PCB s ! k)\<lparr>running := 0, file_array := fs\<rparr>]" "multi_process_idx ?v = multi_process_idx s"
    "all_process ?v = all_process s" "page_directory ?v = page_directory s" "current_process_pid ?v = 0"
    "num_multiprocess ?v = num_multiprocess s" "current_multiprocess ?v = current_multiprocess s"
    "length (three_terminals ?v) = length (three_terminals s)" "current_term ?v = current_term s" "error_return_value ?v = ucast status"
    using t(2,4) by (simp_all add: same_tables_def)
  have "same_image s ?v" using t(5) by (simp add: same_image_def)
  note sh = shell_file_same [OF f this]
  note ex = restart_can_execute [OF st roots procs k3 v(1) t(3) v(2-5) sh(1) own]
  obtain u where u: "sys_execute env (shell_word @ 0 # []) ?v
      = Some (EnterUser (entry_point (file_contents ?v (inode_num e))) 0x08400000, u)"
    and started: "started env k 0 0 (new_PCB k 0 shell_word [] (PCB ?v ! k)) (sti ?v) u"
    using execute_run [OF ex(1), of "[]"] by (auto simp: shell_words v(5))
  have run: "sys_halt env status s = Some (EnterUser (entry_point (file_contents s (inode_num e))) 0x08400000, u)"
    using len own k t(1) u by (auto simp: sys_halt_def halt_root_def shell_words(1) sh(2) bind_eq_Some_conv)
  let ?p = "(new_PCB k 0 shell_word [] (PCB ?v ! k))\<lparr>pcb_esp := esp s, pcb_ebp := ebp s\<rparr>"
  have PCB: "PCB u = (PCB s)[k := ?p]" and regs: "multi_process_idx u = multi_process_idx s" "all_process u = all_process s"
    "current_process_pid u = of_nat k" "num_multiprocess u = num_multiprocess s" "current_multiprocess u = current_multiprocess s"
    "length (three_terminals u) = length (three_terminals s)" "current_term u = current_term s" "error_return_value u = ucast status"
    using started k3 v t(6,7) by (simp_all add: started_def sti_def)
  note new = restarted_PCB [OF ex(2) v(1) len started k3]
  show ?thesis
    using run stacks_restart [OF st len(1) i top PCB new(1-4) regs(1,2)] regs PCB new(3-6) len k by auto
qed

text \<open>
  C14. A root shell that halts, whatever its status, is replaced: \<open>sys_halt\<close> closes its files and enters
  the shell's program anew, in the same control block, slot and terminal; the stacks of processes,
  the scheduler's slots and the other control blocks are as before, and the tables stay well-formed.
\<close>

theorem root_shell_restarts:
  assumes "process_stacks st s" and "map last st = [0, 1, 2]" and "procs_ok s" and "i < 3"
    and "current_process_pid s = multi_process_idx s ! i" and "unat (current_process_pid s) = k"
    and "parent (PCB s ! k) = None" and "\<forall>j\<in>{2..<8}. closable (file_array (PCB s ! k) ! j)"
    and "is_present (file_array (PCB s ! k) ! 1)" and "operation_table (file_array (PCB s ! k) ! 1) = TerminalDriver"
    and "active_screen s = Some (addr, j)" and "j < length (three_terminals s)" and "term_ok (three_terminals s ! j)"
    and "root_msg env \<noteq> 0" and "shell_file env e s"
  shows "\<exists>u. sys_halt env status s = Some (EnterUser (entry_point (file_contents s (inode_num e))) 0x08400000, u)
    \<and> process_stacks st u \<and> procs_ok u \<and> current_process_pid u = current_process_pid s
    \<and> multi_process_idx u = multi_process_idx s \<and> parent (PCB u ! k) = None
    \<and> c_string (cmd_name (PCB u ! k)) = shell_word \<and> (\<forall>j<6. j \<noteq> k \<longrightarrow> PCB u ! j = PCB s ! j)"
  using root_halt_run [OF assms, of status] by (elim exE conjE) (intro exI conjI, assumption+)

section \<open>Witness\<close>

text \<open>Three root shells on the image with the shell; the second one runs.\<close>

definition rooted_kernel :: "unit kernel_state_scheme" where
  "rooted_kernel = exec_kernel\<lparr>mem := mem shell_kernel, current_process_pid := 1\<rparr>"

lemma rooted_tables: "PCB rooted_kernel = PCB exec_kernel" "multi_process_idx rooted_kernel = multi_process_idx exec_kernel"
  "all_process rooted_kernel = all_process exec_kernel" "page_directory rooted_kernel = page_directory exec_kernel"
  "three_terminals rooted_kernel = three_terminals exec_kernel" "current_process_pid rooted_kernel = 1"
  by (simp_all add: rooted_kernel_def)

lemma rooted_stacks: "process_stacks [[0], [1], [2]] rooted_kernel" "procs_ok rooted_kernel"
proof -
  show "process_stacks [[0], [1], [2]] rooted_kernel" using exec_stacks by (simp add: process_stacks_def rooted_tables)
  have "status_ok rooted_kernel = status_ok exec_kernel" by (simp add: status_ok_def rooted_tables)
  then show "procs_ok rooted_kernel" using exec_procs(1) by (simp add: procs_ok_def rooted_tables)
qed

lemma rooted_shell: "\<exists>e. shell_file tiny_env e rooted_kernel \<and> entry_point (file_contents rooted_kernel (inode_num e)) = 0x08048000"
proof -
  obtain e where e: "shell_file tiny_env e shell_kernel" "inode_num e = 0" using shell_kernel_file by blast
  have "same_image shell_kernel rooted_kernel"
    by (simp add: same_image_def rooted_kernel_def shell_kernel_def)
  from shell_file_same [OF e(1) this] show ?thesis
    using e(2) exec_file(3) by (intro exI [of _ e]) (simp add: shell_contents)
qed

theorem root_shell_restarts_witness:
  "\<exists>u. sys_halt tiny_env 3 rooted_kernel = Some (EnterUser 0x08048000 0x08400000, u)
    \<and> process_stacks [[0], [1], [2]] u \<and> current_process_pid u = 1"
proof -
  obtain e where e: "shell_file tiny_env e rooted_kernel" "entry_point (file_contents rooted_kernel (inode_num e)) = 0x08048000"
    using rooted_shell by blast
  have pcb: "PCB rooted_kernel ! 1 = shell_pcb 1" by (simp add: rooted_tables exec_kernel_def)
  have fds: "parent (PCB rooted_kernel ! 1) = None" "\<forall>j\<in>{2..<8}. closable (file_array (PCB rooted_kernel ! 1) ! j)"
    "is_present (file_array (PCB rooted_kernel ! 1) ! 1)" "operation_table (file_array (PCB rooted_kernel ! 1) ! 1) = TerminalDriver"
    unfolding pcb using child_closable
    by (simp_all add: child_tables child_pcb_def shell_pcb_def tiny_pcb_def is_present_def fd_of_def kernel_consts)
  have scr: "active_screen rooted_kernel = Some (0xB8000, 0)" "0 < length (three_terminals rooted_kernel)"
    "term_ok (three_terminals rooted_kernel ! 0)"
    by (simp_all add: active_screen_def rooted_kernel_def exec_kernel_def tiny_kernel_def VISUAL_VIRTUAL_ADDR_def blank_term_ok)
  have cur: "current_process_pid rooted_kernel = multi_process_idx rooted_kernel ! 1" "unat (current_process_pid rooted_kernel) = 1"
    "root_msg tiny_env \<noteq> 0" "(1 :: nat) < 3"
    by (simp_all add: rooted_tables exec_kernel_def tiny_kernel_def tiny_env_def)
  have roots: "map last [[0], [1], [2 :: nat]] = [0, 1, 2]" by simp
  show ?thesis
    using root_shell_restarts [OF rooted_stacks(1) roots rooted_stacks(2) cur(4,1,2) fds scr cur(3) e(1), of 3]
    unfolding e(2) rooted_tables(6) by blast
qed

end
