(* ===== verification/WellFormed.thy ===== *)
theory WellFormed
  imports Restart Staying
begin

text \<open>
  The invariant of the kernel's tables. What the timer, the keyboard and the operations on
  descriptors and terminals make of it is shown here; the life of processes follows in \<open>Interface\<close>.
\<close>

section \<open>Well-formed tables\<close>

text \<open>The bottoms of the three stacks are the root shells, processes 0 to 2.\<close>

definition well_formed :: "'a kernel_state_scheme \<Rightarrow> bool" where
  "well_formed s \<longleftrightarrow> (\<exists>st. process_stacks st s \<and> map last st = [0, 1, 2]) \<and> procs_ok s \<and> num_multiprocess s = 3
     \<and> unat (current_multiprocess s) < 3 \<and> (\<exists>i<3. current_process_pid s = multi_process_idx s ! i)
     \<and> length (three_terminals s) = 3 \<and> 0 \<le> current_term s \<and> current_term s < 3"

lemma stacks_sched:
  assumes st: "process_stacks st s" and procs: "procs_ok s"
  shows "sched_ok s"
proof -
  have len: "length (PCB s) = 6" "length (all_process s) = 6" "length (multi_process_idx s) = 3" "length st = 3"
    using procs st by (simp_all add: procs_ok_def process_stacks_def)
  note tops = stack_tops [OF st len(1)]
  have "unat (multi_process_idx s ! i) < 6 \<and> process_PCB (all_process s ! unat (multi_process_idx s ! i)) = Some (hd (st ! i))
    \<and> hd (st ! i) < 6" if i: "i < 3" for i
  proof -
    have c: "chain (PCB s) (st ! i)" using st i by (simp add: process_stacks_def)
    have mem: "hd (st ! i) \<in> set (st ! i)" using chain_hd [OF c] by simp
    then have "hd (st ! i) \<in> set (concat st)" using i len(4) by auto
    moreover have "\<forall>j\<in>set (concat st). process_PCB (all_process s ! j) = Some j"
      using st unfolding process_stacks_def by blast
    ultimately have "process_PCB (all_process s ! hd (st ! i)) = Some (hd (st ! i))" by blast
    moreover have "hd (st ! i) < 6" using chain_less [OF c mem] len(1) by simp
    ultimately show ?thesis using tops(2) [OF i] by (simp add: unat_of_nat)
  qed
  then show ?thesis using len tops(1) by (auto simp: sched_ok_def)
qed

lemma stacks_cong:
  assumes "PCB t = PCB s" "multi_process_idx t = multi_process_idx s"
    and "\<And>j. process_PCB (all_process t ! j) = process_PCB (all_process s ! j)"
  shows "process_stacks st t = process_stacks st s"
  using assms by (simp add: process_stacks_def)

lemma procs_cong:
  assumes "PCB t = PCB s" "multi_process_idx t = multi_process_idx s" "length (all_process t) = length (all_process s)"
    and "length (page_directory t) = length (page_directory s)" "current_process_pid t < 6"
  shows "procs_ok s \<Longrightarrow> procs_ok t"
  using assms unfolding procs_ok_def status_ok_set by auto

lemma well_formed_same:
  assumes "well_formed s" "PCB t = PCB s" "multi_process_idx t = multi_process_idx s" "all_process t = all_process s"
    and "length (page_directory t) = length (page_directory s)" "current_process_pid t = current_process_pid s"
    and "num_multiprocess t = num_multiprocess s" "unat (current_multiprocess t) < 3" "length (three_terminals t) = 3"
    and "0 \<le> current_term t" "current_term t < 3"
  shows "well_formed t"
proof -
  obtain st where "process_stacks st s" "map last st = [0, 1, 2]" using assms(1) by (auto simp: well_formed_def)
  then have "process_stacks st t" "map last st = [0, 1, 2]" using stacks_cong [of t s st] assms by simp_all
  moreover have "procs_ok t"
    by (rule procs_cong [of t s]) (use assms in \<open>simp_all add: well_formed_def procs_ok_def\<close>)
  ultimately show ?thesis using assms by (auto simp: well_formed_def)
qed

section \<open>The timer\<close>

lemma switch_well_formed:
  assumes w: "well_formed s" and i: "i < 3" and j: "j < 3" "i \<noteq> j" and c: "current_multiprocess s = of_nat j"
  shows "\<exists>u. process_context_switch (of_nat i) (of_nat j) s = Some u \<and> well_formed u"
proof -
  obtain st where st: "process_stacks st s" "map last st = [0, 1, 2]" and procs: "procs_ok s" using w by (auto simp: well_formed_def)
  have ok: "sched_ok s" using stacks_sched [OF st(1) procs] .
  obtain u where u: "process_context_switch (of_nat i) (of_nat j) s = Some u"
    and f: "all_process u = saved_in s i" "multi_process_idx u = multi_process_idx s" "PCB u = PCB s"
    "current_process_pid u = multi_process_idx s ! j"
    "page_directory u = page_directory (map_process (slot_pid s j) (map_video (slot_page s j) s))"
    "current_term u = current_term s" "three_terminals u = three_terminals s"
    "current_multiprocess u = current_multiprocess s" "num_multiprocess u = num_multiprocess s"
    using context_switch_run [OF ok i j] by blast
  have len: "length (PCB s) = 6" "length (multi_process_idx s) = 3" using procs ok by (simp_all add: procs_ok_def sched_ok_def)
  have "process_PCB (all_process u ! k) = process_PCB (all_process s ! k)" for k
    by (cases "k = unat (multi_process_idx s ! i)"; cases "k < length (all_process s)")
      (simp_all add: f(1) saved_in_def slot_entry_def list_update_beyond)
  then have "process_stacks st u" using stacks_cong [of u s st] f st by simp
  moreover have "procs_ok u"
  proof (rule procs_cong [OF f(3,2) _ _ _ procs])
    show "length (all_process u) = length (all_process s)" by (simp add: f(1) saved_in_def)
    show "length (page_directory u) = length (page_directory s)" by (simp add: f(5) map_process_dir map_video_def)
    have "unat (multi_process_idx s ! j) < 6" using procs len j(1) by (auto simp: procs_ok_def status_ok_set)
    then show "current_process_pid u < 6" by (simp add: f(4) word_less_nat_alt)
  qed
  moreover have "\<exists>i<3. current_process_pid u = multi_process_idx u ! i" using f(2,4) j(1) by auto
  ultimately show ?thesis using u w f st(2) by (auto simp: well_formed_def)
qed

lemma round_robin_well_formed:
  assumes w: "well_formed s"
  shows "\<exists>u. round_robin s = Some u \<and> well_formed u"
proof -
  let ?i = "unat (current_multiprocess s)"
  have i: "?i < 3" "num_multiprocess s = 3" using w by (simp_all add: well_formed_def)
  note j = next_slot(1) [OF i(1)]
  have c: "current_multiprocess s = of_nat ?i" by simp
  have word: "(word_of_int ((uint (current_multiprocess s) + 1) mod uint (num_multiprocess s)) :: u8) = of_nat (next_slot ?i)"
    using next_slot_word [OF i(1)] i(2) by simp
  let ?s = "s\<lparr>current_multiprocess := of_nat (next_slot ?i)\<rparr>"
  have "well_formed ?s"
    by (rule well_formed_same [OF w]) (use w j in \<open>simp_all add: well_formed_def unat_of_nat\<close>)
  from switch_well_formed [OF this i(1), of "next_slot ?i"] j obtain u where
    "process_context_switch (of_nat ?i) (of_nat (next_slot ?i)) ?s = Some u" "well_formed u" by auto
  then show ?thesis using word by (simp add: round_robin_def Let_def)
qed

lemma bar_well_formed:
  assumes "well_formed s"
  shows "\<exists>m. draw_status_bar s = Some (s\<lparr>mem := m\<rparr>) \<and> well_formed (s\<lparr>mem := m\<rparr>)"
proof -
  have "status_ok s" using assms by (simp add: well_formed_def procs_ok_def)
  from draw_status_bar_run [OF this] obtain m where "draw_status_bar s = Some (s\<lparr>mem := m\<rparr>)" by blast
  moreover have "well_formed (s\<lparr>mem := m\<rparr>)"
    by (rule well_formed_same [OF assms]) (use assms in \<open>simp_all add: well_formed_def\<close>)
  ultimately show ?thesis by blast
qed

lemma shown_well_formed:
  assumes w: "well_formed s" and j: "j < 3"
  shows "current_term s \<noteq> int j \<Longrightarrow> \<exists>t. terminal_switch (int j) 1 s = Some t \<and> well_formed t"
proof -
  obtain i where i: "current_term s = int i" "i < 3"
    using w that [of "nat (current_term s)"] by (auto simp: well_formed_def)
  have st: "status_ok s" "length (three_terminals s) = 3" using w by (simp_all add: well_formed_def procs_ok_def)
  have wf: "well_formed (s\<lparr>mem := m, io_log := log, three_terminals := ts, current_term := int j, current_multiprocess := of_nat j\<rparr>)"
    if "length ts = 3" for m log ts
    by (rule well_formed_same [OF w]; use w j that in \<open>simp add: well_formed_def unat_of_nat\<close>)
  assume "current_term s \<noteq> int j"
  then have ne: "i \<noteq> j" using i by simp
  from terminal_switch_run [OF st i j ne, of 1] obtain m log ts where ts: "length ts = length (three_terminals s)"
    "terminal_switch (int j) 1 s = process_context_switch (of_nat i) (of_nat j)
       (s\<lparr>mem := m, io_log := log, three_terminals := ts, current_term := int j, current_multiprocess := of_nat j\<rparr>)"
    by (auto simp: Let_def)
  have "length ts = 3" using ts(1) st(2) by simp
  from switch_well_formed [OF wf [OF this] i(2) j ne] ts(2)
  show "\<exists>t. terminal_switch (int j) 1 s = Some t \<and> well_formed t" by simp
qed

text \<open>The timer interrupt has a result in every well-formed state, and leaves one.\<close>

lemma tick_well_formed:
  assumes w: "well_formed s"
  shows "\<exists>u. pit_handler env s = Some (None, u) \<and> well_formed u"
proof -
  have n: "num_multiprocess s = of_nat MAX_MULTIPROCESS_NUM" using w by (simp add: well_formed_def kernel_consts)
  consider "on_default_term s \<noteq> 0" | "on_default_term s = 0" "current_term s = 0" | "on_default_term s = 0" "current_term s \<noteq> 0"
    by blast
  then show ?thesis
  proof cases
    case 1
    then show ?thesis using round_robin_well_formed [OF w] n by (auto simp: pit_handler_def scheduler_step_def)
  next
    case 2
    have "well_formed (s\<lparr>on_default_term := 1\<rparr>)"
      by (rule well_formed_same [OF w]) (use w in \<open>simp_all add: well_formed_def\<close>)
    from bar_well_formed [OF this] obtain m where
      "draw_status_bar (s\<lparr>on_default_term := 1\<rparr>) = Some (s\<lparr>on_default_term := 1, mem := m\<rparr>)"
      "well_formed (s\<lparr>on_default_term := 1, mem := m\<rparr>)" by blast
    with round_robin_well_formed [OF this(2)] 2 n show ?thesis
      by (auto simp: pit_handler_def scheduler_step_def default_term_shown_def)
  next
    case 3
    with shown_well_formed [OF w, of 0] n show ?thesis
      by (auto simp: pit_handler_def scheduler_step_def)
  qed
qed

section \<open>Parts of well-formedness\<close>

lemma well_formedI:
  assumes "process_stacks st t" "map last st = [0, 1, 2]" "procs_ok t" "i < 3" "current_process_pid t = multi_process_idx t ! i"
    and "well_formed s" "num_multiprocess t = num_multiprocess s" "current_multiprocess t = current_multiprocess s"
    and "length (three_terminals t) = length (three_terminals s)" "current_term t = current_term s"
  shows "well_formed t"
  using assms by (auto simp: well_formed_def)

lemma well_formed_cases:
  assumes "well_formed s"
  obtains st i where "process_stacks st s" "map last st = [0, 1, 2]" "procs_ok s" "i < 3"
    "current_process_pid s = multi_process_idx s ! i" "length st = 3" "length (multi_process_idx s) = 3"
proof -
  obtain st where st: "process_stacks st s" "map last st = [0, 1, 2]" using assms by (auto simp: well_formed_def)
  obtain i where "i < 3" "current_process_pid s = multi_process_idx s ! i" using assms by (auto simp: well_formed_def)
  moreover have "length st = 3" "length (multi_process_idx s) = 3" using st(1) by (simp_all add: process_stacks_def)
  ultimately show ?thesis using that st assms by (simp add: well_formed_def)
qed

text \<open>Pushing and popping leave the bottoms.\<close>

lemma free_is_child:
  assumes st: "process_stacks st s" and roots: "map last st = [0, 1, 2]" and free: "first_free s = Some idx"
  shows "3 \<le> idx"
proof (rule ccontr)
  assume "\<not> 3 \<le> idx"
  then have i: "idx < 3" by simp
  have len: "length st = 3" using st by (simp add: process_stacks_def)
  have "idx \<in> set (concat st)" using stack_root(2) [OF st roots i] i len by auto
  moreover have "\<forall>j<6. running (PCB s ! j) \<noteq> 0 \<longleftrightarrow> j \<in> set (concat st)" using st unfolding process_stacks_def by blast
  ultimately show False using first_free_less [OF free] by blast
qed

lemma last_push:
  assumes "st ! i \<noteq> []" "i < length st"
  shows "map last (st[i := x # st ! i]) = map last st"
proof -
  have "last (x # st ! i) = map last st ! i" using assms by simp
  then show ?thesis by (simp only: map_update list_update_id)
qed

lemma last_pop: "st ! i = k # q # r \<Longrightarrow> i < length st \<Longrightarrow> map last (st[i := q # r]) = map last st"
  by (metis last_ConsR list.distinct(1) list_update_id map_update)

text \<open>In a well-formed state the slots hold three different processes and the root shells run.\<close>

lemma well_formed_slots:
  assumes "well_formed s"
  shows "distinct (multi_process_idx s)" "k < 3 \<Longrightarrow> running (PCB s ! k) \<noteq> 0"
proof -
  obtain st i where s: "process_stacks st s" "map last st = [0, 1, 2]" "procs_ok s" "i < 3"
    "current_process_pid s = multi_process_idx s ! i" "length st = 3" using well_formed_cases [OF assms] .
  have "length (PCB s) = 6" using s(3) by (simp add: procs_ok_def)
  then show "distinct (multi_process_idx s)" using stack_tops(1) [OF s(1)] by simp
  assume k: "k < 3"
  then have "k \<in> set (concat st)" using stack_root(2) [OF s(1,2) k] s(6) by auto
  moreover have "\<forall>j<6. running (PCB s ! j) \<noteq> 0 \<longleftrightarrow> j \<in> set (concat st)" using s(1) unfolding process_stacks_def by blast
  ultimately show "running (PCB s ! k) \<noteq> 0" using k by auto
qed

section \<open>Descriptors and terminals\<close>

lemma descriptors_well_formed:
  assumes w: "well_formed s" and k: "unat (current_process_pid s) = k" and fs: "length fs = 8"
  shows "well_formed (s\<lparr>PCB := (PCB s)[k := (PCB s ! k)\<lparr>file_array := fs\<rparr>]\<rparr>)"
proof -
  let ?t = "s\<lparr>PCB := (PCB s)[k := (PCB s ! k)\<lparr>file_array := fs\<rparr>]\<rparr>"
  obtain st i where s: "process_stacks st s" "map last st = [0, 1, 2]" "procs_ok s" "i < 3"
    "current_process_pid s = multi_process_idx s ! i" using well_formed_cases [OF w] .
  have "k < 6" using k s(3) by (auto simp: procs_ok_def word_less_nat_alt)
  moreover have "only_fds_changed k fs s ?t" by (simp add: only_fds_changed_def)
  ultimately have "process_stacks st ?t" "procs_ok ?t" using only_fds_changed_stacks(1,2) [OF _ s(1,3) fs] by blast+
  then show ?thesis by (rule well_formedI [OF _ s(2) _ s(4) _ w]) (use s(5) in simp_all)
qed

lemma same_tables_well_formed:
  assumes "same_tables s t" and w: "well_formed s"
  shows "well_formed t"
  by (rule well_formed_same [OF w]) (use assms in \<open>auto simp: same_tables_def well_formed_def\<close>)

lemma terminal_well_formed:
  assumes w: "well_formed s"
  shows "terminal_write fd msg n s = Some (r, t) \<Longrightarrow> well_formed t" "begin_read i s = Some t \<Longrightarrow> well_formed t"
    "finish_read i ptr k s = Some (r, t) \<Longrightarrow> well_formed t"
  using keeps_driver [OF same_tables_refl, of s] same_tables_well_formed [OF _ w] unfolding keeps_def keeps_with_def by blast+

lemma key_well_formed:
  assumes w: "well_formed s" and run: "keyboard_handler s = Some t"
  shows "well_formed t"
proof -
  obtain u v where uv: "same_tables s u" "same_tables v t" "same_tables u v \<or> (\<exists>j<3. terminal_switch (int j) 1 u = Some v)"
    using keyboard_outcome [OF run] by blast
  have u: "well_formed u" using same_tables_well_formed [OF uv(1) w] .
  have "well_formed v" if "terminal_switch (int j) 1 u = Some v" "j < 3" for j
  proof (cases "current_term u = int j")
    case True
    with that(1) u show ?thesis by (simp add: terminal_switch_def)
  next
    case False
    with shown_well_formed [OF u that(2)] that(1) show ?thesis by simp
  qed
  then have "well_formed v" using uv(3) same_tables_well_formed [OF _ u] by blast
  then show ?thesis by (rule same_tables_well_formed [OF uv(2)])
qed

lemma same_processes_well_formed:
  assumes "same_processes s t" and w: "well_formed s"
  shows "well_formed t"
proof -
  let ?k = "unat (current_process_pid s)"
  obtain fs where fs: "length fs = length (file_array (PCB s ! ?k))" "PCB t = (PCB s)[?k := (PCB s ! ?k)\<lparr>file_array := fs\<rparr>]"
    and same: "same_tables s (t\<lparr>PCB := PCB s, page_directory := page_directory s\<rparr>)" "length (page_directory t) = length (page_directory s)"
    using assms(1) by (auto simp: same_processes_def Let_def)
  let ?u = "t\<lparr>PCB := PCB s\<rparr>"
  have u: "well_formed ?u"
    by (rule well_formed_same [OF w]) (use same w in \<open>simp_all add: same_tables_def well_formed_def\<close>)
  have procs: "length (PCB s) = 6" "\<forall>p\<in>set (PCB s). pcb_ok p" "?k < 6"
    using w by (auto simp: well_formed_def procs_ok_def word_less_nat_alt)
  have cur: "current_process_pid t = current_process_pid s" using same(1) by (simp add: same_tables_def)
  have "PCB s ! ?k \<in> set (PCB s)" using procs by simp
  then have "length fs = 8" using procs(2) fs(1) by (simp add: pcb_ok_def)
  from descriptors_well_formed [OF u _ this, of ?k] show ?thesis by (simp add: cur flip: fs(2))
qed

lemma stays_well_formed:
  "stays s r \<Longrightarrow> r = Some t \<Longrightarrow> well_formed s \<Longrightarrow> well_formed t"
  "stays_with s q \<Longrightarrow> q = Some (v, t) \<Longrightarrow> well_formed s \<Longrightarrow> well_formed t"
  unfolding stays_def stays_with_def using same_processes_well_formed by blast+

text \<open>While a program waits for its line any number of keys are pressed.\<close>

lemma await_well_formed:
  assumes "await_line i s = Some t" and "well_formed s"
  shows "well_formed t"
  using assms
proof (induction rule: await_line.raw_induct [rotated 1, consumes 1])
  case (1 await_line i s t)
  then show ?case by (auto simp: bind_eq_Some_conv split: if_splits dest: key_well_formed)
qed

lemma terminal_read_well_formed:
  assumes run: "terminal_read fd ptr n s = Some (r, t)" and w: "well_formed s"
  shows "well_formed t"
proof -
  obtain i u where u: "begin_read i s = Some u" "u = t \<or> (\<exists>k v. await_line i (sti u) = Some v \<and> finish_read i ptr k v = Some (r, t))"
    using run by (auto simp: terminal_read_def Let_def bind_eq_Some_conv split: if_splits)
  have "well_formed u" using terminal_well_formed(2) [OF w u(1)] .
  moreover from this have "well_formed (sti u)"
    by (rule same_tables_well_formed [rotated]) (simp add: same_tables_update)
  ultimately show ?thesis using u(2) await_well_formed terminal_well_formed(3) by blast
qed

lemma sys_read_well_formed:
  assumes run: "sys_read env fd buf n s = Some (r, t)" and w: "well_formed s"
  shows "well_formed t"
proof -
  have "well_formed t" if d: "driver_read d junk k buf n s = Some (r, t)" for d junk k
  proof (cases "d = TerminalDriver")
    case True
    then show ?thesis using d terminal_read_well_formed [OF _ w] by simp
  next
    case False
    then show ?thesis using stays_well_formed(2) [OF stays_driver(1) [OF same_processes_refl] d w] by blast
  qed
  then show ?thesis using run w by (auto simp: sys_read_def bind_eq_Some_conv split: if_splits)
qed

end
