(* ===== verification/Interface.thy ===== *)
theory Interface
  imports WellFormed
begin

text \<open>
  The whole interface of the kernel: every system call, with any number and any arguments, every
  exception of a program and every interrupt leaves the tables well-formed. Nothing is assumed of
  the files that are executed, the descriptors that are closed or the pointers that are passed; a
  call whose code would leave its arrays or follow a bad pointer has no result.
\<close>

section \<open>What executing can do\<close>

lemma read_data_only: "read_data k off buf n s = Some (v, t) \<Longrightarrow> \<exists>m. t = s\<lparr>mem := m\<rparr>"
proof -
  have "\<exists>m. s = s\<lparr>mem := m\<rparr>" by (rule exI [of _ "mem s"]) simp
  then show "read_data k off buf n s = Some (v, t) \<Longrightarrow> \<exists>m. t = s\<lparr>mem := m\<rparr>"
    by (auto simp: read_data_def Let_def bind_eq_Some_conv split: if_splits)
qed

lemma find_executable_only:
  assumes "find_executable env name s = Some (v, t)"
  shows "\<exists>m. t = s\<lparr>mem := m\<rparr>"
proof -
  have "\<exists>m. s = s\<lparr>mem := m\<rparr>" by (rule exI [of _ "mem s"]) simp
  then show ?thesis
    using assms by (auto simp: find_executable_def Let_def bind_eq_Some_conv split: if_splits dest!: read_data_only)
qed

lemma load_program_only:
  assumes "load_program k n s = Some (v, t)"
  shows "\<exists>m. t = (map_process (current_process_pid s) s)\<lparr>mem := m\<rparr>"
  using assms by (auto simp: load_program_def Let_def bind_eq_Some_conv split: if_splits dest!: read_data_only)

text \<open>A status bar that could be drawn shows labels that fit.\<close>

lemma draw_status_part_only:
  assumes "draw_status_part i s = Some t"
  shows "\<exists>m. t = s\<lparr>mem := m\<rparr>" "\<exists>x. multi_process_idx s ! i = x \<and> i < length (multi_process_idx s) \<and> unat x < length (PCB s) \<and> process_label (PCB s ! unat x) \<noteq> None"
  using assms by (auto simp: draw_status_part_def Let_def bind_eq_Some_conv)

lemma draw_status_bar_only:
  assumes "draw_status_bar s = Some t" "length (multi_process_idx s) = 3"
  shows "\<exists>m. t = s\<lparr>mem := m\<rparr>" "\<forall>x\<in>set (multi_process_idx s). unat x < length (PCB s) \<and> process_label (PCB s ! unat x) \<noteq> None"
proof -
  have three: "[0..<MAX_MULTIPROCESS_NUM] = [0, 1, 2]" by (simp add: kernel_consts upt_rec)
  obtain u v where d: "draw_status_part 0 s = Some u" "draw_status_part 1 u = Some v" "draw_status_part 2 v = Some t"
    using assms(1) unfolding draw_status_bar_def three loop_over.simps bind_eq_Some_conv by blast
  obtain m1 where u: "u = s\<lparr>mem := m1\<rparr>" using draw_status_part_only(1) [OF d(1)] ..
  obtain m2 where v: "v = s\<lparr>mem := m2\<rparr>" using draw_status_part_only(1) [OF d(2)] u by auto
  show "\<exists>m. t = s\<lparr>mem := m\<rparr>" using draw_status_part_only(1) [OF d(3)] v by auto
  have "unat (multi_process_idx s ! i) < length (PCB s) \<and> process_label (PCB s ! unat (multi_process_idx s ! i)) \<noteq> None" if "i < 3" for i
    using draw_status_part_only(2) [OF d(1)] draw_status_part_only(2) [OF d(2)] draw_status_part_only(2) [OF d(3)] u v that
    by (auto dest!: less_3_cases)
  then show "\<forall>x\<in>set (multi_process_idx s). unat x < length (PCB s) \<and> process_label (PCB s ! unat x) \<noteq> None"
    using assms(2) by (simp add: all_set_conv_all_nth)
qed

lemma length_c_string_less: "0 \<in> set cs \<Longrightarrow> length (c_string cs) < length cs"
  by (induction cs) (auto simp: c_string_def)

lemma label_ok_drawn:
  assumes "pcb_ok p" "process_label p \<noteq> None"
  shows "label_ok p"
proof -
  obtain l n where l: "process_label p = Some (l, n)" using assms(2) by auto
  obtain a b where ab: "strlen (cmd_name p) = Some a" "strlen (args p) = Some b" "n = a + b"
    "b > 0 \<longrightarrow> a + 1 + b < 128"
    using l by (auto simp: process_label_def bind_eq_Some_conv poke_Some_iff dest!: length_copy_into split: if_splits)
  have "a < 122" using ab(1) assms(1) length_c_string_less [of "cmd_name p"]
    by (auto simp: pcb_ok_def strlen_c_string split: if_splits)
  have "n \<le> 126" using ab(3,4) \<open>a < 122\<close> by (cases "b = 0") auto
  then show ?thesis using l by (simp add: label_ok_def)
qed

text \<open>A control block that could be filled in.\<close>

lemma strcpy_length: "strcpy dest src = Some d \<Longrightarrow> length d = length dest"
proof -
  have "strcpy_from dest src i = Some d \<Longrightarrow> length d = length dest" for i
  proof (induction dest src i rule: strcpy_from.induct)
    case (1 dest src i)
    show ?case
      using 1(2) 1(1) by (subst (asm) strcpy_from.simps) (fastforce simp: poke_Some_iff split: option.splits if_splits)
  qed
  then show "strcpy dest src = Some d \<Longrightarrow> length d = length dest" by (simp add: strcpy_def)
qed

lemma setup_PCB_only:
  assumes "setup_PCB idx q w a p = Some r" "pcb_ok p"
  shows "pcb_ok r" "running r \<noteq> 0" "pcb_pid r = of_nat idx" "parent r = (if idx < 3 then None else Some q)"
  using assms by (auto simp: setup_PCB_def pcb_ok_def bind_eq_Some_conv poke_Some_iff call_consts kernel_consts dest: strcpy_length)

text \<open>A process that was started, however its file looked.\<close>

lemma start_process_only:
  assumes run: "start_process env e n q root (s\<lparr>current_process_pid := of_nat idx, PCB := (PCB s)[idx := p]\<rparr>) = Some (c, t)"
    and procs: "procs_ok s" and idx: "idx < 6" and p: "pcb_ok p" and q: "q < 6" "root < 6"
    and other: "3 \<le> idx \<longrightarrow> q \<noteq> idx \<and> root \<noteq> idx"
  shows "started env idx q root p s t" "of_nat idx \<in> set (multi_process_idx t) \<Longrightarrow> label_ok p" "\<exists>x. c = EnterUser x 0x08400000"
proof -
  let ?pid = "of_nat idx :: u8"
  have len: "length (PCB s) = 6" "length (all_process s) = 6" "length (multi_process_idx s) = 3"
    using procs by (simp_all add: procs_ok_def status_ok_def)
  let ?s1 = "cli (s\<lparr>current_process_pid := ?pid, PCB := (PCB s)[idx := p]\<rparr>)"
  have cur: "current_process_pid ?s1 = ?pid" by (simp add: cli_def)
  obtain x u where "load_program (inode_num e) n ?s1 = Some (x, u)"
    using run by (auto simp: start_process_def Let_def bind_eq_Some_conv)
  moreover from load_program_only [OF this] obtain m where "u = (map_process ?pid ?s1)\<lparr>mem := m\<rparr>" unfolding cur ..
  ultimately have ld: "load_program (inode_num e) n ?s1 = Some (x, (map_process ?pid ?s1)\<lparr>mem := m\<rparr>)" by simp
  from start_process_loaded [OF len(1,2) idx q other ld, of env] obtain v where
    v: "start_process env e n q root (s\<lparr>current_process_pid := ?pid, PCB := (PCB s)[idx := p]\<rparr>)
      = do { u \<leftarrow> draw_status_bar v; Some (EnterUser x 0x08400000, u\<lparr>int_flag := int_flag s\<rparr>) }"
    "\<And>m. started env idx q root p s (v\<lparr>mem := m, int_flag := int_flag s\<rparr>)" by blast
  obtain w where w: "draw_status_bar v = Some w" "t = w\<lparr>int_flag := int_flag s\<rparr>" "c = EnterUser x 0x08400000"
    using run v(1) by (auto simp: bind_eq_Some_conv)
  have multi: "length (multi_process_idx v) = 3" using v(2) [of "mem v"] len(3) by (simp add: started_def)
  note bar = draw_status_bar_only [OF w(1) multi]
  obtain m' where m': "w = v\<lparr>mem := m'\<rparr>" using bar(1) ..
  then show "started env idx q root p s t" using v(2) [of m'] by (simp add: w(2))
  show "\<exists>x. c = EnterUser x 0x08400000" using w(3) by blast
  assume "of_nat idx \<in> set (multi_process_idx t)"
  then have "process_label (PCB v ! idx) \<noteq> None" using bar(2) idx by (auto simp: w(2) m' unat_of_nat)
  moreover have "PCB v ! idx = p\<lparr>pcb_esp := esp s, pcb_ebp := ebp s\<rparr>"
    using v(2) [of "mem v"] idx len(1) by (simp add: started_def)
  ultimately have "process_label p \<noteq> None" by (simp add: process_label_def cong: if_cong)
  then show "label_ok p" by (rule label_ok_drawn [OF p])
qed

text \<open>
  \<open>sys_execute\<close>: nothing is created and the call returns; or the first free control block gets a
  process of the named file.
\<close>

lemma execute_outcome:
  assumes run: "sys_execute env command s = Some (c, t)" and procs: "procs_ok s"
    and root: "root_of (PCB s) (unat (current_process_pid s)) = Some root"
    and other: "\<And>idx. first_free s = Some idx \<Longrightarrow> 3 \<le> idx \<Longrightarrow> unat (current_process_pid s) \<noteq> idx \<and> root \<noteq> idx"
  obtains "same_processes s t" "\<exists>n. c = Returned n"
  | idx p m where "first_free s = Some idx" "started env idx (unat (current_process_pid s)) root p (s\<lparr>int_flag := True, mem := m\<rparr>) t"
    "pcb_ok p" "running p \<noteq> 0" "pcb_pid p = of_nat idx" "parent p = (if idx < 3 then None else Some (unat (current_process_pid s)))"
    "of_nat idx \<in> set (multi_process_idx t) \<Longrightarrow> label_ok p" "\<exists>x. c = EnterUser x 0x08400000"
proof -
  have sti: "same_processes s (sti s)" by (rule staying same_processes_refl)+
  show ?thesis
  proof (cases "\<exists>name arg e n u. find_executable env name (sti s) = Some (Some (e, n), u) \<and> create_process env e n name arg u = Some (c, t)")
    case False
    then have "same_processes s t \<and> (\<exists>n. c = Returned n)"
      using run sti stays_find_executable [OF sti, of env]
      by (auto simp: sys_execute_def Let_def bind_eq_Some_conv stays_with_def split: if_splits option.splits)
    then show ?thesis using that(1) by blast
  next
    case True
    then obtain name arg e n u where f: "find_executable env name (sti s) = Some (Some (e, n), u)"
      and cr: "create_process env e n name arg u = Some (c, t)" by blast
    obtain m where "u = (sti s)\<lparr>mem := m\<rparr>" using find_executable_only [OF f] ..
    then have u: "u = s\<lparr>int_flag := True, mem := m\<rparr>" by (simp add: sti_def)
    have pr: "procs_ok u" "first_free u = first_free s" "length (PCB u) = 6" "current_process_pid u = current_process_pid s" "PCB u = PCB s"
    proof -
      have "status_ok u = status_ok s" by (simp add: u status_ok_def)
      then show "procs_ok u" using procs unfolding procs_ok_def by (simp add: u)
    qed (use procs in \<open>simp_all add: u first_free_def procs_ok_def\<close>)
    have free: "find_pid [0..<MAX_PROCESSES] u = Some (first_free s)" using find_pid_run [OF pr(3)] pr(2) by simp
    show ?thesis
    proof (cases "first_free s")
      case None
      have "same_processes s u" unfolding u by (rule same_processes_tables) (simp add: same_tables_def)
      from stays_calls(1) [OF this, of 1 "full_msg env" 51] have "same_processes s t \<and> (\<exists>n. c = Returned n)"
        using cr None root by (auto simp: create_process_def Let_def pr(4,5) free bind_eq_Some_conv stays_with_def)
      then show ?thesis using that(1) by blast
    next
      case (Some idx)
      have idx: "idx < 6" using first_free_less [OF Some] by simp
      then have "PCB s ! idx \<in> set (PCB s)" using procs by (simp add: procs_ok_def)
      then have old: "pcb_ok (PCB s ! idx)" using procs by (simp add: procs_ok_def)
      have q: "unat (current_process_pid s) < 6" "root < 6"
        using procs root_of_less [OF root] by (simp_all add: procs_ok_def word_less_nat_alt)
      obtain p where p: "setup_PCB idx (unat (current_process_pid s)) name arg (PCB s ! idx) = Some p"
        and st: "start_process env e n (unat (current_process_pid s)) root
          (u\<lparr>current_process_pid := of_nat idx, PCB := (PCB u)[idx := p]\<rparr>) = Some (c, t)"
        using cr Some root idx
        by (auto simp: create_process_def Let_def pr(4,5) free bind_eq_Some_conv set_PCB_def poke_Some_iff)
      note new = setup_PCB_only [OF p old]
      note start = start_process_only [OF st pr(1) idx new(1) q] other [OF Some]
      show ?thesis
        by (rule that(2) [OF Some _ new]) (use start u in auto)
    qed
  qed
qed

section \<open>Executing\<close>

lemma execute_result:
  assumes w: "well_formed s" and run: "sys_execute env command s = Some (c, t)"
  shows "same_processes s t \<and> (\<exists>n. c = Returned n)
    \<or> (\<exists>idx root p m x. well_formed t \<and> c = EnterUser x 0x08400000 \<and> first_free s = Some idx \<and> 3 \<le> idx \<and> idx < 6
        \<and> started env idx (unat (current_process_pid s)) root p (s\<lparr>int_flag := True, mem := m\<rparr>) t
        \<and> running p \<noteq> 0 \<and> pcb_pid p = of_nat idx \<and> parent p = Some (unat (current_process_pid s)))"
proof -
  obtain st i where s: "process_stacks st s" "map last st = [0, 1, 2]" "procs_ok s" "i < 3"
    "current_process_pid s = multi_process_idx s ! i" "length st = 3" "length (multi_process_idx s) = 3"
    using well_formed_cases [OF w] .
  have root: "root_of (PCB s) (unat (current_process_pid s)) = Some (last (st ! i))" using current_stack(3) [OF s(1-5) refl] .
  obtain r where top: "st ! i = unat (current_process_pid s) # r" using current_stack(1) [OF s(1-5) refl] by blast
  have ch: "chain (PCB s) (st ! i)" using s by (simp add: process_stacks_def)
  have other: "unat (current_process_pid s) \<noteq> idx \<and> last (st ! i) \<noteq> idx" if "first_free s = Some idx" for idx
    using first_free_less [OF that] chain_parts [OF ch, of idx] top last_in_set [of "st ! i"] by auto
  show ?thesis
  proof (rule execute_outcome [OF run s(3) root])
    show "unat (current_process_pid s) \<noteq> idx \<and> last (st ! i) \<noteq> idx" if "first_free s = Some idx" for idx using other that .
    show ?thesis if "same_processes s t" "\<exists>n. c = Returned n" using that by blast
  next
    fix idx p m
    let ?s = "s\<lparr>int_flag := True, mem := m\<rparr>"
    assume free: "first_free s = Some idx" and start: "started env idx (unat (current_process_pid s)) (last (st ! i)) p ?s t"
      and p: "pcb_ok p" "running p \<noteq> 0" "pcb_pid p = of_nat idx" "parent p = (if idx < 3 then None else Some (unat (current_process_pid s)))"
      and label: "of_nat idx \<in> set (multi_process_idx t) \<Longrightarrow> label_ok p" and c: "\<exists>x. c = EnterUser x 0x08400000"
    have child: "3 \<le> idx" "idx < 6" "running (PCB s ! idx) = 0"
      using free_is_child [OF s(1,2) free] first_free_less [OF free] by simp_all
    have "status_ok ?s = status_ok s" by (simp add: status_ok_def)
    then have s': "process_stacks st ?s" "procs_ok ?s" using s(1,3) unfolding procs_ok_def by (simp_all add: process_stacks_def)
    have hd: "unat (current_process_pid s) = hd (st ! i)" by (simp add: top)
    note start' = start [unfolded hd]
    have multi: "multi_process_idx t = (multi_process_idx s)[i := of_nat idx]"
      using started_slot [OF s' s(4) child(1) start'] by simp
    then have "label_ok p" using label s(4,7) by (simp add: set_update_memI)
    from started_pushes [OF s' s(4) child(1,2) _ start' p(2,3) _ p(1) this] p(4) child hd
    have u: "process_stacks (st[i := idx # st ! i]) t" "procs_ok t" by simp_all
    have "map last (st[i := idx # st ! i]) = [0, 1, 2]" using last_push [of st i idx] top s by simp
    moreover have "current_process_pid t = of_nat idx" "num_multiprocess t = num_multiprocess s"
      "current_multiprocess t = current_multiprocess s" "three_terminals t = three_terminals s" "current_term t = current_term s"
      using start by (simp_all add: started_def)
    ultimately have "well_formed t"
      by (intro well_formedI [OF u(1) _ u(2) s(4) _ w]) (use multi s(4,7) in \<open>simp_all\<close>)
    moreover have "parent p = Some (unat (current_process_pid s))" using p(4) child by simp
    ultimately show ?thesis using c free child(1,2) start p(2,3) by blast
  qed
qed

lemma execute_well_formed: "well_formed s \<Longrightarrow> sys_execute env command s = Some (c, t) \<Longrightarrow> well_formed t"
  using execute_result same_processes_well_formed by blast

section \<open>Halting\<close>

lemma stop_process_only:
  assumes run: "stop_process k s = Some t" and k: "k = unat (current_process_pid s)" "k < length (PCB s)"
  shows "\<exists>fs. length fs = length (file_array (PCB s ! k)) \<and> PCB t = (PCB s)[k := (PCB s ! k)\<lparr>running := 0, file_array := fs\<rparr>]"
    "length (page_directory t) = length (page_directory s)" "same_tables s (t\<lparr>PCB := PCB s, page_directory := page_directory s\<rparr>)"
proof -
  let ?u = "s\<lparr>PCB := (PCB s)[k := (PCB s ! k)\<lparr>running := 0\<rparr>]\<rparr>"
  have "stays ?u (loop_over [FIRST_READABLE_FILE..<FILE_DESCRIPTOR_SIZE] (close_one k) ?u)"
    using k(1) by (intro stays_loop stays_close_one same_processes_refl) simp_all
  then have "same_processes ?u t"
    using run k(2) by (simp add: stop_process_def set_PCB_def call_consts stays_def)
  then show "\<exists>fs. length fs = length (file_array (PCB s ! k)) \<and> PCB t = (PCB s)[k := (PCB s ! k)\<lparr>running := 0, file_array := fs\<rparr>]"
    "length (page_directory t) = length (page_directory s)" "same_tables s (t\<lparr>PCB := PCB s, page_directory := page_directory s\<rparr>)"
    using k by (auto simp: same_processes_def same_tables_def Let_def)
qed

lemma halt_child_result:
  assumes w: "well_formed s" and k: "k = unat (current_process_pid s)" and run: "halt_child status k s = Some (c, t)"
  shows "well_formed t" "\<exists>q. parent (PCB s ! k) = Some q \<and> current_process_pid t = of_nat q" "\<exists>n. c = ParentReturns n"
    "running (PCB t ! k) = 0" "j < 6 \<Longrightarrow> j \<noteq> k \<Longrightarrow> PCB t ! j = PCB s ! j"
    "esp t = pcb_esp (PCB s ! k)" "ebp t = pcb_ebp (PCB s ! k)"
proof -
  obtain st i where s: "process_stacks st s" "map last st = [0, 1, 2]" "procs_ok s" "i < 3"
    "current_process_pid s = multi_process_idx s ! i" "length st = 3" "length (multi_process_idx s) = 3"
    using well_formed_cases [OF w] .
  have len: "length (PCB s) = 6" "k < 6" "\<forall>p\<in>set (PCB s). pcb_ok p" "status_ok s"
    using s(3) k by (auto simp: procs_ok_def word_less_nat_alt)
  obtain q' u where q': "parent (PCB s ! k) = Some q'" and u: "stop_process k s = Some u" "return_to_parent k q' status u = Some (c, t)"
    using run by (auto simp: halt_child_def bind_eq_Some_conv)
  obtain q r where qr: "st ! i = k # q # r" "3 \<le> k" using current_stack(2) [OF s(1-5) k [symmetric]] q' by auto
  have ch: "chain (PCB s) (k # q # r)" using s(1,4,6) qr(1) nth_mem [of i st] by (metis process_stacks_def)
  then have q: "q' = q" "pcb_pid (PCB s ! q) = of_nat q" "label_ok (PCB s ! q)" using q' by (simp_all split: if_splits)
  have "distinct (st ! i)" using s(1,4,6) unfolding process_stacks_def distinct_concat_iff by auto
  then have ne: "q \<noteq> k" using qr(1) by auto
  have less: "q < 6" using stack_tops(3) [OF s(1) len(1) s(4), of q] qr(1) by simp
  note stop = stop_process_only [OF u(1) k] 
  obtain fs where fs: "length fs = length (file_array (PCB s ! k))" "PCB u = (PCB s)[k := (PCB s ! k)\<lparr>running := 0, file_array := fs\<rparr>]"
    using stop(1) len(1,2) by auto
  have dir: "length (page_directory u) = length (page_directory s)" and same: "same_tables s (u\<lparr>PCB := PCB s, page_directory := page_directory s\<rparr>)"
    using stop(2,3) len(1,2) by simp_all
  have "PCB s ! k \<in> set (PCB s)" using len(1,2) by simp
  then have f8: "length fs = 8" using len(3) fs(1) by (simp add: pcb_ok_def)
  have uq: "PCB u ! q = PCB s ! q" "unat (of_nat q :: u8) = q" using fs(2) ne less by (simp_all add: unat_of_nat)
  have st: "status_ok u"
    using len same by (auto simp: status_ok_set same_tables_def fs(2) nth_list_update)
  have cur: "current_process_pid u = of_nat k" "k < length (PCB u)" "q < length (PCB u)"
    using same k len less by (simp_all add: same_tables_def fs(2))
  obtain v where v: "return_to_parent k q status u = Some (ParentReturns (if error_return_value u = 256 then 256 else ucast status), v)"
    "PCB v = PCB u" "current_process_pid v = of_nat q" "length (page_directory v) = length (page_directory u)"
    "multi_process_idx v = replace_first (of_nat k) (of_nat q) (multi_process_idx u)" "all_process v = all_process u"
    "current_term v = current_term u" "three_terminals v = three_terminals u" "num_multiprocess v = num_multiprocess u"
    "current_multiprocess v = current_multiprocess u" "esp v = pcb_esp (PCB u ! k)" "ebp v = pcb_ebp (PCB u ! k)"
    using return_to_parent_run [OF st cur(1) len(2) cur(2,3), of status] qr(2) uq q(2,3) by auto
  have t: "t = v" using u(2) v(1) q(1) by simp
  have p: "current_process_pid v = pcb_pid (PCB s ! q)" "multi_process_idx v = replace_first (of_nat k) (pcb_pid (PCB s ! q)) (multi_process_idx s)"
    "all_process v = all_process s" "length (page_directory v) = length (page_directory s)"
    using v same dir q(2) by (simp_all add: same_tables_def)
  note pop = popped [OF s(1,3,4) qr v(2) [unfolded fs(2)] f8 p]
  have "map last (st[i := q # r]) = [0, 1, 2]" using last_pop [OF qr(1)] s(2,4,6) by simp
  then show "well_formed t"
    unfolding t by (intro well_formedI [OF pop(1) _ pop(2) s(4) _ w]) (use pop(3,4) s(4,7) v same in \<open>simp_all add: same_tables_def\<close>)
  show "\<exists>q. parent (PCB s ! k) = Some q \<and> current_process_pid t = of_nat q" using q' q(1) v(3) t by blast
  show "\<exists>n. c = ParentReturns n" using u(2) v(1) q(1) by auto
  show "running (PCB t ! k) = 0" "esp t = pcb_esp (PCB s ! k)" "ebp t = pcb_ebp (PCB s ! k)"
    "j < 6 \<Longrightarrow> j \<noteq> k \<Longrightarrow> PCB t ! j = PCB s ! j"
    using v len(1,2) by (simp_all add: t fs(2))
qed

text \<open>A root shell that halts is replaced, or nothing follows.\<close>

lemma restart_outcome:
  assumes w: "well_formed s" and k: "k = unat (current_process_pid s)" and own: "parent (PCB s ! k) = None"
    and stop: "stop_process k s = Some u"
    and run: "sys_execute env command (u\<lparr>current_process_pid := 0, error_return_value := x\<rparr>) = Some (c, t)"
  shows "well_formed t \<and> (\<exists>e. c = EnterUser e 0x08400000) \<and> current_process_pid t = current_process_pid s
      \<and> running (PCB t ! k) \<noteq> 0 \<and> parent (PCB t ! k) = None \<and> (\<forall>j<6. j \<noteq> k \<longrightarrow> PCB t ! j = PCB s ! j)
    \<or> (\<exists>n. c = Returned n) \<and> parent (PCB t ! k) = None"
proof -
  obtain st i where s: "process_stacks st s" "map last st = [0, 1, 2]" "procs_ok s" "i < 3"
    "current_process_pid s = multi_process_idx s ! i" "length st = 3" "length (multi_process_idx s) = 3"
    using well_formed_cases [OF w] .
  have len: "length (PCB s) = 6" "k < 6" "\<forall>p\<in>set (PCB s). pcb_ok p" using s(3) k by (auto simp: procs_ok_def word_less_nat_alt)
  have ch: "chain (PCB s) (st ! i)" using s by (simp add: process_stacks_def)
  obtain r where "st ! i = k # r" using current_stack(1) [OF s(1-5) k [symmetric]] by blast
  then have top: "st ! i = [k]" using ch own by (cases r) auto
  have k3: "k < 3" using stack_root(1) [OF s(1,2,4)] top s(4) by simp
  obtain fs where fs: "length fs = length (file_array (PCB s ! k))" "PCB u = (PCB s)[k := (PCB s ! k)\<lparr>running := 0, file_array := fs\<rparr>]"
    and dir: "length (page_directory u) = length (page_directory s)" and same: "same_tables s (u\<lparr>PCB := PCB s, page_directory := page_directory s\<rparr>)"
    using stop_process_only [OF stop k] len(1,2) by auto
  have "PCB s ! k \<in> set (PCB s)" using len(1,2) by simp
  then have f8: "length fs = 8" using len(3) fs(1) by (simp add: pcb_ok_def)
  let ?v = "u\<lparr>current_process_pid := 0, error_return_value := x\<rparr>"
  have v: "PCB ?v = (PCB s)[k := (PCB s ! k)\<lparr>running := 0, file_array := fs\<rparr>]" "multi_process_idx ?v = multi_process_idx s"
    "all_process ?v = all_process s" "length (page_directory ?v) = length (page_directory s)" "current_process_pid ?v = 0"
    using fs(2) same dir by (simp_all add: same_tables_def)
  note free = restart_free [OF s(1-3) k3 v(1) f8 v(2-5) own]
  have root: "root_of (PCB ?v) (unat (current_process_pid ?v)) = Some 0" using free(2) by simp
  show ?thesis
  proof (rule execute_outcome [OF run free(3) root])
    fix j assume "first_free ?v = Some j" "3 \<le> j"
    then show "unat (current_process_pid ?v) \<noteq> j \<and> (0 :: nat) \<noteq> j" by simp
  next
    assume t: "same_processes ?v t" "\<exists>n. c = Returned n"
    obtain gs where "PCB t = (PCB ?v)[0 := (PCB ?v ! 0)\<lparr>file_array := gs\<rparr>]" using t(1) by (auto simp: same_processes_def Let_def)
    then have "parent (PCB t ! k) = parent (PCB ?v ! k)" using v(1) len(1) by (cases "k = 0") (simp_all add: nth_list_update)
    then have "parent (PCB t ! k) = None" using own v(1) len(1,2) by simp
    then show ?thesis using t(2) by blast
  next
    fix idx p m
    let ?s = "?v\<lparr>int_flag := True, mem := m\<rparr>"
    assume f: "first_free ?v = Some idx" and start: "started env idx (unat (current_process_pid ?v)) 0 p ?s t"
      and p: "pcb_ok p" "running p \<noteq> 0" "pcb_pid p = of_nat idx" "parent p = (if idx < 3 then None else Some (unat (current_process_pid ?v)))"
      and label: "of_nat idx \<in> set (multi_process_idx t) \<Longrightarrow> label_ok p" and c: "\<exists>e. c = EnterUser e 0x08400000"
    have idx: "idx = k" using f free(1) by simp
    have t: "PCB t = (PCB s)[k := p\<lparr>pcb_esp := esp ?s, pcb_ebp := ebp ?s\<rparr>]" "multi_process_idx t = multi_process_idx s"
      "all_process t = all_process s" "current_process_pid t = of_nat k"
      "num_multiprocess t = num_multiprocess s" "current_multiprocess t = current_multiprocess s"
      "length (three_terminals t) = length (three_terminals s)" "current_term t = current_term s"
      using start k3 v(1-3) same unfolding idx by (simp_all add: started_def same_tables_def)
    have slot: "multi_process_idx s ! i = of_nat k" using s(5) k by (metis of_nat_unat ucast_id)
    then have lab: "label_ok p" using label t(2) s(4,7) nth_mem [of i "multi_process_idx s"] by (simp add: idx)
    have "status_ok ?s = status_ok ?v" by (simp add: status_ok_def)
    then have "procs_ok ?s" using free(3) unfolding procs_ok_def by simp
    note ok = started_procs [OF this start [unfolded idx] len(2) p(1) lab]
    have "process_stacks st t"
      by (rule stacks_restart [OF s(1) len(1) s(4) top t(1)]) (use p lab k3 t in \<open>simp_all add: idx\<close>)
    from well_formedI [OF this s(2) ok s(4) _ w] t slot have "well_formed t" by simp
    moreover have "PCB t ! k = p\<lparr>pcb_esp := esp ?s, pcb_ebp := ebp ?s\<rparr>" "current_process_pid t = current_process_pid s"
      "\<forall>j<6. j \<noteq> k \<longrightarrow> PCB t ! j = PCB s ! j" "parent p = None"
      using t(1,4) len(1,2) slot s(5) p(4) k3 by (simp_all add: idx)
    ultimately show ?thesis using c p(2) by (intro disjI1) simp
  qed
qed

text \<open>What halting leaves behind: the parent in the frame of its call, or a new root shell.\<close>

definition ended :: "nat \<Rightarrow> control \<Rightarrow> 'a kernel_state_scheme \<Rightarrow> 'a kernel_state_scheme \<Rightarrow> bool" where
  "ended k c s t \<longleftrightarrow> (\<forall>j<6. j \<noteq> k \<longrightarrow> PCB t ! j = PCB s ! j)
     \<and> (case parent (PCB s ! k) of
          Some q \<Rightarrow> (\<exists>n. c = ParentReturns n) \<and> current_process_pid t = of_nat q \<and> running (PCB t ! k) = 0
            \<and> esp t = pcb_esp (PCB s ! k) \<and> ebp t = pcb_ebp (PCB s ! k)
        | None \<Rightarrow> (\<exists>x. c = EnterUser x 0x08400000) \<and> current_process_pid t = current_process_pid s
            \<and> running (PCB t ! k) \<noteq> 0 \<and> parent (PCB t ! k) = None)"

lemma halt_result:
  assumes w: "well_formed s" and run: "sys_halt env status s = Some (c, t)" and k: "k = unat (current_process_pid s)"
  shows "well_formed t \<and> ended k c s t"
proof (cases "parent (PCB s ! k) = Some k \<or> parent (PCB s ! k) = None")
  case False
  then have "halt_child status k s = Some (c, t)"
    using run by (auto simp: sys_halt_def Let_def bind_eq_Some_conv k split: if_splits)
  from halt_child_result [OF w k this] show ?thesis by (auto simp: ended_def)
next
  case root: True
  obtain st i where s: "process_stacks st s" "map last st = [0, 1, 2]" "procs_ok s" "i < 3"
    "current_process_pid s = multi_process_idx s ! i" "length st = 3" using well_formed_cases [OF w] .
  have "parent (PCB s ! k) \<noteq> Some k"
  proof
    assume own: "parent (PCB s ! k) = Some k"
    then obtain q r where qr: "st ! i = k # q # r" using current_stack(2) [OF s(1-5) k [symmetric]] by auto
    have "chain (PCB s) (k # q # r)" using s(1,4,6) qr nth_mem [of i st] by (metis process_stacks_def)
    then have "q = k" using own by (simp split: if_splits)
    moreover have "distinct (st ! i)" using s(1,4,6) unfolding process_stacks_def distinct_concat_iff by auto
    ultimately show False using qr by simp
  qed
  then have own: "parent (PCB s ! k) = None" using root by blast
  obtain d t1 where h: "halt_root env status k s = Some (d, t1)"
    and after: "(case d of Returned n \<Rightarrow> halt_child status k t1 | _ \<Rightarrow> Some (d, t1)) = Some (c, t)"
    using run own unfolding sys_halt_def Let_def k [symmetric] by (auto simp: bind_eq_Some_conv)
  obtain n s1 u where wr: "sys_write 1 (root_msg env) 31 s = Some (n, s1)" and stop: "stop_process k s1 = Some u"
    and ex: "sys_execute env shell_name (u\<lparr>current_process_pid := 0, error_return_value := ucast status\<rparr>) = Some (d, t1)"
    using h by (auto simp: halt_root_def bind_eq_Some_conv)
  have s1: "same_processes s s1"
    using stays_calls(1) [OF same_processes_refl [of s]] wr unfolding stays_with_def by blast
  then obtain fs where p1: "PCB s1 = (PCB s)[k := (PCB s ! k)\<lparr>file_array := fs\<rparr>]" and cur: "current_process_pid s1 = current_process_pid s"
    by (auto simp: same_processes_def same_tables_def Let_def k)
  have own1: "parent (PCB s1 ! k) = None" using own p1 by (cases "k < length (PCB s)") (simp_all add: list_update_beyond)
  have "k = unat (current_process_pid s1)" by (simp add: cur k)
  from restart_outcome [OF same_processes_well_formed [OF s1 w] this own1 stop ex] show ?thesis
    using after own p1 cur by (auto simp: halt_child_def bind_eq_Some_conv ended_def)
qed

lemma halt_wrapper_result:
  assumes w: "well_formed s" and run: "sys_halt_wrapper env status s = Some (c, t)" and k: "k = unat (current_process_pid s)"
  shows "well_formed t \<and> ended k c s t"
proof -
  have "well_formed (s\<lparr>error_return_value := x\<rparr>)" for x
    by (rule well_formed_same [OF w]) (use w in \<open>simp_all add: well_formed_def\<close>)
  moreover have "ended k c (s\<lparr>error_return_value := x\<rparr>) t = ended k c s t" for x by (simp add: ended_def cong: option.case_cong)
  ultimately show ?thesis
    using halt_result [of "s\<lparr>error_return_value := HALT_EXCEPTION\<rparr>" env 0] halt_result [OF w, of env] run k
    by (auto simp: sys_halt_wrapper_def split: if_splits)
qed

section \<open>The system calls and the exceptions\<close>

text \<open>Whatever the number and the arguments.\<close>

lemma syscall_well_formed:
  assumes w: "well_formed s" and run: "irq_syscall env eax ebx ecx edx s = Some (c, t)"
  shows "well_formed t"
proof -
  note same = same_processes_refl [of s]
  have other: "well_formed t" if "stays_with s q" "returning q = Some (c, t)" for q
    using that stays_well_formed(2) [OF that(1) _ w] by (auto simp: returning_def)
  have read: "well_formed t" if "returning (sys_read env ebx buf edx s) = Some (c, t)" for buf
    using that sys_read_well_formed [OF _ w] by (auto simp: returning_def)
  show ?thesis
    using run w halt_wrapper_result [OF w _ refl] execute_well_formed [OF w]
    unfolding irq_syscall_def
    by (auto simp: bind_eq_Some_conv split: if_splits intro: read other [OF stays_calls(1) [OF same]] other [OF stays_calls(4) [OF same]]
        other [OF stays_calls(5) [OF same]] other [OF stays_calls(6) [OF same]] other [OF stays_calls(7) [OF same]]
        other [OF stays_open(1) [OF same]] other [OF stays_open(2) [OF same]])
qed

lemma vector_left:
  assumes "take_exception v cr2 env msg eip s = Some (Left c, t)"
  shows "\<exists>len. user_fault env msg len s = Some (Left c, t)"
proof -
  have no: "kernel_fault bs s \<noteq> Some (Left c, t)" for bs by (auto simp: kernel_fault_def bind_eq_Some_conv)
  obtain h where "exception_wrapper h cr2 env msg eip s = Some (Left c, t)"
    using assms by (auto simp: take_exception_def bind_eq_Some_conv)
  then show ?thesis
    using no by (cases h) (auto simp: handler_defs bind_eq_Some_conv split: if_splits)
qed

lemma fault_well_formed:
  assumes w: "well_formed s" and run: "take_exception v cr2 env msg eip s = Some (Left c, t)"
  shows "well_formed t"
proof -
  obtain len n u where wr: "sys_write 1 msg len s = Some (n, u)" and h: "sys_halt_wrapper env HALT_EXCEPTION u = Some (c, t)"
    using vector_left [OF run] by (auto simp: user_fault_def bind_eq_Some_conv)
  have "well_formed u" using stays_well_formed(2) [OF stays_calls(1) [OF same_processes_refl] wr w] .
  then show ?thesis using halt_wrapper_result [OF _ h refl] by blast
qed

section \<open>The other interrupts\<close>

lemma clock_well_formed:
  assumes "well_formed s" and "rtc_handler s = Some t"
  shows "well_formed t"
  using stays_well_formed(1) [OF stays_clock(2) [OF same_processes_refl] assms(2,1)] .

lemma mouse_well_formed:
  assumes "well_formed s"
  shows "well_formed (mouse_handler s)"
proof -
  have "same_tables s (mouse_handler s)"
    by (simp add: mouse_handler_def Let_def case_prod_unfold same_tables_def inb_def send_eoi_def outb_def)
  then show ?thesis using assms by (rule same_tables_well_formed)
qed

section \<open>Executing and halting, whatever the arguments\<close>

text \<open>
  C4. \<open>sys_execute\<close> starts a process or does nothing: for any bytes as its command and any files in the
  image, it either returns to its caller, with no change to the processes but the caller's own
  descriptors; or it enters a program in the first free control block, which is not a root shell's,
  with the caller as its parent, the caller's frame noted, the new process's page mapped, and every
  other control block as before.
\<close>

theorem execute_all_or_nothing:
  assumes "well_formed s" and "sys_execute env command s = Some (c, t)"
  shows "(\<exists>n. c = Returned n) \<and> same_processes s t
    \<or> (\<exists>entry idx. c = EnterUser entry 0x08400000 \<and> first_free s = Some idx \<and> 3 \<le> idx
        \<and> current_process_pid t = of_nat idx \<and> running (PCB t ! idx) \<noteq> 0
        \<and> parent (PCB t ! idx) = Some (unat (current_process_pid s))
        \<and> pcb_esp (PCB t ! idx) = esp s \<and> pcb_ebp (PCB t ! idx) = ebp s
        \<and> page_directory t = (page_directory s)[32 := process_frame (of_nat idx) OR 0x87]
        \<and> (\<forall>j<6. j \<noteq> idx \<longrightarrow> PCB t ! j = PCB s ! j))"
proof -
  have "length (PCB s) = 6" using assms(1) by (simp add: well_formed_def procs_ok_def)
  then show ?thesis using execute_result [OF assms] by (auto simp: started_def)
qed

text \<open>
  C5. Halting ends a process: whatever its status and its open descriptors, \<open>sys_halt\<close> never returns to
  the process that called it. A process with a parent stops running and the parent goes on in the
  frame of its own \<open>sys_execute\<close>; a root shell is replaced by a new one with the same process number.
  Every other control block is as before, and the tables stay well-formed.
\<close>

theorem halt_ends_process:
  assumes "well_formed s" and "sys_halt_wrapper env status s = Some (c, t)" and "k = unat (current_process_pid s)"
  shows "well_formed t \<and> (\<forall>j<6. j \<noteq> k \<longrightarrow> PCB t ! j = PCB s ! j)
    \<and> (case parent (PCB s ! k) of
        Some q \<Rightarrow> (\<exists>n. c = ParentReturns n) \<and> current_process_pid t = of_nat q \<and> running (PCB t ! k) = 0
          \<and> esp t = pcb_esp (PCB s ! k) \<and> ebp t = pcb_ebp (PCB s ! k)
      | None \<Rightarrow> (\<exists>entry. c = EnterUser entry 0x08400000) \<and> current_process_pid t = current_process_pid s
          \<and> running (PCB t ! k) \<noteq> 0 \<and> parent (PCB t ! k) = None)"
  using halt_wrapper_result [OF assms] by (simp add: ended_def)

section \<open>Witnesses\<close>

lemma tiny_well_formed: "well_formed exec_kernel" "well_formed child_kernel"
proof -
  have roots: "map last [[0], [1], [2 :: nat]] = [0, 1, 2]" "map last [[3, 0], [1], [2 :: nat]] = [0, 1, 2]" by simp_all
  have fields: "num_multiprocess exec_kernel = 3" "unat (current_multiprocess exec_kernel) < 3"
    "length (three_terminals exec_kernel) = 3" "0 \<le> current_term exec_kernel" "current_term exec_kernel < 3"
    "num_multiprocess child_kernel = 3" "unat (current_multiprocess child_kernel) < 3"
    "length (three_terminals child_kernel) = 3" "0 \<le> current_term child_kernel" "current_term child_kernel < 3"
    by (simp_all add: child_kernel_def exec_kernel_def tiny_kernel_def)
  have slots: "\<exists>i<3. current_process_pid exec_kernel = multi_process_idx exec_kernel ! i"
    "\<exists>i<3. current_process_pid child_kernel = multi_process_idx child_kernel ! i"
    by (rule exI [of _ 0], simp add: child_tables exec_cur(1))+
  show "well_formed exec_kernel"
    unfolding well_formed_def using exec_stacks exec_procs(1) fields slots roots(1) by (intro conjI exI [of _ "[[0], [1], [2]]"]) simp_all
  show "well_formed child_kernel"
    unfolding well_formed_def using child_stacks child_procs fields slots roots(2) by (intro conjI exI [of _ "[[3, 0], [1], [2]]"]) simp_all
qed

theorem execute_all_or_nothing_witness:
  "\<exists>u entry. sys_execute tiny_env [97, 32, 98, 0] exec_kernel = Some (EnterUser entry 0x08400000, u)
    \<and> parent (PCB u ! 3) = Some 0"
proof -
  obtain e where "can_execute tiny_env [97, 32, 98] e 3 0 exec_kernel" using exec_kernel_can_execute by blast
  from execute_run [OF this, of "[]"] obtain u entry where
    u: "sys_execute tiny_env [97, 32, 98, 0] exec_kernel = Some (EnterUser entry 0x08400000, u)" by auto
  from execute_all_or_nothing [OF tiny_well_formed(1) u] exec_procs(2) show ?thesis using u by (auto simp: exec_cur(3))
qed

theorem halt_ends_process_witness:
  "\<exists>u n. sys_halt_wrapper tiny_env 7 child_kernel = Some (ParentReturns n, u) \<and> current_process_pid u = 0 \<and> running (PCB u ! 3) = 0"
proof -
  obtain u n where u: "sys_halt_wrapper tiny_env 7 child_kernel = Some (ParentReturns n, u)"
    using halt_pops_run [OF child_stacks child_procs, of 0 3 0 "[]" tiny_env 7] child_closable
    by (auto simp: child_tables sys_halt_wrapper_def HALT_EXCEPTION_def)
  have "unat (current_process_pid child_kernel) = 3" "parent (PCB child_kernel ! 3) = Some 0"
    by (simp_all add: child_tables child_pcb_def)
  with halt_ends_process [OF tiny_well_formed(2) u refl] u show ?thesis by auto
qed

end
