(* ===== verification/System.thy ===== *)
theory System
  imports Startup Interface
begin

text \<open>
  The kernel as a transition system. Its steps are what interrupts a running kernel in any order: the
  timer, the keyboard, the clock and the mouse, the running program's own computation, its system
  calls with any numbers and arguments, and its exceptions. The tables stay well-formed under every
  sequence of steps, and the timer can always switch to the next process.
\<close>

section \<open>Steps\<close>

text \<open>
  What can happen between two instructions of a program: the timer, the keyboard, the clock or the
  mouse interrupts; the devices' ports come to answer differently; the program computes, writing to
  memory and the registers at will; it makes any system call; it begins to wait for a line of its
  terminal or takes one, so that other processes run while it waits; it faults.
\<close>

inductive kernel_step :: "c_env \<Rightarrow> 'a kernel_state_scheme \<Rightarrow> 'a kernel_state_scheme \<Rightarrow> bool" for env where
  tick: "pit_handler env s = Some (c, t) \<Longrightarrow> kernel_step env s t"
| keys: "keyboard_handler s = Some t \<Longrightarrow> kernel_step env s t"
| clock: "rtc_handler s = Some t \<Longrightarrow> kernel_step env s t"
| mouse: "kernel_step env s (mouse_handler s)"
| devices: "kernel_step env s (s\<lparr>io_dev := dev\<rparr>)"
| computes: "kernel_step env s (s\<lparr>mem := m, esp := x, ebp := y\<rparr>)"
| calls: "irq_syscall env eax ebx ecx edx s = Some (c, t) \<Longrightarrow> kernel_step env s t"
| awaits: "begin_read i s = Some t \<Longrightarrow> kernel_step env s t"
| reads: "finish_read i ptr w s = Some (r, t) \<Longrightarrow> kernel_step env s t"
| faults: "take_exception v cr2 env msg eip s = Some (Left c, t) \<Longrightarrow> kernel_step env s t"

section \<open>Every step keeps the tables well-formed\<close>

lemma step_well_formed:
  assumes "kernel_step env s t" "well_formed s"
  shows "well_formed t"
  using assms
proof (cases rule: kernel_step.cases)
  case (tick c)
  then show ?thesis using tick_well_formed [OF assms(2), of env] by auto
next
  case (devices dev)
  then show ?thesis using same_tables_well_formed [OF _ assms(2)] by (simp add: same_tables_update)
next
  case (computes m x y)
  then show ?thesis by (intro well_formed_same [OF assms(2)]) (use assms(2) in \<open>simp_all add: well_formed_def\<close>)
qed (use assms(2) in \<open>blast intro: key_well_formed clock_well_formed mouse_well_formed syscall_well_formed
    terminal_well_formed fault_well_formed\<close>)+

section \<open>The machine\<close>

text \<open>
  Programs that compute and a timer that interrupts them: under an invariant that all steps keep,
  the timer can always interrupt.
\<close>

locale safe_machine =
  fixes step :: "'s \<Rightarrow> 's \<Rightarrow> bool" and inv :: "'s \<Rightarrow> bool" and compute :: "'p \<Rightarrow> 's \<Rightarrow> 's" and ticked :: "'s \<Rightarrow> 's option"
  assumes preserved: "step s t \<Longrightarrow> inv s \<Longrightarrow> inv t"
    and computing: "step s (compute p s)"
    and possible: "inv s \<Longrightarrow> \<exists>u. ticked s = Some u"
    and ticking: "ticked s = Some u \<Longrightarrow> step s u"
begin

lemma reachable: "step\<^sup>*\<^sup>* s t \<Longrightarrow> inv s \<Longrightarrow> inv t"
  by (induction rule: rtranclp_induct) (auto intro: preserved)

text \<open>Programs compute and are interrupted any number of times, by steps of the machine.\<close>

lemma goes_on:
  assumes "inv s"
  shows "\<exists>u. loop_over ps (\<lambda>p s. ticked (compute p s)) s = Some u \<and> step\<^sup>*\<^sup>* s u"
proof -
  have "\<exists>u. loop_over ps (\<lambda>p s. ticked (compute p s)) s = Some u \<and> step\<^sup>*\<^sup>* s u \<and> inv u"
  proof (rule loop_over_invariant)
    show "step\<^sup>*\<^sup>* s s \<and> inv s" using assms by simp
    fix p t assume t: "step\<^sup>*\<^sup>* s t \<and> inv t"
    then have c: "step\<^sup>*\<^sup>* s (compute p t)" using computing [of t p] by (blast intro: rtranclp.rtrancl_into_rtrancl)
    then have "inv (compute p t)" using reachable assms by blast
    then obtain u where u: "ticked (compute p t) = Some u" using possible by blast
    have "step\<^sup>*\<^sup>* s u" using c ticking [OF u] by (rule rtranclp.rtrancl_into_rtrancl)
    then show "\<exists>u. ticked (compute p t) = Some u \<and> step\<^sup>*\<^sup>* s u \<and> inv u" using u reachable assms by blast
  qed
  then show ?thesis by blast
qed

end

definition program_runs :: "u32 \<times> u32 \<times> mem \<Rightarrow> 'a kernel_state_scheme \<Rightarrow> 'a kernel_state_scheme" where
  "program_runs p s = (case p of (x, y, m) \<Rightarrow> s\<lparr>mem := m, esp := x, ebp := y\<rparr>)"

interpretation kernel: safe_machine "kernel_step env" well_formed program_runs "\<lambda>s. map_option snd (pit_handler env s)" for env
proof unfold_locales
  show "kernel_step env s t \<Longrightarrow> well_formed s \<Longrightarrow> well_formed t" for s t :: "'a kernel_state_scheme" by (rule step_well_formed)
  show "kernel_step env s (program_runs p s)" for p and s :: "'a kernel_state_scheme"
    by (cases p) (simp add: program_runs_def kernel_step.computes)
  show "\<exists>u. map_option snd (pit_handler env s) = Some u" if "well_formed s" for s :: "'a kernel_state_scheme"
    using tick_well_formed [OF that, of env] by auto
  show "kernel_step env s u" if "map_option snd (pit_handler env s) = Some u" for s u :: "'a kernel_state_scheme"
    using that by (auto intro: kernel_step.tick)
qed

lemma run_ticks_loop: "run_ticks env ps s = loop_over ps (\<lambda>p s. map_option snd (pit_handler env (program_runs p s))) s"
proof (induction ps arbitrary: s)
  case (Cons p ps)
  have p: "program_runs (x, y, m) s = s\<lparr>esp := x, ebp := y, mem := m\<rparr>" for x y m by (simp add: program_runs_def)
  show ?case by (cases p) (auto simp: p Cons map_option_case split: option.splits)
qed simp

section \<open>Type safety\<close>



section \<open>Witnesses\<close>



end
