(* ===== verification/SelfTests.thy ===== *)
theory SelfTests
  imports Startup
begin

text \<open>
  The kernel's own tests, \<open>src/tests.c\<close>: those that decide by themselves whether they passed. A test
  prints its header and returns \<open>PASS\<close> or \<open>FAIL\<close>, or one of its instructions raises an exception, which
  the handlers of \<open>Exceptions\<close> take. The theorems say when each test passes.
\<close>

section \<open>The tests\<close>

definition PASS :: i32 where "PASS = 1"
definition FAIL :: i32 where "FAIL = 0"

datatype test_end = Ended i32 | Raised nat

text \<open>The header, with the name of the function and the line of the macro's use.\<close>

definition TEST_HEADER :: "string \<Rightarrow> nat \<Rightarrow> 'a console_state_scheme \<Rightarrow> 'a console_state_scheme option" where
  "TEST_HEADER name lineno s =
     say (line ''[TEST %s] Running %s at %s:%d'') [PStr (cstr name), PStr (cstr name), PStr (cstr ''tests.c''), PNum (of_nat lineno)] s"

text \<open>\<open>int $15\<close>: the vector has no handler.\<close>

definition assertion_failure :: test_end where
  "assertion_failure = Raised 15"

text \<open>The processor divides, or raises vector 0.\<close>

definition divide :: "int \<Rightarrow> int \<Rightarrow> int option" where
  "divide a b = (if b = 0 then None else Some (a sdiv b))"

definition divide_zero_error_test :: "'a console_state_scheme \<Rightarrow> (test_end \<times> 'a console_state_scheme) option" where
  "divide_zero_error_test s = do {
     s \<leftarrow> TEST_HEADER ''divide_zero_error_test'' 38 s;
     let a = 1; let b = 0;
     Some (case divide a b of None \<Rightarrow> Raised 0 | Some error \<Rightarrow> Ended FAIL, s)
   }"

fun idt_test_loop :: "nat list \<Rightarrow> idt_desc_t list \<Rightarrow> test_end option" where
  "idt_test_loop [] t = Some (Ended PASS)"
| "idt_test_loop (i # rest) t = do {
     g \<leftarrow> peek t i;
     if offset_15_00 g = 0 \<and> offset_31_16 g = 0 \<and> i \<noteq> 15 then Some assertion_failure else idt_test_loop rest t
   }"

definition idt_test :: "'b interrupt_tables_scheme \<Rightarrow> 'a console_state_scheme \<Rightarrow> (test_end \<times> 'a console_state_scheme) option" where
  "idt_test c s = do {
     s \<leftarrow> TEST_HEADER ''idt_test'' 56 s;
     result \<leftarrow> idt_test_loop [0..<20] (idt c);
     Some (result, s)
   }"

text \<open>A read of the kernel: the page fault is vector 14.\<close>

definition kernel_read :: "u32 \<Rightarrow> 'a page_state_scheme \<Rightarrow> u32 option" where
  "kernel_read a s = map_option (load32 (mem s)) (translate False s a)"

definition null_deref_test :: "'a page_state_scheme \<Rightarrow> (test_end \<times> 'a page_state_scheme) option" where
  "null_deref_test s = do {
     s \<leftarrow> TEST_HEADER ''null_deref_test'' 80 s;
     Some (case kernel_read 0 s of None \<Rightarrow> Raised 14 | Some b \<Rightarrow> Ended FAIL, s)
   }"

definition access_valid_page_test :: "'a page_state_scheme \<Rightarrow> (test_end \<times> 'a page_state_scheme) option" where
  "access_valid_page_test s = do {
     s \<leftarrow> TEST_HEADER ''access_valid_page_test'' 98 s;
     Some (case kernel_read 0x00400001 s of None \<Rightarrow> Raised 14
           | Some tmp \<Rightarrow> (case kernel_read 0x000B8001 s of None \<Rightarrow> Raised 14 | Some tmp \<Rightarrow> Ended PASS), s)
   }"

definition cannot_access_nonpresent_memory_test :: "'a page_state_scheme \<Rightarrow> (test_end \<times> 'a page_state_scheme) option" where
  "cannot_access_nonpresent_memory_test s = do {
     s \<leftarrow> TEST_HEADER ''cannot_access_nonpresent_memory_test'' 119 s;
     Some (case kernel_read 0x00800001 s of None \<Rightarrow> Raised 14 | Some tmp \<Rightarrow> Ended FAIL, s)
   }"

definition validate_page_struct_contents :: "'a page_state_scheme \<Rightarrow> test_end option" where
  "validate_page_struct_contents s = do {
     pde \<leftarrow> peek (page_directory s) 1;
     pte \<leftarrow> peek (page_table s) 184;
     Some (Ended (if pde \<noteq> 0x004001F3 then FAIL else if pde AND 1 = 0 then FAIL
                  else if pte \<noteq> 0x000B8063 then FAIL else PASS))
   }"

text \<open>The entry \<open>ret\<close> is not initialised; a buffer is an address on the stack.\<close>

definition large_name :: "string" where "large_name = ''verylargetextwithverylongname.tx''"

definition fs_read_file_with_large_name_test :: "dentry \<Rightarrow> 'a kernel_state_scheme \<Rightarrow> (i32 \<times> 'a kernel_state_scheme) option" where
  "fs_read_file_with_large_name_test ret s = do {
     s \<leftarrow> TEST_HEADER ''fs_read_file_with_large_name_test'' 175 s;
     (r, ret) \<leftarrow> read_dentry_by_name (cstr ''verylargetextwithverylongname.t'') ret s;
     if r = 0 then Some (FAIL, s)
     else do {
       (r, ret) \<leftarrow> read_dentry_by_name (cstr ''verylargetextwithverylongname.txt'') ret s;
       if r = 0 then Some (FAIL, s)
       else do {
         (r, ret) \<leftarrow> read_dentry_by_name (cstr large_name) ret s;
         Some (if r \<noteq> 0 then FAIL else PASS, s)
       }
     }
   }"

definition fs_read_file_with_standard_file_test :: "dentry \<Rightarrow> 'a kernel_state_scheme \<Rightarrow> (i32 \<times> 'a kernel_state_scheme) option" where
  "fs_read_file_with_standard_file_test ret s = do {
     s \<leftarrow> TEST_HEADER ''fs_read_file_with_standard_file_test'' 200 s;
     (r, ret) \<leftarrow> read_dentry_by_name (cstr ''ls'') ret s;
     Some (if r \<noteq> 0 then FAIL else PASS, s)
   }"

definition fs_read_dentry_non_existent_file_test :: "dentry \<Rightarrow> 'a kernel_state_scheme \<Rightarrow> (i32 \<times> 'a kernel_state_scheme) option" where
  "fs_read_dentry_non_existent_file_test ret s = do {
     s \<leftarrow> TEST_HEADER ''fs_read_dentry_non_existent_file_test'' 211 s;
     (r, ret) \<leftarrow> read_dentry_by_name (cstr ''thisfiledoesnotexist'') ret s;
     Some (if r = 0 then FAIL else PASS, s)
   }"

definition fs_read_dentry_invalid_dentry_test :: "dentry \<Rightarrow> 'a kernel_state_scheme \<Rightarrow> (i32 \<times> 'a kernel_state_scheme) option" where
  "fs_read_dentry_invalid_dentry_test ret s = do {
     s \<leftarrow> TEST_HEADER ''fs_read_dentry_invalid_dentry_test'' 221 s;
     (r, ret) \<leftarrow> read_dentry_by_index 100 ret s;
     if r = 0 then Some (FAIL, s)
     else do {
       (r, ret) \<leftarrow> read_dentry_by_index (-1) ret s;
       if r = 0 then Some (FAIL, s)
       else do {
         (r, ret) \<leftarrow> read_dentry_by_index 1 ret s;
         Some (if r = -1 then FAIL else PASS, s)
       }
     }
   }"

definition fs_read_data_invalid_inode_test :: "u32 \<Rightarrow> 'a kernel_state_scheme \<Rightarrow> (i32 \<times> 'a kernel_state_scheme) option" where
  "fs_read_data_invalid_inode_test buf s = do {
     s \<leftarrow> TEST_HEADER ''fs_read_data_invalid_inode_test'' 237 s;
     (n, s) \<leftarrow> read_data 100 0 buf 10 s;
     if n = 0 then Some (FAIL, s)
     else do {
       (n, s) \<leftarrow> read_data (-1) 0 buf 10 s;
       if n = 0 then Some (FAIL, s)
       else do {
         (n, s) \<leftarrow> read_data 1 0 buf 10 s;
         Some (if n = 0 then PASS else FAIL, s)
       }
     }
   }"

text \<open>The reads of \<open>fs_read_data_test\<close>: offset, number of bytes, expected result.\<close>

definition read_data_cases :: "(u32 \<times> u32 \<times> i32) list" where
  "read_data_cases = [(0, 5277, 5277), (100, 100, 100), (5000, 100, 100), (5177, 100, 100), (5200, 100, 77), (5300, 100, 0)]"

fun read_data_checks :: "u32 \<Rightarrow> u32 \<Rightarrow> (u32 \<times> u32 \<times> i32) list \<Rightarrow> 'a kernel_state_scheme \<Rightarrow> (i32 \<times> 'a kernel_state_scheme) option" where
  "read_data_checks inode buf [] s = Some (PASS, s)"
| "read_data_checks inode buf ((offset, len, expected) # rest) s = do {
     (n, s) \<leftarrow> read_data inode offset buf len s;
     if n \<noteq> expected then Some (FAIL, s) else read_data_checks inode buf rest s
   }"

definition fs_read_data_test :: "dentry \<Rightarrow> u32 \<Rightarrow> 'a kernel_state_scheme \<Rightarrow> (i32 \<times> 'a kernel_state_scheme) option" where
  "fs_read_data_test dentry buf s = do {
     s \<leftarrow> TEST_HEADER ''fs_read_data_test'' 254 s;
     (r, dentry) \<leftarrow> read_dentry_by_name (cstr large_name) dentry s;
     read_data_checks (inode_num dentry) buf read_data_cases s
   }"

definition fs_file_open_close_test :: "dentry \<Rightarrow> 'a kernel_state_scheme \<Rightarrow> (i32 \<times> 'a kernel_state_scheme) option" where
  "fs_file_open_close_test junk s = do {
     s \<leftarrow> TEST_HEADER ''fs_file_open_close_test'' 318 s;
     (fd, s) \<leftarrow> file_open junk (cstr ''ls'') s;
     if fd = -1 then Some (FAIL, s)
     else do { (status, s) \<leftarrow> file_close (unat fd) s; Some (if status \<noteq> 0 then FAIL else PASS, s) }
   }"

definition fs_file_open_invalid_file_test :: "dentry \<Rightarrow> 'a kernel_state_scheme \<Rightarrow> (i32 \<times> 'a kernel_state_scheme) option" where
  "fs_file_open_invalid_file_test junk s = do {
     s \<leftarrow> TEST_HEADER ''fs_file_open_invalid_file_test'' 333 s;
     (fd, s) \<leftarrow> file_open junk (cstr ''.'') s;
     if fd = -1 then Some (PASS, s)
     else do { (status, s) \<leftarrow> file_close (unat fd) s; Some (FAIL, s) }
   }"

definition fs_open_invalid_dir_test :: "dentry \<Rightarrow> 'a kernel_state_scheme \<Rightarrow> (i32 \<times> 'a kernel_state_scheme) option" where
  "fs_open_invalid_dir_test junk s = do {
     s \<leftarrow> TEST_HEADER ''fs_open_invalid_dir_test'' 372 s;
     (fd, s) \<leftarrow> dir_open junk (cstr ''frame0.txt'') s;
     if fd = -1 then Some (PASS, s)
     else do { (status, s) \<leftarrow> dir_close (unat fd) s; Some (FAIL, s) }
   }"

text \<open>Only the division by zero is still called.\<close>

definition launch_tests :: "'a console_state_scheme \<Rightarrow> (test_end \<times> 'a console_state_scheme) option" where
  "launch_tests s = do {
     (result, s) \<leftarrow> divide_zero_error_test s;
     (case result of
        Raised v \<Rightarrow> Some (Raised v, s)
      | Ended r \<Rightarrow> do {
          s \<leftarrow> say (line ''[TEST %s] Result = %s'') [PStr (cstr ''divide_zero_error_test''),
            PStr (if r \<noteq> 0 then cstr ''PASS'' else cstr ''FAIL'')] s;
          Some (Ended r, s)
        })
   }"

section \<open>The header\<close>

lemma header_run: "\<exists>t. TEST_HEADER name n s = Some t \<and> prints s t"
proof -
  have "render_text (line ''[TEST %s] Running %s at %s:%d'')
      [PStr (cstr name), PStr (cstr name), PStr (cstr ''tests.c''), PNum (of_nat n)] \<noteq> None"
    by (simp add: line_def cstr_def chars_def)
  then show ?thesis unfolding TEST_HEADER_def by (rule say_run)
qed

lemma touched_pages:
  assumes "touched s t"
  shows "page_directory t = page_directory s" "page_table t = page_table s" "translate user t va = translate user s va"
proof -
  have f: "page_directory t = page_directory s" "page_table t = page_table s" "page_table_vid t = page_table_vid s"
    "page_table_at t = page_table_at s" "page_table_vid_at t = page_table_vid_at s"
    by (subst assms [unfolded touched_def], simp)+
  then show "page_directory t = page_directory s" "page_table t = page_table s" by blast+
  have "table_of t a = table_of s a" for a using f by (simp add: table_of_def)
  then show "translate user t va = translate user s va" using f(1) by (simp add: translate_def cong: if_cong)
qed

text \<open>Printing leaves an image that does not overlap the text screen as it is.\<close>

definition testable :: "'a kernel_state_scheme \<Rightarrow> bool" where
  "testable s \<longleftrightarrow> on_screen (console_pos s) \<and> buffer_apart s VIDEO 3840 \<and> num_dir_entries s \<le> 63"

lemma header_image:
  assumes "TEST_HEADER name n s = Some t" "testable s" "file_ok s k"
  shows "same_image s t" "entry_for w t = entry_for w s" "num_dir_entries t = num_dir_entries s" "testable t"
proof -
  obtain u where "TEST_HEADER name n s = Some u" "prints s u" using header_run by blast
  then have p: "prints s t" using assms(1) by simp
  have scr: "on_screen (console_pos s)" "buffer_apart s VIDEO 3840" "num_dir_entries s \<le> 63"
    using assms(2) by (simp_all add: testable_def)
  have "fs_boot_block t = fs_boot_block s" by (subst touched_prints [OF p, unfolded touched_def]) simp
  then show sm: "same_image s t"
    using prints_frame(2) [OF p scr(1)] apart_outside [OF scr(2)] by (auto simp: same_image_def same_off_screen_def)
  show n: "num_dir_entries t = num_dir_entries s" by (rule same_image_directory(1) [OF sm assms(3) scr(3)])
  show "entry_for w t = entry_for w s" by (rule same_image_directory(2) [OF sm assms(3) scr(3)])
  have "buffer_apart t VIDEO 3840" using scr(2) same_image_file(3,4) [OF sm assms(3)] by (simp add: buffer_apart_def)
  then show "testable t" using prints_frame(1) [OF p scr(1)] n scr(3) by (simp add: testable_def)
qed

section \<open>When the tests pass\<close>

lemma idt_test_loop_passes:
  assumes "\<forall>i\<in>set is. i < length t \<and> (i \<noteq> 15 \<longrightarrow> gate_target (t ! i) \<noteq> 0)"
  shows "idt_test_loop is t = Some (Ended PASS)"
  using assms
proof (induction "is")
  case (Cons i rest)
  have "gate_target (t ! i) = 0" if "offset_15_00 (t ! i) = 0" "offset_31_16 (t ! i) = 0"
    using that by (simp add: gate_target_def)
  then show ?case using Cons by auto
qed simp

text \<open>
  After \<open>init_idt\<close> the table's first 20 gates but that of vector 15 lead somewhere, so the test of the
  interrupt table passes.
\<close>

theorem idt_test_passes:
  assumes "length (idt c) = 256" and "\<forall>h. address h \<noteq> 0"
  shows "\<exists>c' t. init_idt address c = Some c' \<and> idt_test c' s = Some (Ended PASS, t) \<and> prints s t"
proof -
  obtain g where g: "init_idt address c = Some (c\<lparr>idt := g, idtr := Some (idt_desc_ptr c)\<rparr>)" "length g = 256"
    "\<forall>v<256. g ! v = (case map_of vector_table v of Some h \<Rightarrow> SET_IDT_ENTRY (address h) (init_gate v (idt c ! v))
        | None \<Rightarrow> init_gate v (idt c ! v))"
    using init_idt_run [OF assms(1)] by blast
  have "gate_target (g ! v) \<noteq> 0" if "v < 20" "v \<noteq> 15" for v
  proof -
    have "map_of vector_table v \<noteq> None"
      using that by (cases rule: vector_numbers) (simp_all add: vector_table_def idt_consts)
    then obtain h where "map_of vector_table v = Some h" by blast
    then have "g ! v = SET_IDT_ENTRY (address h) (init_gate v (idt c ! v))" using g(3) that by simp
    then show ?thesis using assms(2) by (simp add: init_gate_fields)
  qed
  then have "idt_test_loop [0..<20] g = Some (Ended PASS)" using g(2) by (intro idt_test_loop_passes) auto
  then show ?thesis using g(1) header_run [of "''idt_test''" 56 s] by (auto simp: idt_test_def)
qed

text \<open>
  After \<open>init_page_structs\<close> the kernel's page and the video page can be read, and reading address 0 or
  behind the kernel's page raises a page fault. The fourth test passes when the processor has marked
  the two pages as used, which the model's translation does not do.
\<close>

theorem paging_tests:
  assumes "tables_ok s" and "p = init_page_structs s"
  shows "\<exists>t. access_valid_page_test p = Some (Ended PASS, t)" "\<exists>t. null_deref_test p = Some (Raised 14, t)"
    "\<exists>t. cannot_access_nonpresent_memory_test p = Some (Raised 14, t)"
    "validate_page_struct_contents p = Some (Ended FAIL)"
    "validate_page_struct_contents (p\<lparr>page_directory := (page_directory p)[1 := page_directory p ! 1 OR 0x60],
        page_table := (page_table p)[184 := page_table p ! 184 OR 0x60]\<rparr>) = Some (Ended PASS)"
proof -
  have map: "translate False p va = (if 0x400000 \<le> va \<and> va < 0x800000 \<or> 0xB8000 \<le> va \<and> va < 0xBC000 then Some va else None)" for va
    using init_page_structs_maps [OF assms(1), of False va] assms(2) by simp
  have read: "\<exists>t. TEST_HEADER name n p = Some t \<and> (\<forall>va. translate False t va = translate False p va)" for name n
    using header_run [of name n p] touched_pages(3) [OF touched_prints] by blast
  show "\<exists>t. access_valid_page_test p = Some (Ended PASS, t)"
    using read [of "''access_valid_page_test''" 98] by (auto simp: access_valid_page_test_def kernel_read_def map)
  show "\<exists>t. null_deref_test p = Some (Raised 14, t)"
    using read [of "''null_deref_test''" 80] by (auto simp: null_deref_test_def kernel_read_def map)
  show "\<exists>t. cannot_access_nonpresent_memory_test p = Some (Raised 14, t)"
    using read [of "''cannot_access_nonpresent_memory_test''" 119]
    by (auto simp: cannot_access_nonpresent_memory_test_def kernel_read_def map)
  note tabs = init_page_structs_tables [OF assms(1)]
  show "validate_page_struct_contents p = Some (Ended FAIL)"
    by (simp add: validate_page_struct_contents_def assms(2) tabs PASS_def FAIL_def)
  show "validate_page_struct_contents (p\<lparr>page_directory := (page_directory p)[1 := page_directory p ! 1 OR 0x60],
        page_table := (page_table p)[184 := page_table p ! 184 OR 0x60]\<rparr>) = Some (Ended PASS)"
    by (simp add: validate_page_struct_contents_def assms(2) tabs PASS_def FAIL_def)
qed

text \<open>The division by zero is the handlers' business.\<close>

lemma launch_tests_raises: "\<exists>t. launch_tests s = Some (Raised 0, t) \<and> prints s t"
  using header_run [of "''divide_zero_error_test''" 38 s]
  by (auto simp: launch_tests_def divide_zero_error_test_def divide_def)

text \<open>The tests of the directory, on the names of an image.\<close>

lemma lookup_outcome:
  assumes "testable s" "0 \<notin> set w"
  shows "\<exists>d. read_dentry_by_name (w @ [0]) ret s = Some (if entry_for w s = None then -1 else 0, d)
    \<and> (\<forall>e. entry_for w s = Some e \<longrightarrow> d = e)"
proof -
  have "read_dentry_by_name (w @ [0]) ret s = Some (lookup_result w ret (directory s))"
    using find_dentry_spec [OF assms(2), of s "[]" ret 0] assms(1)
    by (simp add: read_dentry_by_name_def testable_def)
  then show ?thesis
    by (cases "entry_for w s") (simp_all add: lookup_result_def entry_for_def FOUND_def NOT_FOUND_def)
qed

text \<open>Looking a name up behind the header gives the entry of the image, and the image stays.\<close>

lemma header_lookup:
  assumes "testable s" "file_ok s k"
  shows "\<exists>t. TEST_HEADER name n s = Some t \<and> testable t \<and> same_image s t
    \<and> (\<forall>w ret. 0 \<notin> set w \<longrightarrow> (\<exists>d. read_dentry_by_name (w @ [0]) ret t = Some (if entry_for w s = None then -1 else 0, d)
        \<and> (\<forall>e. entry_for w s = Some e \<longrightarrow> d = e)))"
proof -
  obtain t where t: "TEST_HEADER name n s = Some t" using header_run by blast
  note h = header_image [OF t assms]
  show ?thesis using t h lookup_outcome [OF h(4)] by (intro exI [of _ t]) (simp add: h(2))
qed

lemma test_names:
  "cstr w = chars w @ [0]" "0 \<notin> set (chars ''ls'')" "0 \<notin> set (chars ''thisfiledoesnotexist'')" "0 \<notin> set (chars large_name)"
  "0 \<notin> set (chars ''verylargetextwithverylongname.t'')" "0 \<notin> set (chars ''verylargetextwithverylongname.txt'')"
  "0 \<notin> set (chars ''.'')" "0 \<notin> set (chars ''frame0.txt'')"
  by (simp_all add: cstr_def chars_def large_name_def)

lemma length_entry_name: "e \<in> set (directory s) \<Longrightarrow> length (entry_name e) \<le> 32"
  using length_takeWhile_le [of _ "file_name e"]
  by (auto simp: directory_def entry_name_def c_string_def load_dentry_def load_bytes_def MAX_FILENAME_LENGTH_def
      intro: order_trans [OF length_takeWhile_le])

text \<open>A name of 33 characters is not in any directory.\<close>

lemma long_name_missing: "entry_for (chars ''verylargetextwithverylongname.txt'') s = None"
proof -
  have len: "length (chars ''verylargetextwithverylongname.txt'') = 33" by (simp add: chars_def)
  have "entry_name e \<noteq> chars ''verylargetextwithverylongname.txt''" if "e \<in> set (directory s)" for e
    using length_entry_name [OF that] len by fastforce
  then show ?thesis by (auto simp: entry_for_def find_None_iff)
qed

text \<open>
  Each test of looking up names passes exactly when the image holds, or does not hold, the names it
  looks for.
\<close>

theorem lookup_tests:
  assumes "testable s" and "file_ok s k"
  shows "\<exists>t. fs_read_file_with_large_name_test ret s = Some (if entry_for (chars large_name) s \<noteq> None
        \<and> entry_for (chars ''verylargetextwithverylongname.t'') s = None then PASS else FAIL, t)"
    "\<exists>t. fs_read_file_with_standard_file_test ret s = Some (if entry_for (chars ''ls'') s \<noteq> None then PASS else FAIL, t)"
    "\<exists>t. fs_read_dentry_non_existent_file_test ret s
      = Some (if entry_for (chars ''thisfiledoesnotexist'') s = None then PASS else FAIL, t)"
proof -
  have h: "\<exists>t. TEST_HEADER name n s = Some t
      \<and> (\<forall>w ret. 0 \<notin> set (chars w) \<longrightarrow> (\<exists>d. read_dentry_by_name (cstr w) ret t = Some (if entry_for (chars w) s = None then -1 else 0, d)))" for name n
    using header_lookup [OF assms, of name n] unfolding test_names(1) by blast
  show "\<exists>t. fs_read_file_with_standard_file_test ret s = Some (if entry_for (chars ''ls'') s \<noteq> None then PASS else FAIL, t)"
  proof -
    obtain t d where "TEST_HEADER ''fs_read_file_with_standard_file_test'' 200 s = Some t"
      "read_dentry_by_name (cstr ''ls'') ret t = Some (if entry_for (chars ''ls'') s = None then -1 else 0, d)"
      using h test_names(2) by blast
    then show ?thesis by (simp add: fs_read_file_with_standard_file_test_def)
  qed
  show "\<exists>t. fs_read_dentry_non_existent_file_test ret s
      = Some (if entry_for (chars ''thisfiledoesnotexist'') s = None then PASS else FAIL, t)"
  proof -
    obtain t d where "TEST_HEADER ''fs_read_dentry_non_existent_file_test'' 211 s = Some t"
      "read_dentry_by_name (cstr ''thisfiledoesnotexist'') ret t
        = Some (if entry_for (chars ''thisfiledoesnotexist'') s = None then -1 else 0, d)"
      using h test_names(3) by blast
    then show ?thesis by (simp add: fs_read_dentry_non_existent_file_test_def)
  qed
  show "\<exists>t. fs_read_file_with_large_name_test ret s = Some (if entry_for (chars large_name) s \<noteq> None
        \<and> entry_for (chars ''verylargetextwithverylongname.t'') s = None then PASS else FAIL, t)"
  proof -
    obtain t where t: "TEST_HEADER ''fs_read_file_with_large_name_test'' 175 s = Some t"
      and l: "\<And>w ret. 0 \<notin> set (chars w) \<Longrightarrow> \<exists>d. read_dentry_by_name (cstr w) ret t = Some (if entry_for (chars w) s = None then -1 else 0, d)"
      using h by blast
    obtain d1 where 1: "read_dentry_by_name (cstr ''verylargetextwithverylongname.t'') ret t
        = Some (if entry_for (chars ''verylargetextwithverylongname.t'') s = None then -1 else 0, d1)"
      using l [OF test_names(5)] by blast
    obtain d2 where 2: "read_dentry_by_name (cstr ''verylargetextwithverylongname.txt'') d1 t = Some (-1, d2)"
      using l [OF test_names(6), of d1] by (auto simp: long_name_missing)
    obtain d3 where 3: "read_dentry_by_name (cstr large_name) d2 t = Some (if entry_for (chars large_name) s = None then -1 else 0, d3)"
      using l [OF test_names(4)] by blast
    show ?thesis using t 1 2 3 by (simp add: fs_read_file_with_large_name_test_def)
  qed
qed

text \<open>
  The test of indices passes on every image of 2 to 63 entries. The test of inode numbers takes the
  number of bytes \<open>read_data\<close> returns for an error code: it passes only when the file of inode 1 is empty.
\<close>

theorem index_tests:
  assumes "testable s" and "file_ok s 1" and "2 \<le> num_dir_entries s" and "num_inodes s \<le> 100" and "buffer_apart s buf 10"
  shows "\<exists>t. fs_read_dentry_invalid_dentry_test ret s = Some (PASS, t)"
    "\<exists>t. fs_read_data_invalid_inode_test buf s = Some (if inode_length s 1 = 0 then PASS else FAIL, t)"
proof -
  have n: "num_dir_entries s \<le> 63" using assms(1) by (simp add: testable_def)
  show "\<exists>t. fs_read_dentry_invalid_dentry_test ret s = Some (PASS, t)"
  proof -
    obtain t where t: "TEST_HEADER ''fs_read_dentry_invalid_dentry_test'' 221 s = Some t" using header_run by blast
    note h = header_image [OF t assms(1,2)]
    have u: "unat (num_dir_entries t - 1) = unat (num_dir_entries t) - 1" "2 \<le> unat (num_dir_entries t)" "unat (num_dir_entries t) \<le> 63"
      using n assms(3) h(3) by (auto simp: word_le_nat_alt unat_sub_if')
    then have "100 > num_dir_entries t - 1" "-1 > num_dir_entries t - 1" "\<not> 1 > num_dir_entries t - 1"
      by (simp_all add: word_less_nat_alt)
    then show ?thesis using t directory_entry_addr [of 1 "fs_boot_block t"]
      by (simp add: fs_read_dentry_invalid_dentry_test_def read_dentry_by_index_def NOT_FOUND_def FOUND_def)
  qed
  obtain t where t: "TEST_HEADER ''fs_read_data_invalid_inode_test'' 237 s = Some t" using header_run by blast
  note h = header_image [OF t assms(1,2)]
  note sm = same_image_file [OF h(1) assms(2)]
  have some: "num_inodes t \<noteq> 0" "1 < num_inodes t" using file_ok_bounds(3) [OF sm(7)] by auto
  have "num_inodes t \<le> 100" using assms(4) sm(1) by simp
  then have bad: "read_data 100 0 buf 10 t = Some (-1, t)" "read_data (-1) 0 buf 10 t = Some (-1, t)"
    using read_data_no_data [OF some(1)] by simp_all
  have "\<exists>u. read_data 1 0 buf 10 t = Some (of_nat (min 10 (inode_length s 1)), u)"
  proof (cases "inode_length s 1 = 0")
    case True
    then show ?thesis using read_data_no_data [OF some(1), of 1 0 buf 10] some(2) by (simp add: sm(5))
  next
    case False
    have "buffer_apart t buf (read_count t 1 0 10)"
      using assms(5) by (auto simp: buffer_apart_def sm(3,4) read_count_def)
    then show ?thesis using read_data_run [OF sm(7), of 0 10 buf] False by (simp add: sm(5) read_count_def)
  qed
  moreover have "(of_nat (min 10 k) :: i32) = 0 \<longleftrightarrow> k = 0" for k :: nat
  proof -
    have "(of_nat m :: i32) = 0 \<longleftrightarrow> m = 0" if "m \<le> 10" for m using that by (simp add: word_unat_eq_iff unat_of_nat)
    from this [of "min 10 k"] show ?thesis by linarith
  qed
  ultimately show "\<exists>t. fs_read_data_invalid_inode_test buf s = Some (if inode_length s 1 = 0 then PASS else FAIL, t)"
    using t bad by (auto simp: fs_read_data_invalid_inode_test_def)
qed

text \<open>The reads of a file of 5277 bytes: their counts, whatever the offset, are what is left of the file.\<close>

lemma read_counts:
  assumes ok: "file_ok s k" and len: "inode_length s k = 5277" and ap: "buffer_apart s buf 5277"
    and small: "unat off + unat n < 4294967296"
  shows "\<exists>u. read_data k off buf n s = Some (of_nat (min (unat n) (5277 - unat off)), u) \<and> same_image s u"
proof (cases "unat off < 5277")
  case False
  moreover have "num_inodes s \<noteq> 0" "k < num_inodes s" using file_ok_bounds(3) [OF ok] by auto
  ultimately show ?thesis using read_data_no_data [of s k off buf n] len by (auto simp: same_image_def)
next
  case True
  let ?c = "read_count s k (unat off) (unat n)"
  have c: "?c = min (unat n) (5277 - unat off)" by (simp add: read_count_def len)
  then have b: "buffer_apart s buf ?c" using ap by (auto simp: buffer_apart_def)
  have "same_image s (s\<lparr>mem := gather (mem s) buf (read_addr s k (unat off)) ?c\<rparr>)"
    by (rule same_image_gather [OF b]) (simp_all add: gather_outside)
  then show ?thesis using read_data_run [OF ok _ small b] True by (simp add: len c)
qed

lemma read_data_checks_pass:
  assumes "file_ok s k" "inode_length s k = 5277" "buffer_apart s buf 5277"
    and "\<forall>(off, n, expected)\<in>set cases. unat off + unat n < 4294967296 \<and> expected = of_nat (min (unat n) (5277 - unat off))"
  shows "\<exists>u. read_data_checks k buf cases s = Some (PASS, u)"
  using assms
proof (induction cases arbitrary: s)
  case (Cons a cases)
  obtain off n e where a: "a = (off, n, e)" by (cases a) auto
  then have e: "unat off + unat n < 4294967296" "e = of_nat (min (unat n) (5277 - unat off))" using Cons.prems(4) by auto
  obtain u where u: "read_data k off buf n s = Some (e, u)" "same_image s u"
    using read_counts [OF Cons.prems(1-3) e(1)] e(2) by blast
  note sm = same_image_file [OF u(2) Cons.prems(1)]
  have "\<exists>v. read_data_checks k buf cases u = Some (PASS, v)"
    by (rule Cons.IH) (use Cons.prems sm in \<open>simp_all add: buffer_apart_def\<close>)
  then show ?case using u(1) by (simp add: a)
qed simp

text \<open>
  The test of reading passes on every image in which the file with the long name has 5277 bytes. It
  compares counts only, and the read it means to cross blocks, at offset 5000, stays inside one.
\<close>

theorem read_test:
  assumes "testable s" and "entry_for (chars large_name) s = Some e" and "file_ok s (inode_num e)"
    and "inode_length s (inode_num e) = 5277" and "buffer_apart s buf 5277"
  shows "\<exists>t. fs_read_data_test junk buf s = Some (PASS, t)"
proof -
  obtain t d where t: "TEST_HEADER ''fs_read_data_test'' 254 s = Some t" "same_image s t"
    and d: "read_dentry_by_name (cstr large_name) junk t = Some (0, e)"
    using header_lookup [OF assms(1,3), of "''fs_read_data_test''" 254] test_names(4) assms(2) unfolding test_names(1) by force
  note sm = same_image_file [OF t(2) assms(3)]
  have "\<exists>u. read_data_checks (inode_num e) buf read_data_cases t = Some (PASS, u)"
    by (rule read_data_checks_pass [OF sm(7)])
      (use sm assms(4,5) in \<open>simp_all add: buffer_apart_def read_data_cases_def\<close>)
  then show ?thesis using t(1) d by (simp add: fs_read_data_test_def)
qed

text \<open>The tests of opening pass when \<open>ls\<close> is a file, and \<open>.\<close> no file, and \<open>frame0.txt\<close> no directory.\<close>

theorem open_tests:
  assumes "testable s" and "file_ok s k"
  shows "entry_for (chars ''ls'') s = Some e \<Longrightarrow>
      \<exists>t. fs_file_open_close_test junk s = Some (if file_type e = FS_TYPE_FILE then PASS else FAIL, t)"
    "entry_for (chars ''.'') s = Some e \<Longrightarrow>
      \<exists>t. fs_file_open_invalid_file_test junk s = Some (if file_type e = FS_TYPE_FILE then FAIL else PASS, t)"
    "entry_for (chars ''frame0.txt'') s = Some e \<Longrightarrow>
      \<exists>t. fs_open_invalid_dir_test junk s = Some (if file_type e = FS_TYPE_DIR then FAIL else PASS, t)"
proof -
  have h: "\<exists>t. TEST_HEADER name n s = Some t \<and> read_dentry_by_name (cstr w) junk t = Some (0, e)"
    if "entry_for (chars w) s = Some e" "0 \<notin> set (chars w)" for name n w
    using header_lookup [OF assms, of name n] that unfolding test_names(1) by force
  note opens = file_open_def file_close_def dir_open_def dir_close_def
  show "\<exists>t. fs_file_open_close_test junk s = Some (if file_type e = FS_TYPE_FILE then PASS else FAIL, t)"
    if "entry_for (chars ''ls'') s = Some e"
    using h [OF that test_names(2), of "''fs_file_open_close_test''" 318] by (auto simp: fs_file_open_close_test_def opens)
  show "\<exists>t. fs_file_open_invalid_file_test junk s = Some (if file_type e = FS_TYPE_FILE then FAIL else PASS, t)"
    if "entry_for (chars ''.'') s = Some e"
    using h [OF that test_names(7), of "''fs_file_open_invalid_file_test''" 333] by (auto simp: fs_file_open_invalid_file_test_def opens)
  show "\<exists>t. fs_open_invalid_dir_test junk s = Some (if file_type e = FS_TYPE_DIR then FAIL else PASS, t)"
    if "entry_for (chars ''frame0.txt'') s = Some e"
    using h [OF that test_names(8), of "''fs_open_invalid_dir_test''" 372] by (auto simp: fs_open_invalid_dir_test_def opens)
qed

end
