(* ===== verification/DeviceTests.thy ===== *)
theory DeviceTests
  imports SelfTests WellFormed
begin

text \<open>
  The rest of \<open>src/tests.c\<close>: the tests that read through a descriptor, that wait for the clock, and the
  endless one of the terminal. A local array is an address on the stack. \<open>file_open\<close> and \<open>dir_open\<close>
  return 0 and open nothing, so what these tests read is whatever descriptor 0 of the process holds.
\<close>

section \<open>Files\<close>

definition fs_read_small_file_test :: "dentry \<Rightarrow> u32 \<Rightarrow> 'a kernel_state_scheme \<Rightarrow> (i32 \<times> 'a kernel_state_scheme) option" where
  "fs_read_small_file_test junk buf s = do {
     (fd, s) \<leftarrow> file_open junk (cstr ''frame1.txt'') s;
     if fd = -1 then Some (FAIL, s)
     else do {
       (bytes_read, s) \<leftarrow> file_read (unat fd) buf 300 s;
       if bytes_read = 0 then Some (FAIL, s)
       else do {
         let s = s\<lparr>mem := (mem s)(buf + bytes_read := 0)\<rparr>;
         str \<leftarrow> string_at (mem s) buf;
         s \<leftarrow> say (cstr ''%s'') [PStr str] s;
         (status, s) \<leftarrow> file_close (unat fd) s;
         Some (if status \<noteq> 0 then FAIL else PASS, s)
       }
     }
   }"

definition fs_read_large_file_test :: i32 where "fs_read_large_file_test = PASS"
definition fs_read_executable_test :: i32 where "fs_read_executable_test = PASS"

text \<open>One round of the listing loop; the count is an \<open>uint8_t\<close>.\<close>

definition list_one :: "dentry \<Rightarrow> nat \<Rightarrow> u32 \<Rightarrow> u8 \<times> 'a kernel_state_scheme \<Rightarrow> (u8 \<times> 'a kernel_state_scheme) option" where
  "list_one junk fd buf = (\<lambda>(successful_reads, s). do {
     (bytes_read, s) \<leftarrow> dir_read junk fd buf 32 s;
     let s = s\<lparr>mem := (mem s)(buf + bytes_read := 10, buf + bytes_read + 1 := 0)\<rparr>;
     Some (if bytes_read \<noteq> 0 then successful_reads + 1 else successful_reads, s)
   })"

definition fs_read_directory_test :: "dentry \<Rightarrow> u32 \<Rightarrow> 'a kernel_state_scheme \<Rightarrow> (i32 \<times> 'a kernel_state_scheme) option" where
  "fs_read_directory_test junk buf s = do {
     s \<leftarrow> TEST_HEADER ''fs_read_directory_test'' 344 s;
     (fd, s) \<leftarrow> dir_open junk (cstr ''.'') s;
     if fd = -1 then Some (FAIL, s)
     else do {
       (successful_reads, s) \<leftarrow> loop_over [0..<63] (\<lambda>i. list_one junk (unat fd) buf) (0, s);
       (status, s) \<leftarrow> dir_close (unat fd) s;
       Some (if status = -1 \<or> successful_reads \<noteq> 16 then FAIL else PASS, s)
     }
   }"

section \<open>The clock\<close>

fun rtc_test_reads :: "nat \<Rightarrow> 'a kernel_state_scheme \<Rightarrow> 'a kernel_state_scheme option" where
  "rtc_test_reads 0 s = Some s"
| "rtc_test_reads (Suc n) s = do { (r, s) \<leftarrow> rtc_read 0 0 0 s; rtc_test_reads n s }"

text \<open>\<open>current_freq\<close> is kept at \<open>ptr\<close>, where \<open>rtc_write\<close> reads it.\<close>

partial_function (option) rtc_test_freqs :: "u32 \<Rightarrow> u32 \<Rightarrow> 'a kernel_state_scheme \<Rightarrow> 'a kernel_state_scheme option" where
  "rtc_test_freqs ptr current_freq s =
     (if current_freq \<le> 512 then do {
        (r, s) \<leftarrow> rtc_write 0 ptr 0 (clear s);
        s \<leftarrow> rtc_test_reads (unat (current_freq * 1)) s;
        let current_freq = current_freq * 2;
        rtc_test_freqs ptr current_freq (s\<lparr>mem := store32 (mem s) ptr current_freq\<rparr>)
      }
      else Some s)"

definition rtc_open_write_read_close_test :: "u32 \<Rightarrow> 'a kernel_state_scheme \<Rightarrow> (i32 \<times> 'a kernel_state_scheme) option" where
  "rtc_open_write_read_close_test ptr s = do {
     s \<leftarrow> TEST_HEADER ''rtc_open_write_read_close_test'' 439 s;
     (r, s) \<leftarrow> rtc_open [] (clear s);
     s \<leftarrow> rtc_test_freqs ptr 1 (s\<lparr>mem := store32 (mem s) ptr 1\<rparr>);
     (r, s) \<leftarrow> rtc_close 0 (putc 10 s);
     Some (PASS, s)
   }"

section \<open>The terminal\<close>

text \<open>The letters of \<open>basic_test_write\<close>: the second test overwrites what the first one stored.\<close>

definition test_letter :: "nat \<Rightarrow> mem \<Rightarrow> u32 \<Rightarrow> mem" where
  "test_letter idx m buf =
     (let m = (if idx > 2000 then m(buf + of_nat idx := of_char CHR ''a'') else m)
      in if idx > 10 then m(buf + of_nat idx := of_char CHR ''b'') else m(buf + of_nat idx := of_char CHR ''f''))"

definition fill_letters :: "u32 \<Rightarrow> mem \<Rightarrow> mem" where
  "fill_letters buf m = fold (\<lambda>idx m. test_letter idx m buf) [0..<2300] m"

definition clear_buffers :: "u32 \<Rightarrow> u32 \<Rightarrow> mem \<Rightarrow> mem" where
  "clear_buffers read_buffer write_buffer m =
     fold (\<lambda>idx m. m(read_buffer + of_nat idx := 0, write_buffer + of_nat idx := 0)) [0..<2300] m"

definition test_terminal_round :: "u32 \<Rightarrow> u32 \<Rightarrow> u32 \<Rightarrow> 'a kernel_state_scheme \<Rightarrow> 'a kernel_state_scheme option" where
  "test_terminal_round read_buffer write_buffer nl s = do {
     let s = s\<lparr>mem := store_bytes (clear_buffers read_buffer write_buffer (mem s)) read_buffer (chars ''ECE391>'')\<rparr>;
     (r, s) \<leftarrow> terminal_write 0 read_buffer 7 s;
     (to_write, s) \<leftarrow> terminal_read 0 write_buffer (of_nat CHAR_BUFFER_SIZE) s;
     (r, s) \<leftarrow> terminal_write 0 write_buffer to_write s;
     (r, s) \<leftarrow> terminal_write 0 nl 1 s;
     Some s
   }"

partial_function (option) test_terminal_loop :: "u32 \<Rightarrow> u32 \<Rightarrow> u32 \<Rightarrow> 'a kernel_state_scheme \<Rightarrow> (i32 \<times> 'a kernel_state_scheme) option" where
  "test_terminal_loop read_buffer write_buffer nl s = do {
     s \<leftarrow> test_terminal_round read_buffer write_buffer nl s;
     test_terminal_loop read_buffer write_buffer nl s
   }"

definition test_terminal :: "u32 \<Rightarrow> u32 \<Rightarrow> u32 \<Rightarrow> u32 \<Rightarrow> 'a kernel_state_scheme \<Rightarrow> (i32 \<times> 'a kernel_state_scheme) option" where
  "test_terminal arr read_buffer write_buffer nl s = do {
     let s = s\<lparr>mem := (store_bytes (mem s) arr (chars ''ab''))(nl := 10)\<rparr>;
     (r, s) \<leftarrow> terminal_open [] s;
     test_terminal_loop read_buffer write_buffer nl (s\<lparr>mem := fill_letters write_buffer (mem s)\<rparr>)
   }"

section \<open>Reading through descriptor 0\<close>

text \<open>Whatever \<open>frame1.txt\<close> holds, the test reads the file of descriptor 0.\<close>

lemma terminated_say:
  assumes "m = mem s" "m (a + of_nat n) = 0"
  shows "\<exists>str t. string_at m a = Some str \<and> say (cstr ''%s'') [PStr str] s = Some t \<and> prints s t"
proof -
  obtain str where str: "string_at m a = Some str" "0 \<in> set str" using string_at_run assms(2) by blast
  have "render_text (cstr ''%s'') [PStr str] \<noteq> None" using str(2) by (simp add: cstr_def chars_def)
  then show ?thesis using say_run str(1) by blast
qed

theorem small_file_test:
  assumes "testable s" and "file_ok s k" and "entry_for (chars ''frame1.txt'') s = Some e" and "file_type e = FS_TYPE_FILE"
    and "has_fds s" and "get_fd 0 s = Some f" and "fd_inode f = k" and "buffer_apart s buf 300"
    and "unat (file_position f) < 4294966296"
  shows "\<exists>t. fs_read_small_file_test junk buf s = Some (if unat (file_position f) < inode_length s k then PASS else FAIL, t)"
proof -
  have name: "0 \<notin> set (chars ''frame1.txt'')" by (simp add: chars_def)
  have opn: "file_open junk (cstr ''frame1.txt'') s = Some (0, s)"
    using lookup_outcome [OF assms(1) name, of junk] assms(3,4) by (auto simp: file_open_def test_names(1))
  have rd: "\<exists>u. read_data k (file_position f) buf 300 s = Some (of_nat (min 300 (inode_length s k - unat (file_position f))), u)
      \<and> has_fds u \<and> get_fd 0 u = Some f"
  proof (cases "unat (file_position f) < inode_length s k")
    case True
    then have "buffer_apart s buf (read_count s k (unat (file_position f)) (unat (300 :: u32)))"
      using assms(8) by (auto simp: buffer_apart_def read_count_def)
    with read_data_run [OF assms(2) True, of 300 buf] assms(5,6,9) show ?thesis by (simp add: read_count_def)
  next
    case False
    with read_data_eof [OF assms(2), of "file_position f" buf 300] assms(5,6) show ?thesis by simp
  qed
  let ?n = "min 300 (inode_length s k - unat (file_position f))"
  obtain u where u: "read_data k (file_position f) buf 300 s = Some (of_nat ?n, u)" "has_fds u" "get_fd 0 u = Some f"
    using rd by blast
  obtain v where v: "upd_fd 0 (advance (of_nat ?n)) u = Some v" using upd_fd_run [OF u(2,3)] by force
  have run: "file_read 0 buf 300 s = Some (of_nat ?n, v)" using assms(6,7) u(1) v by (simp add: file_read_def)
  have zero: "(of_nat ?n :: u32) = 0 \<longleftrightarrow> \<not> unat (file_position f) < inode_length s k"
  proof -
    have "(of_nat m :: u32) = 0 \<longleftrightarrow> m = 0" if "m \<le> 300" for m using that by (simp add: word_unat_eq_iff unat_of_nat)
    from this [of ?n] show ?thesis by auto
  qed
  let ?w = "v\<lparr>mem := (mem v)(buf + of_nat ?n := 0)\<rparr>"
  obtain str t where "string_at (mem ?w) buf = Some str" "say (cstr ''%s'') [PStr str] ?w = Some t"
    using terminated_say [OF refl, of ?w buf ?n] by auto
  with opn run zero show ?thesis by (auto simp: fs_read_small_file_test_def file_close_def)
qed

text \<open>
  The listing test opens \<open>.\<close> and reads descriptor 0: when that is a directory descriptor at the
  beginning, it passes exactly on an image with 16 named entries.
\<close>

definition named :: "dentry list \<Rightarrow> nat" where
  "named es = length (filter (\<lambda>e. entry_name e \<noteq> []) es)"

lemma upd_fd_keeps:
  assumes "upd_fd fd g s = Some t" "has_fds s"
  shows "has_fds t" "fs_boot_block t = fs_boot_block s"
proof -
  show "has_fds t" using assms
    by (auto simp: upd_fd_def set_fd_def current_PCB_def set_PCB_def has_fds_def bind_eq_Some_conv poke_Some_iff nth_list_update peek_def)
  show "fs_boot_block t = fs_boot_block s" using upd_fd_frame [OF assms(1)] by simp
qed

lemma dir_read_frame:
  assumes "dir_read junk fd buf n s = Some (r, t)" "has_fds s"
  shows "has_fds t" "fs_boot_block t = fs_boot_block s"
proof -
  obtain g u where u: "upd_fd fd g u = Some t" "u = s \<or> (\<exists>m. u = s\<lparr>mem := m\<rparr>)"
    using assms(1) by (auto simp: dir_read_def Let_def case_prod_unfold bind_eq_Some_conv split: if_splits)
  have "has_fds u" "fs_boot_block u = fs_boot_block s" using u(2) assms(2) by auto
  then show "has_fds t" "fs_boot_block t = fs_boot_block s" using upd_fd_keeps [OF u(1)] by simp_all
qed

lemma list_one_run:
  assumes "has_fds s" "get_fd 0 s = Some f" "unat (file_position f) < 63" "file_ok s k"
    and "num_dir_entries s \<noteq> 0" "num_dir_entries s \<le> 63" "buffer_apart s buf 34"
  shows "\<exists>t. list_one junk 0 buf (c, s) = Some (c + of_nat (named (take 1 (drop (unat (file_position f)) (directory s)))), t)
    \<and> has_fds t \<and> get_fd 0 t = Some (advance 1 f) \<and> same_image s t"
proof -
  let ?i = "unat (file_position f)"
  have n: "unat (num_dir_entries s) \<le> 63" using assms(6) by (simp add: word_le_nat_alt)
  let ?e = "directory s ! ?i" and ?len = "length (directory s)"
  obtain t where t: "get_fd 0 t = Some (advance 1 f)" and cases:
    "if ?i < ?len then dir_read junk 0 buf 32 s = Some (of_nat (length (entry_name ?e)), t)
        \<and> mem t = store_bytes (mem s) buf (listed_name (file_name ?e))
     else dir_read junk 0 buf 32 s = Some (0, t) \<and> mem t = mem s"
    using dir_read_lists [OF assms(1,2) _ assms(5) n, of junk buf 32] unfolding Let_def by fastforce
  have "\<exists>r bs. dir_read junk 0 buf 32 s = Some (of_nat r, t) \<and> mem t = store_bytes (mem s) buf bs
      \<and> r \<le> 32 \<and> length bs \<le> 32 \<and> named (take 1 (drop ?i (directory s))) = (if r \<noteq> 0 then 1 else 0)"
  proof (cases "?i < ?len")
    case True
    then have e: "?e \<in> set (directory s)" by (rule nth_mem)
    have one: "take 1 (drop ?i (directory s)) = [?e]" using True by (simp add: take_Suc hd_drop_conv_nth)
    have "length (file_name ?e) = 32" using e by (auto simp: directory_def load_dentry_def MAX_FILENAME_LENGTH_def)
    then have "length (listed_name (file_name ?e)) \<le> 32" using length_listed_name [of "file_name ?e"] by simp
    moreover have "named [?e] = (if length (entry_name ?e) \<noteq> 0 then 1 else 0)" by (simp add: named_def)
    ultimately show ?thesis using cases True length_entry_name [OF e] unfolding one by auto
  next
    case False
    then show ?thesis using cases by (intro exI [of _ 0] exI [of _ "[]"]) (simp add: named_def)
  qed
  then obtain r bs where r: "dir_read junk 0 buf 32 s = Some (of_nat r, t)" "mem t = store_bytes (mem s) buf bs" "r \<le> 32"
    "length bs \<le> 32" "named (take 1 (drop ?i (directory s))) = (if r \<noteq> 0 then 1 else 0)" by blast
  note fr = dir_read_frame [OF r(1) assms(1)]
  let ?u = "t\<lparr>mem := (mem t)(buf + of_nat r := 10, buf + of_nat r + 1 := 0)\<rparr>"
  have "mem ?u x = mem s x" if x: "\<not> in_range x buf 34" for x
  proof -
    have "x \<noteq> buf + of_nat r" "x \<noteq> buf + of_nat (r + 1)"
      using x in_range_offset [of r 34 buf] in_range_offset [of "r + 1" 34 buf] r(3) by auto
    moreover from this have "x \<noteq> buf + of_nat r + 1" by (simp add: ac_simps)
    moreover have "\<not> in_range x buf (length bs)" using x r(4) in_range_mono [of x buf "length bs" 34] by auto
    ultimately show ?thesis by (simp add: r(2) store_bytes_def)
  qed
  then have sm: "same_image s ?u" by (intro same_image_gather [OF assms(7)]) (simp_all add: fr(2))
  have r0: "(of_nat r :: u32) = 0 \<longleftrightarrow> r = 0" using r(3) by (simp add: word_unat_eq_iff unat_of_nat)
  have "list_one junk 0 buf (c, s) = Some (if (of_nat r :: u32) \<noteq> 0 then c + 1 else c, ?u)"
    by (simp add: list_one_def r(1))
  then have "list_one junk 0 buf (c, s) = Some (c + of_nat (named (take 1 (drop ?i (directory s)))), ?u)"
    unfolding r(5) r0 by simp
  then show ?thesis using t fr(1) sm by (intro exI [of _ ?u]) simp
qed

lemma list_loop_run:
  assumes "has_fds s" "get_fd 0 s = Some f" "unat (file_position f) + n \<le> 63" "file_ok s k"
    and "num_dir_entries s \<noteq> 0" "num_dir_entries s \<le> 63" "buffer_apart s buf 34"
  shows "\<exists>t. loop_over [a..<a + n] (\<lambda>i. list_one junk 0 buf) (c, s)
    = Some (c + of_nat (named (take n (drop (unat (file_position f)) (directory s)))), t)"
  using assms
proof (induction n arbitrary: a c s f)
  case 0
  then show ?case by (simp add: named_def)
next
  case (Suc n)
  let ?i = "unat (file_position f)"
  have i: "?i < 63" using Suc.prems(3) by simp
  obtain t where t: "list_one junk 0 buf (c, s) = Some (c + of_nat (named (take 1 (drop ?i (directory s)))), t)"
    "has_fds t" "get_fd 0 t = Some (advance 1 f)" "same_image s t"
    using list_one_run [OF Suc.prems(1,2) i Suc.prems(4-7)] by blast
  note sm = same_image_file [OF t(4) Suc.prems(4)] and dir = same_image_directory [OF t(4) Suc.prems(4,6)]
  have pos: "unat (file_position (advance 1 f)) = ?i + 1"
    using i by (simp add: advance_def unat_add_small)
  have ap: "buffer_apart t buf 34" using Suc.prems(7) by (simp add: buffer_apart_def sm)
  have "\<exists>u. loop_over [Suc a..<Suc a + n] (\<lambda>i. list_one junk 0 buf) (c', t)
      = Some (c' + of_nat (named (take n (drop (unat (file_position (advance 1 f))) (directory t)))), u)" for c'
    by (rule Suc.IH [OF t(2,3) _ sm(7)]) (use Suc.prems(3,5,6) dir pos ap in simp_all)
  then obtain u where u: "loop_over [Suc a..<Suc a + n] (\<lambda>i. list_one junk 0 buf) (c + of_nat (named (take 1 (drop ?i (directory s)))), t)
      = Some (c + of_nat (named (take 1 (drop ?i (directory s)))) + of_nat (named (take n (drop (?i + 1) (directory s)))), u)"
    unfolding pos dir(3) by blast
  have "take (Suc n) (drop ?i es) = take 1 (drop ?i es) @ take n (drop (?i + 1) es)" for es :: "dentry list"
    by (simp add: take_add [of 1 n, simplified])
  then have "named (take (Suc n) (drop ?i (directory s))) = named (take 1 (drop ?i (directory s))) + named (take n (drop (?i + 1) (directory s)))"
    by (simp add: named_def)
  moreover have "[a..<a + Suc n] = a # [Suc a..<Suc a + n]" by (simp add: upt_conv_Cons)
  ultimately show ?case using t(1) u by (simp only: loop_over.simps bind.bind_lunit of_nat_add add.assoc) blast
qed

lemma touched_fds:
  assumes "touched s t"
  shows "has_fds t = has_fds s" "get_fd i t = get_fd i s" "io_dev t = io_dev s" "global_count t = global_count s"
  by (subst assms [unfolded touched_def], simp add: has_fds_def get_fd_def current_PCB_def)+

lemma named_le: "named es \<le> length es"
  by (simp add: named_def)

theorem directory_test:
  assumes "testable s" and "file_ok s k" and "entry_for (chars ''.'') s = Some e" and "file_type e = FS_TYPE_DIR"
    and "has_fds s" and "get_fd 0 s = Some f" and "file_position f = 0" and "num_dir_entries s \<noteq> 0" and "buffer_apart s buf 34"
  shows "\<exists>t. fs_read_directory_test junk buf s = Some (if named (directory s) = 16 then PASS else FAIL, t)"
proof -
  obtain t d where t: "TEST_HEADER ''fs_read_directory_test'' 344 s = Some t" "same_image s t"
    and d: "read_dentry_by_name (cstr ''.'') junk t = Some (0, e)"
    using header_lookup [OF assms(1,2), of "''fs_read_directory_test''" 344] test_names(7) assms(3) unfolding test_names(1) by force
  have tt: "touched s t" using header_run [of "''fs_read_directory_test''" 344 s] t(1) touched_prints by auto
  have fds: "has_fds t" "get_fd 0 t = Some f" using touched_fds [OF tt] assms(5,6) by simp_all
  have n: "num_dir_entries s \<le> 63" using assms(1) by (simp add: testable_def)
  note sm = same_image_file [OF t(2) assms(2)] and dir = same_image_directory [OF t(2) assms(2) n]
  have "buffer_apart t buf 34" using assms(9) by (simp add: buffer_apart_def sm)
  then obtain u where u: "loop_over [0..<0 + 63] (\<lambda>i. list_one junk 0 buf) (0, t) = Some (0 + of_nat (named (take 63 (drop 0 (directory t)))), u)"
    using list_loop_run [OF fds _ sm(7), where n = 63 and a = 0 and c = 0 and buf = buf and junk = junk] assms(7,8) n dir(1) by auto
  have len: "length (directory s) \<le> 63" using n by (simp add: word_le_nat_alt)
  then have "of_nat (named (take 63 (drop 0 (directory t)))) = (16 :: u8) \<longleftrightarrow> named (directory s) = 16"
    using named_le [of "directory s"] dir(3) by (simp add: word_unat_eq_iff unat_of_nat)
  moreover have "dir_open junk (cstr ''.'') t = Some (0, t)" using d assms(4) by (simp add: dir_open_def)
  ultimately show ?thesis using t(1) u by (auto simp: fs_read_directory_test_def dir_close_def)
qed

section \<open>Waiting for the clock\<close>

text \<open>What the clock's handler leaves: everything but memory, the port log and the tick counter.\<close>

lemma rtc_read_run:
  assumes "clock_ok (io_dev s)" "get_fd 0 s = Some f" "unat (global_count s) + unat (file_position f) < 4294967296"
  shows "\<exists>m log. rtc_read 0 0 0 s = Some (0, s\<lparr>mem := m, io_log := log, global_count := global_count s + file_position f\<rparr>)"
proof -
  have "unat (global_count s + file_position f) = unat (global_count s) + unat (file_position f)"
    using assms(3) by (simp add: unat_add_small)
  then have "max (global_count s + file_position f) (global_count s) = global_count s + file_position f"
    by (auto simp: max_def word_le_nat_alt unat_eq_0)
  then obtain m log where "rtc_wait (global_count s + file_position f) s
      = Some (s\<lparr>mem := m, io_log := log, global_count := global_count s + file_position f\<rparr>)"
    using rtc_wait_runs [OF assms(1), of "global_count s + file_position f"] by auto
  then show ?thesis using assms(2) by (intro exI [of _ m] exI [of _ log]) (simp add: rtc_read_def)
qed

lemma rtc_test_reads_run:
  assumes "clock_ok (io_dev s)" "get_fd 0 s = Some f" "unat (global_count s) + n * unat (file_position f) < 4294967296"
  shows "\<exists>m log g. rtc_test_reads n s = Some (s\<lparr>mem := m, io_log := log, global_count := g\<rparr>)
    \<and> unat g = unat (global_count s) + n * unat (file_position f)"
  using assms
proof (induction n arbitrary: s)
  case 0
  have "s = s\<lparr>mem := mem s, io_log := io_log s, global_count := global_count s\<rparr>" by simp
  then show ?case unfolding rtc_test_reads.simps by (metis add_0_right mult_0)
next
  case (Suc n)
  let ?p = "unat (file_position f)"
  obtain m log where r: "rtc_read 0 0 0 s = Some (0, s\<lparr>mem := m, io_log := log, global_count := global_count s + file_position f\<rparr>)"
    using rtc_read_run [OF Suc.prems(1,2)] Suc.prems(3) by auto
  let ?s = "s\<lparr>mem := m, io_log := log, global_count := global_count s + file_position f\<rparr>"
  have g: "unat (global_count ?s) = unat (global_count s) + ?p" using Suc.prems(3) by (simp add: unat_add_small)
  have "get_fd 0 ?s = Some f" using Suc.prems(2) by (simp add: get_fd_def current_PCB_def)
  then obtain m' log' g' where "rtc_test_reads n ?s = Some (?s\<lparr>mem := m', io_log := log', global_count := g'\<rparr>)"
    "unat g' = unat (global_count ?s) + n * ?p"
    using Suc.IH [of ?s] Suc.prems(1,3) g by auto
  then show ?case using r g by (intro exI [of _ m'] exI [of _ log'] exI [of _ g']) simp
qed

lemma upd_fd_shape: "upd_fd fd g s = Some t \<Longrightarrow> \<exists>P. t = s\<lparr>PCB := P\<rparr>"
  by (auto simp: upd_fd_def set_fd_def set_PCB_def bind_eq_Some_conv)

text \<open>The frequencies of the test: every one divides 512.\<close>

lemma test_frequencies:
  assumes "i < 10"
  shows "(2 ^ i :: u32) \<noteq> 0" "(2 ^ i :: u32) AND (2 ^ i - 1) = 0" "sint (2 ^ i :: u32) \<le> 512"
    "word_of_int (512 sdiv sint (2 ^ i :: u32)) = (2 ^ (9 - i) :: u32)"
    "unat (2 ^ i :: u32) * unat (2 ^ (9 - i) :: u32) = 512" "(2 ^ i :: u32) \<le> 512"
proof -
  have all: "\<forall>i\<in>set [0..<10]. (2 ^ i :: u32) \<noteq> 0 \<and> (2 ^ i :: u32) AND (2 ^ i - 1) = 0 \<and> sint (2 ^ i :: u32) \<le> 512
    \<and> word_of_int (512 sdiv sint (2 ^ i :: u32)) = (2 ^ (9 - i) :: u32)
    \<and> unat (2 ^ i :: u32) * unat (2 ^ (9 - i) :: u32) = 512 \<and> (2 ^ i :: u32) \<le> 512"
    by code_simp
  have i: "i \<in> set [0..<10]" using assms by simp
  show "(2 ^ i :: u32) \<noteq> 0" "(2 ^ i :: u32) AND (2 ^ i - 1) = 0" "sint (2 ^ i :: u32) \<le> 512"
    "word_of_int (512 sdiv sint (2 ^ i :: u32)) = (2 ^ (9 - i) :: u32)"
    "unat (2 ^ i :: u32) * unat (2 ^ (9 - i) :: u32) = 512" "(2 ^ i :: u32) \<le> 512"
    using bspec [OF all i] by blast+
qed

text \<open>Each frequency takes a second: 512 ticks, shared among its reads.\<close>

lemma rtc_test_freqs_run:
  assumes "j \<le> 10" "has_fds s" "clock_ok (io_dev s)" "off_screen ptr 4" "load32 (mem s) ptr = 2 ^ (10 - j)"
    "unat (global_count s) + j * 512 < 4294967296"
  shows "\<exists>t. rtc_test_freqs ptr (2 ^ (10 - j)) s = Some t \<and> has_fds t \<and> unat (global_count t) = unat (global_count s) + j * 512"
  using assms
proof (induction j arbitrary: s)
  case 0
  then show ?case by (subst rtc_test_freqs.simps) simp
next
  case (Suc j)
  let ?i = "9 - j"
  have i: "?i < 10" "10 - Suc j = ?i" "10 - j = Suc ?i" "9 - ?i = j" using Suc.prems(1) by auto
  note freq = test_frequencies [OF i(1)]
  have tc: "touched s (clear s)" by (rule touched_io) simp
  note tcf = touched_fds [OF tc]
  have mc: "load32 (mem (clear s)) ptr = 2 ^ ?i"
  proof -
    have "\<not> in_range (ptr + of_nat q) VIDEO 3840" if "q < 4" for q using Suc.prems(4) that by (simp add: off_screen_def)
    then have "mem (clear s) (ptr + of_nat q) = mem s (ptr + of_nat q)" if "q < 4" for q
      using clear_cells_frame that by (simp add: clear_def set_screen_position_def)
    then have "load32 (mem (clear s)) (ptr + of_nat 0) = load32 (mem s) (ptr + of_nat 0)"
      by (intro load32_cong_off) simp
    then show ?thesis using Suc.prems(5) i(2) by simp
  qed
  let ?g = "\<lambda>f :: file_array_t. f\<lparr>file_position := 2 ^ j\<rparr>"
  have hc: "has_fds (clear s)" using tcf(1) Suc.prems(2) by simp
  obtain f where f: "get_fd 0 (clear s) = Some f" using fds.get_ok [OF hc, of 0] by (auto simp: FILE_DESCRIPTOR_SIZE_def)
  obtain t where t: "upd_fd 0 ?g (clear s) = Some t" "has_fds t" "get_fd 0 t = Some (?g f)"
    using upd_fd_run [OF hc f, of ?g] by auto
  have w: "rtc_write 0 ptr 0 (clear s) = Some (0, t)"
    using freq t(1) mc i(4) by (simp add: rtc_write_def RTC_MAX_FREQ_def)
  obtain P where P: "t = (clear s)\<lparr>PCB := P\<rparr>" using upd_fd_shape [OF t(1)] by blast
  have tf: "clock_ok (io_dev t)" "global_count t = global_count s" using tcf Suc.prems(3) by (simp_all add: P)
  obtain m log g where r: "rtc_test_reads (unat (2 ^ ?i :: u32)) t = Some (t\<lparr>mem := m, io_log := log, global_count := g\<rparr>)"
    "unat g = unat (global_count s) + 512"
    using rtc_test_reads_run [OF tf(1) t(3), of "unat (2 ^ ?i :: u32)"] Suc.prems(6) freq(5) i(4) tf(2) by auto
  let ?u = "t\<lparr>io_log := log, global_count := g, mem := store32 m ptr (2 ^ (10 - j))\<rparr>"
  have "has_fds ?u" using t(2) by (simp add: has_fds_def)
  then obtain v where v: "rtc_test_freqs ptr (2 ^ (10 - j)) ?u = Some v" "has_fds v" "unat (global_count v) = unat g + j * 512"
    using Suc.IH [of ?u] Suc.prems(1,4,6) tf(1) r(2) by auto
  have "rtc_test_freqs ptr (2 ^ ?i) s = rtc_test_freqs ptr (2 ^ (10 - j)) ?u"
    using freq(6) w r(1) by (subst rtc_test_freqs.simps) (simp add: i(3) Let_def mult.commute)
  then show ?case using v r(2) by (simp add: i(2))
qed

text \<open>
  The clock's test takes exactly ten seconds, 512 ticks for each of its ten frequencies, passes, and
  leaves the descriptor cleared, when the tick counter does not wrap on the way.
\<close>

theorem clock_test:
  assumes "has_fds s" and "clock_ok (io_dev s)" and "off_screen ptr 4" and "unat (global_count s) + 5120 < 4294967296"
  shows "\<exists>t f. rtc_open_write_read_close_test ptr s = Some (PASS, t) \<and> unat (global_count t) = unat (global_count s) + 5120
    \<and> get_fd 0 t = Some f \<and> file_position f = 0"
proof -
  obtain t where t: "TEST_HEADER ''rtc_open_write_read_close_test'' 439 s = Some t" "touched s t"
    using header_run touched_prints by blast
  have tc: "touched s (clear t)" by (rule touched_io) (rule t(2))
  let ?c = "(clear t)\<lparr>mem := store32 (mem (clear t)) ptr 1\<rparr>"
  obtain u where u: "rtc_test_freqs ptr (2 ^ (10 - 10)) ?c = Some u" "has_fds u"
      "unat (global_count u) = unat (global_count ?c) + 10 * 512"
    using rtc_test_freqs_run [of 10 ?c ptr] touched_fds [OF tc] assms by auto
  have tp: "touched u (putc 10 u)" by (rule touched_io) simp
  have hp: "has_fds (putc 10 u)" using touched_fds(1) [OF tp] u(2) by simp
  obtain f where f: "get_fd 0 (putc 10 u) = Some f" using fds.get_ok [OF hp, of 0] by (auto simp: FILE_DESCRIPTOR_SIZE_def)
  let ?g = "\<lambda>f :: file_array_t. f\<lparr>file_position := 0\<rparr>"
  obtain v where v: "upd_fd 0 ?g (putc 10 u) = Some v" "get_fd 0 v = Some (?g f)" using upd_fd_run [OF hp f, of ?g] by auto
  obtain P where "v = (putc 10 u)\<lparr>PCB := P\<rparr>" using upd_fd_shape [OF v(1)] by blast
  then have "global_count v = global_count u" using touched_fds(4) [OF tp] by simp
  moreover have "rtc_open_write_read_close_test ptr s = Some (PASS, v)"
    using t(1) u(1) v(1) by (simp add: rtc_open_write_read_close_test_def rtc_open_def rtc_close_def)
  ultimately show ?thesis using u(3) v(2) touched_fds(4) [OF tc] by auto
qed

section \<open>The endless test\<close>

text \<open>The letter \<open>a\<close> never stays in the buffer.\<close>

lemma test_letter_stores:
  "test_letter idx m buf = m(buf + of_nat idx := (if idx > 10 then of_char CHR ''b'' else of_char CHR ''f''))"
  by (simp add: test_letter_def Let_def)

text \<open>A round that ends leaves the processes as the scheduler needs them; the loop itself never returns.\<close>

lemma round_well_formed:
  assumes "test_terminal_round read_buffer write_buffer nl s = Some t" and "well_formed s"
  shows "well_formed t"
proof -
  have memory: "well_formed (s\<lparr>mem := m\<rparr>)" for m
    by (rule same_tables_well_formed [OF _ assms(2)]) (simp add: same_tables_def)
  obtain m u v w a b c d where steps: "terminal_write 0 read_buffer 7 (s\<lparr>mem := m\<rparr>) = Some (a, u)"
    "terminal_read 0 write_buffer (of_nat CHAR_BUFFER_SIZE) u = Some (b, v)"
    "terminal_write 0 write_buffer b v = Some (c, w)" "terminal_write 0 nl 1 w = Some (d, t)"
    using assms(1) by (auto simp: test_terminal_round_def Let_def bind_eq_Some_conv)
  have "well_formed u" by (rule terminal_well_formed(1) [OF memory steps(1)])
  then have "well_formed v" by (rule terminal_read_well_formed [OF steps(2)])
  then have "well_formed w" by (rule terminal_well_formed(1) [OF _ steps(3)])
  then show ?thesis by (rule terminal_well_formed(1) [OF _ steps(4)])
qed

theorem test_terminal_endless: "test_terminal arr read_buffer write_buffer nl s = None"
proof -
  have "False" if "test_terminal_loop read_buffer write_buffer nl s = Some r" for s r
    using that by (induction rule: test_terminal_loop.raw_induct [rotated 1, consumes 1]) (auto simp: bind_eq_Some_conv)
  then show ?thesis by (cases "test_terminal arr read_buffer write_buffer nl s") (auto simp: test_terminal_def bind_eq_Some_conv)
qed

end
